(* ===== verification/PyBase.thy ===== *)
theory PyBase
  imports Main "HOL-Library.Char_ord"
begin

text \<open>
  What every component shares: the exceptions the program raises and catches,
  the result type of code that may raise, the loops of Python over such code
  (\<open>any\<close>, \<open>all\<close>, \<open>for\<close> with an accumulator), and insertion-ordered dictionaries.
  An exception is a value: \<open>Inl e\<close> is "the call raised \<open>e\<close>", \<open>Inr v\<close> is "the call
  returned \<open>v\<close>". The lemmas in the collection \<open>res_simps\<close> unfold the loops; the
  splitting and congruence rules let the function package see through them.
\<close>

named_theorems res_simps "unfolding rules of the loops over code that may raise"
named_theorems dict_simps "lookup rules of insertion-ordered dictionaries"

section \<open>Exceptions and results\<close>

text \<open>
  The exception classes the sources name, and \<open>OtherError\<close> for what a library
  raises (its class name is kept). The message is \<open>str(exc)\<close>.
\<close>

datatype exn_class =
    ValueError
  | KeyError
  | TypeError
  | RuntimeError
  | RecursionError
  | ZipBombError
  | MaxDepthError
  | MaxSizeError
  | MaxFilesError
  | PathTraversalError
  | OtherError string

datatype exn = Exn (exn_cls: exn_class) (exn_str: string)

type_synonym 'a res = "exn + 'a"

fun is_ok :: "'a res \<Rightarrow> bool" where
  "is_ok (Inr _) = True"
| "is_ok (Inl _) = False"

fun rbind :: "'a res \<Rightarrow> ('a \<Rightarrow> 'b res) \<Rightarrow> 'b res" where
  "rbind (Inl e) f = Inl e"
| "rbind (Inr x) f = f x"

lemma rbind_Inr_iff: "rbind m f = Inr y \<longleftrightarrow> (\<exists>x. m = Inr x \<and> f x = Inr y)"
  by (cases m) auto

lemma rbind_Inl_iff: "rbind m f = Inl e \<longleftrightarrow> m = Inl e \<or> (\<exists>x. m = Inr x \<and> f x = Inl e)"
  by (cases m) auto

lemma rbind_cong [fundef_cong]:
  "m = m' \<Longrightarrow> (\<And>x. m' = Inr x \<Longrightarrow> f x = g x) \<Longrightarrow> rbind m f = rbind m' g"
  by (cases m') auto

section \<open>Loops over code that may raise\<close>

text \<open>\<open>any(p(x) for x in xs)\<close>: stops at the first true element, or at the first raise.\<close>

fun any_res :: "('a \<Rightarrow> bool res) \<Rightarrow> 'a list \<Rightarrow> bool res" where
  "any_res p [] = Inr False"
| "any_res p (x # xs) =
     (case p x of Inl e \<Rightarrow> Inl e | Inr b \<Rightarrow> if b then Inr True else any_res p xs)"

text \<open>A comprehension \<open>[f(x) for x in xs]\<close> whose body may raise.\<close>

fun map_res :: "('a \<Rightarrow> 'b res) \<Rightarrow> 'a list \<Rightarrow> 'b list res" where
  "map_res f [] = Inr []"
| "map_res f (x # xs) =
     (case f x of Inl e \<Rightarrow> Inl e
      | Inr y \<Rightarrow> (case map_res f xs of Inl e \<Rightarrow> Inl e | Inr ys \<Rightarrow> Inr (y # ys)))"

text \<open>A \<open>for\<close> loop with an accumulator; the first raise leaves the loop.\<close>

fun fold_res :: "('a \<Rightarrow> 's \<Rightarrow> 's res) \<Rightarrow> 'a list \<Rightarrow> 's \<Rightarrow> 's res" where
  "fold_res f [] s = Inr s"
| "fold_res f (x # xs) s = (case f x s of Inl e \<Rightarrow> Inl e | Inr s' \<Rightarrow> fold_res f xs s')"

text \<open>A loop \<open>for x in xs: out.extend(g(x))\<close> whose body may raise.\<close>

fun extend_res :: "('a \<Rightarrow> 'b list res) \<Rightarrow> 'a list \<Rightarrow> 'b list res" where
  "extend_res g [] = Inr []"
| "extend_res g (x # xs) =
     (case g x of Inl e \<Rightarrow> Inl e
      | Inr ys \<Rightarrow> (case extend_res g xs of Inl e \<Rightarrow> Inl e | Inr zs \<Rightarrow> Inr (ys @ zs)))"

lemma concat_map_memI: "x \<in> set xs \<Longrightarrow> y \<in> set (g x) \<Longrightarrow> y \<in> set (concat (map g xs))"
  by auto

lemma extend_res_pure [res_simps]: "extend_res (\<lambda>x. Inr (g x)) xs = Inr (concat (map g xs))"
  by (induction xs) auto

lemma extend_res_mem:
  "extend_res g xs = Inr zs \<Longrightarrow> z \<in> set zs \<longleftrightarrow> (\<exists>x \<in> set xs. \<exists>ys. g x = Inr ys \<and> z \<in> set ys)"
  by (induction xs arbitrary: zs) (auto split: sum.splits)

lemma extend_res_bind_mem:
  "extend_res (\<lambda>x. rbind (f x) (\<lambda>y. Inr (h x y))) xs = Inr zs \<Longrightarrow>
   z \<in> set zs \<longleftrightarrow> (\<exists>x \<in> set xs. \<exists>y. f x = Inr y \<and> z \<in> set (h x y))"
  by (subst extend_res_mem, assumption) (auto simp: rbind_Inr_iff)

lemma extend_res_eq:
  "extend_res g xs = Inr zs \<Longrightarrow> (\<And>x ys. x \<in> set xs \<Longrightarrow> g x = Inr ys \<Longrightarrow> ys = h x) \<Longrightarrow>
   zs = concat (map h xs)"
  by (induction xs arbitrary: zs) (auto split: sum.splits)

lemma extend_res_raises: "\<not> is_ok (extend_res g xs) \<longleftrightarrow> (\<exists>x \<in> set xs. \<not> is_ok (g x))"
  by (induction xs) (auto split: sum.splits)

lemma extend_res_cong [fundef_cong]:
  "xs = ys \<Longrightarrow> (\<And>x. x \<in> set ys \<Longrightarrow> f x = g x) \<Longrightarrow> extend_res f xs = extend_res g ys"
proof (induction ys arbitrary: xs)
  case (Cons y ys)
  then have "f y = g y" "extend_res f ys = extend_res g ys" by simp_all
  then show ?case using Cons.prems(1) by (simp split: sum.split)
qed simp

lemma is_ok_iff: "is_ok r \<longleftrightarrow> (\<exists>v. r = Inr v)"
  by (cases r) auto

lemma not_is_ok_iff: "\<not> is_ok r \<longleftrightarrow> (\<exists>e. r = Inl e)"
  by (cases r) auto

lemma any_res_pure [res_simps]: "any_res (\<lambda>x. Inr (p x)) xs = Inr (\<exists>x \<in> set xs. p x)"
  by (induction xs) auto

lemma any_res_True:
  "any_res p xs = Inr True \<Longrightarrow> \<exists>x \<in> set xs. p x = Inr True"
  by (induction xs) (auto split: sum.splits if_splits)

lemma any_res_False: "any_res p xs = Inr False \<longleftrightarrow> (\<forall>x \<in> set xs. p x = Inr False)"
  by (induction xs) (auto split: sum.splits if_splits)

lemma map_res_pure [res_simps]: "map_res (\<lambda>x. Inr (f x)) xs = Inr (map f xs)"
  by (induction xs) auto

lemma map_res_mem: "map_res f xs = Inr ys \<Longrightarrow> x \<in> set xs \<Longrightarrow> \<exists>y \<in> set ys. f x = Inr y"
  by (induction xs arbitrary: ys) (auto split: sum.splits)

lemma map_res_total_rel:
  "(\<And>x. x \<in> set xs \<Longrightarrow> \<exists>y. f x = Inr y \<and> P x y) \<Longrightarrow> \<exists>ys. map_res f xs = Inr ys \<and> list_all2 P xs ys"
  by (induction xs) fastforce+

lemma map_res_total: "(\<And>x. x \<in> set xs \<Longrightarrow> \<exists>y. f x = Inr y) \<Longrightarrow> \<exists>ys. map_res f xs = Inr ys"
  using map_res_total_rel [of xs f "\<lambda>_ _. True"] by blast

lemma map_res_Inr: "map_res f xs = Inr ys \<longleftrightarrow> list_all2 (\<lambda>x y. f x = Inr y) xs ys"
proof (induction xs arbitrary: ys)
  case Nil
  then show ?case by auto
next
  case (Cons x xs)
  show ?case
  proof (cases ys)
    case Nil
    then show ?thesis by (auto split: sum.splits)
  next
    case (Cons y ys')
    then show ?thesis using Cons.IH [of ys'] by (cases "map_res f xs") (auto split: sum.splits)
  qed
qed

lemma fold_res_pure [res_simps]: "fold_res (\<lambda>x s. Inr (f x s)) xs s = Inr (fold f xs s)"
  by (induction xs arbitrary: s) auto

lemma fold_res_append:
  "fold_res f (xs @ ys) s = rbind (fold_res f xs s) (fold_res f ys)"
  by (induction xs arbitrary: s) (auto split: sum.splits)

lemma fold_res_invariant:
  "fold_res f xs s = Inr t \<Longrightarrow> P s \<Longrightarrow> (\<And>x u v. x \<in> set xs \<Longrightarrow> P u \<Longrightarrow> f x u = Inr v \<Longrightarrow> P v)
   \<Longrightarrow> P t"
proof (induction xs arbitrary: s)
  case (Cons x xs)
  from Cons.prems(1) obtain u where u: "f x s = Inr u" "fold_res f xs u = Inr t"
    by (auto split: sum.splits)
  have "P u" using Cons.prems(2,3) u(1) by (meson list.set_intros(1))
  then show ?case using Cons.IH [OF u(2)] Cons.prems(3) by (meson list.set_intros(2))
qed simp

section \<open>Code that changes a state and may raise\<close>

text \<open>
  Where a call changes an object before it raises, the change stays: such code returns the
  exception, if any, together with the state it leaves.
\<close>

type_synonym 's proc = "'s \<Rightarrow> exn option \<times> 's"

definition seq_proc :: "'s proc \<Rightarrow> 's proc \<Rightarrow> 's proc" where
  "seq_proc f g s = (case f s of (None, s') \<Rightarrow> g s' | (Some e, s') \<Rightarrow> (Some e, s'))"

definition pure_proc :: "('s \<Rightarrow> 's) \<Rightarrow> 's proc" where
  "pure_proc f s = (None, f s)"

definition raise_proc :: "exn \<Rightarrow> 's proc" where
  "raise_proc e s = (Some e, s)"

text \<open>Use a value that may raise; \<open>with_res r f\<close> continues with \<open>f\<close> on the value.\<close>

definition with_res :: "'a res \<Rightarrow> ('a \<Rightarrow> 's proc) \<Rightarrow> 's proc" where
  "with_res r f s = (case r of Inl e \<Rightarrow> (Some e, s) | Inr x \<Rightarrow> f x s)"

fun for_proc :: "('a \<Rightarrow> 's proc) \<Rightarrow> 'a list \<Rightarrow> 's proc" where
  "for_proc f [] s = (None, s)"
| "for_proc f (x # xs) s = (case f x s of (None, s') \<Rightarrow> for_proc f xs s' | (Some e, s') \<Rightarrow> (Some e, s'))"

text \<open>A property of the state that every piece of such code keeps, raising or not.\<close>

definition keeps :: "('s \<Rightarrow> bool) \<Rightarrow> 's proc \<Rightarrow> bool" where
  "keeps P f \<longleftrightarrow> (\<forall>s. P s \<longrightarrow> P (snd (f s)))"

named_theorems keeps_intros "composition rules for kept properties"

lemma keepsD: "keeps P f \<Longrightarrow> P s \<Longrightarrow> P (snd (f s))"
  by (simp add: keeps_def)

lemma keeps_seq [keeps_intros]: "keeps P f \<Longrightarrow> keeps P g \<Longrightarrow> keeps P (seq_proc f g)"
  by (force simp: keeps_def seq_proc_def split: prod.split option.split)

lemma keeps_pure [keeps_intros]: "(\<And>s. P s \<Longrightarrow> P (f s)) \<Longrightarrow> keeps P (pure_proc f)"
  by (simp add: keeps_def pure_proc_def)

lemma keeps_raise [keeps_intros]: "keeps P (raise_proc e)"
  by (simp add: keeps_def raise_proc_def)

lemma keeps_with_res [keeps_intros]: "(\<And>x. r = Inr x \<Longrightarrow> keeps P (f x)) \<Longrightarrow> keeps P (with_res r f)"
  by (cases r) (simp_all add: keeps_def with_res_def)

lemma keeps_if [keeps_intros]:
  "(b \<Longrightarrow> keeps P f) \<Longrightarrow> (\<not> b \<Longrightarrow> keeps P g) \<Longrightarrow> keeps P (if b then f else g)"
  by simp

lemma keeps_for [keeps_intros]:
  "(\<And>x. x \<in> set xs \<Longrightarrow> keeps P (f x)) \<Longrightarrow> keeps P (for_proc f xs)"
proof (induction xs)
  case Nil
  then show ?case by (simp add: keeps_def)
next
  case (Cons x xs)
  have "keeps P (f x)" "keeps P (for_proc f xs)" using Cons by simp_all
  then show ?case by (force simp: keeps_def split: prod.split option.split)
qed

text \<open>
  Partial pre- and postconditions: from a state with \<open>P\<close> the code ends in one with \<open>Q\<close>, or
  raises in one with \<open>E\<close>.
\<close>

definition triple :: "('s \<Rightarrow> bool) \<Rightarrow> 's proc \<Rightarrow> ('s \<Rightarrow> bool) \<Rightarrow> ('s \<Rightarrow> bool) \<Rightarrow> bool" where
  "triple P f Q E \<longleftrightarrow> (\<forall>s. P s \<longrightarrow> (case f s of (None, s') \<Rightarrow> Q s' | (Some _, s') \<Rightarrow> E s'))"

lemma tripleI:
  "(\<And>s s'. P s \<Longrightarrow> f s = (None, s') \<Longrightarrow> Q s') \<Longrightarrow> (\<And>s s' e. P s \<Longrightarrow> f s = (Some e, s') \<Longrightarrow> E s') \<Longrightarrow>
   triple P f Q E"
  by (simp add: triple_def split: prod.split option.split)

lemma tripleD: "triple P f Q E \<Longrightarrow> P s \<Longrightarrow> (case f s of (None, s') \<Rightarrow> Q s' | (Some _, s') \<Rightarrow> E s')"
  by (simp add: triple_def)

lemma triple_seq: "triple P f Q E \<Longrightarrow> triple Q g R E \<Longrightarrow> triple P (seq_proc f g) R E"
  by (fastforce simp: triple_def seq_proc_def split: prod.splits option.splits)

lemma triple_with_res:
  "(\<And>x. r = Inr x \<Longrightarrow> triple P (f x) Q E) \<Longrightarrow> (\<And>s. P s \<Longrightarrow> E s) \<Longrightarrow> triple P (with_res r f) Q E"
  by (cases r) (simp_all add: triple_def with_res_def)

lemma triple_pure: "(\<And>s. P s \<Longrightarrow> Q (f s)) \<Longrightarrow> triple P (pure_proc f) Q E"
  by (simp add: triple_def pure_proc_def)

lemma triple_raise: "(\<And>s. P s \<Longrightarrow> E s) \<Longrightarrow> triple P (raise_proc e) Q E"
  by (simp add: triple_def raise_proc_def)

lemma triple_weaken:
  "triple P f Q E \<Longrightarrow> (\<And>s. P' s \<Longrightarrow> P s) \<Longrightarrow> (\<And>s. Q s \<Longrightarrow> Q' s) \<Longrightarrow> triple P' f Q' E"
  by (fastforce simp: triple_def split: prod.splits option.splits)

lemma triple_for: "(\<And>x. x \<in> set xs \<Longrightarrow> triple P (f x) P E) \<Longrightarrow> triple P (for_proc f xs) P E"
proof (induction xs)
  case Nil
  then show ?case by (simp add: triple_def)
next
  case (Cons x xs)
  have x: "triple P (f x) P E" and xs: "triple P (for_proc f xs) P E" using Cons by simp_all
  show ?case
    using x xs by (fastforce simp: triple_def split: prod.splits option.splits)
qed

lemma for_proc_cong [fundef_cong]:
  "xs = ys \<Longrightarrow> s = t \<Longrightarrow> (\<And>x u. x \<in> set ys \<Longrightarrow> f x u = g x u) \<Longrightarrow> for_proc f xs s = for_proc g ys t"
proof (induction ys arbitrary: xs s t)
  case (Cons y ys)
  have "f y t = g y t" using Cons.prems(3) by simp
  moreover have "for_proc f ys u = for_proc g ys u" for u using Cons.IH Cons.prems(3) by simp
  ultimately show ?case using Cons.prems(1,2) by (simp split: prod.split option.split)
qed simp

section \<open>Dictionaries\<close>

text \<open>
  A Python dictionary keeps its keys in insertion order: an association list with
  distinct keys. \<open>dict_set\<close> overwrites in place or appends at the end, as
  \<open>d[k] = v\<close> does; \<open>map_of\<close> is \<open>d.get(k)\<close>.
\<close>

fun dict_set :: "('k \<times> 'v) list \<Rightarrow> 'k \<Rightarrow> 'v \<Rightarrow> ('k \<times> 'v) list" where
  "dict_set [] k v = [(k, v)]"
| "dict_set ((k', v') # d) k v = (if k' = k then (k, v) # d else (k', v') # dict_set d k v)"

definition dict_get :: "('k \<times> 'v) list \<Rightarrow> 'k \<Rightarrow> 'v \<Rightarrow> 'v" where
  "dict_get d k v = (case map_of d k of Some x \<Rightarrow> x | None \<Rightarrow> v)"

definition dict_del :: "('k \<times> 'v) list \<Rightarrow> 'k \<Rightarrow> ('k \<times> 'v) list" where
  "dict_del d k = filter (\<lambda>p. fst p \<noteq> k) d"

definition dict_update :: "('k \<times> 'v) list \<Rightarrow> ('k \<times> 'v) list \<Rightarrow> ('k \<times> 'v) list" where
  "dict_update d e = fold (\<lambda>(k, v) acc. dict_set acc k v) e d"

lemma map_of_dict_set [dict_simps, simp]: "map_of (dict_set d k v) = (map_of d)(k \<mapsto> v)"
  by (induction d) (auto simp: fun_eq_iff)

lemma keys_dict_set: "fst ` set (dict_set d k v) = insert k (fst ` set d)"
  by (induction d k v rule: dict_set.induct) auto

lemma distinct_dict_set [intro]:
  "distinct (map fst d) \<Longrightarrow> distinct (map fst (dict_set d k v))"
  by (induction d k v rule: dict_set.induct) (auto simp: keys_dict_set)

lemma map_of_dict_del [dict_simps, simp]: "map_of (dict_del d k) = (map_of d)(k := None)"
  by (induction d) (auto simp: dict_del_def fun_eq_iff)

lemma distinct_dict_del [intro]:
  "distinct (map fst d) \<Longrightarrow> distinct (map fst (dict_del d k))"
  by (induction d) (auto simp: dict_del_def)

lemma set_dict_del: "set (dict_del d k) = {p \<in> set d. fst p \<noteq> k}"
  by (auto simp: dict_del_def)

lemma map_of_dict_update [dict_simps]:
  "map_of (dict_update d e) = map_of d ++ map_of (rev e)"
proof (induction e arbitrary: d)
  case Nil
  then show ?case by (simp add: dict_update_def)
next
  case (Cons p e)
  obtain k v where [simp]: "p = (k, v)" by (cases p)
  have "dict_update d (p # e) = dict_update (dict_set d k v) e"
    by (simp add: dict_update_def)
  then show ?case by (simp add: Cons.IH map_add_def fun_eq_iff split: option.splits)
qed

lemma dict_set_in_set:
  "distinct (map fst d) \<Longrightarrow> p \<in> set (dict_set d k v) \<longleftrightarrow> p = (k, v) \<or> (p \<in> set d \<and> fst p \<noteq> k)"
proof (induction d k v rule: dict_set.induct)
  case (2 k' v' d k v)
  then show ?case by (cases p) (auto simp: image_iff)
qed auto

end
