(* ===== verification/PyText.thy ===== *)
theory PyText
  imports PyBase "HOL-Library.Word"
begin

text \<open>
  The string operations of Python that the sources use. A text is a HOL \<open>string\<close>; a
  \<open>char\<close> stands for the code point of its number, so the texts of the model are those
  over the code points 0 to 255 (Latin-1), and every character class below is Python's
  class (\<open>str.isdigit\<close>, \<open>str.isalpha\<close>, the regular expressions' \<open>\s\<close>, \<open>\d\<close>, \<open>\w\<close>) on
  exactly that range. In particular the superscripts 178, 179 and 185 are digits for
  \<open>str.isdigit\<close> but no digits for \<open>int\<close>, which is where some validators raise.
  The lemmas give what the components use: split and join are inverse, what a slice or
  a suffix is, printing and reading a number is a round trip.
\<close>

section \<open>Characters\<close>

definition code :: "char \<Rightarrow> nat" where
  "code c = of_char c"

lemma code_less [simp]: "code c < 256"
  by (simp add: code_def)

lemma code_inject [simp]: "code c = code d \<longleftrightarrow> c = d"
  by (simp add: code_def)

definition is_decimal :: "char \<Rightarrow> bool" where
  "is_decimal c \<longleftrightarrow> 48 \<le> code c \<and> code c \<le> 57"

definition is_digit :: "char \<Rightarrow> bool" where
  "is_digit c \<longleftrightarrow> is_decimal c \<or> code c \<in> {178, 179, 185}"

definition is_alpha :: "char \<Rightarrow> bool" where
  "is_alpha c \<longleftrightarrow>
     (let n = code c in
      (65 \<le> n \<and> n \<le> 90) \<or> (97 \<le> n \<and> n \<le> 122) \<or> n \<in> {170, 181, 186} \<or>
      (192 \<le> n \<and> n \<le> 214) \<or> (216 \<le> n \<and> n \<le> 246) \<or> 248 \<le> n)"

definition is_word_char :: "char \<Rightarrow> bool" where
  "is_word_char c \<longleftrightarrow>
     is_alpha c \<or> is_digit c \<or> code c \<in> {188, 189, 190} \<or> c = CHR ''_''"

definition is_space :: "char \<Rightarrow> bool" where
  "is_space c \<longleftrightarrow>
     (let n = code c in (9 \<le> n \<and> n \<le> 13) \<or> (28 \<le> n \<and> n \<le> 32) \<or> n = 133 \<or> n = 160)"

definition is_printable :: "char \<Rightarrow> bool" where
  "is_printable c \<longleftrightarrow>
     (let n = code c in (32 \<le> n \<and> n \<le> 126) \<or> (161 \<le> n \<and> n \<noteq> 173))"

text \<open>\<open>str.lower\<close> maps every character of the range to one of the range.\<close>

definition lower_char :: "char \<Rightarrow> char" where
  "lower_char c =
     (let n = code c in
      if (65 \<le> n \<and> n \<le> 90) \<or> (192 \<le> n \<and> n \<le> 222 \<and> n \<noteq> 215) then char_of (n + 32) else c)"

definition lower :: "string \<Rightarrow> string" where
  "lower s = map lower_char s"

text \<open>
  \<open>str.upper\<close> leaves the range for two characters (181 and 255) and doubles one (223), so
  its result is a list of code points.
\<close>

definition upper_codes :: "char \<Rightarrow> nat list" where
  "upper_codes c =
     (let n = code c in
      if n = 181 then [924] else if n = 255 then [376] else if n = 223 then [83, 83]
      else if (97 \<le> n \<and> n \<le> 122) \<or> (224 \<le> n \<and> n \<le> 254 \<and> n \<noteq> 247) then [n - 32]
      else [n])"

definition upper :: "string \<Rightarrow> nat list" where
  "upper s = concat (map upper_codes s)"

lemma length_lower [simp]: "length (lower s) = length s"
  by (simp add: lower_def)

lemma lower_append [simp]: "lower (s @ t) = lower s @ lower t"
  by (simp add: lower_def)

lemma lower_take: "take n (lower s) = lower (take n s)"
  by (simp add: lower_def take_map)

lemma lower_drop: "drop n (lower s) = lower (drop n s)"
  by (simp add: lower_def drop_map)

lemma code_char_of [simp]: "n < 256 \<Longrightarrow> code (char_of n) = n"
  by (simp add: code_def)

lemma lower_char_idem [simp]: "lower_char (lower_char c) = lower_char c"
proof -
  have "n + 32 < 256" if "n \<le> 222" for n :: nat using that by simp
  then show ?thesis by (auto simp: lower_char_def Let_def)
qed

lemma lower_idem [simp]: "lower (lower s) = lower s"
  by (simp add: lower_def)

lemma is_decimal_is_digit: "is_decimal c \<Longrightarrow> is_digit c"
  by (simp add: is_digit_def)

lemma is_space_not_word: "is_space c \<Longrightarrow> \<not> is_word_char c"
  by (auto simp: is_space_def is_word_char_def is_alpha_def is_digit_def is_decimal_def Let_def
      code_def)

section \<open>Stripping, splitting, slicing\<close>

definition lstrip :: "string \<Rightarrow> string" where
  "lstrip s = dropWhile is_space s"

definition rstrip :: "string \<Rightarrow> string" where
  "rstrip s = rev (dropWhile is_space (rev s))"

definition strip :: "string \<Rightarrow> string" where
  "strip s = rstrip (lstrip s)"

definition starts_with :: "'a list \<Rightarrow> 'a list \<Rightarrow> bool" where
  "starts_with s p \<longleftrightarrow> take (length p) s = p"

definition ends_with :: "'a list \<Rightarrow> 'a list \<Rightarrow> bool" where
  "ends_with s p \<longleftrightarrow> length p \<le> length s \<and> drop (length s - length p) s = p"

text \<open>\<open>sub in s\<close> for strings.\<close>

fun contains :: "'a list \<Rightarrow> 'a list \<Rightarrow> bool" where
  "contains sub [] \<longleftrightarrow> sub = []"
| "contains sub (c # cs) \<longleftrightarrow> starts_with (c # cs) sub \<or> contains sub cs"

lemma contains_iff: "contains sub s \<longleftrightarrow> (\<exists>us vs. s = us @ sub @ vs)"
proof (induction s)
  case (Cons c cs)
  have "starts_with (c # cs) sub \<longleftrightarrow> (\<exists>vs. c # cs = sub @ vs)"
    by (auto simp: starts_with_def) (metis append_take_drop_id)
  then show ?case using Cons.IH by (auto simp: Cons_eq_append_conv)
qed simp

text \<open>\<open>s[a:b]\<close> for bounds that are not negative.\<close>

definition slice :: "'a list \<Rightarrow> nat \<Rightarrow> nat \<Rightarrow> 'a list" where
  "slice s a b = take (b - a) (drop a s)"

text \<open>\<open>s[a:b]\<close> for any integer bounds: a negative bound counts from the end.\<close>

definition slice_bound :: "nat \<Rightarrow> int \<Rightarrow> nat" where
  "slice_bound n i = (if i < 0 then nat (max 0 (int n + i)) else min n (nat i))"

definition py_slice :: "'a list \<Rightarrow> int \<Rightarrow> int \<Rightarrow> 'a list" where
  "py_slice s a b = slice s (slice_bound (length s) a) (slice_bound (length s) b)"

text \<open>\<open>s.split(c)\<close> for one character, and \<open>sep.join(parts)\<close>.\<close>

fun split_on :: "'a \<Rightarrow> 'a list \<Rightarrow> 'a list list" where
  "split_on c [] = [[]]"
| "split_on c (x # xs) =
     (if x = c then [] # split_on c xs
      else (case split_on c xs of [] \<Rightarrow> [[x]] | p # ps \<Rightarrow> (x # p) # ps))"

fun join :: "'a list \<Rightarrow> 'a list list \<Rightarrow> 'a list" where
  "join sep [] = []"
| "join sep [p] = p"
| "join sep (p # q # ps) = p @ sep @ join sep (q # ps)"

text \<open>
  \<open>s.split(c, 1)[1]\<close> and the two halves of \<open>s.rsplit(c, 1)\<close>, for a character that
  occurs in \<open>s\<close>.
\<close>

definition after_first :: "'a \<Rightarrow> 'a list \<Rightarrow> 'a list" where
  "after_first c s = tl (dropWhile (\<lambda>x. x \<noteq> c) s)"

definition before_last :: "'a \<Rightarrow> 'a list \<Rightarrow> 'a list" where
  "before_last c s = rev (tl (dropWhile (\<lambda>x. x \<noteq> c) (rev s)))"

definition after_last :: "'a \<Rightarrow> 'a list \<Rightarrow> 'a list" where
  "after_last c s = rev (takeWhile (\<lambda>x. x \<noteq> c) (rev s))"

text \<open>\<open>s.rfind(c)\<close>; \<open>None\<close> is -1.\<close>

definition rfind :: "'a \<Rightarrow> 'a list \<Rightarrow> nat option" where
  "rfind c s = (if c \<in> set s then Some (length s - 1 - length (after_last c s)) else None)"

text \<open>
  \<open>PurePosixPath(s).name\<close>, the last part of a path that is not empty and not a dot, and
  \<open>PurePosixPath(s).suffix\<close>, from its last dot on (not when the dot is first or last).
\<close>

definition path_parts :: "string \<Rightarrow> string list" where
  "path_parts s = filter (\<lambda>p. p \<noteq> [] \<and> p \<noteq> ''.'') (split_on CHR ''/'' s)"

definition path_name :: "string \<Rightarrow> string" where
  "path_name s = (if path_parts s = [] then [] else last (path_parts s))"

definition path_suffix :: "string \<Rightarrow> string" where
  "path_suffix s =
     (let name = path_name s in
      case rfind CHR ''.'' name of
        None \<Rightarrow> []
      | Some i \<Rightarrow> if 0 < i \<and> i < length name - 1 then drop i name else [])"

lemma starts_with_iff: "starts_with s p \<longleftrightarrow> (\<exists>r. s = p @ r)"
  by (metis append_eq_conv_conj append_take_drop_id starts_with_def)

lemma ends_with_iff: "ends_with s p \<longleftrightarrow> (\<exists>r. s = r @ p)"
proof
  assume "ends_with s p"
  then have "s = take (length s - length p) s @ p"
    by (metis append_take_drop_id ends_with_def)
  then show "\<exists>r. s = r @ p" by blast
qed (auto simp: ends_with_def)

lemma length_slice [simp]: "length (slice s a b) = min (b - a) (length s - a)"
  by (simp add: slice_def)

lemma py_slice_nonneg: "py_slice s (int a) (int b) = slice s a b"
proof -
  have "slice s (min (length s) a) (min (length s) b) = slice s a b" for a b
    by (cases "a \<le> length s"; cases "b \<le> length s") (auto simp: slice_def min_def)
  then show ?thesis by (simp add: py_slice_def slice_bound_def)
qed

lemma split_on_nonempty [simp]: "split_on c xs \<noteq> []"
  by (cases xs) (auto split: list.splits)

lemma split_on_no_sep: "p \<in> set (split_on c xs) \<Longrightarrow> c \<notin> set p"
proof (induction xs arbitrary: p)
  case (Cons x xs)
  show ?case
  proof (cases "split_on c xs")
    case (Cons q qs)
    with Cons.IH Cons.prems show ?thesis by (auto split: if_splits)
  qed simp
qed simp

lemma join_split_on [simp]: "join [c] (split_on c xs) = xs"
proof (induction xs)
  case (Cons x xs)
  show ?case
  proof (cases "split_on c xs")
    case Nil
    then show ?thesis by simp
  next
    case (Cons q qs)
    with Cons.IH show ?thesis by (cases qs) auto
  qed
qed simp

lemma length_split_on: "length (split_on c xs) = Suc (count_list xs c)"
  by (induction xs) (auto split: list.splits)

lemma split_on_free: "c \<notin> set xs \<Longrightarrow> split_on c xs = [xs]"
  by (induction xs) auto

lemma split_on_append: "c \<notin> set p \<Longrightarrow> split_on c (p @ c # r) = p # split_on c r"
  by (induction p) auto

lemma split_on_join:
  "ps \<noteq> [] \<Longrightarrow> (\<And>p. p \<in> set ps \<Longrightarrow> c \<notin> set p) \<Longrightarrow> split_on c (join [c] ps) = ps"
proof (induction "[c]" ps rule: join.induct)
  case (3 p q ps)
  then show ?case by (simp add: split_on_append)
qed (auto simp: split_on_free)

lemma rsplit_eq: "c \<in> set s \<Longrightarrow> s = before_last c s @ c # after_last c s"
proof -
  assume "c \<in> set s"
  then have ne: "dropWhile (\<lambda>x. x \<noteq> c) (rev s) \<noteq> []" by (auto simp: dropWhile_eq_Nil_conv)
  then have hd: "hd (dropWhile (\<lambda>x. x \<noteq> c) (rev s)) = c"
    using hd_dropWhile [OF ne] by simp
  have "rev s = takeWhile (\<lambda>x. x \<noteq> c) (rev s) @ dropWhile (\<lambda>x. x \<noteq> c) (rev s)" by simp
  also have "dropWhile (\<lambda>x. x \<noteq> c) (rev s) = c # tl (dropWhile (\<lambda>x. x \<noteq> c) (rev s))"
    using hd ne by (metis list.collapse)
  finally have "rev (rev s) =
      rev (tl (dropWhile (\<lambda>x. x \<noteq> c) (rev s))) @ [c] @ rev (takeWhile (\<lambda>x. x \<noteq> c) (rev s))"
    by (metis rev_append rev.simps(2) append.assoc append_Cons append_Nil)
  then show ?thesis by (simp add: before_last_def after_last_def)
qed

lemma after_last_free: "c \<notin> set (after_last c s)"
  by (auto simp: after_last_def dest: set_takeWhileD)

lemma split_first_eq:
  "c \<in> set s \<Longrightarrow> s = takeWhile (\<lambda>x. x \<noteq> c) s @ c # after_first c s"
proof -
  assume "c \<in> set s"
  then have ne: "dropWhile (\<lambda>x. x \<noteq> c) s \<noteq> []" by (auto simp: dropWhile_eq_Nil_conv)
  then have "hd (dropWhile (\<lambda>x. x \<noteq> c) s) = c" using hd_dropWhile [OF ne] by simp
  with ne have "dropWhile (\<lambda>x. x \<noteq> c) s = c # after_first c s"
    by (metis after_first_def list.collapse)
  then show ?thesis by (metis takeWhile_dropWhile_id)
qed

lemma rfind_SomeD:
  assumes "rfind c s = Some i"
  shows "i < length s \<and> s ! i = c \<and> drop (Suc i) s = after_last c s"
proof -
  from assms have c: "c \<in> set s" and i: "i = length s - 1 - length (after_last c s)"
    by (auto simp: rfind_def split: if_splits)
  have "length s = length (before_last c s @ c # after_last c s)"
    using rsplit_eq [OF c] by simp
  then have i': "i = length (before_last c s)" using i by simp
  obtain b a where s: "s = b @ c # a" "b = before_last c s" "a = after_last c s"
    using rsplit_eq [OF c] by blast
  from i' s(2) have ib: "i = length b" by simp
  have "s ! i = c" by (simp only: ib s(1) nth_append_length)
  moreover have "i < length s" using ib arg_cong [OF s(1), of length] by simp
  moreover have "drop (Suc i) s = a" by (simp only: ib) (simp add: s(1))
  ultimately show ?thesis using s(3) by simp
qed

lemma strip_no_space_ends:
  "strip s \<noteq> [] \<Longrightarrow> \<not> is_space (hd (strip s)) \<and> \<not> is_space (last (strip s))"
proof -
  assume ne: "strip s \<noteq> []"
  have r: "\<not> is_space (last (rstrip t))" if "rstrip t \<noteq> []" for t
    using that hd_dropWhile [of is_space "rev t"] by (simp add: rstrip_def last_rev)
  have pre: "\<exists>u. t = rstrip t @ u" for t
    by (metis rstrip_def rev_append rev_rev_ident takeWhile_dropWhile_id)
  from ne have "lstrip s \<noteq> []" by (auto simp: strip_def rstrip_def)
  then have "\<not> is_space (hd (lstrip s))" using hd_dropWhile [of is_space s] by (simp add: lstrip_def)
  moreover obtain u where u: "lstrip s = strip s @ u" using pre by (metis strip_def)
  ultimately have "\<not> is_space (hd (strip s))" using ne by (simp only: u hd_append2) simp
  moreover have "\<not> is_space (last (strip s))" using r [of "lstrip s"] ne by (simp add: strip_def)
  ultimately show ?thesis by simp
qed

lemma strip_Nil_iff: "strip s = [] \<longleftrightarrow> (\<forall>c \<in> set s. is_space c)"
proof
  assume "strip s = []"
  then have "\<forall>c \<in> set (lstrip s). is_space c"
    by (auto simp: strip_def rstrip_def dropWhile_eq_Nil_conv)
  moreover have "\<not> is_space (hd (lstrip s))" if "lstrip s \<noteq> []"
    using that hd_dropWhile [of is_space s] by (simp add: lstrip_def)
  ultimately have "lstrip s = []" by (metis list.set_sel(1))
  then show "\<forall>c \<in> set s. is_space c" by (simp add: lstrip_def dropWhile_eq_Nil_conv)
next
  assume "\<forall>c \<in> set s. is_space c"
  then have "lstrip s = []" by (simp add: lstrip_def dropWhile_eq_Nil_conv)
  then show "strip s = []" by (simp add: strip_def rstrip_def)
qed

section \<open>Numbers\<close>

text \<open>\<open>str(n)\<close>.\<close>

fun nat_str :: "nat \<Rightarrow> string" where
  "nat_str n = (if n < 10 then [char_of (48 + n)] else nat_str (n div 10) @ [char_of (48 + n mod 10)])"

declare nat_str.simps [simp del]

definition int_str :: "int \<Rightarrow> string" where
  "int_str i = (if i < 0 then ''-'' @ nat_str (nat (- i)) else nat_str (nat i))"

text \<open>
  \<open>int(s)\<close> in base ten: surrounding whitespace, one sign, decimal digits with single
  underscores between them, at most 4300 digits (the interpreter's limit). Everything
  else raises \<open>ValueError\<close>, here \<open>None\<close>.
\<close>

definition digit_val :: "char \<Rightarrow> int" where
  "digit_val c = int (code c) - 48"

fun int_digits :: "bool \<Rightarrow> string \<Rightarrow> int list option" where
  "int_digits prev [] = (if prev then Some [] else None)"
| "int_digits prev (c # cs) =
     (if is_decimal c then map_option (Cons (digit_val c)) (int_digits True cs)
      else if c = CHR ''_'' \<and> prev then int_digits False cs
      else None)"

definition horner :: "int \<Rightarrow> int list \<Rightarrow> int" where
  "horner a ds = foldl (\<lambda>n d. 10 * n + d) a ds"

definition py_nat :: "string \<Rightarrow> int option" where
  "py_nat s =
     (case int_digits False s of
        None \<Rightarrow> None
      | Some ds \<Rightarrow> if length ds > 4300 then None else Some (horner 0 ds))"

definition py_int :: "string \<Rightarrow> int option" where
  "py_int s =
     (case strip s of
        [] \<Rightarrow> None
      | c # cs \<Rightarrow>
          if c = CHR ''-'' then map_option uminus (py_nat cs)
          else if c = CHR ''+'' then py_nat cs
          else py_nat (c # cs))"

lemma is_decimal_char_of [simp]: "d < 10 \<Longrightarrow> is_decimal (char_of (48 + d :: nat))"
  by (simp add: is_decimal_def)

lemma digit_val_char_of [simp]: "d < 10 \<Longrightarrow> digit_val (char_of (48 + d :: nat)) = int d"
  by (simp add: digit_val_def)

lemma nat_str_decimal: "c \<in> set (nat_str n) \<Longrightarrow> is_decimal c"
proof (induction n rule: nat_str.induct)
  case (1 n)
  then show ?case by (subst (asm) (2) nat_str.simps) (auto split: if_splits)
qed

lemma nat_str_nonempty [simp]: "nat_str n \<noteq> []"
  by (subst nat_str.simps) simp

lemma int_digits_decimal:
  "(\<And>c. c \<in> set s \<Longrightarrow> is_decimal c) \<Longrightarrow> s \<noteq> [] \<or> prev \<Longrightarrow>
   int_digits prev s = Some (map digit_val s)"
  by (induction s arbitrary: prev) auto

lemma horner_append: "horner a (xs @ ys) = horner (horner a xs) ys"
  by (simp add: horner_def)

lemma horner_nat_str: "horner 0 (map digit_val (nat_str n)) = int n"
proof (induction n rule: nat_str.induct)
  case (1 n)
  show ?case
  proof (cases "n < 10")
    case True
    then show ?thesis by (subst nat_str.simps) (simp add: horner_def)
  next
    case False
    with 1 have "horner 0 (map digit_val (nat_str n)) = 10 * int (n div 10) + int (n mod 10)"
      by (subst nat_str.simps) (simp add: horner_append, simp add: horner_def)
    then show ?thesis by presburger
  qed
qed

lemma digit_val_range: "is_decimal c \<Longrightarrow> 0 \<le> digit_val c \<and> digit_val c < 10"
  by (auto simp: is_decimal_def digit_val_def)

lemma horner_bounds:
  "(\<And>d. d \<in> set ds \<Longrightarrow> 0 \<le> d \<and> d < 10) \<Longrightarrow> 0 \<le> a \<Longrightarrow>
   a * 10 ^ length ds \<le> horner a ds \<and> horner a ds < (a + 1) * 10 ^ length ds"
proof (induction ds arbitrary: a)
  case Nil
  then show ?case by (simp add: horner_def)
next
  case (Cons d ds)
  have d: "0 \<le> d" "d < 10" using Cons.prems(1) [of d] by simp_all
  have eq: "horner a (d # ds) = horner (10 * a + d) ds" by (simp add: horner_def)
  have IH: "(10 * a + d) * 10 ^ length ds \<le> horner (10 * a + d) ds"
      "horner (10 * a + d) ds < (10 * a + d + 1) * 10 ^ length ds"
    using Cons d by simp_all
  have "10 * a * 10 ^ length ds \<le> (10 * a + d) * 10 ^ length ds"
    using d by (intro mult_right_mono) simp_all
  moreover have "(10 * a + d + 1) * 10 ^ length ds \<le> (10 * a + 10) * 10 ^ length ds"
    using d by (intro mult_right_mono) simp_all
  ultimately have "10 * a * 10 ^ length ds \<le> horner a (d # ds)"
      "horner a (d # ds) < (10 * a + 10) * 10 ^ length ds"
    using IH unfolding eq by linarith+
  then show ?case by (simp add: algebra_simps)
qed

lemma py_nat_nat_str: "length (nat_str n) \<le> 4300 \<Longrightarrow> py_nat (nat_str n) = Some (int n)"
  by (simp add: py_nat_def int_digits_decimal nat_str_decimal horner_nat_str)

lemma is_decimal_not_space: "is_decimal c \<Longrightarrow> \<not> is_space c"
  by (auto simp: is_decimal_def is_space_def Let_def)

lemma strip_decimal: "s \<noteq> [] \<Longrightarrow> (\<And>c. c \<in> set s \<Longrightarrow> is_decimal c) \<Longrightarrow> strip s = s"
proof -
  assume ne: "s \<noteq> []" and dec: "\<And>c. c \<in> set s \<Longrightarrow> is_decimal c"
  have nosp: "\<not> is_space c" if "c \<in> set s" for c using dec that by (simp add: is_decimal_not_space)
  have "lstrip s = s" using ne nosp by (cases s) (auto simp: lstrip_def)
  moreover have "dropWhile is_space (rev s) = rev s"
    using nosp by (metis dropWhile_eq_self_iff hd_in_set set_rev)
  ultimately show ?thesis by (simp add: strip_def rstrip_def)
qed

section \<open>Printed form of a text\<close>

text \<open>
  \<open>repr(s)\<close> of a text: single quotes, double quotes when the text holds a single quote and
  no double one, the usual escapes, and two hexadecimal digits for what does not print.
\<close>

definition hex_char :: "nat \<Rightarrow> char" where
  "hex_char n = (if n < 10 then char_of (48 + n) else char_of (87 + n))"

definition repr_char :: "char \<Rightarrow> char \<Rightarrow> string" where
  "repr_char q c =
     (if c = q \<or> c = CHR 0x5C then [CHR 0x5C, c]
      else if c = CHR 0x09 then [CHR 0x5C, CHR ''t'']
      else if c = CHR 0x0A then [CHR 0x5C, CHR ''n'']
      else if c = CHR 0x0D then [CHR 0x5C, CHR ''r'']
      else if is_printable c then [c]
      else [CHR 0x5C, CHR ''x'', hex_char (code c div 16), hex_char (code c mod 16)])"

definition repr_str :: "string \<Rightarrow> string" where
  "repr_str s =
     (let q = (if CHR 0x27 \<in> set s \<and> CHR 0x22 \<notin> set s then CHR 0x22 else CHR 0x27)
      in [q] @ concat (map (repr_char q) s) @ [q])"

section \<open>Bytes\<close>

text \<open>
  Raw content is a list of 8-bit words. \<open>utf8\<close> is \<open>s.encode("utf-8")\<close>: one byte below
  128, two bytes from 128 to 255.
\<close>

type_synonym bytes = "8 word list"

definition utf8_char :: "char \<Rightarrow> bytes" where
  "utf8_char c =
     (if code c < 128 then [word_of_nat (code c)]
      else [word_of_nat (192 + code c div 64), word_of_nat (128 + code c mod 64)])"

definition utf8 :: "string \<Rightarrow> bytes" where
  "utf8 s = concat (map utf8_char s)"

end
