(* ===== verification/Models.thy ===== *)
theory Models
  imports Complex_Main PyText
begin

text \<open>
  \<open>server/detection/models.py\<close>: message components, parsed messages, matches and detection
  results. A metadata dictionary is an association list from keys to Python values; floats
  are rationals (the model computes exactly where Python rounds to a double).
\<close>

section \<open>Values\<close>

datatype pyval =
    PyNone
  | PyBool bool
  | PyInt int
  | PyFloat rat
  | PyStr string
  | PyBytes bytes
  | PyList "pyval list"

type_synonym meta = "(string \<times> pyval) list"

section \<open>Messages\<close>

datatype component_type = ENVELOPE | SUBJECT | BODY | ATTACHMENT | GENERIC

fun component_type_value :: "component_type \<Rightarrow> string" where
  "component_type_value ENVELOPE = ''envelope''"
| "component_type_value SUBJECT = ''subject''"
| "component_type_value BODY = ''body''"
| "component_type_value ATTACHMENT = ''attachment''"
| "component_type_value GENERIC = ''generic''"

record message_component =
  comp_type :: component_type
  comp_content :: string
  comp_meta :: meta

definition component_name :: "message_component \<Rightarrow> pyval" where
  "component_name c =
     (if comp_type c = ATTACHMENT then dict_get (comp_meta c) ''filename'' (PyStr ''attachment'')
      else PyStr (component_type_value (comp_type c)))"

record parsed_message =
  msg_id :: string
  msg_components :: "message_component list"
  msg_meta :: meta

definition get_components ::
  "parsed_message \<Rightarrow> component_type list \<Rightarrow> bool \<Rightarrow> message_component list" where
  "get_components msg types include_generic =
     (if types = [] then msg_components msg
      else
        (let target_types = set types \<union> (if include_generic then {GENERIC} else {})
         in filter (\<lambda>c. comp_type c \<in> target_types) (msg_components msg)))"

definition mk_component :: "component_type \<Rightarrow> string \<Rightarrow> meta \<Rightarrow> message_component" where
  "mk_component ct txt meta = \<lparr>comp_type = ct, comp_content = txt, comp_meta = meta\<rparr>"

definition add_component ::
  "parsed_message \<Rightarrow> component_type \<Rightarrow> string \<Rightarrow> meta \<Rightarrow> parsed_message" where
  "add_component msg ct txt meta =
     msg\<lparr>msg_components := msg_components msg @ [mk_component ct txt meta]\<rparr>"

section \<open>Matches and results\<close>

record match =
  analyzer_name :: string
  rule_name :: string
  match_component :: message_component
  matched_text :: string
  start_offset :: int
  end_offset :: int
  confidence :: rat
  match_meta :: meta

record detection_result =
  result_id :: string
  matches :: "match list"
  errors :: "string list"

definition has_matches :: "detection_result \<Rightarrow> bool" where
  "has_matches r \<longleftrightarrow> length (matches r) > 0"

definition match_count :: "detection_result \<Rightarrow> nat" where
  "match_count r = length (matches r)"

definition matches_for_component :: "detection_result \<Rightarrow> component_type \<Rightarrow> match list" where
  "matches_for_component r ct = filter (\<lambda>m. comp_type (match_component m) = ct) (matches r)"

definition matches_for_analyzer :: "detection_result \<Rightarrow> string \<Rightarrow> match list" where
  "matches_for_analyzer r name = filter (\<lambda>m. analyzer_name m = name) (matches r)"

section \<open>Lemmas\<close>

lemma add_component_simps [simp]:
  "msg_components (add_component msg ct txt meta) =
     msg_components msg @ [mk_component ct txt meta]"
  "msg_id (add_component msg ct txt meta) = msg_id msg"
  "msg_meta (add_component msg ct txt meta) = msg_meta msg"
  by (simp_all add: add_component_def)

lemma mk_component_simps [simp]:
  "comp_type (mk_component ct txt meta) = ct"
  "comp_content (mk_component ct txt meta) = txt"
  "comp_meta (mk_component ct txt meta) = meta"
  by (simp_all add: mk_component_def)

lemma set_get_components:
  "set (get_components msg types g) =
     {c \<in> set (msg_components msg). types = [] \<or> comp_type c \<in> set types \<or>
        (g \<and> comp_type c = GENERIC)}"
  by (auto simp: get_components_def Let_def)

lemma has_matches_iff: "has_matches r \<longleftrightarrow> match_count r \<noteq> 0"
  by (simp add: has_matches_def match_count_def)

text \<open>
  The five component types partition the matches of a result: every match is counted
  under exactly one type, so the per-type counts add up to \<open>match_count\<close>.
\<close>

theorem matches_partition_by_component:
  "match_count r =
     (\<Sum>ct \<leftarrow> [ENVELOPE, SUBJECT, BODY, ATTACHMENT, GENERIC].
        length (matches_for_component r ct))"
proof -
  have split: "length ms = length (filter (\<lambda>m. f m = ENVELOPE) ms) +
      (length (filter (\<lambda>m. f m = SUBJECT) ms) + (length (filter (\<lambda>m. f m = BODY) ms) +
      (length (filter (\<lambda>m. f m = ATTACHMENT) ms) + length (filter (\<lambda>m. f m = GENERIC) ms))))"
    for f and ms :: "match list"
  proof (induction ms)
    case (Cons m ms)
    show ?case using Cons.IH by (cases "f m") simp_all
  qed simp
  show ?thesis
    using split [where f = "\<lambda>m. comp_type (match_component m)" and ms = "matches r"]
    by (simp add: match_count_def matches_for_component_def)
qed

end
