(* ===== verification/Engine.thy ===== *)
theory Engine
  imports Models
begin

text \<open>
  The interface every analyzer implements (\<open>server/detection/analyzers/__init__.py\<close>,
  \<open>BaseAnalyzer\<close>) and the orchestrator that runs them (\<open>server/detection/engine.py\<close>).
  An analyzer is its name, its target components and its \<open>analyze\<close> method, which returns
  matches or raises. The engine's state is the list of registered analyzers.

  Two interfaces are stated here as locales: \<open>named_registry\<close>, the contract of a list of
  objects with unique names (the engine keeps analyzers in one, the policy evaluator keeps
  policies in another), and \<open>analyzer_contract\<close>, what the policy evaluator relies on when
  it attributes matches to analyzers.
\<close>

section \<open>Analyzers\<close>

record analyzer =
  an_name :: string
  an_targets :: "component_type list option"
  an_analyze :: "parsed_message \<Rightarrow> match list res"

text \<open>
  \<open>get_components()\<close> with no types returns everything, so an empty target list behaves as
  no target list.
\<close>

definition get_target_components ::
  "component_type list option \<Rightarrow> parsed_message \<Rightarrow> message_component list" where
  "get_target_components targets msg =
     (case targets of
        None \<Rightarrow> get_components msg [] True
      | Some ts \<Rightarrow> get_components msg ts True)"

lemma get_target_components_subset:
  "set (get_target_components targets msg) \<subseteq> set (msg_components msg)"
  by (auto simp: get_target_components_def set_get_components split: option.splits)

lemma get_target_components_type:
  "c \<in> set (get_target_components (Some ts) msg) \<Longrightarrow> ts \<noteq> [] \<Longrightarrow>
   comp_type c \<in> set ts \<or> comp_type c = GENERIC"
  by (auto simp: get_target_components_def set_get_components)

section \<open>Lists of objects with unique names\<close>

locale named_registry =
  fixes name_of :: "'a \<Rightarrow> string"
    and add :: "'a list \<Rightarrow> 'a \<Rightarrow> 'a list res"
    and remove :: "'a list \<Rightarrow> string \<Rightarrow> 'a list res"
  assumes add_fresh: "name_of a \<notin> name_of ` set xs \<Longrightarrow> add xs a = Inr (xs @ [a])"
    and add_taken: "name_of a \<in> name_of ` set xs \<Longrightarrow> \<exists>e. add xs a = Inl e"
    and remove_found:
      "name_of a \<notin> name_of ` set ys \<Longrightarrow> remove (ys @ a # zs) (name_of a) = Inr (ys @ zs)"
    and remove_missing: "n \<notin> name_of ` set xs \<Longrightarrow> \<exists>e. remove xs n = Inl e"
begin

lemma add_cases:
  "add xs a = Inr ys \<longleftrightarrow> name_of a \<notin> name_of ` set xs \<and> ys = xs @ [a]"
  using add_fresh [of a xs] add_taken [of a xs] by (metis Inl_Inr_False Inr_inject)

lemma remove_cases:
  assumes "remove xs n = Inr ys"
  obtains us a vs where "xs = us @ a # vs" "ys = us @ vs" "name_of a = n"
    "n \<notin> name_of ` set us"
proof -
  have "n \<in> set (map name_of xs)" using assms remove_missing [of n xs] by fastforce
  then obtain us' vs' where *: "map name_of xs = us' @ n # vs'" "n \<notin> set us'"
    by (metis split_list_first)
  then obtain us a vs where "xs = us @ a # vs" "map name_of us = us'" "name_of a = n"
    by (auto simp: map_eq_append_conv map_eq_Cons_conv)
  with *(2) assms remove_found [of a us vs] show ?thesis by (intro that) auto
qed

lemma add_distinct:
  "add xs a = Inr ys \<Longrightarrow> distinct (map name_of xs) \<Longrightarrow> distinct (map name_of ys)"
  by (auto simp: add_cases)

lemma remove_distinct:
  "remove xs n = Inr ys \<Longrightarrow> distinct (map name_of xs) \<Longrightarrow>
   distinct (map name_of ys) \<and> n \<notin> name_of ` set ys"
  by (erule remove_cases) auto

lemma remove_add: "add xs a = Inr ys \<Longrightarrow> remove ys (name_of a) = Inr xs"
  using remove_found [of a xs "[]"] by (simp add: add_cases)

lemma remove_names:
  "remove xs n = Inr ys \<Longrightarrow> distinct (map name_of xs) \<Longrightarrow>
   set ys = {a \<in> set xs. name_of a \<noteq> n}"
  by (erule remove_cases) (auto simp: image_iff)

end

section \<open>The engine\<close>

type_synonym engine = "analyzer list"

definition register :: "engine \<Rightarrow> analyzer \<Rightarrow> engine res" where
  "register eng a =
     (if \<exists>b \<in> set eng. an_name b = an_name a
      then Inl (Exn ValueError
        (''Analyzer with name '' @ repr_str (an_name a) @ '' is already registered''))
      else Inr (eng @ [a]))"

text \<open>The loop of \<open>unregister\<close>: the first analyzer of that name is removed.\<close>

fun pop_named :: "('a \<Rightarrow> string) \<Rightarrow> string \<Rightarrow> 'a list \<Rightarrow> 'a list option" where
  "pop_named nm n [] = None"
| "pop_named nm n (x # xs) =
     (if nm x = n then Some xs else map_option (Cons x) (pop_named nm n xs))"

definition unregister :: "engine \<Rightarrow> string \<Rightarrow> engine res" where
  "unregister eng n =
     (case pop_named an_name n eng of
        Some eng' \<Rightarrow> Inr eng'
      | None \<Rightarrow> Inl (Exn KeyError (''No analyzer registered with name '' @ repr_str n)))"

definition detect_step :: "parsed_message \<Rightarrow> analyzer \<Rightarrow> detection_result \<Rightarrow> detection_result" where
  "detect_step msg a r =
     (case an_analyze a msg of
        Inr ms \<Rightarrow> r\<lparr>matches := matches r @ ms\<rparr>
      | Inl exc \<Rightarrow> r\<lparr>errors := errors r @
          [''Analyzer '' @ repr_str (an_name a) @ '' failed: '' @ exn_str exc]\<rparr>)"

definition detect :: "engine \<Rightarrow> parsed_message \<Rightarrow> detection_result" where
  "detect eng msg =
     fold (detect_step msg) eng \<lparr>result_id = msg_id msg, matches = [], errors = []\<rparr>"

lemma pop_named_None: "pop_named nm n xs = None \<longleftrightarrow> n \<notin> nm ` set xs"
  by (induction xs) auto

lemma pop_named_found:
  "nm a \<notin> nm ` set ys \<Longrightarrow> pop_named nm (nm a) (ys @ a # zs) = Some (ys @ zs)"
  by (induction ys) auto

interpretation analyzers: named_registry an_name register unregister
proof
  show "an_name a \<notin> an_name ` set xs \<Longrightarrow> register xs a = Inr (xs @ [a])" for a xs
    by (auto simp: register_def image_iff)
  show "an_name a \<in> an_name ` set xs \<Longrightarrow> \<exists>e. register xs a = Inl e" for a xs
    by (auto simp: register_def image_iff)
  show "an_name a \<notin> an_name ` set ys \<Longrightarrow> unregister (ys @ a # zs) (an_name a) = Inr (ys @ zs)"
    for a ys zs
    by (simp add: unregister_def pop_named_found)
  show "n \<notin> an_name ` set xs \<Longrightarrow> \<exists>e. unregister xs n = Inl e" for n xs
    using pop_named_None [of an_name n xs] by (auto simp: unregister_def)
qed

section \<open>Detection\<close>

definition ok_matches :: "parsed_message \<Rightarrow> analyzer \<Rightarrow> match list" where
  "ok_matches msg a = (case an_analyze a msg of Inr ms \<Rightarrow> ms | Inl _ \<Rightarrow> [])"

definition error_lines :: "parsed_message \<Rightarrow> analyzer \<Rightarrow> string list" where
  "error_lines msg a =
     (case an_analyze a msg of
        Inr _ \<Rightarrow> []
      | Inl exc \<Rightarrow> [''Analyzer '' @ repr_str (an_name a) @ '' failed: '' @ exn_str exc])"

lemma ok_matchesD: "m \<in> set (ok_matches msg a) \<Longrightarrow> \<exists>ms. an_analyze a msg = Inr ms \<and> m \<in> set ms"
  by (cases "an_analyze a msg") (auto simp: ok_matches_def)

lemma fold_detect_step:
  "fold (detect_step msg) eng r =
     r\<lparr>matches := matches r @ concat (map (ok_matches msg) eng),
       errors := errors r @ concat (map (error_lines msg) eng)\<rparr>"
  by (induction eng arbitrary: r)
    (auto simp: detect_step_def ok_matches_def error_lines_def split: sum.splits)

lemma detect_eq:
  "detect eng msg =
     \<lparr>result_id = msg_id msg, matches = concat (map (ok_matches msg) eng),
      errors = concat (map (error_lines msg) eng)\<rparr>"
  by (simp add: detect_def fold_detect_step)

text \<open>
  C15: a failing analyzer costs its own matches only. Detection returns the concatenation,
  in registration order, of what the analyzers that did not raise return, one error line per
  analyzer that raised, and it always returns.
\<close>

theorem detect_isolates_failures:
  "matches (detect eng msg) = concat (map (ok_matches msg) eng) \<and>
   length (errors (detect eng msg)) =
     length (filter (\<lambda>a. \<not> is_ok (an_analyze a msg)) eng) \<and>
   result_id (detect eng msg) = msg_id msg"
proof -
  have "length (concat (map (error_lines msg) eng)) =
      length (filter (\<lambda>a. \<not> is_ok (an_analyze a msg)) eng)"
  proof (induction eng)
    case (Cons a eng)
    then show ?case by (cases "an_analyze a msg") (auto simp: error_lines_def)
  qed simp
  then show ?thesis by (simp add: detect_eq)
qed

section \<open>The contract of an analyzer\<close>

locale analyzer_contract =
  fixes an :: analyzer
  assumes match_name: "an_analyze an msg = Inr ms \<Longrightarrow> m \<in> set ms \<Longrightarrow> analyzer_name m = an_name an"
    and match_component:
      "an_analyze an msg = Inr ms \<Longrightarrow> m \<in> set ms \<Longrightarrow>
       match_component m \<in> set (get_target_components (an_targets an) msg)"
begin

lemma ok_matches_name: "m \<in> set (ok_matches msg an) \<Longrightarrow> analyzer_name m = an_name an"
  using match_name ok_matchesD by blast

lemma ok_matches_component:
  "m \<in> set (ok_matches msg an) \<Longrightarrow> match_component m \<in> set (msg_components msg)"
  using match_component ok_matchesD get_target_components_subset by blast

lemma ok_matches_targeted:
  assumes "m \<in> set (ok_matches msg an)" and "an_targets an = Some ts" and "ts \<noteq> []"
  shows "comp_type (match_component m) \<in> set ts \<or> comp_type (match_component m) = GENERIC"
proof -
  have "match_component m \<in> set (get_target_components (Some ts) msg)"
    using assms match_component ok_matchesD by metis
  then show ?thesis using assms(3) by (rule get_target_components_type)
qed

end

text \<open>
  What "precise location" means for every analyzer: the offsets lie in the component's text
  and delimit exactly the matched text.
\<close>

definition locates :: "match \<Rightarrow> bool" where
  "locates m \<longleftrightarrow>
     0 \<le> start_offset m \<and> start_offset m \<le> end_offset m \<and>
     end_offset m \<le> int (length (comp_content (match_component m))) \<and>
     matched_text m =
       slice (comp_content (match_component m)) (nat (start_offset m)) (nat (end_offset m))"

lemma filter_concat_map_unique:
  assumes "distinct (map f xs)" and "a \<in> set xs"
    and "\<And>x y. x \<in> set xs \<Longrightarrow> y \<in> set (g x) \<Longrightarrow> h y = f x"
  shows "filter (\<lambda>y. h y = f a) (concat (map g xs)) = g a"
  using assms
proof (induction xs)
  case (Cons x xs)
  have none: "filter (\<lambda>y. h y = f a) (g z) = []" if "z \<in> set (x # xs)" "f z \<noteq> f a" for z
    using Cons.prems(3) that by (auto simp: filter_empty_conv)
  show ?case
  proof (cases "a = x")
    case True
    have "filter (\<lambda>y. h y = f a) (g z) = []" if "z \<in> set xs" for z
    proof -
      have "f z \<noteq> f a" using that Cons.prems(1) True by (auto simp: image_iff)
      then show ?thesis using none that by simp
    qed
    then have "filter (\<lambda>y. h y = f a) (concat (map g xs)) = []"
      by (simp add: filter_concat)
    moreover have "filter (\<lambda>y. h y = f a) (g a) = g a"
      using Cons.prems(3) [of a] True by (simp add: filter_id_conv)
    ultimately show ?thesis using True by simp
  next
    case False
    then have "a \<in> set xs" using Cons.prems(2) by simp
    with Cons.prems(1) have "f x \<noteq> f a" by auto
    then have "filter (\<lambda>y. h y = f a) (g x) = []" using none by simp
    then show ?thesis using Cons.IH Cons.prems \<open>a \<in> set xs\<close> by simp
  qed
qed simp

lemma detect_matches_of:
  assumes "distinct (map an_name eng)" and "\<And>a. a \<in> set eng \<Longrightarrow> analyzer_contract a"
    and "a \<in> set eng"
  shows "matches_for_analyzer (detect eng msg) (an_name a) = ok_matches msg a"
  unfolding matches_for_analyzer_def detect_eq detection_result.select_convs
proof (rule filter_concat_map_unique [where f = an_name and h = analyzer_name])
  show "analyzer_name m = an_name b" if "b \<in> set eng" "m \<in> set (ok_matches msg b)" for b m
    using analyzer_contract.ok_matches_name [OF assms(2) [OF that(1)] that(2)] .
qed (use assms in auto)

text \<open>
  Attribution. When the registered analyzers have unique names and honour the contract,
  looking up the matches of an analyzer by name in the aggregated result gives exactly what
  that analyzer returned, in order.
\<close>

theorem detect_attribution:
  assumes "distinct (map an_name eng)" and "\<And>a. a \<in> set eng \<Longrightarrow> analyzer_contract a"
    and "a \<in> set eng"
  shows "matches_for_analyzer (detect eng msg) (an_name a) = ok_matches msg a"
  using assms by (rule detect_matches_of)

definition mail_probe :: "string \<Rightarrow> string \<Rightarrow> analyzer" where
  "mail_probe n word =
     \<lparr>an_name = n, an_targets = None,
      an_analyze = (\<lambda>msg. Inr (map (\<lambda>c. \<lparr>analyzer_name = n, rule_name = word,
        match_component = c, matched_text = word, start_offset = 0, end_offset = int (length word),
        confidence = 1, match_meta = []\<rparr>)
        (filter (\<lambda>c. starts_with (comp_content c) word) (msg_components msg))))\<rparr>"

lemma mail_probe_contract: "analyzer_contract (mail_probe n w)"
  by standard (auto simp: mail_probe_def get_target_components_def get_components_def)

theorem detect_attribution_witness:
  "map matched_text (matches_for_analyzer
     (detect [mail_probe ''a'' ''x'', mail_probe ''b'' ''y'']
        \<lparr>msg_id = ''m'', msg_components = [mk_component BODY ''xy'' [], mk_component BODY ''yx'' []],
         msg_meta = []\<rparr>) ''b'') = [''y'']"
proof -
  let ?e = "[mail_probe ''a'' ''x'', mail_probe ''b'' ''y'']"
  have d: "distinct (map an_name ?e)" and m: "mail_probe ''b'' ''y'' \<in> set ?e"
    by (simp_all add: mail_probe_def)
  have c: "\<And>a. a \<in> set ?e \<Longrightarrow> analyzer_contract a"
    using mail_probe_contract by auto
  have "matches_for_analyzer (detect ?e msg) (an_name (mail_probe ''b'' ''y'')) =
      ok_matches msg (mail_probe ''b'' ''y'')" for msg
    by (rule detect_attribution [OF d c m])
  then show ?thesis by (simp add: mail_probe_def ok_matches_def starts_with_def mk_component_def)
qed

section \<open>Runs of registrations\<close>

datatype registry_op = Register analyzer | Unregister string

text \<open>A caller that catches the error of a refused call keeps the engine as it was.\<close>

fun registry_step :: "registry_op \<Rightarrow> engine \<Rightarrow> engine" where
  "registry_step (Register a) eng = (case register eng a of Inr eng' \<Rightarrow> eng' | Inl _ \<Rightarrow> eng)"
| "registry_step (Unregister n) eng = (case unregister eng n of Inr eng' \<Rightarrow> eng' | Inl _ \<Rightarrow> eng)"

text \<open>
  Whatever sequence of registrations and removals is attempted, no two registered
  analyzers share a name.
\<close>

theorem registry_names_distinct:
  "distinct (map an_name (fold registry_step ops []))"
proof -
  have step: "distinct (map an_name (registry_step p eng))" if "distinct (map an_name eng)" for p eng
    using that analyzers.add_distinct analyzers.remove_distinct
    by (cases p) (auto split: sum.splits)
  have "distinct (map an_name (fold registry_step ops eng))" if "distinct (map an_name eng)" for eng
    using that by (induction ops arbitrary: eng) (auto simp del: map_map intro: step)
  then show ?thesis by simp
qed

end
