(* ===== verification/Validators.thy ===== *)
theory Validators
  imports PyText
begin

text \<open>
  \<open>server/detection/analyzers/validators.py\<close>: the checks that confirm a pattern match. Each
  validator takes the matched text and returns a boolean; where the code calls \<open>int\<close> on text
  it has only tested with \<open>str.isdigit\<close>, a superscript digit makes it raise, so those
  validators return a result.
\<close>

section \<open>Shared pieces\<close>

definition invalid_literal :: "string \<Rightarrow> exn" where
  "invalid_literal s = Exn ValueError (''invalid literal for int() with base 10: '' @ repr_str s)"

definition int_of :: "string \<Rightarrow> int res" where
  "int_of s = (case py_int s of None \<Rightarrow> Inl (invalid_literal s) | Some i \<Rightarrow> Inr i)"

definition str_isdigit :: "string \<Rightarrow> bool" where
  "str_isdigit s \<longleftrightarrow> s \<noteq> [] \<and> list_all is_digit s"

definition drop_spaces_dashes :: "string \<Rightarrow> string" where
  "drop_spaces_dashes s = filter (\<lambda>c. \<not> (is_space c \<or> c = CHR ''-'')) s"

definition drop_spaces :: "string \<Rightarrow> string" where
  "drop_spaces s = filter (\<lambda>c. \<not> is_space c) s"

section \<open>The validators\<close>

definition luhn_term :: "nat \<Rightarrow> int \<Rightarrow> int" where
  "luhn_term i n = (if i mod 2 = 1 then (if n * 2 > 9 then n * 2 - 9 else n * 2) else n)"

fun luhn_loop :: "nat \<Rightarrow> string \<Rightarrow> int \<Rightarrow> int res" where
  "luhn_loop i [] tot = Inr tot"
| "luhn_loop i (ch # chs) tot =
     rbind (int_of [ch]) (\<lambda>n. luhn_loop (Suc i) chs (tot + luhn_term i n))"

definition luhn :: "string \<Rightarrow> bool res" where
  "luhn value =
     (let digits = drop_spaces_dashes value in
      if \<not> str_isdigit digits \<or> length digits < 13 then Inr False
      else rbind (luhn_loop 0 (rev digits) 0) (\<lambda>tot. Inr (tot mod 10 = 0)))"

definition ssn_area :: "string \<Rightarrow> bool res" where
  "ssn_area value =
     (let digits = drop_spaces_dashes value in
      if \<not> str_isdigit digits \<or> length digits \<noteq> 9 then Inr False
      else
        rbind (int_of (take 3 digits)) (\<lambda>area.
        rbind (int_of (slice digits 3 5)) (\<lambda>grp.
        rbind (int_of (drop 5 digits)) (\<lambda>serial.
          if area = 0 \<or> area = 666 \<or> area \<ge> 900 then Inr False
          else if grp = 0 then Inr False
          else if serial = 0 then Inr False
          else Inr True))))"

definition phone_format :: "string \<Rightarrow> bool res" where
  "phone_format value =
     (let digits0 = filter is_decimal value;
          digits = (if length digits0 = 11 \<and> starts_with digits0 ''1'' then drop 1 digits0 else digits0)
      in if length digits \<noteq> 10 then Inr False
         else
           rbind (int_of (take 3 digits)) (\<lambda>area.
           rbind (int_of (slice digits 3 6)) (\<lambda>exchange.
             if area < 200 \<or> exchange < 200 then Inr False else Inr True)))"

definition email_domain :: "string \<Rightarrow> bool" where
  "email_domain value =
     (if CHR ''@'' \<notin> set value then False
      else
        (let local = before_last CHR ''@'' value; domain = after_last CHR ''@'' value in
         if local = [] \<or> domain = [] then False
         else
           (let parts = split_on CHR ''.'' domain in
            if length parts < 2 then False
            else
              (let tld = last parts in
               if length tld < 2 \<or> length tld > 63 then False else True))))"

text \<open>Classes of the code points that \<open>str.upper\<close> can produce.\<close>

definition cp_alpha :: "nat \<Rightarrow> bool" where
  "cp_alpha n = (if n < 256 then is_alpha (char_of n) else n = 924 \<or> n = 376)"

definition cp_digit :: "nat \<Rightarrow> bool" where
  "cp_digit n = (n < 256 \<and> is_digit (char_of n))"

fun iban_numeric :: "nat list \<Rightarrow> string option" where
  "iban_numeric [] = Some []"
| "iban_numeric (ch # chs) =
     (if cp_digit ch then map_option (Cons (char_of ch)) (iban_numeric chs)
      else if cp_alpha ch then
        map_option (append (int_str (int ch - 65 + 10))) (iban_numeric chs)
      else None)"

definition iban_mod97 :: "string \<Rightarrow> bool res" where
  "iban_mod97 value =
     (let clean = upper (drop_spaces value) in
      if length clean < 5 \<or> length clean > 34 then Inr False
      else if \<not> list_all cp_alpha (take 2 clean) \<or> \<not> list_all cp_digit (slice clean 2 4) then Inr False
      else
        (let rearranged = drop 4 clean @ take 4 clean in
         case iban_numeric rearranged of
           None \<Rightarrow> Inr False
         | Some numeric \<Rightarrow> rbind (int_of numeric) (\<lambda>n. Inr (n mod 97 = 1))))"

definition passport_format :: "string \<Rightarrow> bool" where
  "passport_format value =
     (let clean0 = strip value;
          clean = (case clean0 of c # cs \<Rightarrow> if is_alpha c then cs else clean0 | [] \<Rightarrow> clean0)
      in str_isdigit clean \<and> 8 \<le> length clean \<and> length clean \<le> 9)"

definition drivers_license_format :: "string \<Rightarrow> bool" where
  "drivers_license_format value =
     (let clean = strip value in
      if clean = [] then False
      else
        (let digits = filter is_decimal clean in
         if digits \<noteq> [] \<and> list_all (\<lambda>d. d = CHR ''0'') digits then False else True))"

definition ipv4_range :: "string \<Rightarrow> bool" where
  "ipv4_range value =
     (let parts = split_on CHR ''.'' value in
      if length parts \<noteq> 4 then False
      else
        (case map_res int_of parts of
           Inl _ \<Rightarrow> False
         | Inr octets \<Rightarrow>
             if list_ex (\<lambda>b. b < 0 \<or> b > 255) octets then False
             else if list_all (\<lambda>b. b = 0) octets then False
             else if list_all (\<lambda>b. b = 255) octets then False
             else True))"

text \<open>
  \<open>datetime.strptime\<close> for the three formats. A format is matched against the whole text;
  the fields \<open>%m\<close>, \<open>%d\<close> and \<open>%Y\<close> never match a separator, so the text splits at the
  separators. \<open>%m\<close> and \<open>%d\<close> take one or two digits without exceeding 12 and 31, \<open>%d\<close> also a
  space and a digit, \<open>%Y\<close> exactly four digits. The fields must form a date of the calendar.
\<close>

definition month_field :: "string \<Rightarrow> int option" where
  "month_field s =
     (if (length s = 1 \<or> length s = 2) \<and> list_all is_decimal s \<and>
         1 \<le> horner 0 (map digit_val s) \<and> horner 0 (map digit_val s) \<le> 12
      then Some (horner 0 (map digit_val s)) else None)"

definition day_field :: "string \<Rightarrow> int option" where
  "day_field s =
     (let t = (case s of c # cs \<Rightarrow> if c = CHR '' '' \<and> length cs = 1 then cs else s | [] \<Rightarrow> s) in
      if (length t = 1 \<or> length t = 2) \<and> list_all is_decimal t \<and>
         1 \<le> horner 0 (map digit_val t) \<and> horner 0 (map digit_val t) \<le> 31
      then Some (horner 0 (map digit_val t)) else None)"

definition year_field :: "string \<Rightarrow> int option" where
  "year_field s =
     (if length s = 4 \<and> list_all is_decimal s then Some (horner 0 (map digit_val s)) else None)"

definition leap_year :: "int \<Rightarrow> bool" where
  "leap_year y \<longleftrightarrow> 4 dvd y \<and> (\<not> 100 dvd y \<or> 400 dvd y)"

definition days_in_month :: "int \<Rightarrow> int \<Rightarrow> int" where
  "days_in_month y m =
     (if m = 2 then (if leap_year y then 29 else 28)
      else if m \<in> {4, 6, 9, 11} then 30 else 31)"

definition valid_date :: "int \<Rightarrow> int \<Rightarrow> int \<Rightarrow> bool" where
  "valid_date y m d \<longleftrightarrow>
     1 \<le> y \<and> y \<le> 9999 \<and> 1 \<le> m \<and> m \<le> 12 \<and> 1 \<le> d \<and> d \<le> days_in_month y m"

datatype date_format = MDY char | YMD char

definition make_date :: "int option \<Rightarrow> int option \<Rightarrow> int option \<Rightarrow> (int \<times> int \<times> int) option" where
  "make_date yo mo do =
     (case (yo, mo, do) of
        (Some y, Some m, Some d) \<Rightarrow> if valid_date y m d then Some (y, m, d) else None
      | _ \<Rightarrow> None)"

fun strptime :: "string \<Rightarrow> date_format \<Rightarrow> (int \<times> int \<times> int) option" where
  "strptime s (MDY sep) =
     (case split_on sep s of
        [a, b, c] \<Rightarrow> make_date (year_field c) (month_field a) (day_field b)
      | _ \<Rightarrow> None)"
| "strptime s (YMD sep) =
     (case split_on sep s of
        [a, b, c] \<Rightarrow> make_date (year_field a) (month_field b) (day_field c)
      | _ \<Rightarrow> None)"

definition date_formats :: "date_format list" where
  "date_formats = [MDY CHR ''/'', YMD CHR ''-'', MDY CHR ''-'']"

definition date_calendar :: "string \<Rightarrow> bool" where
  "date_calendar value =
     list_ex (\<lambda>fmt. case strptime (strip value) fmt of
                      None \<Rightarrow> False
                    | Some (y, m, d) \<Rightarrow> 1900 \<le> y \<and> y \<le> 2100) date_formats"

definition aba_weights :: "int list" where
  "aba_weights = [3, 7, 1, 3, 7, 1, 3, 7, 1]"

definition aba_checksum :: "string \<Rightarrow> bool res" where
  "aba_checksum value =
     (let digits = drop_spaces value in
      if \<not> str_isdigit digits \<or> length digits \<noteq> 9 then Inr False
      else
        rbind (map_res (\<lambda>c. int_of [c]) digits) (\<lambda>d.
          Inr ((\<Sum>i \<leftarrow> [0..<9]. d ! i * aba_weights ! i) mod 10 = 0)))"

type_synonym validator = "string \<Rightarrow> bool res"

definition VALIDATORS :: "(string \<times> validator) list" where
  "VALIDATORS =
     [(''luhn'', luhn),
      (''ssn_area'', ssn_area),
      (''phone_format'', phone_format),
      (''email_domain'', \<lambda>v. Inr (email_domain v)),
      (''iban_mod97'', iban_mod97),
      (''passport_format'', \<lambda>v. Inr (passport_format v)),
      (''drivers_license_format'', \<lambda>v. Inr (drivers_license_format v)),
      (''ipv4_range'', \<lambda>v. Inr (ipv4_range v)),
      (''date_calendar'', \<lambda>v. Inr (date_calendar v)),
      (''aba_checksum'', aba_checksum)]"


section \<open>Lemmas on single characters\<close>

lemma is_digit_not_space: "is_digit c \<Longrightarrow> \<not> is_space c"
  by (auto simp: is_digit_def is_decimal_def is_space_def Let_def)

lemma is_digit_not_sign: "is_digit c \<Longrightarrow> c \<noteq> CHR ''-'' \<and> c \<noteq> CHR ''+'' \<and> c \<noteq> CHR ''_''"
  by (auto simp: is_digit_def is_decimal_def code_def)

lemma strip_single: "\<not> is_space c \<Longrightarrow> strip [c] = [c]"
  by (simp add: strip_def lstrip_def rstrip_def)

text \<open>\<open>int\<close> of a single digit character: its value, or an error for a superscript.\<close>

lemma int_of_digit:
  "is_digit c \<Longrightarrow>
   int_of [c] = (if is_decimal c then Inr (digit_val c) else Inl (invalid_literal [c]))"
  by (simp add: int_of_def py_int_def py_nat_def strip_single is_digit_not_space
      is_digit_not_sign horner_def)

lemma int_of_decimals:
  assumes "s \<noteq> []" and "\<And>c. c \<in> set s \<Longrightarrow> is_decimal c" and "length s \<le> 4300"
  shows "int_of s = Inr (horner 0 (map digit_val s))"
proof -
  have "strip s = s" using assms by (simp add: strip_decimal)
  moreover have "py_nat s = Some (horner 0 (map digit_val s))"
    using assms by (simp add: py_nat_def int_digits_decimal)
  moreover obtain c cs where "s = c # cs" using assms(1) by (cases s) auto
  moreover have "c \<noteq> CHR ''-'' \<and> c \<noteq> CHR ''+''" if "s = c # cs" for c cs
    using assms(2) [of c] that is_digit_not_sign is_decimal_is_digit by auto
  ultimately show ?thesis by (auto simp: int_of_def py_int_def)
qed

section \<open>The Luhn checksum\<close>

text \<open>The reference sum: alternate digits, counted from the right, are doubled.\<close>

fun luhn_sum :: "nat \<Rightarrow> int list \<Rightarrow> int" where
  "luhn_sum i [] = 0"
| "luhn_sum i (d # ds) = luhn_term i d + luhn_sum (Suc i) ds"

lemma luhn_loop_decimal:
  "(\<And>c. c \<in> set s \<Longrightarrow> is_decimal c) \<Longrightarrow>
   luhn_loop i s t = Inr (t + luhn_sum i (map digit_val s))"
  by (induction s arbitrary: i t) (auto simp: int_of_digit is_decimal_is_digit)

lemma luhn_loop_raises:
  "(\<And>c. c \<in> set s \<Longrightarrow> is_digit c) \<Longrightarrow> c \<in> set s \<Longrightarrow> \<not> is_decimal c \<Longrightarrow>
   \<exists>e. luhn_loop i s t = Inl e \<and> exn_cls e = ValueError"
proof (induction s arbitrary: i t)
  case (Cons x s)
  then show ?case by (cases "is_decimal x") (auto simp: int_of_digit invalid_literal_def)
qed simp

lemma luhn_sum_append: "luhn_sum i (xs @ ys) = luhn_sum i xs + luhn_sum (i + length xs) ys"
  by (induction xs arbitrary: i) auto

lemma luhn_term_inject:
  assumes "0 \<le> a" "a < 10" "0 \<le> b" "b < 10" "(luhn_term i a - luhn_term i b) mod 10 = 0"
  shows "a = b"
proof -
  have digit: "x \<in> {0,1,2,3,4,5,6,7,8,9}" if "0 \<le> x" "x < 10" for x :: int
    using that by (simp, presburger)
  from digit [OF assms(1,2)] digit [OF assms(3,4)] show ?thesis using assms(5) by (cases "i mod 2 = 1") (auto simp: luhn_term_def)
qed

lemma luhn_True_iff:
  "luhn v = Inr True \<longleftrightarrow>
     (\<forall>c \<in> set (drop_spaces_dashes v). is_decimal c) \<and> 13 \<le> length (drop_spaces_dashes v) \<and>
     luhn_sum 0 (map digit_val (rev (drop_spaces_dashes v))) mod 10 = 0"
  (is "_ \<longleftrightarrow> ?D \<and> ?L \<and> ?S")
proof -
  let ?d = "drop_spaces_dashes v"
  show ?thesis
  proof (cases "str_isdigit ?d \<and> 13 \<le> length ?d")
    case False
    then have "luhn v = Inr False" by (auto simp: luhn_def Let_def)
    moreover have "\<not> (?D \<and> ?L)"
      using False by (auto simp: str_isdigit_def list_all_iff is_decimal_is_digit)
    ultimately show ?thesis by auto
  next
    case True
    then have dig: "\<And>c. c \<in> set (rev ?d) \<Longrightarrow> is_digit c"
      by (simp add: str_isdigit_def list_all_iff)
    have luhn: "luhn v = rbind (luhn_loop 0 (rev ?d) 0) (\<lambda>tot. Inr (tot mod 10 = 0))"
      using True by (simp add: luhn_def Let_def)
    show ?thesis
    proof (cases ?D)
      case D: True
      then have "luhn_loop 0 (rev ?d) 0 = Inr (luhn_sum 0 (map digit_val (rev ?d)))"
        using luhn_loop_decimal [of "rev ?d" 0 0] by simp
      with luhn D True show ?thesis by simp
    next
      case False
      then obtain c where "c \<in> set (rev ?d)" "\<not> is_decimal c" by auto
      from luhn_loop_raises [OF dig this] obtain e where "luhn_loop 0 (rev ?d) 0 = Inl e" by blast
      with luhn False show ?thesis by auto
    qed
  qed
qed

text \<open>
  C32: the checksum catches every single-digit error. If a number is accepted, then the same
  text with one digit replaced by a different digit is rejected, whatever separators it has.
\<close>

theorem luhn_detects_single_error:
  assumes "luhn (pre @ c # post) = Inr True" and "is_decimal c" and "is_decimal d" and "c \<noteq> d"
  shows "luhn (pre @ d # post) = Inr False"
proof -
  let ?D = drop_spaces_dashes
  have keep: "?D (pre @ x # post) = ?D pre @ x # ?D post" if "is_decimal x" for x
    using that by (simp add: drop_spaces_dashes_def is_decimal_not_space
        is_digit_not_sign is_decimal_is_digit)
  let ?f = "\<lambda>x. luhn_sum 0 (map digit_val (rev (?D pre @ x # ?D post)))"
  let ?n = "length (?D post)"
  have f: "?f x = luhn_sum 0 (map digit_val (rev (?D post))) + luhn_term ?n (digit_val x) +
      luhn_sum (Suc ?n) (map digit_val (rev (?D pre)))" for x
    by (simp add: luhn_sum_append)
  from assms(1) have acc: "\<forall>x \<in> set (?D pre @ c # ?D post). is_decimal x"
      "13 \<le> length (?D pre @ c # ?D post)" "?f c mod 10 = 0"
    unfolding luhn_True_iff keep [OF assms(2)] by blast+
  have "?f d mod 10 \<noteq> 0"
  proof
    assume "?f d mod 10 = 0"
    with acc(3) have "(?f c - ?f d) mod 10 = 0" by (simp add: mod_diff_eq [symmetric])
    then have "(luhn_term ?n (digit_val c) - luhn_term ?n (digit_val d)) mod 10 = 0"
      unfolding f by (simp add: algebra_simps)
    then have "digit_val c = digit_val d"
      using luhn_term_inject digit_val_range assms(2,3) by meson
    with assms(4) show False by (simp add: digit_val_def)
  qed
  moreover have "luhn (pre @ d # post) =
      rbind (luhn_loop 0 (rev (?D pre @ d # ?D post)) 0) (\<lambda>tot. Inr (tot mod 10 = 0))"
    using acc(1,2) assms(3)
    by (auto simp: luhn_def Let_def keep str_isdigit_def list_all_iff is_decimal_is_digit)
  moreover have "luhn_loop 0 (rev (?D pre @ d # ?D post)) 0 = Inr (?f d)"
    using luhn_loop_decimal [of "rev (?D pre @ d # ?D post)" 0 0] acc(1) assms(3) by auto
  ultimately show ?thesis by simp
qed

theorem luhn_detects_single_error_witness:
  "luhn ''4111-1111-1111-1111'' = Inr True \<and> luhn ''4111-1211-1111-1111'' = Inr False"
proof -
  have ok: "luhn (''4111-1'' @ CHR ''1'' # ''11-1111-1111'') = Inr True" by code_simp
  have c: "is_decimal CHR ''1''" "is_decimal CHR ''2''" by code_simp+
  show ?thesis using ok luhn_detects_single_error [OF ok c] by simp
qed


text \<open>
  When the validator fails instead of answering. It raises exactly for texts of at least
  13 characters that \<open>str.isdigit\<close> accepts but that hold a superscript digit, which \<open>int\<close>
  refuses; the exception is a \<open>ValueError\<close>.
\<close>

theorem luhn_raises_iff:
  "(\<exists>e. luhn v = Inl e \<and> exn_cls e = ValueError) \<longleftrightarrow>
     str_isdigit (drop_spaces_dashes v) \<and> 13 \<le> length (drop_spaces_dashes v) \<and>
     \<not> list_all is_decimal (drop_spaces_dashes v)"
proof -
  let ?d = "drop_spaces_dashes v"
  show ?thesis
  proof (cases "str_isdigit ?d \<and> 13 \<le> length ?d")
    case False
    then show ?thesis by (auto simp: luhn_def Let_def)
  next
    case True
    then have dig: "\<And>c. c \<in> set (rev ?d) \<Longrightarrow> is_digit c"
      by (simp add: str_isdigit_def list_all_iff)
    have luhn: "luhn v = rbind (luhn_loop 0 (rev ?d) 0) (\<lambda>tot. Inr (tot mod 10 = 0))"
      using True by (simp add: luhn_def Let_def)
    show ?thesis
    proof (cases "list_all is_decimal ?d")
      case D: True
      then have "luhn_loop 0 (rev ?d) 0 = Inr (luhn_sum 0 (map digit_val (rev ?d)))"
        using luhn_loop_decimal [of "rev ?d" 0 0] by (simp add: list_all_iff)
      with luhn D True show ?thesis by simp
    next
      case False
      then obtain c where c: "c \<in> set (rev ?d)" "\<not> is_decimal c" by (auto simp: list_all_iff)
      obtain e where "luhn_loop 0 (rev ?d) 0 = Inl e" "exn_cls e = ValueError"
        using luhn_loop_raises [of "rev ?d" c 0 0] dig c by blast
      with luhn False True show ?thesis by simp
    qed
  qed
qed

section \<open>The routing-number checksum\<close>

lemma map_res_decimals:
  "(\<And>c. c \<in> set s \<Longrightarrow> is_decimal c) \<Longrightarrow> map_res (\<lambda>c. int_of [c]) s = Inr (map digit_val s)"
  by (induction s) (auto simp: int_of_digit is_decimal_is_digit)

lemma map_res_decimals_only:
  "map_res (\<lambda>c. int_of [c]) s = Inr ds \<Longrightarrow> (\<And>c. c \<in> set s \<Longrightarrow> is_digit c) \<Longrightarrow>
   list_all is_decimal s"
proof (induction s arbitrary: ds)
  case (Cons c s)
  then show ?case by (cases "is_decimal c") (auto simp: int_of_digit split: sum.splits)
qed simp

definition aba_sum :: "int list \<Rightarrow> int" where
  "aba_sum d = (\<Sum>i \<leftarrow> [0..<9]. d ! i * aba_weights ! i)"

lemma aba_decimal:
  "list_all is_decimal (drop_spaces v) \<Longrightarrow> length (drop_spaces v) = 9 \<Longrightarrow>
   aba_checksum v = Inr (aba_sum (map digit_val (drop_spaces v)) mod 10 = 0)"
  by (auto simp: aba_checksum_def Let_def str_isdigit_def list_all_iff is_decimal_is_digit
      map_res_decimals aba_sum_def)

lemma aba_True_decimal:
  assumes "aba_checksum v = Inr True"
  shows "list_all is_decimal (drop_spaces v) \<and> length (drop_spaces v) = 9"
proof -
  let ?d = "drop_spaces v"
  from assms have d: "str_isdigit ?d" "length ?d = 9"
    by (auto simp: aba_checksum_def Let_def split: if_splits)
  with assms obtain ds where "map_res (\<lambda>c. int_of [c]) ?d = Inr ds"
    by (auto simp: aba_checksum_def Let_def rbind_Inr_iff)
  from map_res_decimals_only [OF this] d show ?thesis
    by (simp add: str_isdigit_def list_all_iff)
qed

lemma aba_sum_update:
  assumes "length ds = 9" and "n < 9"
  shows "aba_sum (ds[n := x]) - aba_sum ds = (x - ds ! n) * aba_weights ! n"
proof -
  have sum: "aba_sum d = (\<Sum>i \<in> {0..<9}. d ! i * aba_weights ! i)" for d
    by (simp add: aba_sum_def interv_sum_list_conv_sum_set_nat)
  have "aba_sum (ds[n := x]) - aba_sum ds =
      (\<Sum>i \<in> {0..<9}. ds[n := x] ! i * aba_weights ! i - ds ! i * aba_weights ! i)"
    unfolding sum by (rule sum_subtractf [symmetric])
  also have "\<dots> = (\<Sum>i \<in> {0..<9}. if i = n then (x - ds ! n) * aba_weights ! n else 0)"
    using assms by (intro sum.cong) (auto simp: nth_list_update algebra_simps)
  also have "\<dots> = (x - ds ! n) * aba_weights ! n"
    using assms(2) by simp
  finally show ?thesis .
qed

lemma weight_coprime: "n < 9 \<Longrightarrow> coprime (aba_weights ! n) 10"
proof -
  have "list_all (\<lambda>w. gcd w 10 = (1::int)) aba_weights" by code_simp
  then show "n < 9 \<Longrightarrow> coprime (aba_weights ! n) 10"
    by (simp add: list_all_length aba_weights_def coprime_iff_gcd_eq_1)
qed

text \<open>
  The 3-7-1 checksum catches every single-digit error, since no weight shares a factor
  with 10.
\<close>

theorem aba_detects_single_error:
  assumes "aba_checksum (pre @ c # post) = Inr True"
    and "is_decimal c" and "is_decimal d" and "c \<noteq> d"
  shows "aba_checksum (pre @ d # post) = Inr False"
proof -
  let ?D = drop_spaces
  have keep: "?D (pre @ x # post) = ?D pre @ x # ?D post" if "is_decimal x" for x
    using that by (simp add: drop_spaces_def is_decimal_not_space)
  let ?f = "\<lambda>x. map digit_val (?D pre @ x # ?D post)" and ?n = "length (?D pre)"
  have dec: "list_all is_decimal (?D pre @ c # ?D post)" "length (?D pre @ c # ?D post) = 9"
    using aba_True_decimal [OF assms(1)] keep [OF assms(2)] by simp_all
  then have n: "?n < 9" by simp
  have fd: "?f d = (?f c)[?n := digit_val d]"
    by (simp add: list_update_append)
  have at: "(?f c) ! ?n = digit_val c" by (simp add: nth_append)
  have acc: "aba_sum (?f c) mod 10 = 0"
    using assms(1) aba_decimal [of "pre @ c # post"] dec keep [OF assms(2)] by simp
  have "aba_sum (?f d) mod 10 \<noteq> 0"
  proof
    assume "aba_sum (?f d) mod 10 = 0"
    then have "10 dvd aba_sum (?f d) - aba_sum (?f c)" using acc
      by (intro dvd_diff) (simp_all only: dvd_eq_mod_eq_0)
    then have "10 dvd (digit_val d - digit_val c) * aba_weights ! ?n"
      using aba_sum_update [OF _ n, of "?f c" "digit_val d"] dec(2) unfolding fd at by simp
    then have "10 dvd digit_val d - digit_val c"
      using weight_coprime [OF n] by (metis coprime_commute coprime_dvd_mult_left_iff)
    then have "digit_val d = digit_val c"
      using digit_val_range [OF assms(2)] digit_val_range [OF assms(3)] by presburger
    with assms(4) show False by (simp add: digit_val_def)
  qed
  then show ?thesis
    using aba_decimal [of "pre @ d # post"] dec assms(3) keep [OF assms(3)] by simp
qed

theorem aba_detects_single_error_witness:
  "aba_checksum ''021000021'' = Inr True \<and> aba_checksum ''021000121'' = Inr False"
proof -
  have ok: "aba_checksum (''021000'' @ CHR ''0'' # ''21'') = Inr True" by code_simp
  have c: "is_decimal CHR ''0''" "is_decimal CHR ''1''" by code_simp+
  show ?thesis using ok aba_detects_single_error [OF ok c] by simp
qed


section \<open>Social security numbers\<close>

lemma horner_split: "horner a xs = a * 10 ^ length xs + horner 0 xs"
proof (induction xs arbitrary: a)
  case (Cons x xs)
  have "horner a (x # xs) = horner (10 * a + x) xs" by (simp add: horner_def)
  also have "\<dots> = (10 * a + x) * 10 ^ length xs + horner 0 xs" by (rule Cons.IH)
  also have "\<dots> = a * 10 ^ length (x # xs) + (x * 10 ^ length xs + horner 0 xs)"
    by (simp add: algebra_simps)
  also have "x * 10 ^ length xs + horner 0 xs = horner x xs" by (rule Cons.IH [symmetric])
  also have "horner x xs = horner 0 (x # xs)" by (simp add: horner_def)
  finally show ?case .
qed (simp add: horner_def)

definition num :: "string \<Rightarrow> int" where
  "num s = horner 0 (map digit_val s)"

lemma num_append: "num (s @ t) = num s * 10 ^ length t + num t"
  by (simp add: num_def horner_append horner_split [of "horner 0 (map digit_val s)"])

lemma num_bounds: "list_all is_decimal s \<Longrightarrow> 0 \<le> num s \<and> num s < 10 ^ length s"
  using horner_bounds [of "map digit_val s" 0] digit_val_range
  by (fastforce simp: num_def list_all_iff)

lemma int_of_num: "list_all is_decimal s \<Longrightarrow> s \<noteq> [] \<Longrightarrow> length s \<le> 4300 \<Longrightarrow> int_of s = Inr (num s)"
  by (simp add: int_of_decimals num_def list_all_iff)

lemma decimal_parts:
  fixes a b c :: int
  assumes "0 \<le> a" "a < 1000" "0 \<le> b" "b < 100" "0 \<le> c" "c < 10000"
  shows "(a * 1000000 + b * 10000 + c) div 1000000 = a"
    "(a * 1000000 + b * 10000 + c) div 10000 mod 100 = b"
    "(a * 1000000 + b * 10000 + c) mod 10000 = c"
proof -
  show "(a * 1000000 + b * 10000 + c) div 1000000 = a"
    by (rule int_div_pos_eq [where r = "b * 10000 + c"]) (use assms in linarith)+
  show "(a * 1000000 + b * 10000 + c) mod 10000 = c"
    by (rule int_mod_pos_eq [where q = "a * 100 + b"]) (use assms in simp_all)
  have "(a * 1000000 + b * 10000 + c) div 10000 = a * 100 + b"
    by (rule int_div_pos_eq [where r = c]) (use assms in simp_all)
  moreover have "(a * 100 + b) mod 100 = b"
    by (rule int_mod_pos_eq [where q = a]) (use assms in linarith)+
  ultimately show "(a * 1000000 + b * 10000 + c) div 10000 mod 100 = b" by simp
qed

text \<open>
  On nine decimal digits the check is the stated rule about the number they spell: area
  (first three digits) not 000, 666 or 900 and above, group not 00, serial not 0000.
\<close>

theorem ssn_area_spec:
  assumes "list_all is_decimal (drop_spaces_dashes v)" and "length (drop_spaces_dashes v) = 9"
  shows "ssn_area v =
    (let n = num (drop_spaces_dashes v);
         area = n div 1000000; grp = n div 10000 mod 100; serial = n mod 10000
     in Inr (area \<noteq> 0 \<and> area \<noteq> 666 \<and> area < 900 \<and> grp \<noteq> 0 \<and> serial \<noteq> 0))"
proof -
  let ?d = "drop_spaces_dashes v"
  let ?a = "take 3 ?d" and ?b = "slice ?d 3 5" and ?c = "drop 5 ?d"
  have "?b @ ?c = drop 3 ?d"
    using append_take_drop_id [of 2 "drop 3 ?d"] by (simp add: slice_def)
  then have d: "?d = ?a @ ?b @ ?c" by simp
  have len: "length ?a = 3" "length ?b = 2" "length ?c = 4" using assms(2) by auto
  have dec: "list_all is_decimal ?a" "list_all is_decimal ?b" "list_all is_decimal ?c"
    using assms(1) by (auto simp: list_all_iff slice_def dest!: in_set_takeD in_set_dropD)
  have bnd: "0 \<le> num ?a" "num ?a < 1000" "0 \<le> num ?b" "num ?b < 100" "0 \<le> num ?c" "num ?c < 10000"
    using num_bounds [OF dec(1)] num_bounds [OF dec(2)] num_bounds [OF dec(3)] len by simp_all
  have n: "num ?d = num ?a * 1000000 + num ?b * 10000 + num ?c"
    by (subst d) (simp only: num_append length_append len, simp)
  have parts: "num ?d div 1000000 = num ?a" "num ?d div 10000 mod 100 = num ?b"
      "num ?d mod 10000 = num ?c"
    unfolding n using bnd by (rule decimal_parts)+
  have "int_of ?a = Inr (num ?a)" "int_of ?b = Inr (num ?b)" "int_of ?c = Inr (num ?c)"
    by (rule int_of_num, use dec len in fastforce, use len in force, use len in simp)+
  moreover have "str_isdigit ?d"
    using assms by (auto simp: str_isdigit_def list_all_iff is_decimal_is_digit)
  ultimately show ?thesis
    using assms(2) bnd by (auto simp: ssn_area_def Let_def parts)
qed

theorem ssn_area_spec_witness:
  "ssn_area ''666-12-3456'' = Inr False \<and> ssn_area ''123-45-6789'' = Inr True"
proof -
  have a: "list_all is_decimal (drop_spaces_dashes ''666-12-3456'')"
      "length (drop_spaces_dashes ''666-12-3456'') = 9"
      "num (drop_spaces_dashes ''666-12-3456'') = 666123456"
    by code_simp+
  have b: "list_all is_decimal (drop_spaces_dashes ''123-45-6789'')"
      "length (drop_spaces_dashes ''123-45-6789'') = 9"
      "num (drop_spaces_dashes ''123-45-6789'') = 123456789"
    by code_simp+
  show ?thesis
    by (simp only: ssn_area_spec [OF a(1,2)] ssn_area_spec [OF b(1,2)] a(3) b(3) Let_def) simp
qed

section \<open>Calendar dates\<close>

text \<open>The printed forms of a date: two digits for month and day, four for the year.\<close>

definition dig :: "int \<Rightarrow> char" where
  "dig n = char_of (nat (48 + n))"

definition two_digits :: "int \<Rightarrow> string" where
  "two_digits n = [dig (n div 10), dig (n mod 10)]"

definition four_digits :: "int \<Rightarrow> string" where
  "four_digits n = two_digits (n div 100) @ two_digits (n mod 100)"

lemma dig_simps:
  assumes "0 \<le> n" "n < 10"
  shows "is_decimal (dig n)" "digit_val (dig n) = n"
proof -
  have "code (dig n) = nat (48 + n)" using assms by (simp add: dig_def)
  then show "is_decimal (dig n)" "digit_val (dig n) = n"
    using assms by (auto simp: is_decimal_def digit_val_def)
qed

lemma dig_not_sep:
  assumes "0 \<le> n" "n < 10" shows "dig n \<noteq> CHR ''/''" "dig n \<noteq> CHR ''-''" "dig n \<noteq> CHR '' ''"
  using dig_simps(1) [OF assms] by (auto simp: is_decimal_def code_def)

lemma two_digits_facts:
  assumes "0 \<le> n" "n < 100"
  shows "list_all is_decimal (two_digits n)" "length (two_digits n) = 2"
    "horner 0 (map digit_val (two_digits n)) = n"
    "CHR ''/'' \<notin> set (two_digits n)" "CHR ''-'' \<notin> set (two_digits n)"
    "hd (two_digits n) \<noteq> CHR '' ''"
proof -
  have "0 \<le> n div 10" "n div 10 < 10" "0 \<le> n mod 10" "n mod 10 < 10" using assms by auto
  note f = dig_simps [OF this(1,2)] dig_simps [OF this(3,4)] dig_not_sep [OF this(1,2)]
    dig_not_sep [OF this(3,4)]
  show "list_all is_decimal (two_digits n)" "length (two_digits n) = 2"
    "horner 0 (map digit_val (two_digits n)) = n"
    "CHR ''/'' \<notin> set (two_digits n)" "CHR ''-'' \<notin> set (two_digits n)"
    "hd (two_digits n) \<noteq> CHR '' ''"
    using f by (auto simp: two_digits_def horner_def)
qed

lemma month_field_two:
  "0 \<le> m \<Longrightarrow> m < 100 \<Longrightarrow> month_field (two_digits m) = (if 1 \<le> m \<and> m \<le> 12 then Some m else None)"
  by (simp add: month_field_def two_digits_facts)

lemma day_field_two:
  assumes "0 \<le> d" "d < 100"
  shows "day_field (two_digits d) = (if 1 \<le> d \<and> d \<le> 31 then Some d else None)"
proof -
  have "(case two_digits d of c # cs \<Rightarrow> if c = CHR '' '' \<and> length cs = 1 then cs else two_digits d
      | [] \<Rightarrow> two_digits d) = two_digits d"
    using two_digits_facts(6) [OF assms] by (simp add: two_digits_def)
  then show ?thesis using assms by (simp add: day_field_def two_digits_facts Let_def)
qed

lemma four_digits_facts:
  assumes "0 \<le> n" "n < 10000"
  shows "list_all is_decimal (four_digits n)" "length (four_digits n) = 4"
    "year_field (four_digits n) = Some n"
    "CHR ''/'' \<notin> set (four_digits n)" "CHR ''-'' \<notin> set (four_digits n)"
proof -
  have r: "0 \<le> n div 100" "n div 100 < 100" "0 \<le> n mod 100" "n mod 100 < 100" using assms by auto
  note f = two_digits_facts [OF r(1,2)] two_digits_facts [OF r(3,4)]
  show a: "list_all is_decimal (four_digits n)" "length (four_digits n) = 4"
    "CHR ''/'' \<notin> set (four_digits n)" "CHR ''-'' \<notin> set (four_digits n)"
    using f by (auto simp: four_digits_def)
  have "num (four_digits n) = n div 100 * 100 + n mod 100"
    using f by (simp add: four_digits_def num_append) (simp add: num_def)
  then have "horner 0 (map digit_val (four_digits n)) = n" by (simp add: num_def)
  with a show "year_field (four_digits n) = Some n" by (simp add: year_field_def)
qed

lemma strip_ends: "s \<noteq> [] \<Longrightarrow> \<not> is_space (hd s) \<Longrightarrow> \<not> is_space (last s) \<Longrightarrow> strip s = s"
proof -
  assume a: "s \<noteq> []" "\<not> is_space (hd s)" "\<not> is_space (last s)"
  then have "lstrip s = s" by (cases s) (simp_all add: lstrip_def)
  moreover have "dropWhile is_space (rev s) = rev s"
    using a by (cases s rule: rev_cases) simp_all
  ultimately show ?thesis by (simp add: strip_def rstrip_def)
qed

lemma strptime_MDY:
  assumes "0 \<le> m" "m < 100" "0 \<le> d" "d < 100" "0 \<le> y" "y < 10000"
    and "sep = CHR ''/'' \<or> sep = CHR ''-''"
  shows "strptime (join [sep] [two_digits m, two_digits d, four_digits y]) (MDY sep) =
           (if valid_date y m d then Some (y, m, d) else None)"
proof -
  have "split_on sep (join [sep] [two_digits m, two_digits d, four_digits y]) =
      [two_digits m, two_digits d, four_digits y]"
    using assms two_digits_facts(4,5) four_digits_facts(4,5)
    by (intro split_on_join) auto
  then show ?thesis
    using assms
    by (auto simp: month_field_two day_field_two four_digits_facts make_date_def valid_date_def
        days_in_month_def split: if_splits)
qed

text \<open>
  A date printed as MM/DD/YYYY is accepted exactly when it is a day of the calendar
  (month lengths and leap years included) in the years 1900 to 2100.
\<close>

theorem date_calendar_mdy:
  assumes "0 \<le> m" "m < 100" "0 \<le> d" "d < 100" "0 \<le> y" "y < 10000"
  shows "date_calendar (join ''/'' [two_digits m, two_digits d, four_digits y]) \<longleftrightarrow>
           valid_date y m d \<and> 1900 \<le> y \<and> y \<le> 2100"
proof -
  let ?s = "join ''/'' [two_digits m, two_digits d, four_digits y]"
  have nodash: "CHR ''-'' \<notin> set ?s"
    using assms two_digits_facts(5) four_digits_facts(5) by auto
  have m: "two_digits m \<noteq> []" "is_decimal (hd (two_digits m))"
    using two_digits_facts(1) [OF assms(1,2)] by (simp_all add: two_digits_def)
  have "is_decimal (last (four_digits y))"
    using four_digits_facts(1) [OF assms(5,6)] by (simp add: four_digits_def two_digits_def)
  moreover have "four_digits y \<noteq> []" by (simp add: four_digits_def two_digits_def)
  ultimately have "strip ?s = ?s" using m
    by (intro strip_ends) (auto simp: is_decimal_not_space)
  then show ?thesis
    using strptime_MDY [of m d y "CHR ''/''"] assms split_on_free [OF nodash]
    by (auto simp: date_calendar_def date_formats_def)
qed

theorem date_calendar_mdy_witness:
  "date_calendar ''02/29/2000'' \<and> \<not> date_calendar ''02/29/1900''"
proof -
  have t: "join ''/'' [two_digits 2, two_digits 29, four_digits 2000] = ''02/29/2000''"
      "join ''/'' [two_digits 2, two_digits 29, four_digits 1900] = ''02/29/1900''"
    by code_simp+
  show ?thesis
    using date_calendar_mdy [of 2 29 2000, unfolded t] date_calendar_mdy [of 2 29 1900, unfolded t]
    by (simp add: valid_date_def days_in_month_def leap_year_def)
qed


section \<open>IBAN numbers\<close>

lemma int_digits_some:
  "int_digits prev s = Some ds \<Longrightarrow> list_all is_digit s \<Longrightarrow>
   list_all is_decimal s \<and> ds = map digit_val s"
proof (induction s arbitrary: prev ds)
  case (Cons c s)
  then have "c \<noteq> CHR ''_''" using is_digit_not_sign by auto
  with Cons show ?case by (cases "is_decimal c") auto
qed (auto split: if_splits)

text \<open>When \<open>int\<close> accepts a text made of digit characters, they are decimal ones.\<close>

lemma int_of_digits_Inr:
  assumes "int_of s = Inr n" and "list_all is_digit s"
  shows "list_all is_decimal s \<and> n = num s \<and> length s \<le> 4300 \<and> s \<noteq> []"
proof -
  have "s \<noteq> []" using assms(1) by (auto simp: int_of_def py_int_def strip_def lstrip_def rstrip_def)
  then obtain c cs where s: "s = c # cs" by (cases s) auto
  then have c: "is_digit c" using assms(2) by simp
  have "strip s = s"
    using assms(2) \<open>s \<noteq> []\<close> last_in_set [of s]
    by (intro strip_ends) (auto simp: s list_all_iff is_digit_not_space)
  then have "py_nat s = Some n"
    using assms(1) is_digit_not_sign [OF c] by (auto simp: int_of_def py_int_def s split: option.splits)
  then obtain ds where "int_digits False s = Some ds" "n = horner 0 ds" "length ds \<le> 4300"
    by (auto simp: py_nat_def split: option.splits if_splits)
  with int_digits_some [OF this(1) assms(2)] \<open>s \<noteq> []\<close> show ?thesis by (auto simp: num_def)
qed

lemma iban_numeric_append:
  "iban_numeric (xs @ ys) =
     (case iban_numeric xs of None \<Rightarrow> None | Some u \<Rightarrow> map_option (append u) (iban_numeric ys))"
proof (induction xs)
  case Nil
  then show ?case by (cases "iban_numeric ys") auto
next
  case (Cons x xs)
  then show ?case by (cases "iban_numeric ys") (auto split: option.splits)
qed

lemma cp_alpha_ge: "cp_alpha n \<Longrightarrow> 65 \<le> n"
  by (auto simp: cp_alpha_def is_alpha_def Let_def split: if_splits)

lemma iban_numeric_digits: "iban_numeric xs = Some s \<Longrightarrow> list_all is_digit s"
proof (induction xs arbitrary: s)
  case (Cons x xs)
  show ?case
  proof (cases "cp_digit x")
    case True
    with Cons show ?thesis by (auto simp: cp_digit_def)
  next
    case False
    with Cons.prems obtain t where t: "iban_numeric xs = Some t" "cp_alpha x"
        "s = int_str (int x - 65 + 10) @ t"
      by (auto split: if_splits)
    have "list_all is_digit (int_str (int x - 65 + 10))"
      using cp_alpha_ge [OF t(2)]
      by (auto simp: int_str_def list_all_iff is_decimal_is_digit dest: nat_str_decimal)
    with t Cons.IH show ?thesis by simp
  qed
qed simp

lemma upper_decimal: "is_decimal c \<Longrightarrow> upper_codes c = [code c]"
  by (auto simp: upper_codes_def is_decimal_def Let_def)

lemma cp_decimal: "is_decimal c \<Longrightarrow> cp_digit (code c) \<and> char_of (code c) = c"
  by (simp add: cp_digit_def is_decimal_is_digit code_def)

text \<open>The code's rearrangement puts the changed character somewhere, the same place for all.\<close>

lemma rearranged_split:
  "\<exists>u v. \<forall>x. drop 4 (p @ x # q) @ take 4 (p @ x # q) = u @ x # v"
proof (cases "length p < 4")
  case True
  then obtain k where k: "4 = length p + Suc k" by (metis less_iff_Suc_add add_Suc_right)
  have "drop 4 (p @ x # q) @ take 4 (p @ x # q) = (drop k q @ p) @ x # take k q" for x
    unfolding k by simp
  then show ?thesis by blast
next
  case False
  then have "drop 4 (p @ x # q) @ take 4 (p @ x # q) = drop 4 p @ x # (q @ take 4 p)" for x
    by simp
  then show ?thesis by blast
qed

lemma iban_True:
  assumes "iban_mod97 v = Inr True"
  shows "\<exists>s. iban_numeric (drop 4 (upper (drop_spaces v)) @ take 4 (upper (drop_spaces v))) = Some s \<and>
           list_all is_decimal s \<and> num s mod 97 = 1 \<and> length s \<le> 4300"
proof -
  from assms obtain s n
    where "iban_numeric (drop 4 (upper (drop_spaces v)) @ take 4 (upper (drop_spaces v))) = Some s"
      "int_of s = Inr n" "n mod 97 = 1"
    by (auto simp: iban_mod97_def Let_def rbind_Inr_iff split: if_splits option.splits)
  with int_of_digits_Inr [OF this(2) iban_numeric_digits [OF this(1)]] show ?thesis by auto
qed

lemma iban_cases:
  assumes "iban_numeric (drop 4 (upper (drop_spaces v)) @ take 4 (upper (drop_spaces v))) = Some s"
    and "list_all is_decimal s" and "length s \<le> 4300" and "num s mod 97 \<noteq> 1" and "s \<noteq> []"
  shows "iban_mod97 v = Inr False"
  using assms by (simp add: iban_mod97_def Let_def int_of_num)

text \<open>
  The MOD-97 check catches every single-digit error, wherever the digit stands in the
  account number and whatever spaces surround it: 97 is prime to 10 and larger than any
  difference of two digits.
\<close>

theorem iban_detects_single_error:
  assumes "iban_mod97 (pre @ c # post) = Inr True"
    and "is_decimal c" and "is_decimal d" and "c \<noteq> d"
  shows "iban_mod97 (pre @ d # post) = Inr False"
proof -
  let ?p = "upper (drop_spaces pre)" and ?q = "upper (drop_spaces post)"
  have clean: "upper (drop_spaces (pre @ x # post)) = ?p @ code x # ?q" if "is_decimal x" for x
    using that by (simp add: drop_spaces_def upper_def is_decimal_not_space upper_decimal)
  obtain u v where uv: "\<And>x. drop 4 (?p @ x # ?q) @ take 4 (?p @ x # ?q) = u @ x # v"
    using rearranged_split [of ?p ?q] by blast
  from iban_True [OF assms(1)] obtain s where
    s: "iban_numeric (u @ code c # v) = Some s" "list_all is_decimal s" "num s mod 97 = 1"
      "length s \<le> 4300"
    unfolding clean [OF assms(2)] uv by blast
  then obtain a b where ab: "iban_numeric u = Some a" "iban_numeric v = Some b" "s = a @ c # b"
    using cp_decimal [OF assms(2)] by (auto simp: iban_numeric_append split: option.splits)
  then have t: "iban_numeric (u @ code d # v) = Some (a @ d # b)"
    using cp_decimal [OF assms(3)] by (simp add: iban_numeric_append)
  have spelled: "num (a @ x # b) = num a * 10 ^ Suc (length b) + digit_val x * 10 ^ length b + num b" for x
    using num_append [of "a @ [x]" b] num_append [of a "[x]"]
    by (simp add: num_def horner_def algebra_simps)
  have "num (a @ d # b) mod 97 \<noteq> 1"
  proof
    assume "num (a @ d # b) mod 97 = 1"
    then have "97 dvd num (a @ d # b) - num s"
      using s(3) by (metis mod_eq_dvd_iff)
    then have "97 dvd (digit_val d - digit_val c) * 10 ^ length b"
      unfolding ab(3) spelled by (simp add: algebra_simps)
    moreover have "coprime (97::int) (10 ^ length b)"
    proof -
      have "coprime (97::int) 10" by code_simp
      then show ?thesis by simp
    qed
    ultimately have "97 dvd digit_val d - digit_val c"
      by (simp add: coprime_dvd_mult_left_iff)
    then have "digit_val d = digit_val c"
      using digit_val_range [OF assms(2)] digit_val_range [OF assms(3)] by presburger
    with assms(4) show False by (simp add: digit_val_def)
  qed
  then show ?thesis
    using t s(2,4) assms(3) unfolding ab(3)
    by (intro iban_cases [of "pre @ d # post" "a @ d # b"]) (simp_all only: clean [OF assms(3)] uv, simp_all)
qed

theorem iban_detects_single_error_witness:
  "iban_mod97 ''GB82 WEST 1234 5698 7654 32'' = Inr True \<and>
   iban_mod97 ''GB82 WEST 1234 5698 7654 42'' = Inr False"
proof -
  have ok: "iban_mod97 (''GB82 WEST 1234 5698 7654 '' @ CHR ''3'' # ''2'') = Inr True" by code_simp
  have c: "is_decimal CHR ''3''" "is_decimal CHR ''4''" by code_simp+
  show ?thesis using ok iban_detects_single_error [OF ok c] by simp
qed

end
