(* ===== verification/RegexAnalyzer.thy ===== *)
theory RegexAnalyzer
  imports Engine
begin

text \<open>
  \<open>server/detection/analyzers/regex_analyzer.py\<close>. The RE2 library is a parameter: what
  \<open>re2.compile\<close> raises for a pattern and the spans \<open>finditer\<close> yields for a pattern on a text.
  A match object's \<open>group(0)\<close> is the text between its \<open>start()\<close> and its \<open>end()\<close>.
\<close>

section \<open>The library\<close>

record re2_lib =
  re2_compile :: "string \<Rightarrow> exn option"
  re2_finditer :: "string \<Rightarrow> string \<Rightarrow> (nat \<times> nat) list"

text \<open>Documented: the spans of \<open>finditer\<close> lie in the scanned text.\<close>

definition finditer_ok :: "re2_lib \<Rightarrow> bool" where
  "finditer_ok lib \<longleftrightarrow>
     (\<forall>p t. \<forall>(s, e) \<in> set (re2_finditer lib p t). s \<le> e \<and> e \<le> length t)"

lemma finditer_okD:
  "finditer_ok lib \<Longrightarrow> (s, e) \<in> set (re2_finditer lib p t) \<Longrightarrow> s \<le> e \<and> e \<le> length t"
  by (fastforce simp: finditer_ok_def)

section \<open>Construction\<close>

record regex_pattern =
  rp_name :: string
  rp_pattern :: string
  rp_description :: string
  rp_confidence :: rat

text \<open>The loop of the constructor; the first pattern that does not compile is raised.\<close>

fun compile_patterns :: "re2_lib \<Rightarrow> regex_pattern list \<Rightarrow> regex_pattern list res" where
  "compile_patterns lib [] = Inr []"
| "compile_patterns lib (rp # rps) =
     (case re2_compile lib (rp_pattern rp) of
        Some exc \<Rightarrow> Inl exc
      | None \<Rightarrow> rbind (compile_patterns lib rps) (\<lambda>cs. Inr (rp # cs)))"

definition regex_match :: "string \<Rightarrow> regex_pattern \<Rightarrow> message_component \<Rightarrow> nat \<times> nat \<Rightarrow> match" where
  "regex_match name rp c = (\<lambda>(s, e).
     \<lparr>analyzer_name = name, rule_name = rp_name rp, match_component = c,
      matched_text = slice (comp_content c) s e, start_offset = int s, end_offset = int e,
      confidence = rp_confidence rp,
      match_meta = [(''pattern'', PyStr (rp_pattern rp)),
                    (''description'', PyStr (rp_description rp))]\<rparr>)"

definition regex_analyze ::
  "re2_lib \<Rightarrow> string \<Rightarrow> regex_pattern list \<Rightarrow> component_type list option \<Rightarrow> parsed_message
   \<Rightarrow> match list" where
  "regex_analyze lib name pats targets msg =
     concat (map (\<lambda>rp.
       concat (map (\<lambda>c.
         map (regex_match name rp c) (re2_finditer lib (rp_pattern rp) (comp_content c)))
         (get_target_components targets msg))) pats)"

definition regex_object ::
  "re2_lib \<Rightarrow> string \<Rightarrow> regex_pattern list \<Rightarrow> component_type list option \<Rightarrow> analyzer" where
  "regex_object lib name pats targets =
     \<lparr>an_name = name, an_targets = targets,
      an_analyze = (\<lambda>msg. Inr (regex_analyze lib name pats targets msg))\<rparr>"

definition RegexAnalyzer ::
  "re2_lib \<Rightarrow> string \<Rightarrow> regex_pattern list \<Rightarrow> component_type list option \<Rightarrow> analyzer res" where
  "RegexAnalyzer lib name pats targets =
     rbind (compile_patterns lib pats) (\<lambda>compiled. Inr (regex_object lib name compiled targets))"

section \<open>Lemmas\<close>

lemma compile_patterns_Inr:
  "compile_patterns lib pats = Inr cs \<longleftrightarrow>
     cs = pats \<and> (\<forall>rp \<in> set pats. re2_compile lib (rp_pattern rp) = None)"
  by (induction pats arbitrary: cs) (auto simp: rbind_Inr_iff split: option.splits)

lemma compile_patterns_Inl:
  "compile_patterns lib pats = Inl exc \<Longrightarrow>
     \<exists>us rp vs. pats = us @ rp # vs \<and> list_all (\<lambda>r. re2_compile lib (rp_pattern r) = None) us \<and>
        re2_compile lib (rp_pattern rp) = Some exc"
proof (induction pats)
  case (Cons p pats)
  show ?case
  proof (cases "re2_compile lib (rp_pattern p)")
    case None
    with Cons.prems have "compile_patterns lib pats = Inl exc" by (simp add: rbind_Inl_iff)
    from Cons.IH [OF this] obtain us rp vs where "pats = us @ rp # vs"
      "list_all (\<lambda>r. re2_compile lib (rp_pattern r) = None) us"
      "re2_compile lib (rp_pattern rp) = Some exc" by blast
    then show ?thesis using None by (intro exI [of _ "p # us"]) auto
  next
    case (Some e)
    then show ?thesis using Cons.prems by (intro exI [of _ "[]"]) auto
  qed
qed simp

lemma regex_analyze_mem:
  "m \<in> set (regex_analyze lib name pats targets msg) \<longleftrightarrow>
     (\<exists>rp \<in> set pats. \<exists>c \<in> set (get_target_components targets msg).
        \<exists>sp \<in> set (re2_finditer lib (rp_pattern rp) (comp_content c)). m = regex_match name rp c sp)"
  by (auto simp: regex_analyze_def)

interpretation regex: analyzer_contract "regex_object lib name pats targets"
  by unfold_locales
    (auto simp: regex_object_def regex_analyze_mem regex_match_def split: prod.splits)

lemma regex_match_locates:
  "finditer_ok lib \<Longrightarrow> sp \<in> set (re2_finditer lib p (comp_content c)) \<Longrightarrow>
   locates (regex_match name rp c sp)"
  by (cases sp) (auto simp: locates_def regex_match_def dest: finditer_okD)

text \<open>
  Construction either fails on the first pattern that does not compile, with the library's
  error, or gives an analyzer that never raises. Its matches are exactly the hits of the
  patterns on the targeted components, counted with multiplicity, and each carries offsets
  that delimit the matched text in its component.
\<close>

theorem regex_analyzer_correct:
  assumes "finditer_ok lib"
  shows "case RegexAnalyzer lib name pats targets of
      Inl exc \<Rightarrow>
        (\<exists>us rp vs. pats = us @ rp # vs \<and> list_all (\<lambda>r. re2_compile lib (rp_pattern r) = None) us \<and>
           re2_compile lib (rp_pattern rp) = Some exc)
    | Inr an \<Rightarrow>
        (\<exists>ms. an_analyze an msg = Inr ms \<and> list_all locates ms \<and>
           list_all (\<lambda>m. analyzer_name m = name) ms \<and>
           length ms = (\<Sum>rp \<leftarrow> pats. \<Sum>c \<leftarrow> get_target_components targets msg.
             length (re2_finditer lib (rp_pattern rp) (comp_content c))))"
proof (cases "RegexAnalyzer lib name pats targets")
  case (Inl exc)
  then have "compile_patterns lib pats = Inl exc" by (simp add: RegexAnalyzer_def rbind_Inl_iff)
  from compile_patterns_Inl [OF this] show ?thesis using Inl by simp
next
  case (Inr an)
  then have an: "an = regex_object lib name pats targets"
    by (auto simp: RegexAnalyzer_def rbind_Inr_iff compile_patterns_Inr)
  have "length (regex_analyze lib name pats targets msg) =
      (\<Sum>rp \<leftarrow> pats. \<Sum>c \<leftarrow> get_target_components targets msg.
             length (re2_finditer lib (rp_pattern rp) (comp_content c)))"
    by (simp add: regex_analyze_def length_concat o_def)
  moreover have "list_all locates (regex_analyze lib name pats targets msg)"
    using assms by (auto simp: list_all_iff regex_analyze_mem intro: regex_match_locates)
  moreover have "list_all (\<lambda>m. analyzer_name m = name) (regex_analyze lib name pats targets msg)"
    by (auto simp: list_all_iff regex_analyze_mem regex_match_def split: prod.splits)
  ultimately show ?thesis using Inr by (simp add: an regex_object_def)
qed

text \<open>A library that knows literal patterns only, to run the model on.\<close>

fun literal_spans :: "string \<Rightarrow> nat \<Rightarrow> string \<Rightarrow> (nat \<times> nat) list" where
  "literal_spans p i [] = []"
| "literal_spans p i (c # cs) =
     (if starts_with (c # cs) p then [(i, i + length p)] else []) @ literal_spans p (Suc i) cs"

definition literal_re2 :: re2_lib where
  "literal_re2 =
     \<lparr>re2_compile = (\<lambda>p. if CHR ''('' \<in> set p then Some (Exn (OtherError ''error'') p) else None),
      re2_finditer = (\<lambda>p t. literal_spans p 0 t)\<rparr>"

lemma literal_spans_bounds:
  "(s, e) \<in> set (literal_spans p i t) \<Longrightarrow> s \<le> e \<and> e \<le> i + length t"
proof (induction t arbitrary: i)
  case (Cons c t)
  then show ?case using Cons.IH [of "Suc i"] by (auto simp: starts_with_iff dest: arg_cong [of _ _ length] split: if_splits)
qed simp

lemma literal_re2_ok: "finditer_ok literal_re2"
  using literal_spans_bounds [where i = 0] by (fastforce simp: finditer_ok_def literal_re2_def)

theorem regex_analyzer_correct_witness:
  "\<exists>an ms. RegexAnalyzer literal_re2 ''r'' [\<lparr>rp_name = ''n'', rp_pattern = ''ab'',
      rp_description = [], rp_confidence = 1\<rparr>] None = Inr an \<and>
    an_analyze an \<lparr>msg_id = ''m'', msg_components = [mk_component BODY ''xabab'' []], msg_meta = []\<rparr>
      = Inr ms \<and> length ms = 2 \<and> list_all locates ms"
proof -
  let ?p = "[\<lparr>rp_name = ''n'', rp_pattern = ''ab'', rp_description = [], rp_confidence = 1\<rparr>]"
  let ?m = "\<lparr>msg_id = ''m'', msg_components = [mk_component BODY ''xabab'' []], msg_meta = []\<rparr>"
  have init: "RegexAnalyzer literal_re2 ''r'' ?p None = Inr (regex_object literal_re2 ''r'' ?p None)"
    by (simp add: RegexAnalyzer_def literal_re2_def)
  show ?thesis
    using regex_analyzer_correct [OF literal_re2_ok, where name = "''r''" and pats = ?p and targets = None and msg = ?m] unfolding init
    by (auto simp: get_target_components_def get_components_def literal_re2_def starts_with_def)
qed

end
