(* ===== verification/DataIdentifier.thy ===== *)
theory DataIdentifier
  imports RegexAnalyzer Validators
begin

text \<open>
  \<open>server/detection/analyzers/data_identifier_analyzer.py\<close>: patterns followed by a validator.
  A hit is reported only when the identifier's validator accepts the matched text. A validator
  that raises makes the whole analyzer raise, so the engine drops all of its matches.
\<close>

section \<open>Construction\<close>

record data_identifier_config =
  di_name :: string
  di_patterns :: "string list"
  di_validator :: "string option"
  di_description :: string
  di_confidence :: rat
  di_examples :: "string list"

text \<open>\<open>repr\<close> of a list of names.\<close>

definition repr_list :: "string list \<Rightarrow> string" where
  "repr_list xs = ''['' @ join '', '' (map repr_str xs) @ '']''"

text \<open>An absent or empty validator name means that no validator is configured.\<close>

definition wants_validator :: "data_identifier_config \<Rightarrow> string option" where
  "wants_validator ident =
     (case di_validator ident of None \<Rightarrow> None | Some v \<Rightarrow> if v = [] then None else Some v)"

fun compile_all :: "re2_lib \<Rightarrow> string list \<Rightarrow> string list res" where
  "compile_all lib [] = Inr []"
| "compile_all lib (p # ps) =
     (case re2_compile lib p of
        Some exc \<Rightarrow> Inl exc
      | None \<Rightarrow> rbind (compile_all lib ps) (\<lambda>cs. Inr (p # cs)))"

fun load_identifiers ::
  "re2_lib \<Rightarrow> (string \<times> validator) list \<Rightarrow> data_identifier_config list
   \<Rightarrow> (data_identifier_config \<times> string list) list res" where
  "load_identifiers lib vals [] = Inr []"
| "load_identifiers lib vals (ident # idents) =
     (case wants_validator ident of
        Some v \<Rightarrow>
          if map_of vals v = None
          then Inl (Exn ValueError (''Unknown validator '' @ repr_str v @ '' for identifier '' @
            repr_str (di_name ident) @ ''. Available: '' @ repr_list (map fst vals)))
          else rbind (compile_all lib (di_patterns ident)) (\<lambda>cs.
            rbind (load_identifiers lib vals idents) (\<lambda>rest. Inr ((ident, cs) # rest)))
      | None \<Rightarrow> rbind (compile_all lib (di_patterns ident)) (\<lambda>cs.
          rbind (load_identifiers lib vals idents) (\<lambda>rest. Inr ((ident, cs) # rest))))"

section \<open>Analysis\<close>

definition identifier_match ::
  "string \<Rightarrow> data_identifier_config \<Rightarrow> bool \<Rightarrow> message_component \<Rightarrow> nat \<times> nat \<Rightarrow> match" where
  "identifier_match name ident validated c = (\<lambda>(s, e).
     \<lparr>analyzer_name = name, rule_name = di_name ident, match_component = c,
      matched_text = slice (comp_content c) s e, start_offset = int s, end_offset = int e,
      confidence = di_confidence ident,
      match_meta = [(''identifier'', PyStr (di_name ident)),
                    (''validator'', (case di_validator ident of None \<Rightarrow> PyNone | Some v \<Rightarrow> PyStr v)),
                    (''validated'', PyBool validated)]\<rparr>)"

text \<open>The inner loop of \<open>_match_identifier\<close> over the hits of one pattern.\<close>

fun validated_hits ::
  "string \<Rightarrow> data_identifier_config \<Rightarrow> validator option \<Rightarrow> message_component \<Rightarrow> (nat \<times> nat) list
   \<Rightarrow> match list res" where
  "validated_hits name ident vfn c [] = Inr []"
| "validated_hits name ident vfn c ((s, e) # spans) =
     (case vfn of
        None \<Rightarrow> rbind (validated_hits name ident vfn c spans)
          (\<lambda>ms. Inr (identifier_match name ident False c (s, e) # ms))
      | Some f \<Rightarrow> rbind (f (slice (comp_content c) s e)) (\<lambda>ok.
          if ok then rbind (validated_hits name ident vfn c spans)
            (\<lambda>ms. Inr (identifier_match name ident True c (s, e) # ms))
          else validated_hits name ident vfn c spans))"

definition match_identifier ::
  "re2_lib \<Rightarrow> string \<Rightarrow> data_identifier_config \<Rightarrow> string list \<Rightarrow> validator option \<Rightarrow> message_component
   \<Rightarrow> match list res" where
  "match_identifier lib name ident pats vfn c =
     extend_res (\<lambda>p. validated_hits name ident vfn c (re2_finditer lib p (comp_content c))) pats"

definition validator_fn ::
  "(string \<times> validator) list \<Rightarrow> data_identifier_config \<Rightarrow> validator option" where
  "validator_fn vals ident =
     (case wants_validator ident of None \<Rightarrow> None | Some v \<Rightarrow> map_of vals v)"

definition di_analyze ::
  "re2_lib \<Rightarrow> string \<Rightarrow> (string \<times> validator) list \<Rightarrow> (data_identifier_config \<times> string list) list
   \<Rightarrow> component_type list option \<Rightarrow> parsed_message \<Rightarrow> match list res" where
  "di_analyze lib name vals loaded targets msg =
     (let components = get_target_components targets msg in
      extend_res (\<lambda>(ident, pats).
        extend_res (match_identifier lib name ident pats (validator_fn vals ident)) components)
      loaded)"

definition di_object ::
  "re2_lib \<Rightarrow> string \<Rightarrow> (string \<times> validator) list \<Rightarrow> (data_identifier_config \<times> string list) list
   \<Rightarrow> component_type list option \<Rightarrow> analyzer" where
  "di_object lib name vals loaded targets =
     \<lparr>an_name = name, an_targets = targets,
      an_analyze = di_analyze lib name vals loaded targets\<rparr>"

definition DataIdentifierAnalyzer ::
  "re2_lib \<Rightarrow> string \<Rightarrow> data_identifier_config list \<Rightarrow> component_type list option
   \<Rightarrow> (string \<times> validator) list \<Rightarrow> analyzer res" where
  "DataIdentifierAnalyzer lib name idents targets custom =
     (let vals = dict_update VALIDATORS custom in
      rbind (load_identifiers lib vals idents) (\<lambda>loaded. Inr (di_object lib name vals loaded targets)))"

text \<open>A regular expression, with an exclamation mark for each backslash.\<close>

definition regex_text :: "string \<Rightarrow> string" where
  "regex_text s = map (\<lambda>c. if c = CHR ''!'' then CHR 0x5C else c) s"

section \<open>The seed database's format\<close>

text \<open>A missing key of the seed dictionary is \<open>None\<close>.\<close>

record seed_config =
  sc_patterns :: "string list option"
  sc_validator :: "string option"
  sc_example :: "string option"

record seed_identifier =
  si_name :: "string option"
  si_config :: "seed_config option"
  si_description :: "string option"

definition default_or :: "'a option \<Rightarrow> 'a \<Rightarrow> 'a" where
  "default_or x d = (case x of Some y \<Rightarrow> y | None \<Rightarrow> d)"

definition seed_to_config :: "seed_identifier \<Rightarrow> data_identifier_config res" where
  "seed_to_config si =
     (let config = default_or (si_config si)
            \<lparr>sc_patterns = None, sc_validator = None, sc_example = None\<rparr> in
      case si_name si of
        None \<Rightarrow> Inl (Exn KeyError (repr_str ''name''))
      | Some n \<Rightarrow> Inr
          \<lparr>di_name = n, di_patterns = default_or (sc_patterns config) [],
           di_validator = sc_validator config,
           di_description = default_or (si_description si) [], di_confidence = 1,
           di_examples = (case sc_example config of Some x \<Rightarrow> [x] | None \<Rightarrow> [])\<rparr>)"

definition from_seed_config ::
  "re2_lib \<Rightarrow> string \<Rightarrow> seed_identifier list \<Rightarrow> component_type list option \<Rightarrow> analyzer res" where
  "from_seed_config lib name seeds targets =
     rbind (map_res seed_to_config seeds) (\<lambda>idents. DataIdentifierAnalyzer lib name idents targets [])"

section \<open>Lemmas\<close>

text \<open>What a hit needs in order to be reported.\<close>

definition accepted :: "validator option \<Rightarrow> string \<Rightarrow> bool" where
  "accepted vfn txt = (case vfn of None \<Rightarrow> True | Some f \<Rightarrow> f txt = Inr True)"

lemma compile_all_Inr:
  "compile_all lib ps = Inr cs \<longleftrightarrow> cs = ps \<and> list_all (\<lambda>p. re2_compile lib p = None) ps"
  by (induction ps arbitrary: cs) (auto simp: rbind_Inr_iff split: option.splits)

definition validator_runs :: "validator option \<Rightarrow> string \<Rightarrow> bool" where
  "validator_runs vfn txt = (case vfn of None \<Rightarrow> True | Some f \<Rightarrow> is_ok (f txt))"

definition accepted_hits ::
  "re2_lib \<Rightarrow> string \<Rightarrow> data_identifier_config \<Rightarrow> validator option \<Rightarrow> message_component \<Rightarrow> string
   \<Rightarrow> match list" where
  "accepted_hits lib name ident vfn c p =
     map (identifier_match name ident (vfn \<noteq> None) c)
       (filter (\<lambda>(s, e). accepted vfn (slice (comp_content c) s e))
          (re2_finditer lib p (comp_content c)))"

lemma validated_hits_None:
  "validated_hits name ident None c spans = Inr (map (identifier_match name ident False c) spans)"
  by (induction spans) (auto split: prod.splits)

lemma validated_hits_eq:
  "validated_hits name ident vfn c spans = Inr ms \<Longrightarrow>
   ms = map (identifier_match name ident (vfn \<noteq> None) c)
          (filter (\<lambda>(s, e). accepted vfn (slice (comp_content c) s e)) spans)"
proof (cases vfn)
  case None
  then show "validated_hits name ident vfn c spans = Inr ms \<Longrightarrow> ?thesis"
    by (simp add: validated_hits_None accepted_def case_prod_unfold)
next
  case (Some f)
  show "validated_hits name ident vfn c spans = Inr ms \<Longrightarrow> ?thesis" unfolding Some
    by (induction spans arbitrary: ms) (auto simp: accepted_def rbind_Inr_iff split: if_splits)
qed

lemma validated_hits_ok:
  "is_ok (validated_hits name ident vfn c spans) \<longleftrightarrow>
     list_all (\<lambda>(s, e). validator_runs vfn (slice (comp_content c) s e)) spans"
proof (cases vfn)
  case None
  then show ?thesis by (simp add: validated_hits_None validator_runs_def list_all_iff)
next
  case (Some f)
  have tail: "is_ok (rbind r (\<lambda>ms. Inr (g ms))) = is_ok r" for r :: "'b res" and g :: "'b \<Rightarrow> 'c"
    by (cases r) auto
  show ?thesis unfolding Some
  proof (induction spans)
    case (Cons p spans)
    obtain s e where p: "p = (s, e)" by (cases p)
    show ?case using Cons.IH unfolding p
      by (cases "f (slice (comp_content c) s e)") (auto simp: validator_runs_def tail)
  qed simp
qed

lemma match_identifier_eq:
  "match_identifier lib name ident pats vfn c = Inr ms \<Longrightarrow>
   ms = concat (map (accepted_hits lib name ident vfn c) pats)"
  unfolding match_identifier_def
  by (erule extend_res_eq) (auto simp: accepted_hits_def dest: validated_hits_eq)

lemma di_analyze_eq:
  "di_analyze lib name vals loaded targets msg = Inr ms \<Longrightarrow>
   ms = concat (map (\<lambda>(ident, pats). concat (map (\<lambda>c.
          concat (map (accepted_hits lib name ident (validator_fn vals ident) c) pats))
          (get_target_components targets msg))) loaded)"
  unfolding di_analyze_def Let_def
  by (erule extend_res_eq) (auto elim!: extend_res_eq dest: match_identifier_eq)

lemma accepted_hitsD:
  "m \<in> set (accepted_hits lib name ident vfn c p) \<Longrightarrow>
   analyzer_name m = name \<and> rule_name m = di_name ident \<and> match_component m = c \<and>
   accepted vfn (matched_text m)"
  by (auto simp: accepted_hits_def identifier_match_def)

lemma accepted_hits_locates:
  "finditer_ok lib \<Longrightarrow> m \<in> set (accepted_hits lib name ident vfn c p) \<Longrightarrow> locates m"
  by (auto simp: accepted_hits_def identifier_match_def locates_def dest: finditer_okD)

interpretation data_identifier: analyzer_contract "di_object lib name vals loaded targets"
  by unfold_locales (auto simp: di_object_def dest!: di_analyze_eq accepted_hitsD)

lemma load_identifiers_Inr:
  "load_identifiers lib vals idents = Inr loaded \<Longrightarrow>
   loaded = map (\<lambda>i. (i, di_patterns i)) idents \<and>
   list_all (\<lambda>i. list_all (\<lambda>p. re2_compile lib p = None) (di_patterns i)) idents \<and>
   list_all (\<lambda>i. wants_validator i \<noteq> None \<longrightarrow> validator_fn vals i \<noteq> None) idents"
proof (induction idents arbitrary: loaded)
  case (Cons i idents)
  obtain rest where r: "load_identifiers lib vals idents = Inr rest" "loaded = (i, di_patterns i) # rest"
    and c: "list_all (\<lambda>p. re2_compile lib p = None) (di_patterns i)"
    and v: "wants_validator i \<noteq> None \<longrightarrow> validator_fn vals i \<noteq> None"
    using Cons.prems
    by (auto simp: rbind_Inr_iff compile_all_Inr validator_fn_def split: option.splits if_splits)
  show ?case using Cons.IH [OF r(1)] r(2) c v by simp
qed simp

lemma DataIdentifierAnalyzer_Inr:
  "DataIdentifierAnalyzer lib name idents targets custom = Inr an \<Longrightarrow>
   an = di_object lib name (dict_update VALIDATORS custom) (map (\<lambda>i. (i, di_patterns i)) idents) targets"
  by (auto simp: DataIdentifierAnalyzer_def Let_def rbind_Inr_iff dest: load_identifiers_Inr)

lemma extend_res_ok: "is_ok (extend_res g xs) \<longleftrightarrow> list_all (\<lambda>x. is_ok (g x)) xs"
  using extend_res_raises [of g xs] by (auto simp: list_all_iff)

section \<open>What the analyzer reports\<close>

text \<open>
  C8: when the analysis returns, it returns exactly the hits the identifier's validator
  accepts, in the order identifier, component, pattern, position: nothing a validator rejects
  is reported, nothing it accepts is lost, and each report delimits its text.
\<close>

theorem data_identifier_reports_validated:
  assumes "finditer_ok lib"
    and "DataIdentifierAnalyzer lib name idents targets custom = Inr an"
    and "an_analyze an msg = Inr ms"
  shows "ms = concat (map (\<lambda>i. concat (map (\<lambda>c. concat (map
            (accepted_hits lib name i (validator_fn (dict_update VALIDATORS custom) i) c)
            (di_patterns i))) (get_target_components targets msg))) idents) \<and>
    list_all locates ms"
proof -
  let ?l = "map (\<lambda>i. (i, di_patterns i)) idents"
  have "di_analyze lib name (dict_update VALIDATORS custom) ?l targets msg = Inr ms"
    using assms(3) DataIdentifierAnalyzer_Inr [OF assms(2)] by (simp add: di_object_def)
  note eq = di_analyze_eq [OF this]
  then show ?thesis using assms(1)
    by (auto simp: o_def list_all_iff intro: accepted_hits_locates)
qed

text \<open>
  The analysis raises exactly when some validator raises on some hit of the targeted
  components; then no match of any identifier is returned.
\<close>

theorem data_identifier_raises_iff:
  assumes "DataIdentifierAnalyzer lib name idents targets custom = Inr an"
  shows "is_ok (an_analyze an msg) \<longleftrightarrow>
    list_all (\<lambda>i. list_all (\<lambda>c. list_all (\<lambda>p. list_all (\<lambda>(s, e).
      validator_runs (validator_fn (dict_update VALIDATORS custom) i) (slice (comp_content c) s e))
      (re2_finditer lib p (comp_content c))) (di_patterns i))
      (get_target_components targets msg)) idents"
  unfolding DataIdentifierAnalyzer_Inr [OF assms]
  by (simp add: di_object_def di_analyze_def extend_res_ok match_identifier_def
      validated_hits_ok list_all_iff)

definition card_identifier :: "string \<Rightarrow> data_identifier_config" where
  "card_identifier p =
     \<lparr>di_name = ''Card'', di_patterns = [p], di_validator = Some ''luhn'', di_description = [],
      di_confidence = 1, di_examples = []\<rparr>"

definition body_message :: "string \<Rightarrow> parsed_message" where
  "body_message t = \<lparr>msg_id = ''m'', msg_components = [mk_component BODY t []], msg_meta = []\<rparr>"

lemma card_analyzer:
  "CHR ''('' \<notin> set p \<Longrightarrow>
   DataIdentifierAnalyzer literal_re2 ''di'' [card_identifier p] None [] =
     Inr (di_object literal_re2 ''di'' VALIDATORS [(card_identifier p, [p])] None)"
  by (simp add: DataIdentifierAnalyzer_def card_identifier_def wants_validator_def literal_re2_def
      dict_update_def VALIDATORS_def)

text \<open>A valid test number is reported, the one with a changed digit is not.\<close>

theorem data_identifier_reports_validated_witness:
  "(case an_analyze (di_object literal_re2 ''di'' VALIDATORS
      [(card_identifier ''4111111111111111'', [''4111111111111111''])] None)
      (body_message ''4111111111111111'') of Inr ms \<Rightarrow> map matched_text ms | Inl _ \<Rightarrow> [])
   = [''4111111111111111'']"
proof -
  let ?p = "''4111111111111111''"
  let ?an = "di_object literal_re2 ''di'' VALIDATORS [(card_identifier ?p, [?p])] None"
  have a: "DataIdentifierAnalyzer literal_re2 ''di'' [card_identifier ?p] None [] = Inr ?an"
    by (rule card_analyzer) simp
  have l: "luhn ?p = Inr True" by code_simp
  have v: "validator_fn VALIDATORS (card_identifier ?p) = Some luhn"
    by (simp add: validator_fn_def wants_validator_def card_identifier_def VALIDATORS_def)
  have h: "accepted_hits literal_re2 ''di'' (card_identifier ?p) (Some luhn)
      (mk_component BODY ?p []) ?p = [identifier_match ''di'' (card_identifier ?p) True
      (mk_component BODY ?p []) (0, 16)]"
    by (simp add: accepted_hits_def literal_re2_def starts_with_def accepted_def l slice_def eval_nat_numeral)
  have ok: "is_ok (an_analyze ?an (body_message ?p))"
    using l by (simp add: di_object_def di_analyze_def extend_res_ok match_identifier_def
        validated_hits_ok v validator_runs_def get_target_components_def get_components_def
        body_message_def literal_re2_def starts_with_def slice_def)
  then obtain ms where ms: "an_analyze ?an (body_message ?p) = Inr ms" by (auto simp: is_ok_iff)
  have "map matched_text ms = [?p]"
    using data_identifier_reports_validated [OF literal_re2_ok a ms] h v
    by (simp add: card_identifier_def get_target_components_def get_components_def body_message_def
        dict_update_def identifier_match_def slice_def)
  then show ?thesis using ms by simp
qed

text \<open>A hit with a superscript one makes the whole analysis raise.\<close>

theorem data_identifier_raises_iff_witness:
  "\<not> is_ok (an_analyze (di_object literal_re2 ''di'' VALIDATORS
      [(card_identifier (CHR 0xB9 # ''111111111111''), [CHR 0xB9 # ''111111111111''])] None)
      (body_message (CHR 0xB9 # ''111111111111'')))"
proof -
  let ?p = "CHR 0xB9 # ''111111111111''"
  have a: "DataIdentifierAnalyzer literal_re2 ''di'' [card_identifier ?p] None [] =
      Inr (di_object literal_re2 ''di'' VALIDATORS [(card_identifier ?p, [?p])] None)"
    by (rule card_analyzer) simp
  have l: "\<not> is_ok (luhn ?p)" by code_simp
  have v: "validator_fn VALIDATORS (card_identifier ?p) = Some luhn"
    by (simp add: validator_fn_def wants_validator_def card_identifier_def VALIDATORS_def)
  show ?thesis
    using data_identifier_raises_iff [OF a, of "body_message ?p"] l v
    by (simp add: validator_runs_def get_target_components_def get_components_def card_identifier_def
        body_message_def literal_re2_def starts_with_def slice_def dict_update_def)
qed

end
