(* ===== verification/KeywordAnalyzer.thy ===== *)
theory KeywordAnalyzer
  imports Engine
begin

text \<open>
  \<open>server/detection/analyzers/keyword_analyzer.py\<close>: dictionaries matched by an Aho-Corasick
  automaton, with case folding, whole-word filtering and word-proximity rules. The automaton
  library is a parameter: the automaton is the list of its \<open>add_word\<close> calls, the library gives
  its length and what \<open>iter\<close> yields on a text.
\<close>

section \<open>The library\<close>

type_synonym ac_words = "(string \<times> (string \<times> nat)) list"

record ac_lib =
  ac_len :: "ac_words \<Rightarrow> nat"
  ac_iter :: "ac_words \<Rightarrow> string \<Rightarrow> (nat \<times> (string \<times> nat)) list"

text \<open>
  Documented: adding a word again replaces its value, the empty word is not added, and \<open>iter\<close>
  yields the index of the last character and the value for every occurrence of every word.
\<close>

definition occurs_at :: "string \<Rightarrow> string \<Rightarrow> nat \<Rightarrow> bool" where
  "occurs_at key txt s \<longleftrightarrow> s + length key \<le> length txt \<and> slice txt s (s + length key) = key"

definition automaton_ok :: "ac_lib \<Rightarrow> bool" where
  "automaton_ok lib \<longleftrightarrow>
     (\<forall>ws. ac_len lib ws = 0 \<longleftrightarrow> (\<forall>w \<in> set ws. fst w = [])) \<and>
     (\<forall>ws txt e v. (e, v) \<in> set (ac_iter lib ws txt) \<longleftrightarrow>
        (\<exists>key s. key \<noteq> [] \<and> map_of (rev ws) key = Some v \<and> occurs_at key txt s \<and>
           Suc e = s + length key))"

section \<open>Configuration\<close>

datatype case_mode = SENSITIVE | INSENSITIVE

fun case_mode_value :: "case_mode \<Rightarrow> string" where
  "case_mode_value SENSITIVE = ''sensitive''"
| "case_mode_value INSENSITIVE = ''insensitive''"

record proximity_rule =
  keyword_a :: string
  keyword_b :: string
  max_distance :: int
  pr_case_mode :: case_mode

record keyword_config =
  kd_name :: string
  kd_keywords :: "string list"
  kd_case_mode :: case_mode
  whole_word :: bool
  proximity_rules :: "proximity_rule list"
  kd_confidence :: rat

definition fold_case :: "case_mode \<Rightarrow> string \<Rightarrow> string" where
  "fold_case mode s = (if mode = INSENSITIVE then lower s else s)"

section \<open>Words\<close>

definition is_word_boundary :: "string \<Rightarrow> int \<Rightarrow> bool" where
  "is_word_boundary txt pos \<longleftrightarrow>
     (if pos < 0 \<or> pos \<ge> int (length txt) then True else \<not> is_word_char (txt ! nat pos))"

text \<open>The maximal runs of word characters, as \<open>re.finditer\<close> of \<open>\w+\<close> scans them.\<close>

function word_spans :: "nat \<Rightarrow> string \<Rightarrow> (nat \<times> nat) list" where
  "word_spans i [] = []"
| "word_spans i (c # cs) =
     (if is_word_char c
      then (let n = Suc (length (takeWhile is_word_char cs))
            in (i, i + n) # word_spans (i + n) (dropWhile is_word_char cs))
      else word_spans (Suc i) cs)"
  by pat_completeness auto
termination
  by (relation "measure (\<lambda>(i, s). length s)") (auto simp: le_imp_less_Suc length_dropWhile_le)

definition word_positions :: "string \<Rightarrow> (nat \<times> nat) list" where
  "word_positions txt = word_spans 0 txt"

section \<open>Keyword matching\<close>

definition automaton_words :: "keyword_config \<Rightarrow> ac_words" where
  "automaton_words cfg =
     map (\<lambda>kw. let key = fold_case (kd_case_mode cfg) kw in (key, (kw, length key))) (kd_keywords cfg)"

definition keyword_match ::
  "string \<Rightarrow> keyword_config \<Rightarrow> message_component \<Rightarrow> string \<Rightarrow> int \<Rightarrow> int \<Rightarrow> match" where
  "keyword_match name cfg c kw start_idx end_idx =
     \<lparr>analyzer_name = name, rule_name = kd_name cfg @ '':'' @ kw, match_component = c,
      matched_text = py_slice (comp_content c) start_idx (end_idx + 1),
      start_offset = start_idx, end_offset = end_idx + 1, confidence = kd_confidence cfg,
      match_meta = [(''dictionary'', PyStr (kd_name cfg)), (''keyword'', PyStr kw),
                    (''case_mode'', PyStr (case_mode_value (kd_case_mode cfg))),
                    (''whole_word'', PyBool (whole_word cfg))]\<rparr>"

definition match_keywords ::
  "ac_lib \<Rightarrow> string \<Rightarrow> keyword_config \<Rightarrow> message_component \<Rightarrow> match list" where
  "match_keywords lib name cfg c =
     (let search_text = fold_case (kd_case_mode cfg) (comp_content c) in
      concat (map (\<lambda>(end_idx, (kw, len)).
        (let start_idx = int end_idx - int len + 1 in
         if whole_word cfg \<and> \<not> is_word_boundary search_text (start_idx - 1) then []
         else if whole_word cfg \<and> \<not> is_word_boundary search_text (int end_idx + 1) then []
         else [keyword_match name cfg c kw start_idx (int end_idx)]))
        (ac_iter lib (automaton_words cfg) search_text)))"

section \<open>Proximity\<close>

definition word_indices :: "string list \<Rightarrow> string \<Rightarrow> nat list" where
  "word_indices ws kw = filter (\<lambda>i. ws ! i = kw) [0..<length ws]"

definition proximity_match ::
  "string \<Rightarrow> keyword_config \<Rightarrow> message_component \<Rightarrow> proximity_rule \<Rightarrow> (nat \<times> nat) list
   \<Rightarrow> nat \<Rightarrow> nat \<Rightarrow> match" where
  "proximity_match name cfg c rule spans ai bi =
     (let start_o = fst (spans ! min ai bi); end_o = snd (spans ! max ai bi) in
      \<lparr>analyzer_name = name,
       rule_name = kd_name cfg @ '':proximity('' @ keyword_a rule @ ''~'' @ keyword_b rule @ '')'',
       match_component = c, matched_text = slice (comp_content c) start_o end_o,
       start_offset = int start_o, end_offset = int end_o, confidence = kd_confidence cfg,
       match_meta = [(''dictionary'', PyStr (kd_name cfg)), (''proximity_rule'', PyBool True),
                     (''keyword_a'', PyStr (keyword_a rule)), (''keyword_b'', PyStr (keyword_b rule)),
                     (''distance'', PyInt (\<bar>int ai - int bi\<bar> - 1)),
                     (''max_distance'', PyInt (max_distance rule))]\<rparr>)"

definition match_proximity ::
  "string \<Rightarrow> keyword_config \<Rightarrow> message_component \<Rightarrow> match list" where
  "match_proximity name cfg c =
     (let spans = word_positions (comp_content c);
          words_lower = map (\<lambda>(s, e). lower (slice (comp_content c) s e)) spans in
      if spans = [] then []
      else concat (map (\<lambda>rule.
        concat (map (\<lambda>ai. concat (map (\<lambda>bi.
          if ai = bi then []
          else if \<bar>int ai - int bi\<bar> - 1 \<le> max_distance rule
               then [proximity_match name cfg c rule spans ai bi] else [])
          (word_indices words_lower (fold_case (pr_case_mode rule) (keyword_b rule)))))
          (word_indices words_lower (fold_case (pr_case_mode rule) (keyword_a rule)))))
        (proximity_rules cfg)))"

definition keyword_analyze ::
  "ac_lib \<Rightarrow> string \<Rightarrow> keyword_config list \<Rightarrow> component_type list option \<Rightarrow> parsed_message
   \<Rightarrow> match list" where
  "keyword_analyze lib name dicts targets msg =
     concat (map (\<lambda>cfg. concat (map (\<lambda>c.
       (if ac_len lib (automaton_words cfg) > 0 then match_keywords lib name cfg c else []) @
       (if proximity_rules cfg \<noteq> [] then match_proximity name cfg c else []))
       (get_target_components targets msg))) dicts)"

definition KeywordAnalyzer ::
  "ac_lib \<Rightarrow> string \<Rightarrow> keyword_config list \<Rightarrow> component_type list option \<Rightarrow> analyzer" where
  "KeywordAnalyzer lib name dicts targets =
     \<lparr>an_name = name, an_targets = targets,
      an_analyze = (\<lambda>msg. Inr (keyword_analyze lib name dicts targets msg))\<rparr>"

definition total_keywords :: "keyword_config list \<Rightarrow> nat" where
  "total_keywords dicts = sum_list (map (\<lambda>d. length (kd_keywords d)) dicts)"

section \<open>Lemmas on words\<close>









section \<open>Lemmas on keyword matching\<close>

lemma automaton_okD:
  "automaton_ok lib \<Longrightarrow> (e, v) \<in> set (ac_iter lib ws txt) \<longleftrightarrow>
     (\<exists>key s. key \<noteq> [] \<and> map_of (rev ws) key = Some v \<and> occurs_at key txt s \<and> Suc e = s + length key)"
  unfolding automaton_ok_def by blast

lemma length_fold_case [simp]: "length (fold_case mode s) = length s"
  by (simp add: fold_case_def)

lemma slice_fold_case: "slice (fold_case mode s) a b = fold_case mode (slice s a b)"
  by (simp add: fold_case_def slice_def lower_take lower_drop)

lemma automaton_value:
  "map_of (rev (automaton_words cfg)) key = Some (kw, n) \<Longrightarrow>
   kw \<in> set (kd_keywords cfg) \<and> key = fold_case (kd_case_mode cfg) kw \<and> n = length key"
  by (drule map_of_SomeD) (auto simp: automaton_words_def Let_def)


definition whole_word_at :: "keyword_config \<Rightarrow> string \<Rightarrow> nat \<Rightarrow> nat \<Rightarrow> bool" where
  "whole_word_at cfg text s e \<longleftrightarrow>
     \<not> whole_word cfg \<or>
     is_word_boundary (fold_case (kd_case_mode cfg) text) (int s - 1) \<and>
     is_word_boundary (fold_case (kd_case_mode cfg) text) (int e)"

lemma match_keywords_iff:
  assumes "automaton_ok lib"
  shows "m \<in> set (match_keywords lib name cfg c) \<longleftrightarrow>
    (\<exists>key kw s. key \<noteq> [] \<and> map_of (rev (automaton_words cfg)) key = Some (kw, length key) \<and>
       occurs_at key (fold_case (kd_case_mode cfg) (comp_content c)) s \<and>
       whole_word_at cfg (comp_content c) s (s + length key) \<and>
       m = keyword_match name cfg c kw (int s) (int (s + length key) - 1))" (is "?l \<longleftrightarrow> ?r")
proof
  assume ?l
  then obtain e kw n where it: "(e, (kw, n)) \<in> set (ac_iter lib (automaton_words cfg)
        (fold_case (kd_case_mode cfg) (comp_content c)))"
    and ww: "whole_word cfg \<longrightarrow>
        is_word_boundary (fold_case (kd_case_mode cfg) (comp_content c)) (int e - int n) \<and>
        is_word_boundary (fold_case (kd_case_mode cfg) (comp_content c)) (int e + 1)"
    and m: "m = keyword_match name cfg c kw (int e - int n + 1) (int e)"
    by (auto simp: match_keywords_def Let_def split: if_splits)
  from it obtain key s where k: "key \<noteq> []" "map_of (rev (automaton_words cfg)) key = Some (kw, n)"
      "occurs_at key (fold_case (kd_case_mode cfg) (comp_content c)) s" "Suc e = s + length key"
    unfolding automaton_okD [OF assms] by blast
  have n: "n = length key" using automaton_value [OF k(2)] by simp
  have "int e - int n = int s - 1" "int e + 1 = int (s + length key)" using k(4) n by linarith+
  then have "m = keyword_match name cfg c kw (int s) (int (s + length key) - 1)"
    using m by (metis add.commute add_diff_cancel_left' diff_add_cancel diff_add_eq)
  moreover have "whole_word_at cfg (comp_content c) s (s + length key)"
    using ww \<open>int e - int n = int s - 1\<close> \<open>int e + 1 = int (s + length key)\<close>
    by (simp add: whole_word_at_def)
  ultimately show ?r using k n by blast
next
  assume ?r
  then obtain key kw s where k: "key \<noteq> []" "map_of (rev (automaton_words cfg)) key = Some (kw, length key)"
      "occurs_at key (fold_case (kd_case_mode cfg) (comp_content c)) s"
      "whole_word_at cfg (comp_content c) s (s + length key)"
      "m = keyword_match name cfg c kw (int s) (int (s + length key) - 1)" by blast
  obtain e where e: "s + length key = Suc e" using k(1) by (cases key) auto
  have "(e, (kw, length key)) \<in> set (ac_iter lib (automaton_words cfg)
        (fold_case (kd_case_mode cfg) (comp_content c)))"
    unfolding automaton_okD [OF assms] using k e by metis
  moreover have ei: "int e = int s + int (length key) - 1" using e by linarith
  ultimately show ?l using k(4,5) unfolding match_keywords_def Let_def whole_word_at_def
    by (intro concat_map_memI [of "(e, (kw, length key))"]) (auto simp: ei)
qed

lemma is_word_char_lower [simp]: "is_word_char (lower_char c) = is_word_char c"
proof -
  have "lower_char c = c \<or> is_alpha c \<and> is_alpha (lower_char c)"
    by (auto simp: lower_char_def Let_def is_alpha_def)
  then show ?thesis by (auto simp: is_word_char_def)
qed

lemma is_word_boundary_fold [simp]:
  "is_word_boundary (fold_case mode text) pos = is_word_boundary text pos"
  by (auto simp: is_word_boundary_def fold_case_def lower_def)

lemma occurs_at_fold:
  "occurs_at key (fold_case mode text) s \<longleftrightarrow>
     s + length key \<le> length text \<and> fold_case mode (slice text s (s + length key)) = key"
  by (simp add: occurs_at_def slice_fold_case)

lemma keyword_match_simps [simp]:
  "analyzer_name (keyword_match name cfg c kw s e) = name"
  "match_component (keyword_match name cfg c kw s e) = c"
  "start_offset (keyword_match name cfg c kw s e) = s"
  "end_offset (keyword_match name cfg c kw s e) = e + 1"
  by (simp_all add: keyword_match_def)

lemma keyword_match_text:
  "matched_text (keyword_match name cfg c kw (int a) (int b - 1)) = slice (comp_content c) a b"
  by (simp add: keyword_match_def py_slice_nonneg)

lemma match_keywords_offsets:
  assumes "automaton_ok lib"
  shows "m \<in> set (match_keywords lib name cfg c) \<longleftrightarrow>
    (\<exists>kw s e. map_of (rev (automaton_words cfg)) (fold_case (kd_case_mode cfg) kw) = Some (kw, length kw) \<and>
       kw \<noteq> [] \<and> e = s + length kw \<and> e \<le> length (comp_content c) \<and>
       fold_case (kd_case_mode cfg) (slice (comp_content c) s e) = fold_case (kd_case_mode cfg) kw \<and>
       whole_word_at cfg (comp_content c) s e \<and>
       m = keyword_match name cfg c kw (int s) (int e - 1))" (is "?l \<longleftrightarrow> ?r")
proof
  assume ?l
  then obtain key kw s where k: "key \<noteq> []" "map_of (rev (automaton_words cfg)) key = Some (kw, length key)"
      "occurs_at key (fold_case (kd_case_mode cfg) (comp_content c)) s"
      "whole_word_at cfg (comp_content c) s (s + length key)"
      "m = keyword_match name cfg c kw (int s) (int (s + length key) - 1)"
    unfolding match_keywords_iff [OF assms] by blast
  have key: "key = fold_case (kd_case_mode cfg) kw" using automaton_value [OF k(2)] by simp
  then have "length key = length kw" by simp
  moreover from this have "kw \<noteq> []" using k(1) by auto
  ultimately show ?r using k key unfolding occurs_at_fold by (intro exI [of _ kw]) auto
next
  assume ?r
  then obtain kw s e where
    k: "map_of (rev (automaton_words cfg)) (fold_case (kd_case_mode cfg) kw) = Some (kw, length kw)"
       "kw \<noteq> []" "e = s + length kw" "e \<le> length (comp_content c)"
       "fold_case (kd_case_mode cfg) (slice (comp_content c) s e) = fold_case (kd_case_mode cfg) kw"
       "whole_word_at cfg (comp_content c) s e" "m = keyword_match name cfg c kw (int s) (int e - 1)"
    by blast
  have ne: "fold_case (kd_case_mode cfg) kw \<noteq> []" using k(2) by (metis length_0_conv length_fold_case)
  have occ: "occurs_at (fold_case (kd_case_mode cfg) kw)
      (fold_case (kd_case_mode cfg) (comp_content c)) s"
    unfolding occurs_at_fold using k(3-5) by simp
  show ?l unfolding match_keywords_iff [OF assms] using k ne occ
    by (intro exI [of _ "fold_case (kd_case_mode cfg) kw"] exI [of _ kw] exI [of _ s]) simp
qed

interpretation keyword: analyzer_contract "KeywordAnalyzer lib name dicts targets"
proof
  have kw: "analyzer_name m = name \<and> match_component m = c"
    if "m \<in> set (match_keywords lib name cfg c)" for m cfg c
    using that by (auto simp: match_keywords_def Let_def split: if_splits)
  have pr: "analyzer_name m = name \<and> match_component m = c"
    if "m \<in> set (match_proximity name cfg c)" for m cfg c
    using that by (auto simp: match_proximity_def proximity_match_def Let_def split: if_splits)
  have "analyzer_name m = name \<and> match_component m \<in> set (get_target_components targets msg)"
    if "m \<in> set (keyword_analyze lib name dicts targets msg)" for m msg
    using that by (auto simp: keyword_analyze_def split: if_splits dest: kw pr)
  then show "an_analyze (KeywordAnalyzer lib name dicts targets) msg = Inr ms \<Longrightarrow> m \<in> set ms \<Longrightarrow>
      analyzer_name m = an_name (KeywordAnalyzer lib name dicts targets)"
    and "an_analyze (KeywordAnalyzer lib name dicts targets) msg = Inr ms \<Longrightarrow> m \<in> set ms \<Longrightarrow>
      match_component m \<in>
        set (get_target_components (an_targets (KeywordAnalyzer lib name dicts targets)) msg)"
    for msg ms m by (auto simp: KeywordAnalyzer_def)
qed

text \<open>
  Every keyword match delimits a text that equals a keyword of the dictionary (up to case
  in the insensitive mode) and, in whole-word mode, has no word character on either side.
\<close>

theorem keyword_matches_sound:
  assumes "automaton_ok lib" and "m \<in> set (match_keywords lib name cfg c)"
  shows "locates m \<and>
    (\<exists>kw \<in> set (kd_keywords cfg).
       fold_case (kd_case_mode cfg) (matched_text m) = fold_case (kd_case_mode cfg) kw \<and>
       rule_name m = kd_name cfg @ '':'' @ kw) \<and>
    (if whole_word cfg
     then is_word_boundary (comp_content c) (start_offset m - 1) \<and>
          is_word_boundary (comp_content c) (end_offset m)
     else True)"
proof -
  obtain kw s e where
    k: "map_of (rev (automaton_words cfg)) (fold_case (kd_case_mode cfg) kw) = Some (kw, length kw)"
       "e = s + length kw" "e \<le> length (comp_content c)"
       "fold_case (kd_case_mode cfg) (slice (comp_content c) s e) = fold_case (kd_case_mode cfg) kw"
       "whole_word_at cfg (comp_content c) s e" "m = keyword_match name cfg c kw (int s) (int e - 1)"
    using assms(2) unfolding match_keywords_offsets [OF assms(1)] by blast
  have mt: "matched_text m = slice (comp_content c) s e" unfolding k(6) by (rule keyword_match_text)
  have "rule_name m = kd_name cfg @ '':'' @ kw" by (simp add: k(6) keyword_match_def)
  moreover have "locates m" using k(2,3) mt by (simp add: locates_def k(6) nat_int_add)
  moreover have "kw \<in> set (kd_keywords cfg)" using automaton_value [OF k(1)] by simp
  ultimately show ?thesis using k(4,5) mt by (auto simp: k(6) whole_word_at_def)
qed


text \<open>An automaton library that scans naively, to run the model on.\<close>

definition naive_hits :: "ac_words \<Rightarrow> string \<Rightarrow> nat \<Rightarrow> string \<Rightarrow> (nat \<times> (string \<times> nat)) list" where
  "naive_hits ws content s key =
     (if key \<noteq> [] \<and> occurs_at key content s
      then map (Pair (s + length key - 1)) (case map_of (rev ws) key of Some v \<Rightarrow> [v] | None \<Rightarrow> [])
      else [])"

definition naive_ac :: ac_lib where
  "naive_ac =
     \<lparr>ac_len = (\<lambda>ws. length (filter (\<lambda>w. fst w \<noteq> []) ws)),
      ac_iter = (\<lambda>ws content. concat (map (\<lambda>s.
        concat (map (naive_hits ws content s) (map fst ws))) [0..<length content]))\<rparr>"

lemma naive_hits_iff:
  "(e, v) \<in> set (naive_hits ws content s key) \<longleftrightarrow>
     key \<noteq> [] \<and> occurs_at key content s \<and> map_of (rev ws) key = Some v \<and> Suc e = s + length key"
proof -
  have "e = s + length key - 1 \<longleftrightarrow> Suc e = s + length key" if "key \<noteq> []"
    using that by (cases key) auto
  then show ?thesis unfolding naive_hits_def by (cases "map_of (rev ws) key") auto
qed

lemma naive_ac_ok: "automaton_ok naive_ac"
  unfolding automaton_ok_def
proof (intro conjI allI)
  show "ac_len naive_ac ws = 0 \<longleftrightarrow> (\<forall>w \<in> set ws. fst w = [])" for ws
    by (auto simp: naive_ac_def filter_empty_conv)
  have pos: "s < length content" if "key \<noteq> []" "occurs_at key content s" for key content s
    using that by (cases key) (auto simp: occurs_at_def)
  have key: "key \<in> fst ` set ws" if "map_of (rev ws) key = Some v" for key v and ws :: ac_words
    using map_of_SomeD [OF that] by (force simp: image_iff)
  show "(e, v) \<in> set (ac_iter naive_ac ws content) \<longleftrightarrow>
      (\<exists>key s. key \<noteq> [] \<and> map_of (rev ws) key = Some v \<and> occurs_at key content s \<and>
         Suc e = s + length key)" for ws content e v
  proof -
    have "(e, v) \<in> set (ac_iter naive_ac ws content) \<longleftrightarrow>
        (\<exists>s < length content. \<exists>key \<in> fst ` set ws. (e, v) \<in> set (naive_hits ws content s key))"
      unfolding naive_ac_def ac_lib.select_convs set_concat set_map set_upt by force
    also have "\<dots> \<longleftrightarrow> (\<exists>s key. (e, v) \<in> set (naive_hits ws content s key))"
    proof (intro iffI; elim exE bexE conjE)
      fix s k assume h: "(e, v) \<in> set (naive_hits ws content s k)"
      then show "\<exists>s < length content. \<exists>key \<in> fst ` set ws. (e, v) \<in> set (naive_hits ws content s key)"
        using pos [of k content s] key [of ws k v] unfolding naive_hits_iff by metis
    qed blast
    finally show ?thesis unfolding naive_hits_iff by metis
  qed
qed

definition pci_dictionary :: keyword_config where
  "pci_dictionary =
     \<lparr>kd_name = ''PCI'', kd_keywords = [''CVV''], kd_case_mode = INSENSITIVE, whole_word = True,
      proximity_rules = [], kd_confidence = 1\<rparr>"

theorem keyword_matches_sound_witness:
  "\<exists>m \<in> set (match_keywords naive_ac ''kw'' pci_dictionary (mk_component BODY ''a cVv!'' [])).
     locates m \<and> matched_text m = ''cVv''"
proof -
  let ?c = "mk_component BODY ''a cVv!'' []"
  let ?m = "keyword_match ''kw'' pci_dictionary ?c ''CVV'' 2 4"
  have "match_keywords naive_ac ''kw'' pci_dictionary ?c = [?m]" by code_simp
  then have "?m \<in> set (match_keywords naive_ac ''kw'' pci_dictionary ?c)" by simp
  moreover have "locates ?m" using keyword_matches_sound [OF naive_ac_ok calculation] by simp
  moreover have "matched_text ?m = ''cVv''" by code_simp
  ultimately show ?thesis by blast
qed


section \<open>Lemmas on proximity\<close>







definition word_text :: "string \<Rightarrow> nat \<times> nat \<Rightarrow> string" where
  "word_text content p = lower (slice content (fst p) (snd p))"

definition proximity_words :: "proximity_rule \<Rightarrow> string \<Rightarrow> nat \<times> nat \<Rightarrow> nat \<times> nat \<Rightarrow> bool" where
  "proximity_words rule content p q \<longleftrightarrow>
     word_text content p = fold_case (pr_case_mode rule) (keyword_a rule) \<and>
     word_text content q = fold_case (pr_case_mode rule) (keyword_b rule)"

lemma word_indices_mem:
  "i \<in> set (word_indices (map (\<lambda>(s, e). lower (slice content s e)) spans) kw) \<longleftrightarrow>
     i < length spans \<and> word_text content (spans ! i) = kw"
  by (auto simp: word_indices_def word_text_def case_prod_unfold)

lemma match_proximity_iff:
  "m \<in> set (match_proximity name cfg c) \<longleftrightarrow>
     (\<exists>rule \<in> set (proximity_rules cfg). \<exists>ai bi. ai < length (word_positions (comp_content c)) \<and>
        bi < length (word_positions (comp_content c)) \<and> ai \<noteq> bi \<and>
        proximity_words rule (comp_content c) (word_positions (comp_content c) ! ai)
          (word_positions (comp_content c) ! bi) \<and>
        \<bar>int ai - int bi\<bar> - 1 \<le> max_distance rule \<and>
        m = proximity_match name cfg c rule (word_positions (comp_content c)) ai bi)"
  (is "?l \<longleftrightarrow> ?r")
proof
  assume ?l
  then show ?r
    by (auto simp: match_proximity_def Let_def word_indices_mem proximity_words_def
        split: if_split_asm) blast
next
  let ?sp = "word_positions (comp_content c)"
  let ?ws = "map (\<lambda>(s, e). lower (slice (comp_content c) s e)) ?sp"
  assume ?r
  then obtain rule ai bi where r: "rule \<in> set (proximity_rules cfg)" "ai < length ?sp"
      "bi < length ?sp" "ai \<noteq> bi" "proximity_words rule (comp_content c) (?sp ! ai) (?sp ! bi)"
      "\<bar>int ai - int bi\<bar> - 1 \<le> max_distance rule" "m = proximity_match name cfg c rule ?sp ai bi"
    by blast
  have "ai \<in> set (word_indices ?ws (fold_case (pr_case_mode rule) (keyword_a rule)))"
      "bi \<in> set (word_indices ?ws (fold_case (pr_case_mode rule) (keyword_b rule)))"
    using r(2,3,5) unfolding word_indices_mem proximity_words_def by blast+
  moreover have "?sp \<noteq> []" using r(2) by auto
  ultimately show ?l unfolding match_proximity_def Let_def using r(1,4,6,7)
    by (simp only: if_False) (rule concat_map_memI, assumption, rule concat_map_memI, assumption,
        rule concat_map_memI, assumption, simp)
qed


lemma lower_char_fixed: "lower_char c = c \<longleftrightarrow> lower [c] = [c]"
  by (simp add: lower_def)

text \<open>
  A case-sensitive proximity rule with an upper-case character in a keyword never matches:
  the words are compared in lower case, the keyword is not.
\<close>

theorem sensitive_proximity_misses_upper_case:
  assumes "list_all (\<lambda>r. pr_case_mode r = SENSITIVE \<and> lower (keyword_a r) \<noteq> keyword_a r)
    (proximity_rules cfg)"
  shows "match_proximity name cfg c = []"
proof (rule ccontr)
  assume "match_proximity name cfg c \<noteq> []"
  then have "hd (match_proximity name cfg c) \<in> set (match_proximity name cfg c)" by (rule hd_in_set)
  then obtain r p q where r: "r \<in> set (proximity_rules cfg)" "proximity_words r (comp_content c) p q"
    unfolding match_proximity_iff by blast
  have sens: "pr_case_mode r = SENSITIVE" "lower (keyword_a r) \<noteq> keyword_a r"
    using assms r(1) by (simp_all add: list_all_iff)
  then have "keyword_a r = lower (slice (comp_content c) (fst p) (snd p))"
    using r(2) by (simp add: proximity_words_def word_text_def fold_case_def)
  then show False using sens(2) by simp
qed

definition secret_dictionary :: keyword_config where
  "secret_dictionary =
     \<lparr>kd_name = ''S'', kd_keywords = [], kd_case_mode = SENSITIVE, whole_word = True,
      proximity_rules = [\<lparr>keyword_a = ''Top'', keyword_b = ''secret'', max_distance = 3,
        pr_case_mode = SENSITIVE\<rparr>], kd_confidence = 1\<rparr>"

theorem sensitive_proximity_misses_upper_case_witness:
  "match_proximity ''kw'' secret_dictionary (mk_component BODY ''Top secret'' []) = []"
proof (rule sensitive_proximity_misses_upper_case)
  show "list_all (\<lambda>r. pr_case_mode r = SENSITIVE \<and> lower (keyword_a r) \<noteq> keyword_a r)
      (proximity_rules secret_dictionary)" by code_simp
qed

end
