(* ===== verification/FileType.thy ===== *)
theory FileType
  imports Engine
begin

text \<open>
  \<open>server/detection/analyzers/file_type_analyzer.py\<close>: file type from content (libmagic, a
  parameter that maps bytes to a MIME type) with the file name's extension as a fallback, and
  rules on category, MIME type, extension, name pattern and size. The glob patterns are those
  of the standard library's \<open>fnmatch\<close>.
\<close>

section \<open>The type database\<close>

datatype file_category =
  DOCUMENT | EXECUTABLE | ARCHIVE | IMAGE | MEDIA | SCRIPT | DATA | ENCRYPTED | UNKNOWN

fun file_category_value :: "file_category \<Rightarrow> string" where
  "file_category_value DOCUMENT = ''document''"
| "file_category_value EXECUTABLE = ''executable''"
| "file_category_value ARCHIVE = ''archive''"
| "file_category_value IMAGE = ''image''"
| "file_category_value MEDIA = ''media''"
| "file_category_value SCRIPT = ''script''"
| "file_category_value DATA = ''data''"
| "file_category_value ENCRYPTED = ''encrypted''"
| "file_category_value UNKNOWN = ''unknown''"

definition MIME_TYPE_DB :: "(string \<times> file_category \<times> string) list" where
  "MIME_TYPE_DB =
     [(''application/pdf'', DOCUMENT, ''PDF''),
      (''application/msword'', DOCUMENT, ''Microsoft Word (DOC)''),
      (''application/vnd.openxmlformats-officedocument.wordprocessingml.document'', DOCUMENT, ''Microsoft Word (DOCX)''),
      (''application/vnd.ms-excel'', DOCUMENT, ''Microsoft Excel (XLS)''),
      (''application/vnd.openxmlformats-officedocument.spreadsheetml.sheet'', DOCUMENT, ''Microsoft Excel (XLSX)''),
      (''application/vnd.ms-powerpoint'', DOCUMENT, ''Microsoft PowerPoint (PPT)''),
      (''application/vnd.openxmlformats-officedocument.presentationml.presentation'', DOCUMENT, ''Microsoft PowerPoint (PPTX)''),
      (''application/vnd.oasis.opendocument.text'', DOCUMENT, ''OpenDocument Text (ODT)''),
      (''application/vnd.oasis.opendocument.spreadsheet'', DOCUMENT, ''OpenDocument Spreadsheet (ODS)''),
      (''application/vnd.oasis.opendocument.presentation'', DOCUMENT, ''OpenDocument Presentation (ODP)''),
      (''application/rtf'', DOCUMENT, ''Rich Text Format (RTF)''),
      (''text/plain'', DOCUMENT, ''Plain Text''),
      (''text/csv'', DOCUMENT, ''CSV''),
      (''text/html'', DOCUMENT, ''HTML''),
      (''text/xml'', DOCUMENT, ''XML''),
      (''application/xml'', DOCUMENT, ''XML''),
      (''application/json'', DATA, ''JSON''),
      (''text/markdown'', DOCUMENT, ''Markdown''),
      (''message/rfc822'', DOCUMENT, ''Email (EML)''),
      (''application/epub+zip'', DOCUMENT, ''EPUB''),
      (''application/x-dosexec'', EXECUTABLE, ''Windows Executable (EXE/DLL)''),
      (''application/x-executable'', EXECUTABLE, ''Linux Executable (ELF)''),
      (''application/x-mach-binary'', EXECUTABLE, ''macOS Executable (Mach-O)''),
      (''application/x-sharedlib'', EXECUTABLE, ''Shared Library (SO)''),
      (''application/vnd.microsoft.portable-executable'', EXECUTABLE, ''Portable Executable (PE)''),
      (''application/x-msdownload'', EXECUTABLE, ''Windows Executable (EXE)''),
      (''application/java-archive'', EXECUTABLE, ''Java Archive (JAR)''),
      (''application/x-java-applet'', EXECUTABLE, ''Java Applet''),
      (''application/zip'', ARCHIVE, ''ZIP''),
      (''application/x-tar'', ARCHIVE, ''TAR''),
      (''application/gzip'', ARCHIVE, ''GZIP''),
      (''application/x-gzip'', ARCHIVE, ''GZIP''),
      (''application/x-bzip2'', ARCHIVE, ''BZIP2''),
      (''application/x-xz'', ARCHIVE, ''XZ''),
      (''application/x-7z-compressed'', ARCHIVE, ''7-Zip''),
      (''application/x-rar-compressed'', ARCHIVE, ''RAR''),
      (''application/x-rar'', ARCHIVE, ''RAR''),
      (''application/vnd.rar'', ARCHIVE, ''RAR''),
      (''application/x-iso9660-image'', ARCHIVE, ''ISO Disk Image''),
      (''image/jpeg'', IMAGE, ''JPEG Image''),
      (''image/png'', IMAGE, ''PNG Image''),
      (''image/gif'', IMAGE, ''GIF Image''),
      (''image/bmp'', IMAGE, ''BMP Image''),
      (''image/tiff'', IMAGE, ''TIFF Image''),
      (''image/webp'', IMAGE, ''WebP Image''),
      (''image/svg+xml'', IMAGE, ''SVG Image''),
      (''image/x-icon'', IMAGE, ''ICO Image''),
      (''audio/mpeg'', MEDIA, ''MP3 Audio''),
      (''audio/wav'', MEDIA, ''WAV Audio''),
      (''audio/x-wav'', MEDIA, ''WAV Audio''),
      (''audio/ogg'', MEDIA, ''OGG Audio''),
      (''audio/flac'', MEDIA, ''FLAC Audio''),
      (''video/mp4'', MEDIA, ''MP4 Video''),
      (''video/x-msvideo'', MEDIA, ''AVI Video''),
      (''video/x-matroska'', MEDIA, ''MKV Video''),
      (''video/quicktime'', MEDIA, ''QuickTime Video''),
      (''video/webm'', MEDIA, ''WebM Video''),
      (''text/x-python'', SCRIPT, ''Python Script''),
      (''text/x-shellscript'', SCRIPT, ''Shell Script''),
      (''application/javascript'', SCRIPT, ''JavaScript''),
      (''text/javascript'', SCRIPT, ''JavaScript''),
      (''text/x-perl'', SCRIPT, ''Perl Script''),
      (''text/x-ruby'', SCRIPT, ''Ruby Script''),
      (''text/x-php'', SCRIPT, ''PHP Script''),
      (''application/x-httpd-php'', SCRIPT, ''PHP Script''),
      (''application/x-sqlite3'', DATA, ''SQLite Database''),
      (''application/x-sql'', DATA, ''SQL''),
      (''application/yaml'', DATA, ''YAML''),
      (''text/yaml'', DATA, ''YAML''),
      (''application/x-protobuf'', DATA, ''Protocol Buffers''),
      (''application/x-x509-ca-cert'', ENCRYPTED, ''X.509 Certificate''),
      (''application/pgp-encrypted'', ENCRYPTED, ''PGP Encrypted''),
      (''application/pkcs7-signature'', ENCRYPTED, ''PKCS#7 Signature'')]"

definition EXTENSION_FALLBACK :: "(string \<times> file_category \<times> string) list" where
  "EXTENSION_FALLBACK =
     [(''.docx'', DOCUMENT, ''Microsoft Word (DOCX)''),
      (''.xlsx'', DOCUMENT, ''Microsoft Excel (XLSX)''),
      (''.pptx'', DOCUMENT, ''Microsoft PowerPoint (PPTX)''),
      (''.odt'', DOCUMENT, ''OpenDocument Text (ODT)''),
      (''.ods'', DOCUMENT, ''OpenDocument Spreadsheet (ODS)''),
      (''.odp'', DOCUMENT, ''OpenDocument Presentation (ODP)''),
      (''.py'', SCRIPT, ''Python Script''),
      (''.js'', SCRIPT, ''JavaScript''),
      (''.ts'', SCRIPT, ''TypeScript''),
      (''.rb'', SCRIPT, ''Ruby Script''),
      (''.php'', SCRIPT, ''PHP Script''),
      (''.sh'', SCRIPT, ''Shell Script''),
      (''.bat'', SCRIPT, ''Batch Script''),
      (''.ps1'', SCRIPT, ''PowerShell Script''),
      (''.sql'', DATA, ''SQL''),
      (''.yaml'', DATA, ''YAML''),
      (''.yml'', DATA, ''YAML''),
      (''.json'', DATA, ''JSON''),
      (''.csv'', DOCUMENT, ''CSV''),
      (''.md'', DOCUMENT, ''Markdown''),
      (''.eml'', DOCUMENT, ''Email (EML)'')]"

section \<open>Detection of one file\<close>

record file_info =
  mime_type :: string
  category :: file_category
  type_name :: string
  fi_filename :: string
  extension :: string
  fi_size :: int

text \<open>The suffix of a name from its last dot on, in lower case; empty without a dot.\<close>

definition file_extension :: "string \<Rightarrow> string" where
  "file_extension fname =
     (case rfind CHR ''.'' fname of None \<Rightarrow> [] | Some dot_idx \<Rightarrow> lower (drop dot_idx fname))"

definition detect_file_type :: "(bytes \<Rightarrow> string) \<Rightarrow> bytes \<Rightarrow> string \<Rightarrow> file_info" where
  "detect_file_type from_buffer content fname =
     (let mime = from_buffer content;
          ext = (if fname \<noteq> [] then file_extension fname else []);
          (cat, tname) =
            (case map_of MIME_TYPE_DB mime of
               Some p \<Rightarrow> p
             | None \<Rightarrow>
                 (if mime = ''application/zip'' \<and> map_of EXTENSION_FALLBACK ext \<noteq> None
                  then the (map_of EXTENSION_FALLBACK ext)
                  else (case map_of EXTENSION_FALLBACK ext of
                          Some p \<Rightarrow> p | None \<Rightarrow> (UNKNOWN, mime))))
      in \<lparr>mime_type = mime, category = cat, type_name = tname, fi_filename = fname,
          extension = ext, fi_size = int (length content)\<rparr>)"

text \<open>
  The metadata the analyzer reads. A value of another type than the documented one is outside
  the interface; the model lets the accessor raise, as Python's operations on it would.
\<close>

definition meta_type_error :: "string \<Rightarrow> exn" where
  "meta_type_error key = Exn TypeError key"

definition meta_bytes :: "meta \<Rightarrow> bytes option res" where
  "meta_bytes meta =
     (case dict_get meta ''content_bytes'' PyNone of
        PyNone \<Rightarrow> Inr None
      | PyBytes b \<Rightarrow> Inr (Some b)
      | _ \<Rightarrow> Inl (meta_type_error ''content_bytes''))"

definition meta_filename :: "meta \<Rightarrow> string res" where
  "meta_filename meta =
     (case dict_get meta ''filename'' (PyStr []) of
        PyStr s \<Rightarrow> Inr s | _ \<Rightarrow> Inl (meta_type_error ''filename''))"

definition meta_size :: "meta \<Rightarrow> int res" where
  "meta_size meta =
     (case dict_get meta ''size'' (PyInt 0) of
        PyInt n \<Rightarrow> Inr n | _ \<Rightarrow> Inl (meta_type_error ''size''))"

definition detect_component ::
  "(bytes \<Rightarrow> string) \<Rightarrow> message_component \<Rightarrow> file_info option res" where
  "detect_component from_buffer c =
     rbind (meta_bytes (comp_meta c)) (\<lambda>content_bytes.
     rbind (meta_filename (comp_meta c)) (\<lambda>fname.
     rbind (meta_size (comp_meta c)) (\<lambda>size.
       case content_bytes of
         Some b \<Rightarrow>
           (let info = detect_file_type from_buffer b fname
            in Inr (Some (if size \<noteq> 0 then info\<lparr>fi_size := size\<rparr> else info)))
       | None \<Rightarrow>
           if fname \<noteq> [] then
             (let ext = file_extension fname;
                  (cat, tname) = (case map_of EXTENSION_FALLBACK ext of
                     Some p \<Rightarrow> p | None \<Rightarrow> (UNKNOWN, ''Unknown ('' @ ext @ '')''))
              in Inr (Some \<lparr>mime_type = ''application/octet-stream'', category = cat,
                   type_name = tname, fi_filename = fname, extension = ext, fi_size = size\<rparr>))
           else Inr None)))"

section \<open>Glob patterns\<close>

text \<open>
  A pattern is a list of items: \<open>*\<close>, \<open>?\<close>, a bracket set and a literal. In a set a character, a
  dash and a character are a range (empty when reversed); a bracket that is not closed is a
  literal. (A reversed range directly followed by an exclamation mark is read by the library
  as a negation; that corner is not modelled.)
\<close>

datatype set_item = One char | Range char char

datatype glob = Star | AnyChar | CharSet bool "set_item list" | Lit char

fun set_items :: "string \<Rightarrow> set_item list" where
  "set_items (x # d # y # s) =
     (if d = CHR ''-'' then Range x y # set_items s else One x # set_items (d # y # s))"
| "set_items (x # s) = One x # set_items s"
| "set_items [] = []"

fun in_item :: "char \<Rightarrow> set_item \<Rightarrow> bool" where
  "in_item c (One x) = (c = x)"
| "in_item c (Range x y) = (code x \<le> code c \<and> code c \<le> code y)"

text \<open>The text of a bracket set: everything up to the closing bracket, which is not the first.\<close>

definition bracket_body :: "string \<Rightarrow> (bool \<times> string \<times> string) option" where
  "bracket_body s =
     (let (neg, t) = (case s of c # cs \<Rightarrow> if c = CHR ''!'' then (True, cs) else (False, s)
                      | [] \<Rightarrow> (False, s));
          (first, u) = (case t of c # cs \<Rightarrow> if c = CHR '']'' then ([c], cs) else ([], t)
                        | [] \<Rightarrow> ([], t));
          body = takeWhile (\<lambda>c. c \<noteq> CHR '']'') u
      in if length body < length u then Some (neg, first @ body, drop (Suc (length body)) u)
         else None)"

lemma bracket_body_shorter: "bracket_body s = Some (neg, body, r) \<Longrightarrow> length r < length s"
  by (auto simp: bracket_body_def Let_def split: list.splits if_splits prod.splits)

function parse_glob :: "string \<Rightarrow> glob list" where
  "parse_glob [] = []"
| "parse_glob (c # s) =
     (if c = CHR ''*'' then Star # parse_glob s
      else if c = CHR ''?'' then AnyChar # parse_glob s
      else if c = CHR ''['' then
        (case bracket_body s of
           None \<Rightarrow> Lit c # parse_glob s
         | Some (neg, body, r) \<Rightarrow> CharSet neg (set_items body) # parse_glob r)
      else Lit c # parse_glob s)"
  by pat_completeness auto
termination
  by (relation "measure length") (auto dest: bracket_body_shorter)

fun glob_match :: "glob list \<Rightarrow> string \<Rightarrow> bool" where
  "glob_match [] s = (s = [])"
| "glob_match (Star # gs) [] = glob_match gs []"
| "glob_match (Star # gs) (c # s) = (glob_match gs (c # s) \<or> glob_match (Star # gs) s)"
| "glob_match (AnyChar # gs) [] = False"
| "glob_match (AnyChar # gs) (c # s) = glob_match gs s"
| "glob_match (CharSet neg items # gs) [] = False"
| "glob_match (CharSet neg items # gs) (c # s) =
     (list_ex (in_item c) items \<noteq> neg \<and> glob_match gs s)"
| "glob_match (Lit x # gs) [] = False"
| "glob_match (Lit x # gs) (c # s) = (c = x \<and> glob_match gs s)"

definition fnmatch :: "string \<Rightarrow> string \<Rightarrow> bool" where
  "fnmatch fname pat = glob_match (parse_glob pat) fname"

section \<open>Rules\<close>

record file_type_rule =
  ft_name :: string
  blocked_categories :: "file_category list"
  blocked_mime_types :: "string list"
  blocked_extensions :: "string list"
  name_patterns :: "string list"
  min_size :: int
  max_size :: int
  ft_description :: string
  ft_confidence :: rat

definition rule_checks :: "file_type_rule \<Rightarrow> file_info \<Rightarrow> bool list" where
  "rule_checks rule info =
     (if blocked_categories rule \<noteq> [] then [category info \<in> set (blocked_categories rule)] else []) @
     (if blocked_mime_types rule \<noteq> [] then [mime_type info \<in> set (blocked_mime_types rule)] else []) @
     (if blocked_extensions rule \<noteq> []
      then [lower (extension info) \<in> set (map lower (blocked_extensions rule))] else []) @
     (if name_patterns rule \<noteq> []
      then [list_ex (\<lambda>pat. fnmatch (lower (fi_filename info)) (lower pat)) (name_patterns rule)]
      else []) @
     (if min_size rule > 0 then [fi_size info \<ge> min_size rule] else []) @
     (if max_size rule > 0 then [fi_size info \<le> max_size rule] else [])"

definition file_rule_matches :: "file_type_rule \<Rightarrow> file_info \<Rightarrow> bool" where
  "file_rule_matches rule info =
     (let checks = rule_checks rule info in length checks > 0 \<and> list_all id checks)"

definition file_type_match ::
  "string \<Rightarrow> file_type_rule \<Rightarrow> file_info \<Rightarrow> message_component \<Rightarrow> match" where
  "file_type_match name rule info c =
     \<lparr>analyzer_name = name, rule_name = ft_name rule, match_component = c,
      matched_text = (if fi_filename info \<noteq> [] then fi_filename info
                      else ''['' @ type_name info @ '']''),
      start_offset = 0, end_offset = 0, confidence = ft_confidence rule,
      match_meta = [(''mime_type'', PyStr (mime_type info)),
                    (''category'', PyStr (file_category_value (category info))),
                    (''type_name'', PyStr (type_name info)),
                    (''filename'', PyStr (fi_filename info)),
                    (''extension'', PyStr (extension info)), (''size'', PyInt (fi_size info)),
                    (''rule'', PyStr (ft_name rule)), (''description'', PyStr (ft_description rule))]\<rparr>"

definition file_type_analyze ::
  "(bytes \<Rightarrow> string) \<Rightarrow> string \<Rightarrow> file_type_rule list \<Rightarrow> component_type list option \<Rightarrow> parsed_message
   \<Rightarrow> match list res" where
  "file_type_analyze from_buffer name rules targets msg =
     extend_res (\<lambda>c. rbind (detect_component from_buffer c) (\<lambda>fi.
       Inr (case fi of
          None \<Rightarrow> []
        | Some info \<Rightarrow> map (\<lambda>rule. file_type_match name rule info c)
            (filter (\<lambda>rule. file_rule_matches rule info) rules))))
       (get_target_components targets msg)"

definition FileTypeAnalyzer ::
  "(bytes \<Rightarrow> string) \<Rightarrow> string \<Rightarrow> file_type_rule list \<Rightarrow> component_type list option \<Rightarrow> analyzer" where
  "FileTypeAnalyzer from_buffer name rules targets =
     \<lparr>an_name = name, an_targets = targets,
      an_analyze = file_type_analyze from_buffer name rules targets\<rparr>"

section \<open>Lemmas\<close>

lemma file_type_match_simps [simp]:
  "analyzer_name (file_type_match name rule info c) = name"
  "match_component (file_type_match name rule info c) = c"
  "rule_name (file_type_match name rule info c) = ft_name rule"
  by (simp_all add: file_type_match_def)

lemma file_type_analyze_mem:
  "file_type_analyze from_buffer name rules targets msg = Inr ms \<Longrightarrow>
   m \<in> set ms \<longleftrightarrow> (\<exists>c \<in> set (get_target_components targets msg). \<exists>info.
     detect_component from_buffer c = Inr (Some info) \<and>
     (\<exists>rule \<in> set rules. file_rule_matches rule info \<and> m = file_type_match name rule info c))"
proof -
  assume a: "file_type_analyze from_buffer name rules targets msg = Inr ms"
  let ?h = "\<lambda>c fi. case fi of None \<Rightarrow> []
    | Some info \<Rightarrow> map (\<lambda>rule. file_type_match name rule info c)
        (filter (\<lambda>rule. file_rule_matches rule info) rules)"
  note mem = extend_res_bind_mem [OF a [unfolded file_type_analyze_def]]
  have "m \<in> set ms \<longleftrightarrow> (\<exists>c \<in> set (get_target_components targets msg). \<exists>fi.
      detect_component from_buffer c = Inr fi \<and> m \<in> set (?h c fi))"
    by (rule mem)
  also have "\<dots> \<longleftrightarrow> (\<exists>c \<in> set (get_target_components targets msg). \<exists>info.
      detect_component from_buffer c = Inr (Some info) \<and>
      (\<exists>rule \<in> set rules. file_rule_matches rule info \<and> m = file_type_match name rule info c))"
  proof (rule bex_cong [OF refl])
    show "(\<exists>fi. detect_component from_buffer c = Inr fi \<and> m \<in> set (?h c fi)) \<longleftrightarrow>
        (\<exists>info. detect_component from_buffer c = Inr (Some info) \<and>
          (\<exists>rule \<in> set rules. file_rule_matches rule info \<and> m = file_type_match name rule info c))"
      for c
    proof (cases "detect_component from_buffer c")
      case (Inr fi)
      then show ?thesis by (cases fi) auto
    qed simp
  qed
  finally show ?thesis .
qed

interpretation file_type: analyzer_contract "FileTypeAnalyzer from_buffer name rules targets"
  by unfold_locales (auto simp: FileTypeAnalyzer_def file_type_analyze_mem)

text \<open>\<open>glob_match\<close> against the meaning of each item.\<close>

lemma glob_match_Star: "glob_match (Star # gs) s \<longleftrightarrow> (\<exists>a b. s = a @ b \<and> glob_match gs b)"
proof (induction s)
  case (Cons c s)
  have "glob_match (Star # gs) (c # s) \<longleftrightarrow>
      glob_match gs (c # s) \<or> (\<exists>a b. s = a @ b \<and> glob_match gs b)"
    using Cons.IH by simp
  then show ?case by (auto simp: Cons_eq_append_conv)
qed simp

lemma glob_match_Lits: "glob_match (map Lit p) s \<longleftrightarrow> s = p"
proof (induction p arbitrary: s)
  case (Cons x p)
  then show ?case by (cases s) auto
qed simp

definition plain_char :: "char \<Rightarrow> bool" where
  "plain_char c \<longleftrightarrow> c \<notin> {CHR ''*'', CHR ''?'', CHR ''[''}"

lemma parse_glob_plain: "list_all plain_char p \<Longrightarrow> parse_glob p = map Lit p"
  by (induction p) (auto simp: plain_char_def)

lemma code_lower_char:
  "code (lower_char c) =
     (if (65 \<le> code c \<and> code c \<le> 90) \<or> (192 \<le> code c \<and> code c \<le> 222 \<and> code c \<noteq> 215)
      then code c + 32 else code c)"
  by (auto simp: lower_char_def Let_def)

lemma plain_char_code: "plain_char c \<longleftrightarrow> code c \<noteq> 42 \<and> code c \<noteq> 63 \<and> code c \<noteq> 91"
proof -
  have "c = d \<longleftrightarrow> code c = code d" for d by simp
  note * = this [of "CHR ''*''"] this [of "CHR ''?''"] this [of "CHR ''[''"]
  have "code CHR ''*'' = 42" "code CHR ''?'' = 63" "code CHR ''['' = 91" by (simp_all add: code_def)
  then show ?thesis unfolding plain_char_def using * by auto
qed

lemma plain_char_lower [simp]: "plain_char (lower_char c) = plain_char c"
  unfolding plain_char_code code_lower_char by auto

lemma plain_lower [simp]: "list_all plain_char (lower p) = list_all plain_char p"
  by (simp add: lower_def list_all_iff)

lemma fnmatch_suffix: "list_all plain_char p \<Longrightarrow> fnmatch s (CHR ''*'' # p) \<longleftrightarrow> ends_with s p"
  by (simp add: fnmatch_def parse_glob_plain glob_match_Star glob_match_Lits ends_with_iff
      del: glob_match.simps)

lemma fnmatch_plain: "list_all plain_char p \<Longrightarrow> fnmatch s p \<longleftrightarrow> s = p"
  by (simp add: fnmatch_def parse_glob_plain glob_match_Lits)

section \<open>What the rules decide\<close>

definition rule_has_condition :: "file_type_rule \<Rightarrow> bool" where
  "rule_has_condition rule \<longleftrightarrow>
     blocked_categories rule \<noteq> [] \<or> blocked_mime_types rule \<noteq> [] \<or> blocked_extensions rule \<noteq> [] \<or>
     name_patterns rule \<noteq> [] \<or> min_size rule > 0 \<or> max_size rule > 0"

text \<open>
  A rule triggers exactly when it states at least one condition and the file meets every
  condition it states; a rule without conditions never triggers.
\<close>

theorem file_rule_is_conjunction:
  "file_rule_matches rule info \<longleftrightarrow>
     rule_has_condition rule \<and>
     (blocked_categories rule = [] \<or> category info \<in> set (blocked_categories rule)) \<and>
     (blocked_mime_types rule = [] \<or> mime_type info \<in> set (blocked_mime_types rule)) \<and>
     (blocked_extensions rule = [] \<or>
        lower (extension info) \<in> lower ` set (blocked_extensions rule)) \<and>
     (name_patterns rule = [] \<or>
        (\<exists>pat \<in> set (name_patterns rule). fnmatch (lower (fi_filename info)) (lower pat))) \<and>
     (min_size rule \<le> 0 \<or> min_size rule \<le> fi_size info) \<and>
     (max_size rule \<le> 0 \<or> fi_size info \<le> max_size rule)"
  by (auto simp: file_rule_matches_def rule_checks_def rule_has_condition_def Let_def list_ex_iff)

text \<open>
  The content decides: for a MIME type of the database the name of the file has no
  influence on the category, so renaming an executable hides nothing. (It also means that the
  extension never refines \<open>application/zip\<close>, which is in the database.)
\<close>

theorem content_beats_extension:
  assumes "map_of MIME_TYPE_DB (from_buffer content) = Some (cat, tname)"
  shows "category (detect_file_type from_buffer content fname) = cat \<and>
    type_name (detect_file_type from_buffer content fname) = tname"
  using assms by (simp add: detect_file_type_def Let_def)

theorem content_beats_extension_witness:
  "category (detect_file_type (\<lambda>_. ''application/zip'') [] ''report.docx'') = ARCHIVE"
proof -
  have "map_of MIME_TYPE_DB ((\<lambda>_. ''application/zip'') []) = Some (ARCHIVE, ''ZIP'')" by code_simp
  from content_beats_extension [OF this] show ?thesis by blast
qed

text \<open>
  A name pattern \<open>*suffix\<close> without further wildcards selects, in any case, exactly the
  file names that end with the suffix.
\<close>

theorem suffix_pattern_spec:
  assumes "list_all plain_char p"
  shows "fnmatch (lower fname) (lower (CHR ''*'' # p)) \<longleftrightarrow> ends_with (lower fname) (lower p)"
proof -
  have "lower (CHR ''*'' # p) = CHR ''*'' # lower p" by (simp add: lower_def) code_simp
  then show ?thesis using fnmatch_suffix [of "lower p" "lower fname"] assms by simp
qed

theorem suffix_pattern_spec_witness:
  "fnmatch (lower ''REPORT.XLSX'') (lower ''*.xlsx'') \<and> \<not> fnmatch (lower ''a.xls'') (lower ''*.xlsx'')"
proof -
  have "list_all plain_char ''.xlsx''" by code_simp
  note * = suffix_pattern_spec [OF this]
  have "ends_with (lower ''REPORT.XLSX'') (lower ''.xlsx'')" "\<not> ends_with (lower ''a.xls'') (lower ''.xlsx'')"
    by code_simp+
  then show ?thesis using * by blast
qed

end
