(* ===== verification/Fingerprint.thy ===== *)
theory Fingerprint
  imports Engine
begin

unbundle bit_operations_syntax

text \<open>
  \<open>server/detection/analyzers/fingerprint_analyzer.py\<close>: simhash fingerprints of documents, the
  index that stores them and the analyzer that compares messages with it. The 64-bit values
  are \<open>64 word\<close>, so the masked multiplication of FNV-1a is the multiplication of the type.
  A score is one minus a multiple of 1/64, which a double holds exactly.
\<close>

section \<open>Text to shingles\<close>

definition MIN_TEXT_LENGTH :: nat where "MIN_TEXT_LENGTH = 50"

definition DEFAULT_SHINGLE_SIZE :: nat where "DEFAULT_SHINGLE_SIZE = 4"

function collapse_spaces :: "string \<Rightarrow> string" where
  "collapse_spaces [] = []"
| "collapse_spaces (c # cs) =
     (if is_space c then CHR '' '' # collapse_spaces (dropWhile is_space cs)
      else c # collapse_spaces cs)"
  by pat_completeness auto
termination
  by (relation "measure length") (auto simp: le_imp_less_Suc length_dropWhile_le)

definition normalize_text :: "string \<Rightarrow> string" where
  "normalize_text content =
     strip (collapse_spaces (filter (\<lambda>c. is_word_char c \<or> is_space c) (lower content)))"

definition generate_shingles :: "string \<Rightarrow> nat \<Rightarrow> string list" where
  "generate_shingles content k =
     (if length content < k then (if content \<noteq> [] then [content] else [])
      else map (\<lambda>i. slice content i (i + k)) [0..<length content - k + 1])"

section \<open>Hashing\<close>

definition fnv_step :: "8 word \<Rightarrow> 64 word \<Rightarrow> 64 word" where
  "fnv_step b h = (h XOR ucast b) * 0x100000001B3"

definition fnv1a_64 :: "bytes \<Rightarrow> 64 word" where
  "fnv1a_64 data = fold fnv_step data 0xCBF29CE484222325"

definition add_weights :: "64 word \<Rightarrow> int list \<Rightarrow> int list" where
  "add_weights h ws = map (\<lambda>i. if bit h i then ws ! i + 1 else ws ! i - 1) [0..<64]"

definition simhash_weights :: "string list \<Rightarrow> int list" where
  "simhash_weights shingles =
     fold (\<lambda>shingle ws. add_weights (fnv1a_64 (utf8 shingle)) ws) shingles (replicate 64 0)"

definition weights_to_hash :: "int list \<Rightarrow> 64 word" where
  "weights_to_hash ws =
     fold (\<lambda>i fp. if ws ! i > 0 then fp OR push_bit i 1 else fp) [0..<64] 0"

definition compute_simhash :: "string \<Rightarrow> nat \<Rightarrow> 64 word" where
  "compute_simhash content shingle_size =
     (let shingles = generate_shingles (normalize_text content) shingle_size in
      if shingles = [] then 0 else weights_to_hash (simhash_weights shingles))"

definition hamming_distance :: "64 word \<Rightarrow> 64 word \<Rightarrow> nat" where
  "hamming_distance a b = length (filter (bit (a XOR b)) [0..<64])"

definition similarity_score :: "64 word \<Rightarrow> 64 word \<Rightarrow> rat" where
  "similarity_score a b = 1 - of_nat (hamming_distance a b) / 64"

section \<open>The index\<close>

record fingerprint_record =
  fp_id :: string
  fp_name :: string
  fp_description :: string
  fp_simhash :: "64 word"
  text_length :: nat
  shingle_count :: nat
  fp_shingle_size :: nat
  content_preview :: string

text \<open>
  What the index file holds: nothing, text that is not the expected JSON, or a list of items,
  where an item \<open>None\<close> is one the record's constructor rejects (loading stops there and keeps
  what came before).
\<close>

datatype index_file = NoFile | BadJson | Items "fingerprint_record option list"

record fingerprint_index =
  fx_records :: "(string \<times> fingerprint_record) list"
  fx_file :: index_file

fun load_items ::
  "fingerprint_record option list \<Rightarrow> (string \<times> fingerprint_record) list
   \<Rightarrow> (string \<times> fingerprint_record) list" where
  "load_items [] recs = recs"
| "load_items (None # items) recs = recs"
| "load_items (Some r # items) recs = load_items items (dict_set recs (fp_id r) r)"

definition load_index :: "index_file \<Rightarrow> fingerprint_index" where
  "load_index f =
     \<lparr>fx_records = (case f of Items items \<Rightarrow> load_items items [] | _ \<Rightarrow> []), fx_file = f\<rparr>"

definition save_index :: "fingerprint_index \<Rightarrow> fingerprint_index" where
  "save_index ix = ix\<lparr>fx_file := Items (map (\<lambda>(_, r). Some r) (fx_records ix))\<rparr>"

definition index_add ::
  "fingerprint_index \<Rightarrow> string \<Rightarrow> string \<Rightarrow> string \<Rightarrow> string \<Rightarrow> nat
   \<Rightarrow> (fingerprint_index \<times> fingerprint_record) res" where
  "index_add ix new_id content name description shingle_size =
     (let normalized = normalize_text content in
      if length normalized < MIN_TEXT_LENGTH
      then Inl (Exn ValueError (''Text too short to fingerprint ('' @ nat_str (length normalized) @
             '' chars, minimum '' @ nat_str MIN_TEXT_LENGTH @ '')''))
      else
        (let rec_new = \<lparr>fp_id = new_id, fp_name = name, fp_description = description,
               fp_simhash = compute_simhash content shingle_size,
               text_length = length normalized,
               shingle_count = length (generate_shingles normalized shingle_size),
               fp_shingle_size = shingle_size, content_preview = strip (take 200 content)\<rparr>
         in Inr (save_index (ix\<lparr>fx_records := dict_set (fx_records ix) new_id rec_new\<rparr>), rec_new)))"

definition index_remove :: "fingerprint_index \<Rightarrow> string \<Rightarrow> fingerprint_index \<times> bool" where
  "index_remove ix record_id =
     (if map_of (fx_records ix) record_id \<noteq> None
      then (save_index (ix\<lparr>fx_records := dict_del (fx_records ix) record_id\<rparr>), True)
      else (ix, False))"

definition index_get :: "fingerprint_index \<Rightarrow> string \<Rightarrow> fingerprint_record option" where
  "index_get ix record_id = map_of (fx_records ix) record_id"

definition index_search ::
  "fingerprint_index \<Rightarrow> string \<Rightarrow> rat \<Rightarrow> nat \<Rightarrow> (fingerprint_record \<times> rat) list" where
  "index_search ix content threshold shingle_size =
     (if fx_records ix = [] then []
      else if length (normalize_text content) < MIN_TEXT_LENGTH then []
      else
        (let query_hash = compute_simhash content shingle_size;
             results = concat (map (\<lambda>(_, r).
               if fp_shingle_size r \<noteq> shingle_size then []
               else (let score = similarity_score query_hash (fp_simhash r)
                     in if score \<ge> threshold then [(r, score)] else [])) (fx_records ix))
         in sort_key (\<lambda>p. - snd p) results))"

section \<open>The analyzer\<close>

text \<open>\<open>round(x, 4)\<close>: to the nearest, ties to the even digit.\<close>

definition round4 :: "rat \<Rightarrow> rat" where
  "round4 x =
     (let y = x * 10000; f = \<lfloor>y\<rfloor>; d = y - of_int f in
      (if d < 1 / 2 then of_int f
       else if d > 1 / 2 then of_int (f + 1)
       else if even f then of_int f else of_int (f + 1)) / 10000)"

definition fingerprint_match ::
  "string \<Rightarrow> rat \<Rightarrow> nat \<Rightarrow> message_component \<Rightarrow> fingerprint_record \<Rightarrow> rat \<Rightarrow> match" where
  "fingerprint_match name threshold shingle_size c r score =
     \<lparr>analyzer_name = name, rule_name = ''fingerprint:'' @ fp_name r, match_component = c,
      matched_text = take 100 (comp_content c), start_offset = 0,
      end_offset = int (length (comp_content c)), confidence = score,
      match_meta = [(''fingerprint_id'', PyStr (fp_id r)), (''document_name'', PyStr (fp_name r)),
                    (''similarity_score'', PyFloat (round4 score)), (''threshold'', PyFloat threshold),
                    (''hamming_distance'', PyInt (int (hamming_distance
                       (compute_simhash (comp_content c) shingle_size) (fp_simhash r))))]\<rparr>"

definition fingerprint_analyze ::
  "fingerprint_index \<Rightarrow> string \<Rightarrow> component_type list option \<Rightarrow> rat \<Rightarrow> nat \<Rightarrow> parsed_message
   \<Rightarrow> match list" where
  "fingerprint_analyze ix name targets threshold shingle_size msg =
     concat (map (\<lambda>c.
       if length (normalize_text (comp_content c)) < MIN_TEXT_LENGTH then []
       else map (\<lambda>(r, score). fingerprint_match name threshold shingle_size c r score)
              (index_search ix (comp_content c) threshold shingle_size))
       (get_target_components targets msg))"

definition FingerprintAnalyzer ::
  "fingerprint_index \<Rightarrow> string \<Rightarrow> component_type list option \<Rightarrow> rat \<Rightarrow> nat \<Rightarrow> analyzer" where
  "FingerprintAnalyzer ix name targets threshold shingle_size =
     (let tgts = Some (case targets of None \<Rightarrow> [BODY, ATTACHMENT] | Some ts \<Rightarrow> ts) in
      \<lparr>an_name = name, an_targets = tgts,
       an_analyze = (\<lambda>msg. Inr (fingerprint_analyze ix name tgts threshold shingle_size msg))\<rparr>)"

interpretation fingerprint: analyzer_contract "FingerprintAnalyzer ix name targets threshold shingle_size"
  by unfold_locales
    (auto simp: FingerprintAnalyzer_def fingerprint_analyze_def fingerprint_match_def Let_def
       split: if_splits)

section \<open>Lemmas on the hash\<close>

lemma fnv_prime_inverse: "(0x100000001B3 :: 64 word) * 14886173955864302971 = 1"
  by simp

lemma fnv_prime_cancel: "x * 0x100000001B3 = y * (0x100000001B3 :: 64 word) \<Longrightarrow> x = y"
proof -
  assume "x * 0x100000001B3 = y * (0x100000001B3 :: 64 word)"
  then have "x * 0x100000001B3 * 14886173955864302971 = y * 0x100000001B3 * 14886173955864302971"
    by (rule arg_cong)
  then show ?thesis by (simp only: mult.assoc fnv_prime_inverse mult_1_right)
qed

lemma xor_cancel_right: "a XOR c = b XOR c \<Longrightarrow> a = b" for a b c :: "64 word"
  by (simp add: bit_eq_iff bit_xor_iff) blast

lemma xor_cancel_left: "c XOR a = c XOR b \<Longrightarrow> a = b" for a b c :: "64 word"
  by (simp add: bit_eq_iff bit_xor_iff) blast

lemma fnv_step_inj_state: "fnv_step b h = fnv_step b h' \<longleftrightarrow> h = h'"
proof
  assume "fnv_step b h = fnv_step b h'"
  then have "h XOR ucast b = h' XOR ucast b"
    unfolding fnv_step_def by (rule fnv_prime_cancel)
  then show "h = h'" by (rule xor_cancel_right)
qed simp

lemma fnv_step_inj_byte: "fnv_step b h = fnv_step b' h \<longleftrightarrow> b = b'"
proof
  assume "fnv_step b h = fnv_step b' h"
  then have "h XOR ucast b = h XOR ucast b'"
    unfolding fnv_step_def by (rule fnv_prime_cancel)
  then have "(ucast b :: 64 word) = ucast b'" by (rule xor_cancel_left)
  then have eq: "bit (ucast b :: 64 word) n = bit (ucast b' :: 64 word) n" for n by simp
  have "bit b n = bit b' n" if "n < 8" for n using eq [of n] that by (simp add: bit_simps)
  then show "b = b'" by (intro bit_word_eqI) simp
qed simp

lemma fold_fnv_inj: "fold fnv_step xs h = fold fnv_step xs h' \<longleftrightarrow> h = h'"
  by (induction xs arbitrary: h h') (simp_all add: fnv_step_inj_state)

text \<open>
  FNV-1a never maps two inputs to one hash that differ in exactly one byte: each step is a
  bijection of the 64-bit state (its multiplier is odd) and injective in the byte.
\<close>

theorem fnv_detects_byte_change:
  "fnv1a_64 (xs @ b # ys) = fnv1a_64 (xs @ b' # ys) \<longleftrightarrow> b = b'"
  by (simp add: fnv1a_64_def fold_fnv_inj fnv_step_inj_byte)

lemma length_add_weights [simp]: "length (add_weights h ws) = 64"
  by (simp add: add_weights_def)

lemma add_weights_nth: "i < 64 \<Longrightarrow> add_weights h ws ! i = ws ! i + (if bit h i then 1 else - 1)"
  by (simp add: add_weights_def)

lemma fold_weights_nth:
  "i < 64 \<Longrightarrow> fold (\<lambda>s ws. add_weights (f s) ws) ss ws ! i =
     ws ! i + (\<Sum>s \<leftarrow> ss. if bit (f s) i then 1 else - 1)"
  by (induction ss arbitrary: ws) (simp_all add: add_weights_nth)

lemma sum_signs:
  "(\<Sum>s \<leftarrow> ss. if P s then 1 else - 1 :: int) =
     int (length (filter P ss)) - int (length (filter (\<lambda>s. \<not> P s) ss))"
  by (induction ss) auto

lemma fold_or_bit:
  "bit (fold (\<lambda>i fp. if P i then fp OR push_bit i 1 else fp) is (a :: 64 word)) n \<longleftrightarrow>
     bit a n \<or> (n < 64 \<and> n \<in> set is \<and> P n)"
  by (induction "is" arbitrary: a) (auto simp: bit_simps)

lemma bit_weights_to_hash: "n < 64 \<Longrightarrow> bit (weights_to_hash ws) n \<longleftrightarrow> ws ! n > 0"
  unfolding weights_to_hash_def by (subst fold_or_bit) simp

text \<open>
  Simhash is the bitwise majority of the shingle hashes: a bit is set exactly when strictly
  more shingles have it set in their hash than not (so a tie, like the empty text, gives 0).
\<close>

theorem simhash_is_majority:
  assumes "i < 64"
  shows "bit (compute_simhash content k) i \<longleftrightarrow>
    (let shs = generate_shingles (normalize_text content) k in
     length (filter (\<lambda>s. \<not> bit (fnv1a_64 (utf8 s)) i) shs) <
     length (filter (\<lambda>s. bit (fnv1a_64 (utf8 s)) i) shs))"
proof -
  have "simhash_weights shs ! i = int (length (filter (\<lambda>s. bit (fnv1a_64 (utf8 s)) i) shs)) -
      int (length (filter (\<lambda>s. \<not> bit (fnv1a_64 (utf8 s)) i) shs))" for shs
    unfolding simhash_weights_def using assms
    by (subst fold_weights_nth) (simp_all add: sum_signs)
  then show ?thesis
    using assms by (auto simp: compute_simhash_def Let_def bit_weights_to_hash)
qed

theorem simhash_is_majority_witness:
  "bit (compute_simhash ''A'' 4) 2 \<longleftrightarrow> bit (fnv1a_64 (utf8 ''a'')) 2"
proof -
  have "generate_shingles (normalize_text ''A'') 4 = [''a'']" by code_simp
  then show ?thesis using simhash_is_majority [of 2 "''A''" 4] by simp
qed

section \<open>Lemmas on the distance\<close>

lemma hamming_card: "hamming_distance a b = card {i. i < 64 \<and> bit a i \<noteq> bit b i}"
proof -
  have "hamming_distance a b = card (set (filter (bit (a XOR b)) [0..<64]))"
    unfolding hamming_distance_def by (rule distinct_card [symmetric]) simp
  also have "set (filter (bit (a XOR b)) [0..<64]) = {i. i < 64 \<and> bit a i \<noteq> bit b i}"
    by (auto simp: bit_xor_iff)
  finally show ?thesis .
qed

lemma hamming_le: "hamming_distance a b \<le> 64"
  unfolding hamming_distance_def by (metis diff_zero length_filter_le length_upt)

lemma hamming_zero: "hamming_distance a b = 0 \<longleftrightarrow> a = b"
proof
  assume "hamming_distance a b = 0"
  then have "\<forall>i < 64. bit a i = bit b i" by (auto simp: hamming_card)
  then show "a = b" by (intro bit_word_eqI) simp
qed (simp add: hamming_card)

text \<open>
  The Hamming distance is a metric bounded by 64: the similarity of two fingerprints lies
  between 0 and 1 and is 1 exactly for equal ones.
\<close>

theorem hamming_is_metric:
  "hamming_distance a b \<le> 64 \<and> (hamming_distance a b = 0 \<longleftrightarrow> a = b) \<and>
   hamming_distance a b = hamming_distance b a \<and>
   hamming_distance a c \<le> hamming_distance a b + hamming_distance b c \<and>
   0 \<le> similarity_score a b \<and> similarity_score a b \<le> 1 \<and> (similarity_score a b = 1 \<longleftrightarrow> a = b)"
proof -
  have "{i. i < 64 \<and> bit a i \<noteq> bit c i} \<subseteq>
      {i. i < 64 \<and> bit a i \<noteq> bit b i} \<union> {i. i < 64 \<and> bit b i \<noteq> bit c i}" by auto
  then have "hamming_distance a c \<le> card ({i. i < 64 \<and> bit a i \<noteq> bit b i} \<union> {i. i < 64 \<and> bit b i \<noteq> bit c i})"
    unfolding hamming_card by (intro card_mono) auto
  also have "\<dots> \<le> hamming_distance a b + hamming_distance b c"
    unfolding hamming_card by (rule card_Un_le)
  finally have tri: "hamming_distance a c \<le> hamming_distance a b + hamming_distance b c" .
  have sym: "hamming_distance a b = hamming_distance b a"
    unfolding hamming_card by (rule arg_cong [where f = card]) auto
  have "(of_nat (hamming_distance a b) :: rat) \<le> 64"
    using hamming_le [of a b] of_nat_mono [of "hamming_distance a b" 64] by simp
  then have "0 \<le> similarity_score a b" "similarity_score a b \<le> 1"
      "similarity_score a b = 1 \<longleftrightarrow> a = b"
    by (simp_all add: similarity_score_def hamming_zero)
  note sim = this
  show ?thesis by (intro conjI hamming_le hamming_zero tri sym sim)
qed

section \<open>The index over a run\<close>

definition index_wf :: "fingerprint_index \<Rightarrow> bool" where
  "index_wf ix \<longleftrightarrow>
     distinct (map fst (fx_records ix)) \<and> list_all (\<lambda>(k, r). fp_id r = k) (fx_records ix)"

definition index_synced :: "fingerprint_index \<Rightarrow> bool" where
  "index_synced ix \<longleftrightarrow> fx_records (load_index (fx_file ix)) = fx_records ix"

lemma dict_set_append:
  "k \<notin> fst ` set d \<Longrightarrow> dict_set d k v = d @ [(k, v)]"
  by (induction d k v rule: dict_set.induct) auto

lemma load_items_saved:
  "distinct (map fst (acc @ recs)) \<Longrightarrow> list_all (\<lambda>(k, r). fp_id r = k) recs \<Longrightarrow>
   load_items (map (\<lambda>(_, r). Some r) recs) acc = acc @ recs"
proof (induction recs arbitrary: acc)
  case (Cons p recs)
  obtain k r where p: "p = (k, r)" "fp_id r = k" using Cons.prems(2) by (cases p) auto
  have "dict_set acc k r = acc @ [(k, r)]"
    using Cons.prems(1) by (intro dict_set_append) (auto simp: p)
  then show ?case using Cons.IH [of "acc @ [(k, r)]"] Cons.prems by (simp add: p)
qed simp

lemma save_index_synced: "index_wf ix \<Longrightarrow> index_synced (save_index ix) \<and> index_wf (save_index ix)"
  using load_items_saved [of "[]" "fx_records ix"]
  by (simp add: index_synced_def index_wf_def load_index_def save_index_def)

lemma dict_set_ids:
  "list_all (\<lambda>(k, r). fp_id r = k) d \<Longrightarrow> list_all (\<lambda>(k, r). fp_id r = k) (dict_set d (fp_id r) r)"
  by (induction d "fp_id r" r rule: dict_set.induct) auto

lemma load_items_wf:
  "distinct (map fst acc) \<Longrightarrow> list_all (\<lambda>(k, r). fp_id r = k) acc \<Longrightarrow>
   distinct (map fst (load_items items acc)) \<and>
   list_all (\<lambda>(k, r). fp_id r = k) (load_items items acc)"
proof (induction items acc rule: load_items.induct)
  case (3 r items recs)
  then show ?case using distinct_dict_set dict_set_ids by (metis load_items.simps(3))
qed simp_all

lemma load_index_wf: "index_wf (load_index f) \<and> index_synced (load_index f)"
  using load_items_wf [of "[]"]
  by (cases f) (simp_all add: index_wf_def index_synced_def load_index_def)

lemma index_add_wf:
  "index_add ix new_id content name description k = Inr (ix', r) \<Longrightarrow> index_wf ix \<Longrightarrow>
   index_wf ix' \<and> index_synced ix' \<and> fp_id r = new_id \<and>
   fx_records ix' = dict_set (fx_records ix) new_id r \<and>
   fp_simhash r = compute_simhash content k \<and> fp_shingle_size r = k \<and>
   length (normalize_text content) \<ge> MIN_TEXT_LENGTH"
proof -
  assume a: "index_add ix new_id content name description k = Inr (ix', r)" and wf: "index_wf ix"
  from a have r: "fp_id r = new_id" "fp_simhash r = compute_simhash content k" "fp_shingle_size r = k"
      "length (normalize_text content) \<ge> MIN_TEXT_LENGTH"
    and ix: "ix' = save_index (ix\<lparr>fx_records := dict_set (fx_records ix) new_id r\<rparr>)"
    by (auto simp: index_add_def Let_def split: if_splits)
  have "index_wf (ix\<lparr>fx_records := dict_set (fx_records ix) new_id r\<rparr>)"
    using wf r(1) dict_set_ids [of "fx_records ix" r] by (auto simp: index_wf_def)
  from save_index_synced [OF this] show ?thesis using r ix by (simp add: save_index_def)
qed

lemma index_remove_wf:
  "index_wf ix \<Longrightarrow> index_synced ix \<Longrightarrow>
   index_wf (fst (index_remove ix i)) \<and> index_synced (fst (index_remove ix i))"
proof -
  assume wf: "index_wf ix" and sy: "index_synced ix"
  have "index_wf (ix\<lparr>fx_records := dict_del (fx_records ix) i\<rparr>)"
    using wf by (auto simp: index_wf_def list_all_iff set_dict_del)
  from save_index_synced [OF this] show ?thesis using wf sy by (simp add: index_remove_def)
qed

datatype index_op = IndexAdd string string string string nat | IndexRemove string

fun index_step :: "index_op \<Rightarrow> fingerprint_index \<Rightarrow> fingerprint_index" where
  "index_step (IndexAdd i content name description k) ix =
     (case index_add ix i content name description k of Inr (ix', _) \<Rightarrow> ix' | Inl _ \<Rightarrow> ix)"
| "index_step (IndexRemove i) ix = fst (index_remove ix i)"

lemma index_run_wf:
  "index_wf ix \<Longrightarrow> index_synced ix \<Longrightarrow> index_wf (fold index_step ops ix) \<and> index_synced (fold index_step ops ix)"
proof (induction ops arbitrary: ix)
  case (Cons p ops)
  have "index_wf (index_step p ix) \<and> index_synced (index_step p ix)"
    using Cons.prems index_remove_wf index_add_wf by (cases p) (auto split: sum.splits)
  then show ?case using Cons.IH by simp
qed simp

text \<open>
  A restart loses nothing: whatever the index file held at start-up and whatever was added
  and removed since, loading the file again gives the index in memory.
\<close>

theorem index_survives_restart:
  "fx_records (load_index (fx_file (fold index_step ops (load_index f)))) =
     fx_records (fold index_step ops (load_index f))"
  using index_run_wf [of "load_index f" ops] load_index_wf [of f] by (simp add: index_synced_def)

section \<open>Search\<close>

lemma index_search_mem:
  "(r, score) \<in> set (index_search ix content threshold k) \<longleftrightarrow>
     r \<in> snd ` set (fx_records ix) \<and> length (normalize_text content) \<ge> MIN_TEXT_LENGTH \<and>
     fp_shingle_size r = k \<and> score = similarity_score (compute_simhash content k) (fp_simhash r) \<and>
     threshold \<le> score"
  by (auto simp: index_search_def Let_def image_iff split: if_splits) force+

lemma sorted_desc: "sorted_wrt (\<lambda>x y. f x \<ge> f y) (sort_key (\<lambda>x. - f x) xs)"
  for f :: "'a \<Rightarrow> rat"
proof -
  have "sorted (map (\<lambda>x. - f x) (sort_key (\<lambda>x. - f x) xs))" by simp
  then show ?thesis by (simp add: sorted_map)
qed

text \<open>
  A document is found by its own text: after indexing it, a search for the same text with
  any threshold up to 1 returns its record with score 1, ahead of every less similar one, and
  after removing it the record's id is gone.
\<close>

theorem indexed_document_is_found:
  assumes "index_wf ix"
    and "index_add ix new_id content name description k = Inr (ix', r)" and "threshold \<le> 1"
  shows "(r, 1) \<in> set (index_search ix' content threshold k) \<and>
    sorted_wrt (\<lambda>x y. snd x \<ge> snd y) (index_search ix' content threshold k) \<and>
    index_get ix' new_id = Some r \<and> index_get (fst (index_remove ix' new_id)) new_id = None"
proof -
  note a = index_add_wf [OF assms(2,1)]
  have "similarity_score h h = 1" for h
    using hamming_zero [of h h] by (simp add: similarity_score_def)
  moreover have "r \<in> snd ` set (fx_records ix')"
    using a map_of_dict_set [of "fx_records ix" new_id r] by (metis fun_upd_same image_eqI map_of_SomeD snd_conv)
  ultimately have "(r, 1) \<in> set (index_search ix' content threshold k)"
    using a assms(3) by (simp add: index_search_mem)
  moreover have "sorted_wrt (\<lambda>x y. snd x \<ge> snd y) (index_search ix' content threshold k)"
    by (simp add: index_search_def Let_def sorted_desc)
  moreover have "index_get ix' new_id = Some r" using a by (simp add: index_get_def)
  moreover have "index_get (fst (index_remove ix' new_id)) new_id = None"
    by (simp add: index_get_def index_remove_def save_index_def)
  ultimately show ?thesis by simp
qed

theorem indexed_document_is_found_witness:
  "\<exists>ix r. index_add (load_index NoFile) ''1'' (replicate 60 CHR ''a'') ''doc'' [] 4 = Inr (ix, r) \<and>
     (r, 1) \<in> set (index_search ix (replicate 60 CHR ''a'') (2 / 5) 4)"
proof -
  let ?t = "replicate 60 CHR ''a''"
  have "length (normalize_text ?t) = 60" by code_simp
  then obtain ix r where a: "index_add (load_index NoFile) ''1'' ?t ''doc'' [] 4 = Inr (ix, r)"
    by (auto simp: index_add_def Let_def MIN_TEXT_LENGTH_def)
  have wf: "index_wf (load_index NoFile)" using load_index_wf by simp
  have "(2 / 5 :: rat) \<le> 1" by simp
  from indexed_document_is_found [OF wf a this] a show ?thesis by blast
qed

end
