(* ===== verification/PolicyEvaluator.thy ===== *)
theory PolicyEvaluator
  imports Engine
begin

text \<open>
  \<open>server/detection/policy_evaluator.py\<close>: policies over detection results. A policy is violated
  when some rule holds (a rule is the conjunction of its conditions), the sender or recipient
  groups match, no entire-message exception applies and some match survives the exceptions
  for matched components. The case-insensitive regular-expression search of the standard
  library and the printing of floats are parameters.
\<close>

section \<open>Data\<close>

datatype severity = INFO | LOW | MEDIUM | HIGH | CRITICAL

definition severity_order :: "severity list" where
  "severity_order = [INFO, LOW, MEDIUM, HIGH, CRITICAL]"

fun severity_rank :: "severity \<Rightarrow> nat" where
  "severity_rank INFO = 0"
| "severity_rank LOW = 1"
| "severity_rank MEDIUM = 2"
| "severity_rank HIGH = 3"
| "severity_rank CRITICAL = 4"

lemma severity_rank_inject: "severity_rank s = severity_rank t \<longleftrightarrow> s = t"
  by (cases s; cases t) simp_all

instantiation severity :: linorder
begin

definition less_eq_severity :: "severity \<Rightarrow> severity \<Rightarrow> bool" where
  "less_eq_severity s t \<longleftrightarrow> severity_rank s \<le> severity_rank t"

definition less_severity :: "severity \<Rightarrow> severity \<Rightarrow> bool" where
  "less_severity s t \<longleftrightarrow> severity_rank s < severity_rank t"

instance
  by standard (auto simp: less_eq_severity_def less_severity_def severity_rank_inject)

end

datatype condition_operator = MATCHES | NOT_MATCHES | COUNT_GTE | COUNT_LTE

datatype exception_scope = ENTIRE_MESSAGE | COMPONENT

datatype group_match_mode = EXACT | DOMAIN | REGEX

record rule_condition =
  rc_analyzer_name :: string
  rc_operator :: condition_operator
  threshold :: int
  rc_component_types :: "component_type list option"

record detection_rule =
  dr_name :: string
  conditions :: "rule_condition list"

record sender_recipient_group =
  sg_name :: string
  members :: "string list"
  match_mode :: group_match_mode
  sg_field :: string

record policy_exception =
  pe_name :: string
  pe_scope :: exception_scope
  pe_groups :: "sender_recipient_group list"
  pe_analyzer_names :: "string list option"
  pe_component_types :: "component_type list option"
  pe_condition :: "(parsed_message \<Rightarrow> detection_result \<Rightarrow> bool res) option"

record severity_level =
  sl_severity :: severity
  min_matches :: int

record policy =
  p_name :: string
  p_description :: string
  detection_rules :: "detection_rule list"
  p_groups :: "sender_recipient_group list"
  p_exceptions :: "policy_exception list"
  severity_levels :: "severity_level list"
  default_severity :: severity
  enabled :: bool

record policy_violation =
  policy_name :: string
  triggered :: bool
  v_severity :: severity
  matched_rules :: "string list"
  v_matches :: "match list"
  v_match_count :: nat
  exceptions_applied :: "string list"
  v_errors :: "string list"

record evaluation_result =
  er_message_id :: string
  violations :: "policy_violation list"

section \<open>Conditions and rules\<close>

text \<open>An absent or empty list of component types restricts nothing.\<close>

definition relevant_types :: "component_type list option \<Rightarrow> match list \<Rightarrow> match list" where
  "relevant_types cts ms =
     (case cts of
        None \<Rightarrow> ms
      | Some ts \<Rightarrow>
          if ts = [] then ms else filter (\<lambda>m. comp_type (match_component m) \<in> set ts) ms)"

definition condition_evaluate :: "rule_condition \<Rightarrow> detection_result \<Rightarrow> bool" where
  "condition_evaluate cond det =
     (let count = int (length (relevant_types (rc_component_types cond)
            (matches_for_analyzer det (rc_analyzer_name cond)))) in
      case rc_operator cond of
        MATCHES \<Rightarrow> count > 0
      | NOT_MATCHES \<Rightarrow> count = 0
      | COUNT_GTE \<Rightarrow> count \<ge> threshold cond
      | COUNT_LTE \<Rightarrow> count \<le> threshold cond)"

definition rule_evaluate :: "detection_rule \<Rightarrow> detection_result \<Rightarrow> bool" where
  "rule_evaluate rule det =
     (if conditions rule = [] then False
      else list_all (\<lambda>c. condition_evaluate c det) (conditions rule))"

definition matched_analyzers :: "detection_rule \<Rightarrow> detection_result \<Rightarrow> string set" where
  "matched_analyzers rule det =
     set (map rc_analyzer_name (filter (\<lambda>c. condition_evaluate c det) (conditions rule)))"

section \<open>Groups\<close>

record text_lib =
  re_search_ic :: "string \<Rightarrow> string \<Rightarrow> bool res"
  float_str :: "rat \<Rightarrow> string"

text \<open>\<open>str(value)\<close> of a metadata value that is not a list, and the type's name.\<close>

definition byte_repr :: "char \<Rightarrow> 8 word \<Rightarrow> string" where
  "byte_repr q b =
     (let c = (char_of (unat b) :: char) in
      if code c < 127 then repr_char q c
      else [CHR 0x5C, CHR ''x'', hex_char (code c div 16), hex_char (code c mod 16)])"

definition bytes_repr :: "bytes \<Rightarrow> string" where
  "bytes_repr bs =
     (let q = (if 39 \<in> set bs \<and> 34 \<notin> set bs then CHR 0x22 else CHR 0x27)
      in ''b'' @ [q] @ concat (map (byte_repr q) bs) @ [q])"

fun value_str :: "text_lib \<Rightarrow> pyval \<Rightarrow> string" where
  "value_str lib (PyStr s) = s"
| "value_str lib PyNone = ''None''"
| "value_str lib (PyBool b) = (if b then ''True'' else ''False'')"
| "value_str lib (PyInt n) = int_str n"
| "value_str lib (PyFloat r) = float_str lib r"
| "value_str lib (PyBytes bs) = bytes_repr bs"
| "value_str lib (PyList vs) = []"

fun type_name_of :: "pyval \<Rightarrow> string" where
  "type_name_of (PyStr _) = ''str''"
| "type_name_of PyNone = ''NoneType''"
| "type_name_of (PyBool _) = ''bool''"
| "type_name_of (PyInt _) = ''int''"
| "type_name_of (PyFloat _) = ''float''"
| "type_name_of (PyBytes _) = ''bytes''"
| "type_name_of (PyList _) = ''list''"

fun member_matches :: "text_lib \<Rightarrow> group_match_mode \<Rightarrow> string \<Rightarrow> string \<Rightarrow> bool res" where
  "member_matches lib EXACT val mem = Inr (lower val = lower mem)"
| "member_matches lib DOMAIN val mem =
     (if CHR ''@'' \<in> set (lower val)
      then (let domain = after_first CHR ''@'' (lower val)
            in Inr (domain = lower mem \<or> ends_with domain (''.'' @ lower mem)))
      else Inr (lower val = lower mem))"
| "member_matches lib REGEX val mem = re_search_ic lib mem val"

definition matches_value :: "text_lib \<Rightarrow> sender_recipient_group \<Rightarrow> string \<Rightarrow> bool res" where
  "matches_value lib g val = any_res (member_matches lib (match_mode g) val) (members g)"

text \<open>
  A list element that is not a text has no method \<open>lower\<close>. Bytes have one, but equal no text and
  cannot be searched for one.
\<close>

definition bytes_matches :: "sender_recipient_group \<Rightarrow> bool res" where
  "bytes_matches g =
     (if members g = [] then Inr False
      else (case match_mode g of
              EXACT \<Rightarrow> Inr False
            | DOMAIN \<Rightarrow> Inl (Exn TypeError (''a bytes-like object is required, not '' @ repr_str ''str''))
            | REGEX \<Rightarrow> Inl (Exn TypeError ''cannot use a string pattern on a bytes-like object'')))"

definition element_matches :: "text_lib \<Rightarrow> sender_recipient_group \<Rightarrow> pyval \<Rightarrow> bool res" where
  "element_matches lib g v =
     (case v of
        PyStr s \<Rightarrow> matches_value lib g s
      | PyBytes _ \<Rightarrow> bytes_matches g
      | _ \<Rightarrow> Inl (Exn (OtherError ''AttributeError'')
               (repr_str (type_name_of v) @ '' object has no attribute '' @ repr_str ''lower'')))"

definition matches_message :: "text_lib \<Rightarrow> parsed_message \<Rightarrow> sender_recipient_group \<Rightarrow> bool res" where
  "matches_message lib msg g =
     (case dict_get (msg_meta msg) (sg_field g) (PyStr []) of
        PyList vs \<Rightarrow> any_res (element_matches lib g) vs
      | v \<Rightarrow> matches_value lib g (value_str lib v))"

section \<open>Exceptions\<close>

definition applies :: "text_lib \<Rightarrow> policy_exception \<Rightarrow> parsed_message \<Rightarrow> detection_result \<Rightarrow> bool res" where
  "applies lib ex msg det =
     (case pe_condition ex of
        Some f \<Rightarrow> f msg det
      | None \<Rightarrow> if pe_groups ex \<noteq> [] then any_res (matches_message lib msg) (pe_groups ex) else Inr False)"

definition excluded_by :: "policy_exception \<Rightarrow> match \<Rightarrow> bool" where
  "excluded_by ex m =
     (let e1 = (case pe_analyzer_names ex of
                  Some (n # ns) \<Rightarrow> analyzer_name m \<in> set (n # ns) | _ \<Rightarrow> True)
      in if e1 then (case pe_component_types ex of
                       Some (t # ts) \<Rightarrow> comp_type (match_component m) \<in> set (t # ts) | _ \<Rightarrow> True)
         else False)"

definition filter_matches :: "policy_exception \<Rightarrow> match list \<Rightarrow> match list" where
  "filter_matches ex ms =
     (if pe_scope ex = ENTIRE_MESSAGE then [] else filter (\<lambda>m. \<not> excluded_by ex m) ms)"

section \<open>Severity\<close>

fun first_reached :: "severity_level list \<Rightarrow> int \<Rightarrow> severity option" where
  "first_reached [] n = None"
| "first_reached (l # ls) n = (if n \<ge> min_matches l then Some (sl_severity l) else first_reached ls n)"

definition calculate_severity :: "policy \<Rightarrow> nat \<Rightarrow> severity" where
  "calculate_severity p n =
     (if severity_levels p = [] then default_severity p
      else (case first_reached (sort_key (\<lambda>l. - min_matches l) (severity_levels p)) (int n) of
              Some s \<Rightarrow> s | None \<Rightarrow> default_severity p))"

section \<open>Evaluation\<close>

definition new_violation :: "string \<Rightarrow> policy_violation" where
  "new_violation name =
     \<lparr>policy_name = name, triggered = False, v_severity = LOW, matched_rules = [], v_matches = [],
      v_match_count = 0, exceptions_applied = [], v_errors = []\<rparr>"

text \<open>Step 4a: the name of the first entire-message exception that applies.\<close>

fun entire_message_exception ::
  "text_lib \<Rightarrow> parsed_message \<Rightarrow> detection_result \<Rightarrow> policy_exception list \<Rightarrow> string option res" where
  "entire_message_exception lib msg det [] = Inr None"
| "entire_message_exception lib msg det (ex # exs) =
     (if pe_scope ex = ENTIRE_MESSAGE
      then rbind (applies lib ex msg det) (\<lambda>b.
        if b then Inr (Some (pe_name ex)) else entire_message_exception lib msg det exs)
      else entire_message_exception lib msg det exs)"

text \<open>Step 4b: one turn of the loop over the component exceptions.\<close>

definition mco_step ::
  "text_lib \<Rightarrow> parsed_message \<Rightarrow> detection_result \<Rightarrow> policy_exception \<Rightarrow> match list \<times> string list
   \<Rightarrow> (match list \<times> string list) res" where
  "mco_step lib msg det ex = (\<lambda>(relevant, applied).
     if pe_scope ex = COMPONENT
     then rbind (applies lib ex msg det) (\<lambda>b.
       if b then (let relevant' = filter_matches ex relevant in
         Inr (relevant', if length relevant' < length relevant then applied @ [pe_name ex] else applied))
       else Inr (relevant, applied))
     else Inr (relevant, applied))"

definition evaluate_policy ::
  "text_lib \<Rightarrow> policy \<Rightarrow> parsed_message \<Rightarrow> detection_result \<Rightarrow> policy_violation res" where
  "evaluate_policy lib p msg det =
     (let matched = filter (\<lambda>rule. rule_evaluate rule det) (detection_rules p);
          contributing = \<Union> (set (map (\<lambda>rule. matched_analyzers rule det) matched));
          v0 = new_violation (p_name p) in
      if matched = [] then Inr v0
      else
        (let v1 = v0\<lparr>matched_rules := map dr_name matched\<rparr> in
         rbind (if p_groups p \<noteq> [] then any_res (matches_message lib msg) (p_groups p) else Inr True)
         (\<lambda>group_matched.
           if \<not> group_matched then Inr v1
           else
             (let relevant = filter (\<lambda>m. analyzer_name m \<in> contributing) (matches det) in
              rbind (entire_message_exception lib msg det (p_exceptions p)) (\<lambda>entire.
              case entire of
                Some n \<Rightarrow> Inr (v1\<lparr>exceptions_applied := [n]\<rparr>)
              | None \<Rightarrow>
                  rbind (fold_res (mco_step lib msg det) (p_exceptions p) (relevant, []))
                  (\<lambda>(remaining, applied).
                    if remaining = [] then Inr (v1\<lparr>exceptions_applied := applied\<rparr>)
                    else Inr (v1\<lparr>exceptions_applied := applied, triggered := True,
                      v_matches := remaining, v_match_count := length remaining,
                      v_severity := calculate_severity p (length remaining)\<rparr>)))))))"

definition evaluate_guarded ::
  "text_lib \<Rightarrow> parsed_message \<Rightarrow> detection_result \<Rightarrow> policy \<Rightarrow> policy_violation" where
  "evaluate_guarded lib msg det p =
     (case evaluate_policy lib p msg det of
        Inr v \<Rightarrow> v
      | Inl exc \<Rightarrow> (new_violation (p_name p))
          \<lparr>v_errors := [''Evaluation failed: '' @ exn_str exc]\<rparr>)"

definition evaluate_with_result ::
  "text_lib \<Rightarrow> policy list \<Rightarrow> parsed_message \<Rightarrow> detection_result \<Rightarrow> evaluation_result" where
  "evaluate_with_result lib ps msg det =
     \<lparr>er_message_id = msg_id msg,
      violations = map (evaluate_guarded lib msg det) (filter enabled ps)\<rparr>"

definition evaluate ::
  "text_lib \<Rightarrow> engine option \<Rightarrow> policy list \<Rightarrow> parsed_message \<Rightarrow> evaluation_result res" where
  "evaluate lib eng ps msg =
     (case eng of
        None \<Rightarrow> Inl (Exn RuntimeError (''No DetectionEngine configured. Use evaluate_with_result() ''
          @ ''or pass an engine to the constructor.''))
      | Some e \<Rightarrow> Inr (evaluate_with_result lib ps msg (detect e msg)))"

definition has_violations :: "evaluation_result \<Rightarrow> bool" where
  "has_violations r = list_ex triggered (violations r)"

text \<open>\<open>max(..., key=...)\<close> keeps the first of the largest.\<close>

definition max_step :: "severity option \<Rightarrow> severity \<Rightarrow> severity option" where
  "max_step best s =
     (case best of None \<Rightarrow> Some s | Some b \<Rightarrow> if severity_rank s > severity_rank b then Some s else Some b)"

definition highest_severity :: "evaluation_result \<Rightarrow> severity option" where
  "highest_severity r =
     foldl max_step None (map v_severity (filter triggered (violations r)))"

definition triggered_policies :: "evaluation_result \<Rightarrow> string list" where
  "triggered_policies r = map policy_name (filter triggered (violations r))"

section \<open>The registry of policies\<close>

definition add_policy :: "policy list \<Rightarrow> policy \<Rightarrow> policy list res" where
  "add_policy ps p =
     (if \<exists>q \<in> set ps. p_name q = p_name p
      then Inl (Exn ValueError (''Policy with name '' @ repr_str (p_name p) @ '' already registered''))
      else Inr (ps @ [p]))"

definition remove_policy :: "policy list \<Rightarrow> string \<Rightarrow> policy list res" where
  "remove_policy ps n =
     (case pop_named p_name n ps of
        Some ps' \<Rightarrow> Inr ps'
      | None \<Rightarrow> Inl (Exn KeyError (''No policy registered with name '' @ repr_str n)))"

interpretation policies: named_registry p_name add_policy remove_policy
proof
  show "p_name a \<notin> p_name ` set xs \<Longrightarrow> add_policy xs a = Inr (xs @ [a])" for a xs
    by (auto simp: add_policy_def image_iff)
  show "p_name a \<in> p_name ` set xs \<Longrightarrow> \<exists>e. add_policy xs a = Inl e" for a xs
    by (auto simp: add_policy_def image_iff)
  show "p_name a \<notin> p_name ` set ys \<Longrightarrow> remove_policy (ys @ a # zs) (p_name a) = Inr (ys @ zs)"
    for a ys zs
    by (simp add: remove_policy_def pop_named_found)
  show "n \<notin> p_name ` set xs \<Longrightarrow> \<exists>e. remove_policy xs n = Inl e" for n xs
    using pop_named_None [of p_name n xs] by (auto simp: remove_policy_def)
qed

section \<open>Lemmas on severities\<close>

lemma first_reached_Some:
  "first_reached ls n = Some s \<Longrightarrow> sorted_wrt (\<lambda>x y. min_matches x \<ge> min_matches y) ls \<Longrightarrow>
   \<exists>l \<in> set ls. sl_severity l = s \<and> min_matches l \<le> n \<and>
     (\<forall>l' \<in> set ls. min_matches l' \<le> n \<longrightarrow> min_matches l' \<le> min_matches l)"
proof (induction ls)
  case (Cons l ls)
  show ?case
  proof (cases "n \<ge> min_matches l")
    case True
    then show ?thesis using Cons.prems by auto
  next
    case False
    then show ?thesis using Cons by auto
  qed
qed simp

lemma first_reached_None: "first_reached ls n = None \<longleftrightarrow> (\<forall>l \<in> set ls. n < min_matches l)"
  by (induction ls) auto

lemma sorted_levels:
  "sorted_wrt (\<lambda>x y. min_matches x \<ge> min_matches y) (sort_key (\<lambda>l. - min_matches l) ls)"
proof -
  have "sorted (map (\<lambda>l. - min_matches l) (sort_key (\<lambda>l. - min_matches l) ls))" by simp
  then show ?thesis by (simp add: sorted_map)
qed

definition reached :: "policy \<Rightarrow> nat \<Rightarrow> severity_level set" where
  "reached p n = {l \<in> set (severity_levels p). min_matches l \<le> int n}"

lemma calculate_severity_cases:
  obtains "reached p n = {}" "calculate_severity p n = default_severity p"
  | l where "l \<in> reached p n" "calculate_severity p n = sl_severity l"
      "\<And>l'. l' \<in> reached p n \<Longrightarrow> min_matches l' \<le> min_matches l"
proof (cases "first_reached (sort_key (\<lambda>l. - min_matches l) (severity_levels p)) (int n)")
  case None
  then have "reached p n = {}" unfolding first_reached_None by (auto simp: reached_def)
  moreover have "calculate_severity p n = default_severity p"
    using None by (simp add: calculate_severity_def)
  ultimately show ?thesis by (rule that(1))
next
  case (Some s)
  from first_reached_Some [OF Some sorted_levels] obtain l where
    "l \<in> reached p n" "sl_severity l = s"
    "\<And>l'. l' \<in> reached p n \<Longrightarrow> min_matches l' \<le> min_matches l"
    by (auto simp: reached_def)
  moreover from this(1) have "severity_levels p \<noteq> []" by (auto simp: reached_def)
  then have "calculate_severity p n = s" using Some by (simp add: calculate_severity_def)
  ultimately show ?thesis using that(2) by blast
qed

text \<open>
  The severity is that of the most demanding tier the match count reaches, whatever the
  order in which the policy lists its tiers, and the default when it reaches none.
\<close>

theorem severity_is_highest_tier_reached:
  "if reached p n = {} then calculate_severity p n = default_severity p
   else \<exists>l \<in> reached p n. calculate_severity p n = sl_severity l \<and>
          min_matches l = Max (min_matches ` reached p n)"
proof -
  have fin: "finite (reached p n)" by (simp add: reached_def)
  show ?thesis
  proof (cases rule: calculate_severity_cases [of p n])
    case (2 l)
    then have "min_matches l = Max (min_matches ` reached p n)"
      using fin by (intro Max_eqI [symmetric]) auto
    then show ?thesis using 2 by auto
  qed simp
qed

definition monotone_tiers :: "policy \<Rightarrow> bool" where
  "monotone_tiers p \<longleftrightarrow>
     list_all (\<lambda>l. default_severity p \<le> sl_severity l \<and>
       list_all (\<lambda>l'. min_matches l' \<le> min_matches l \<longrightarrow> sl_severity l' \<le> sl_severity l)
         (severity_levels p)) (severity_levels p)"

text \<open>
  With tiers whose severities grow with their thresholds, more matches never lower the
  severity of an incident.
\<close>

theorem severity_monotone:
  assumes "monotone_tiers p" and "n \<le> n'"
  shows "calculate_severity p n \<le> calculate_severity p n'"
proof -
  have sub: "reached p n \<subseteq> reached p n'" using assms(2) by (auto simp: reached_def)
  show ?thesis
  proof (cases rule: calculate_severity_cases [of p n'])
    case 1
    with sub have "reached p n = {}" by simp
    then have "calculate_severity p n = default_severity p"
      by (cases rule: calculate_severity_cases [of p n]) auto
    then show ?thesis using 1 by simp
  next
    case (2 l')
    note hi = 2
    show ?thesis
    proof (cases rule: calculate_severity_cases [of p n])
      case 1
      then show ?thesis using hi(1,2) assms(1) by (auto simp: monotone_tiers_def list_all_iff reached_def)
    next
      case (2 l)
      then have "min_matches l \<le> min_matches l'" using sub hi(3) by blast
      then show ?thesis using 2(1,2) hi(1,2) assms(1)
        by (auto simp: monotone_tiers_def list_all_iff reached_def)
    qed
  qed
qed

definition pci_policy :: policy where
  "pci_policy =
     \<lparr>p_name = ''PCI'', p_description = [],
      detection_rules = [\<lparr>dr_name = ''card'', conditions = [\<lparr>rc_analyzer_name = ''di'',
        rc_operator = MATCHES, threshold = 0, rc_component_types = None\<rparr>]\<rparr>],
      p_groups = [], p_exceptions = [],
      severity_levels = [\<lparr>sl_severity = MEDIUM, min_matches = 1\<rparr>, \<lparr>sl_severity = HIGH, min_matches = 5\<rparr>],
      default_severity = LOW, enabled = True\<rparr>"

theorem severity_monotone_witness:
  "calculate_severity pci_policy 2 = MEDIUM \<and> calculate_severity pci_policy 7 = HIGH \<and>
   calculate_severity pci_policy 2 \<le> calculate_severity pci_policy 7"
proof -
  have "monotone_tiers pci_policy"
    by (simp add: monotone_tiers_def pci_policy_def less_eq_severity_def)
  from severity_monotone [OF this, of 2 7] show ?thesis
    by (simp add: calculate_severity_def pci_policy_def)
qed

lemma foldl_max_step:
  "foldl max_step (Some b) ss = Some (fold max ss b)"
proof (induction ss arbitrary: b)
  case (Cons s ss)
  have "max_step (Some b) s = Some (max s b)"
    by (auto simp: max_step_def max_def less_eq_severity_def)
  then show ?case using Cons.IH by simp
qed simp

text \<open>
  The severity of a message is the maximum, in the order from info to critical, over the
  violations that were triggered, and there is none exactly when nothing was triggered.
\<close>

theorem highest_severity_is_maximum:
  "highest_severity r =
     (if has_violations r
      then Some (Max (v_severity ` set (filter triggered (violations r)))) else None)"
proof (cases "map v_severity (filter triggered (violations r))")
  case Nil
  then show ?thesis by (auto simp: highest_severity_def has_violations_def list_ex_iff filter_empty_conv)
next
  case (Cons s ss)
  have "highest_severity r = foldl max_step (Some s) ss"
    unfolding highest_severity_def Cons by (simp add: max_step_def)
  also have "\<dots> = Some (Max (set (s # ss)))" by (simp only: foldl_max_step Max.set_eq_fold)
  also have "set (s # ss) = v_severity ` set (filter triggered (violations r))"
    unfolding Cons [symmetric] by simp
  finally have hs: "highest_severity r = Some (Max (v_severity ` set (filter triggered (violations r))))" .
  have "filter triggered (violations r) \<noteq> []" using Cons by auto
  then have "has_violations r" by (auto simp: has_violations_def list_ex_iff filter_empty_conv)
  with hs show ?thesis by simp
qed

section \<open>When a policy triggers\<close>

definition contributing_analyzers :: "policy \<Rightarrow> detection_result \<Rightarrow> string set" where
  "contributing_analyzers p det =
     \<Union> (set (map (\<lambda>rule. matched_analyzers rule det)
       (filter (\<lambda>rule. rule_evaluate rule det) (detection_rules p))))"

definition covered ::
  "text_lib \<Rightarrow> parsed_message \<Rightarrow> detection_result \<Rightarrow> policy_exception list \<Rightarrow> match \<Rightarrow> bool" where
  "covered lib msg det exs m \<longleftrightarrow>
     list_ex (\<lambda>ex. pe_scope ex = COMPONENT \<and> applies lib ex msg det = Inr True \<and> excluded_by ex m) exs"

definition survivors :: "text_lib \<Rightarrow> policy \<Rightarrow> parsed_message \<Rightarrow> detection_result \<Rightarrow> match list" where
  "survivors lib p msg det =
     filter (\<lambda>m. analyzer_name m \<in> contributing_analyzers p det \<and>
       \<not> covered lib msg det (p_exceptions p) m) (matches det)"

definition violates :: "text_lib \<Rightarrow> policy \<Rightarrow> parsed_message \<Rightarrow> detection_result \<Rightarrow> bool" where
  "violates lib p msg det \<longleftrightarrow>
     list_ex (\<lambda>rule. rule_evaluate rule det) (detection_rules p) \<and>
     (p_groups p = [] \<or> list_ex (\<lambda>g. matches_message lib msg g = Inr True) (p_groups p)) \<and>
     \<not> list_ex (\<lambda>ex. pe_scope ex = ENTIRE_MESSAGE \<and> applies lib ex msg det = Inr True) (p_exceptions p) \<and>
     survivors lib p msg det \<noteq> []"

lemma entire_message_None:
  "entire_message_exception lib msg det exs = Inr None \<Longrightarrow>
   \<not> list_ex (\<lambda>ex. pe_scope ex = ENTIRE_MESSAGE \<and> applies lib ex msg det = Inr True) exs"
  by (induction exs) (auto simp: rbind_Inr_iff split: if_splits)

lemma entire_message_Some:
  "entire_message_exception lib msg det exs = Inr (Some n) \<Longrightarrow>
   list_ex (\<lambda>ex. pe_scope ex = ENTIRE_MESSAGE \<and> applies lib ex msg det = Inr True) exs"
  by (induction exs) (auto simp: rbind_Inr_iff split: if_splits)

lemma mco_step_Inr:
  "mco_step lib msg det ex (rel, app) = Inr (rel', app') \<Longrightarrow>
   rel' = filter (\<lambda>m. \<not> covered lib msg det [ex] m) rel"
  by (auto simp: mco_step_def covered_def filter_matches_def rbind_Inr_iff Let_def
      split: if_splits)

lemma mco_fold_Inr:
  "fold_res (mco_step lib msg det) exs (rel, app) = Inr (rem, app') \<Longrightarrow>
   rem = filter (\<lambda>m. \<not> covered lib msg det exs m) rel"
proof (induction exs arbitrary: rel app)
  case Nil
  then show ?case by (simp add: covered_def)
next
  case (Cons ex exs)
  from Cons.prems obtain rel1 app1 where s: "mco_step lib msg det ex (rel, app) = Inr (rel1, app1)"
      "fold_res (mco_step lib msg det) exs (rel1, app1) = Inr (rem, app')"
    by (auto split: sum.splits)
  show ?case using Cons.IH [OF s(2)] mco_step_Inr [OF s(1)]
    by (auto simp: covered_def intro: filter_cong)
qed

lemma groups_Inr:
  assumes "(if gs \<noteq> [] then any_res f gs else Inr True) = Inr b"
  shows "b \<longleftrightarrow> gs = [] \<or> list_ex (\<lambda>g. f g = Inr True) gs"
proof (cases b)
  case True
  then show ?thesis using assms any_res_True [of f gs] by (auto simp: list_ex_iff split: if_splits)
next
  case False
  then show ?thesis using assms any_res_False [of f gs] by (auto simp: list_ex_iff split: if_splits)
qed

lemma evaluate_policy_spec:
  assumes "evaluate_policy lib p msg det = Inr v"
  shows "(triggered v \<longleftrightarrow> violates lib p msg det) \<and>
    policy_name v = p_name p \<and> v_errors v = [] \<and> v_match_count v = length (v_matches v) \<and>
    v_matches v = (if triggered v then survivors lib p msg det else []) \<and>
    v_severity v = (if triggered v then calculate_severity p (length (survivors lib p msg det)) else LOW)"
proof (cases "filter (\<lambda>rule. rule_evaluate rule det) (detection_rules p) = []")
  case True
  then show ?thesis using assms
    by (auto simp: evaluate_policy_def new_violation_def violates_def list_ex_iff filter_empty_conv)
next
  case False
  then have rules: "list_ex (\<lambda>rule. rule_evaluate rule det) (detection_rules p)"
    by (auto simp: list_ex_iff filter_empty_conv)
  let ?relevant = "filter (\<lambda>m. analyzer_name m \<in> contributing_analyzers p det) (matches det)"
  from assms False obtain b where b:
      "(if p_groups p \<noteq> [] then any_res (matches_message lib msg) (p_groups p) else Inr True) = Inr b"
    by (auto simp: evaluate_policy_def Let_def rbind_Inr_iff)
  note g = groups_Inr [OF b]
  show ?thesis
  proof (cases b)
    case nb: False
    then show ?thesis using assms False b g
      by (auto simp: evaluate_policy_def Let_def new_violation_def violates_def)
  next
    case gb: True
    with assms False b obtain e where e: "entire_message_exception lib msg det (p_exceptions p) = Inr e"
      by (auto simp: evaluate_policy_def Let_def rbind_Inr_iff)
    show ?thesis
    proof (cases e)
      case (Some n)
      then show ?thesis using assms False b gb e entire_message_Some [of lib msg det "p_exceptions p" n]
        by (auto simp: evaluate_policy_def Let_def new_violation_def violates_def)
    next
      case None
      with assms False b gb e obtain rem app where
        r: "fold_res (mco_step lib msg det) (p_exceptions p) (?relevant, []) = Inr (rem, app)"
        by (auto simp: evaluate_policy_def Let_def rbind_Inr_iff contributing_analyzers_def)
      have rem: "rem = survivors lib p msg det"
        using mco_fold_Inr [OF r] by (simp add: survivors_def)
      have "violates lib p msg det \<longleftrightarrow> rem \<noteq> []"
        using rules g gb entire_message_None [of lib msg det "p_exceptions p"] e None rem
        by (simp add: violates_def)
      then show ?thesis using assms False b gb e None r rem
        by (auto simp: evaluate_policy_def Let_def new_violation_def contributing_analyzers_def
            split: if_splits)
    qed
  qed
qed

text \<open>
  C1: evaluation of a policy that returns implements the specification \<open>violates\<close>: some rule
  holds, the groups match, no entire-message exception applies and a match survives the
  component exceptions; what is reported are the surviving matches, their number and the
  severity of that number.
\<close>

theorem policy_evaluation_correct:
  assumes "evaluate_policy lib p msg det = Inr v"
  shows "(triggered v \<longleftrightarrow> violates lib p msg det) \<and>
    policy_name v = p_name p \<and> v_errors v = [] \<and> v_match_count v = length (v_matches v) \<and>
    v_matches v = (if triggered v then survivors lib p msg det else []) \<and>
    v_severity v = (if triggered v then calculate_severity p (length (survivors lib p msg det)) else LOW)"
  using assms by (rule evaluate_policy_spec)

definition one_hit :: "string \<Rightarrow> detection_result" where
  "one_hit name = \<lparr>result_id = ''m'', matches = [\<lparr>analyzer_name = name, rule_name = ''r'',
     match_component = mk_component BODY ''4111'' [], matched_text = ''4111'', start_offset = 0,
     end_offset = 4, confidence = 1, match_meta = []\<rparr>], errors = []\<rparr>"

definition empty_message :: parsed_message where
  "empty_message = \<lparr>msg_id = ''m'', msg_components = [], msg_meta = []\<rparr>"

text \<open>A library whose patterns are literal texts.\<close>

definition literal_search :: text_lib where
  "literal_search = \<lparr>re_search_ic = (\<lambda>pat val. Inr (contains (lower pat) (lower val))),
     float_str = (\<lambda>_. ''0.0'')\<rparr>"

lemma pci_contributing: "contributing_analyzers pci_policy (one_hit ''di'') = {''di''}"
  by code_simp

lemma pci_rules:
  "filter (\<lambda>rule. rule_evaluate rule (one_hit ''di'')) (detection_rules pci_policy) =
     detection_rules pci_policy"
  by (simp add: pci_policy_def rule_evaluate_def condition_evaluate_def relevant_types_def
      matches_for_analyzer_def one_hit_def)

lemma pci_one_hit:
  "\<exists>v. evaluate_policy lib pci_policy empty_message (one_hit ''di'') = Inr v \<and> triggered v"
  unfolding evaluate_policy_def Let_def contributing_analyzers_def [symmetric] pci_contributing
  unfolding pci_rules
  by (simp add: pci_policy_def one_hit_def)

theorem policy_evaluation_correct_witness:
  "violates literal_search pci_policy empty_message (one_hit ''di'') \<and>
   length (survivors literal_search pci_policy empty_message (one_hit ''di'')) = 1"
proof -
  obtain v where v: "evaluate_policy literal_search pci_policy empty_message (one_hit ''di'') = Inr v" "triggered v"
    using pci_one_hit by blast
  have "length (survivors literal_search pci_policy empty_message (one_hit ''di'')) = 1"
    unfolding survivors_def pci_contributing by (simp add: pci_policy_def one_hit_def covered_def)
  then show ?thesis using policy_evaluation_correct [OF v(1)] v(2) by blast
qed

text \<open>
  A message has a violation exactly when some enabled policy evaluates without raising and
  is violated: a policy whose evaluation raises (a bad pattern in a group, a failing
  condition) is reported with an error and triggers nothing, and costs no other policy.
\<close>

theorem message_violates_iff:
  "has_violations (evaluate_with_result lib ps msg det) \<longleftrightarrow>
     (\<exists>p \<in> set ps. enabled p \<and> is_ok (evaluate_policy lib p msg det) \<and> violates lib p msg det)"
proof -
  have "triggered (evaluate_guarded lib msg det p) \<longleftrightarrow>
      is_ok (evaluate_policy lib p msg det) \<and> violates lib p msg det" for p
    using evaluate_policy_spec [of lib p msg det]
    by (cases "evaluate_policy lib p msg det") (auto simp: evaluate_guarded_def new_violation_def)
  then show ?thesis by (auto simp: has_violations_def evaluate_with_result_def list_ex_iff)
qed

text \<open>
  A policy whose conditions are all of the form "analyzer found nothing" is never violated,
  even when every condition holds: the matches it would report come from those analyzers.
\<close>

theorem negative_policy_never_triggers:
  assumes "list_all (\<lambda>rule. list_all (\<lambda>c. rc_operator c = NOT_MATCHES \<and> rc_component_types c = None)
      (conditions rule)) (detection_rules p)"
  shows "\<not> violates lib p msg det"
proof -
  have "matches_for_analyzer det n = []" if n: "n \<in> contributing_analyzers p det" for n
  proof -
    obtain rule c where rc: "rule \<in> set (detection_rules p)" "c \<in> set (conditions rule)"
        "condition_evaluate c det" "n = rc_analyzer_name c"
      using n unfolding contributing_analyzers_def matched_analyzers_def set_map set_filter by blast
    then have "rc_operator c = NOT_MATCHES" "rc_component_types c = None"
      using assms by (auto simp: list_all_iff)
    then show ?thesis using rc(3,4) by (simp add: condition_evaluate_def relevant_types_def)
  qed
  then have "survivors lib p msg det = []"
    by (auto simp: survivors_def filter_empty_conv matches_for_analyzer_def)
  then show ?thesis by (simp add: violates_def)
qed

definition no_footer_policy :: policy where
  "no_footer_policy = pci_policy\<lparr>detection_rules := [\<lparr>dr_name = ''no footer'',
     conditions = [\<lparr>rc_analyzer_name = ''footer'', rc_operator = NOT_MATCHES, threshold = 0,
       rc_component_types = None\<rparr>]\<rparr>]\<rparr>"

theorem negative_policy_never_triggers_witness:
  "list_ex (\<lambda>rule. rule_evaluate rule (one_hit ''di'')) (detection_rules no_footer_policy) \<and>
   \<not> violates literal_search no_footer_policy empty_message (one_hit ''di'')"
proof -
  have "list_all (\<lambda>rule. list_all (\<lambda>c. rc_operator c = NOT_MATCHES \<and> rc_component_types c = None)
      (conditions rule)) (detection_rules no_footer_policy)" by (simp add: no_footer_policy_def)
  from negative_policy_never_triggers [OF this] show ?thesis
    by (simp add: no_footer_policy_def rule_evaluate_def condition_evaluate_def relevant_types_def
        matches_for_analyzer_def one_hit_def)
qed

text \<open>
  A condition on an analyzer's name, evaluated on what the engine aggregated, counts the
  matches that very analyzer returned (none when it raised), restricted to the component
  types of the condition.
\<close>

theorem condition_counts_own_analyzer:
  assumes "distinct (map an_name eng)" and "\<And>a. a \<in> set eng \<Longrightarrow> analyzer_contract a"
    and "a \<in> set eng" and "rc_analyzer_name cond = an_name a"
  shows "condition_evaluate cond (detect eng msg) \<longleftrightarrow>
    (let n = int (length (relevant_types (rc_component_types cond) (ok_matches msg a))) in
     (rc_operator cond = MATCHES \<and> n > 0) \<or> (rc_operator cond = NOT_MATCHES \<and> n = 0) \<or>
     (rc_operator cond = COUNT_GTE \<and> n \<ge> threshold cond) \<or>
     (rc_operator cond = COUNT_LTE \<and> n \<le> threshold cond))"
  using detect_matches_of [OF assms(1-3), of msg] assms(4)
  by (cases "rc_operator cond") (simp_all add: condition_evaluate_def Let_def)

theorem condition_counts_own_analyzer_witness:
  "condition_evaluate \<lparr>rc_analyzer_name = ''a'', rc_operator = COUNT_GTE, threshold = 2,
     rc_component_types = None\<rparr>
     (detect [mail_probe ''a'' ''x'', mail_probe ''b'' ''x''] \<lparr>msg_id = ''m'',
       msg_components = [mk_component BODY ''x'' []], msg_meta = []\<rparr>) = False"
proof -
  let ?e = "[mail_probe ''a'' ''x'', mail_probe ''b'' ''x'']"
  have d: "distinct (map an_name ?e)" and m: "mail_probe ''a'' ''x'' \<in> set ?e"
    by (simp_all add: mail_probe_def)
  have c: "\<And>a. a \<in> set ?e \<Longrightarrow> analyzer_contract a"
    using mail_probe_contract by auto
  have n: "rc_analyzer_name \<lparr>rc_analyzer_name = ''a'', rc_operator = COUNT_GTE, threshold = 2,
     rc_component_types = None\<rparr> = an_name (mail_probe ''a'' ''x'')" by (simp add: mail_probe_def)
  show ?thesis using condition_counts_own_analyzer [OF d c m n]
    by (simp add: mail_probe_def ok_matches_def starts_with_def relevant_types_def)
qed

end
