(* ===== verification/FileInspector.thy ===== *)
theory FileInspector
  imports Models
begin

text \<open>
  \<open>server/detection/file_inspector.py\<close>: text extraction from files into message components.
  The format libraries (pdfplumber, python-docx, openpyxl, python-pptx), the parsers of the
  standard library (e-mail, HTML), chardet and the codecs are one record of parameters that
  give the parsed documents; every page, table or part may raise when it is read.

  Attachments of a mail are inspected recursively. The depth is bounded by the interpreter's
  stack: \<open>fuel\<close> is what is left of it, and without any the call raises \<open>RecursionError\<close>.
\<close>

section \<open>Parsed documents\<close>

record pdf_page =
  pg_text :: "string option"
  pg_tables :: "string option list option list list option"

record docx_document =
  dx_paragraphs :: "string list"
  dx_tables :: "string list list list"

record pptx_shape =
  text_frame :: "string list option"
  shape_table :: "string list list option"

datatype eml_content = TextContent string | BytesContent bytes | OtherContent

record eml_body =
  eb_header_count :: nat
  eb_content :: eml_content
  eb_content_type :: string

record eml_part =
  ep_filename :: "string option"
  ep_content :: eml_content
  ep_content_type :: string

record eml_document =
  em_get :: "string \<Rightarrow> string option"
  em_body :: "eml_body option res"
  em_attachments :: "eml_part res list"

datatype html_event = StartTag string | EndTag string | Data string

record inspect_lib =
  pdf_open :: "bytes \<Rightarrow> pdf_page res list res"
  docx_open :: "bytes \<Rightarrow> docx_document res"
  xlsx_open :: "bytes \<Rightarrow> (string \<times> string option list list res) list res"
  pptx_open :: "bytes \<Rightarrow> pptx_shape list res list res"
  eml_parse :: "bytes \<Rightarrow> eml_document res"
  html_feed :: "string \<Rightarrow> html_event list"
  chardet_detect :: "bytes \<Rightarrow> string option \<times> rat option"
  decode_replace :: "string \<Rightarrow> bytes \<Rightarrow> string res"
  fresh_id :: string

section \<open>Constants\<close>

definition MAX_FILE_SIZE :: nat where "MAX_FILE_SIZE = 100 * 1024 * 1024"

definition MAX_COMPONENT_TEXT :: nat where "MAX_COMPONENT_TEXT = 10 * 1024 * 1024"

definition newline :: string where "newline = [CHR 0x0A]"

definition truncate_text :: "string \<Rightarrow> string" where
  "truncate_text content =
     (if length content > MAX_COMPONENT_TEXT
      then take MAX_COMPONENT_TEXT content @ newline @ ''[TRUNCATED]'' else content)"

section \<open>HTML\<close>

record html_extractor =
  hx_text :: "string list"
  hx_skip :: bool

definition block_tags :: "string list" where
  "block_tags = [''p'', ''br'', ''div'', ''h1'', ''h2'', ''h3'', ''h4'', ''h5'', ''h6'', ''li'', ''tr'']"

fun handle_event :: "html_event \<Rightarrow> html_extractor \<Rightarrow> html_extractor" where
  "handle_event (StartTag tag) x =
     (if tag \<in> {''script'', ''style''} then x\<lparr>hx_skip := True\<rparr> else x)"
| "handle_event (EndTag tag) x =
     (let x1 = (if tag \<in> {''script'', ''style''} then x\<lparr>hx_skip := False\<rparr> else x)
      in if tag \<in> set block_tags then x1\<lparr>hx_text := hx_text x1 @ [newline]\<rparr> else x1)"
| "handle_event (Data d) x = (if \<not> hx_skip x then x\<lparr>hx_text := hx_text x @ [d]\<rparr> else x)"

definition html_to_text :: "html_event list \<Rightarrow> string" where
  "html_to_text evs = strip (concat (hx_text (fold handle_event evs \<lparr>hx_text = [], hx_skip = False\<rparr>)))"

section \<open>The handlers\<close>

definition add_to :: "component_type \<Rightarrow> string \<Rightarrow> meta \<Rightarrow> parsed_message proc" where
  "add_to ct content meta = pure_proc (\<lambda>msg. add_component msg ct content meta)"

definition skip_proc :: "parsed_message proc" where
  "skip_proc = pure_proc (\<lambda>msg. msg)"

definition cell_str :: "string option \<Rightarrow> string" where
  "cell_str c = (case c of None \<Rightarrow> [] | Some s \<Rightarrow> s)"

definition join_cells :: "string list \<Rightarrow> string" where
  "join_cells cells = join '' | '' cells"

text \<open>The text of a page's tables; an absent or empty row gives no line.\<close>

definition table_text :: "string option list option list list \<Rightarrow> string" where
  "table_text tables =
     concat (map (\<lambda>table. concat (map (\<lambda>row.
       case row of
         None \<Rightarrow> []
       | Some cells \<Rightarrow>
           if cells = [] then [] else join_cells (map cell_str cells) @ newline) table)) tables)"

definition page_text :: "pdf_page \<Rightarrow> string" where
  "page_text page =
     (let content = cell_str (pg_text page);
          tt = table_text (case pg_tables page of None \<Rightarrow> [] | Some ts \<Rightarrow> ts)
      in if tt \<noteq> [] then content @ newline @ ''[TABLE]'' @ newline @ tt else content)"

definition extract_pdf :: "inspect_lib \<Rightarrow> bytes \<Rightarrow> string \<Rightarrow> parsed_message proc" where
  "extract_pdf lib content fname =
     with_res (pdf_open lib content) (\<lambda>pages.
       for_proc (\<lambda>(i, pg). with_res pg (\<lambda>page.
         let combined = page_text page in
         if strip combined \<noteq> []
         then add_to BODY (truncate_text combined)
                [(''filename'', PyStr fname), (''page'', PyInt (int i)),
                 (''total_pages'', PyInt (int (length pages))), (''source'', PyStr ''pdf'')]
         else skip_proc)) (zip [1..<length pages + 1] pages))"

definition extract_docx :: "inspect_lib \<Rightarrow> bytes \<Rightarrow> string \<Rightarrow> parsed_message proc" where
  "extract_docx lib content fname =
     with_res (docx_open lib content) (\<lambda>doc.
       let paragraphs = filter (\<lambda>p. strip p \<noteq> []) (dx_paragraphs doc) in
       seq_proc
         (if paragraphs \<noteq> []
          then add_to BODY (truncate_text (join newline paragraphs))
                 [(''filename'', PyStr fname), (''source'', PyStr ''docx_paragraphs'')]
          else skip_proc)
         (for_proc (\<lambda>(i, table).
            let rows = map join_cells table in
            if rows \<noteq> []
            then add_to BODY (truncate_text (join newline rows))
                   [(''filename'', PyStr fname), (''table_index'', PyInt (int i)),
                    (''source'', PyStr ''docx_table'')]
            else skip_proc) (zip [1..<length (dx_tables doc) + 1] (dx_tables doc))))"

definition extract_xlsx :: "inspect_lib \<Rightarrow> bytes \<Rightarrow> string \<Rightarrow> parsed_message proc" where
  "extract_xlsx lib content fname =
     with_res (xlsx_open lib content) (\<lambda>sheets.
       for_proc (\<lambda>(sheet_name, ws). with_res ws (\<lambda>sheet.
         let rows = map (\<lambda>row. join_cells (map cell_str row))
                      (filter (\<lambda>row. list_ex (\<lambda>c. cell_str c \<noteq> []) row) sheet) in
         if rows \<noteq> []
         then add_to BODY (truncate_text (join newline rows))
                [(''filename'', PyStr fname), (''sheet'', PyStr sheet_name), (''source'', PyStr ''xlsx'')]
         else skip_proc)) sheets)"

definition shape_texts :: "pptx_shape \<Rightarrow> string list" where
  "shape_texts shape =
     (case text_frame shape of
        Some paras \<Rightarrow> filter (\<lambda>p. strip p \<noteq> []) paras | None \<Rightarrow> []) @
     (case shape_table shape of Some rows \<Rightarrow> map join_cells rows | None \<Rightarrow> [])"

definition extract_pptx :: "inspect_lib \<Rightarrow> bytes \<Rightarrow> string \<Rightarrow> parsed_message proc" where
  "extract_pptx lib content fname =
     with_res (pptx_open lib content) (\<lambda>slides.
       for_proc (\<lambda>(i, sl). with_res sl (\<lambda>shapes.
         let texts = concat (map shape_texts shapes) in
         if texts \<noteq> []
         then add_to BODY (truncate_text (join newline texts))
                [(''filename'', PyStr fname), (''slide'', PyInt (int i)),
                 (''total_slides'', PyInt (int (length slides))), (''source'', PyStr ''pptx'')]
         else skip_proc)) (zip [1..<length slides + 1] slides))"

definition detect_encoding :: "inspect_lib \<Rightarrow> bytes \<Rightarrow> string" where
  "detect_encoding lib content =
     (if content = [] then ''utf-8''
      else
        (let (enc, conf) = chardet_detect lib content;
             encoding = (case enc of Some (c # cs) \<Rightarrow> c # cs | _ \<Rightarrow> ''utf-8'');
             encoding' = (if (case conf of Some r \<Rightarrow> r | None \<Rightarrow> 0) < 1 / 2 then ''utf-8'' else encoding)
         in map (\<lambda>c. if c = CHR ''-'' then CHR ''_'' else c) (lower encoding')))"

definition looks_like_text :: "bytes \<Rightarrow> bool" where
  "looks_like_text content =
     (let sample = take 8192 content;
          non_text = length (filter (\<lambda>b. \<not> ((0x20 \<le> b \<and> b < 0x7F) \<or> b \<in> {0x09, 0x0A, 0x0D}) \<and> b < 0x80) sample)
      in if sample = [] then False
         else rat_of_nat non_text / rat_of_nat (length sample) < 5 / 100)"

definition extract_html :: "inspect_lib \<Rightarrow> bytes \<Rightarrow> string \<Rightarrow> parsed_message proc" where
  "extract_html lib content fname =
     (let encoding = detect_encoding lib content in
      with_res (decode_replace lib encoding content) (\<lambda>content'.
        let plain = html_to_text (html_feed lib content') in
        if strip plain \<noteq> []
        then add_to BODY (truncate_text plain)
               [(''filename'', PyStr fname), (''encoding'', PyStr encoding), (''source'', PyStr ''html'')]
        else skip_proc))"

definition extract_text :: "inspect_lib \<Rightarrow> bytes \<Rightarrow> string \<Rightarrow> parsed_message proc" where
  "extract_text lib content fname =
     (let encoding = detect_encoding lib content in
      with_res (decode_replace lib encoding content) (\<lambda>content'.
        if strip content' \<noteq> []
        then add_to BODY (truncate_text content')
               [(''filename'', PyStr fname), (''encoding'', PyStr encoding), (''source'', PyStr ''text'')]
        else skip_proc))"

section \<open>Mail\<close>

definition envelope_headers :: "string list" where
  "envelope_headers = [''From'', ''To'', ''Cc'', ''Bcc'', ''Date'', ''Message-ID'']"

definition truthy :: "string option \<Rightarrow> bool" where
  "truthy x = (case x of Some (c # cs) \<Rightarrow> True | _ \<Rightarrow> False)"

definition envelope_lines :: "(string \<Rightarrow> string option) \<Rightarrow> string list" where
  "envelope_lines get =
     map (\<lambda>h. h @ '': '' @ cell_str (get h)) (filter (\<lambda>h. truthy (get h)) envelope_headers)"

definition content_text :: "inspect_lib \<Rightarrow> eml_content \<Rightarrow> string res" where
  "content_text lib c =
     (case c of
        TextContent s \<Rightarrow> Inr s
      | BytesContent b \<Rightarrow> decode_replace lib ''utf-8'' b
      | OtherContent \<Rightarrow> Inl (Exn (OtherError ''AttributeError'') ''strip''))"

text \<open>
  The truth value of a mail part is its number of headers, so a body without headers is
  skipped as if there were none.
\<close>

definition extract_eml_body :: "inspect_lib \<Rightarrow> string \<Rightarrow> eml_document \<Rightarrow> parsed_message proc" where
  "extract_eml_body lib fname eml =
     with_res (em_body eml) (\<lambda>body.
       case body of
         None \<Rightarrow> skip_proc
       | Some b \<Rightarrow>
           if eb_header_count b = 0 then skip_proc
           else with_res (content_text lib (eb_content b)) (\<lambda>c.
             let c' = (if eb_content_type b = ''text/html'' then html_to_text (html_feed lib c) else c) in
             if strip c' \<noteq> []
             then add_to BODY (truncate_text c')
                    [(''filename'', PyStr fname), (''content_type'', PyStr (eb_content_type b)),
                     (''source'', PyStr ''eml_body'')]
             else skip_proc))"

definition attachment_text :: "parsed_message \<Rightarrow> string" where
  "attachment_text sub_msg =
     join newline (filter (\<lambda>c. c \<noteq> []) (map comp_content (msg_components sub_msg)))"

definition add_attachment :: "string \<Rightarrow> eml_part \<Rightarrow> bytes \<Rightarrow> string \<Rightarrow> parsed_message proc" where
  "add_attachment att_filename part att_bytes att_text =
     add_to ATTACHMENT (if att_text \<noteq> [] then truncate_text att_text else [])
       [(''filename'', PyStr att_filename), (''size'', PyInt (int (length att_bytes))),
        (''content_bytes'', PyBytes att_bytes), (''content_type'', PyStr (ep_content_type part)),
        (''source'', PyStr ''eml_attachment'')]"

definition extract_eml_part ::
  "(bytes \<Rightarrow> string \<Rightarrow> parsed_message res) \<Rightarrow> eml_part \<Rightarrow> parsed_message proc" where
  "extract_eml_part inspect_sub part =
     (let att_filename = (if truthy (ep_filename part) then cell_str (ep_filename part)
                          else ''unnamed_attachment'') in
      case ep_content part of
        TextContent s \<Rightarrow> add_attachment att_filename part (utf8 s) s
      | BytesContent b \<Rightarrow> with_res (inspect_sub b att_filename) (\<lambda>sub_msg.
          add_attachment att_filename part b (attachment_text sub_msg))
      | OtherContent \<Rightarrow> add_attachment att_filename part [] [])"

definition extract_eml ::
  "inspect_lib \<Rightarrow> (bytes \<Rightarrow> string \<Rightarrow> parsed_message res) \<Rightarrow> bytes \<Rightarrow> string \<Rightarrow> parsed_message proc" where
  "extract_eml lib inspect_sub content fname =
     with_res (eml_parse lib content) (\<lambda>eml.
       seq_proc
         (if envelope_lines (em_get eml) \<noteq> []
          then add_to ENVELOPE (join newline (envelope_lines (em_get eml)))
                 [(''filename'', PyStr fname), (''source'', PyStr ''eml_envelope'')]
          else skip_proc)
         (seq_proc
           (if truthy (em_get eml ''Subject'')
            then add_to SUBJECT (cell_str (em_get eml ''Subject''))
                   [(''filename'', PyStr fname), (''source'', PyStr ''eml_subject'')]
            else skip_proc)
           (seq_proc (extract_eml_body lib fname eml)
             (for_proc (\<lambda>part. with_res part (extract_eml_part inspect_sub)) (em_attachments eml)))))"

section \<open>Dispatch\<close>

datatype handler = PDF | DOCX | XLSX | PPTX | EML | HTML

definition HANDLERS :: "(string \<times> handler) list" where
  "HANDLERS = [(''.pdf'', PDF), (''.docx'', DOCX), (''.xlsx'', XLSX), (''.pptx'', PPTX),
     (''.eml'', EML), (''.html'', HTML), (''.htm'', HTML)]"

definition TEXT_EXTENSIONS :: "string list" where
  "TEXT_EXTENSIONS = [''.txt'', ''.log'', ''.md'', ''.csv'', ''.tsv'', ''.json'', ''.xml'', ''.yaml'',
     ''.yml'', ''.ini'', ''.cfg'', ''.conf'', ''.py'', ''.js'', ''.ts'', ''.java'', ''.c'', ''.cpp'',
     ''.h'', ''.hpp'', ''.cs'', ''.go'', ''.rs'', ''.rb'', ''.php'', ''.sh'', ''.bat'', ''.ps1'',
     ''.sql'', ''.rtf'']"

fun run_handler ::
  "inspect_lib \<Rightarrow> (bytes \<Rightarrow> string \<Rightarrow> parsed_message res) \<Rightarrow> handler \<Rightarrow> bytes \<Rightarrow> string
   \<Rightarrow> parsed_message proc" where
  "run_handler lib sub PDF = extract_pdf lib"
| "run_handler lib sub DOCX = extract_docx lib"
| "run_handler lib sub XLSX = extract_xlsx lib"
| "run_handler lib sub PPTX = extract_pptx lib"
| "run_handler lib sub EML = extract_eml lib sub"
| "run_handler lib sub HTML = extract_html lib"

definition new_message :: "inspect_lib \<Rightarrow> meta \<Rightarrow> parsed_message" where
  "new_message lib meta = \<lparr>msg_id = fresh_id lib, msg_components = [], msg_meta = meta\<rparr>"

definition file_ext :: "string \<Rightarrow> string" where
  "file_ext fname = (if fname \<noteq> [] then lower (path_suffix fname) else [])"

definition inspect_with ::
  "inspect_lib \<Rightarrow> (bytes \<Rightarrow> string \<Rightarrow> parsed_message res) \<Rightarrow> bytes \<Rightarrow> string \<Rightarrow> meta
   \<Rightarrow> parsed_message res" where
  "inspect_with lib sub content fname meta =
     (if length content > MAX_FILE_SIZE
      then Inr (add_component (new_message lib meta) GENERIC
             (''[File too large: '' @ nat_str (length content) @ '' bytes]'')
             [(''filename'', PyStr fname), (''error'', PyStr ''exceeds_max_size'')])
      else
        (let ext = file_ext fname; msg = new_message lib meta in
         case map_of HANDLERS ext of
           Some h \<Rightarrow>
             (case run_handler lib sub h content fname msg of
                (None, msg') \<Rightarrow> Inr msg'
              | (Some exc, msg') \<Rightarrow> Inr (add_component msg' GENERIC
                  (''[Extraction failed: '' @ exn_str exc @ '']'')
                  [(''filename'', PyStr fname), (''error'', PyStr (exn_str exc))]))
         | None \<Rightarrow>
             if ext \<in> set TEXT_EXTENSIONS \<or> looks_like_text content
             then (case extract_text lib content fname msg of
                     (None, msg') \<Rightarrow> Inr msg' | (Some exc, _) \<Rightarrow> Inl exc)
             else Inr (add_component msg ATTACHMENT []
                    [(''filename'', PyStr fname), (''size'', PyInt (int (length content))),
                     (''content_bytes'', PyBytes content), (''note'', PyStr ''unsupported_format'')])))"

fun inspect :: "inspect_lib \<Rightarrow> nat \<Rightarrow> bytes \<Rightarrow> string \<Rightarrow> meta \<Rightarrow> parsed_message res" where
  "inspect lib 0 content fname meta =
     Inl (Exn RecursionError ''maximum recursion depth exceeded'')"
| "inspect lib (Suc fuel) content fname meta =
     inspect_with lib (\<lambda>b n. inspect lib fuel b n []) content fname meta"

section \<open>Bounds on what is extracted\<close>

text \<open>
  The components whose text is cut to the limit: everything but the envelope and the subject
  of a mail and the inspector's own notes.
\<close>

definition bounded_component :: "message_component \<Rightarrow> bool" where
  "bounded_component c \<longleftrightarrow>
     comp_type c \<in> {BODY, ATTACHMENT} \<longrightarrow> length (comp_content c) \<le> MAX_COMPONENT_TEXT + 12"

definition bounded_message :: "parsed_message \<Rightarrow> bool" where
  "bounded_message msg \<longleftrightarrow> list_all bounded_component (msg_components msg)"

lemma truncate_text_length: "length (truncate_text c) \<le> MAX_COMPONENT_TEXT + 12"
  by (simp add: truncate_text_def newline_def)

lemma keeps_add_to [keeps_intros]:
  "(\<And>msg. P msg \<Longrightarrow> P (add_component msg ct c meta)) \<Longrightarrow> keeps P (add_to ct c meta)"
  unfolding add_to_def by (rule keeps_pure)

lemma keeps_skip [keeps_intros]: "keeps P skip_proc"
  unfolding skip_proc_def by (rule keeps_pure)

lemma bounded_add:
  "bounded_message msg \<Longrightarrow> ct \<in> {BODY, ATTACHMENT} \<longrightarrow> length c \<le> MAX_COMPONENT_TEXT + 12 \<Longrightarrow>
   bounded_message (add_component msg ct c meta)"
  by (simp add: bounded_message_def bounded_component_def)

lemma bounded_add_truncated [intro]:
  "bounded_message msg \<Longrightarrow> bounded_message (add_component msg ct (truncate_text c) meta)"
  by (rule bounded_add) (simp_all add: truncate_text_length)

lemma bounded_add_other [intro]:
  "bounded_message msg \<Longrightarrow> ct \<notin> {BODY, ATTACHMENT} \<Longrightarrow> bounded_message (add_component msg ct c meta)"
  by (rule bounded_add) auto

lemma keeps_case_option [keeps_intros]:
  "keeps P f \<Longrightarrow> (\<And>x. keeps P (g x)) \<Longrightarrow> keeps P (case y of None \<Rightarrow> f | Some x \<Rightarrow> g x)"
  by (cases y) simp_all

lemma bounded_pdf: "keeps bounded_message (extract_pdf lib content fname)"
  by (auto simp: extract_pdf_def Let_def split: prod.split intro!: keeps_intros)

lemma bounded_docx: "keeps bounded_message (extract_docx lib content fname)"
  by (auto simp: extract_docx_def Let_def split: prod.split intro!: keeps_intros)

lemma bounded_xlsx: "keeps bounded_message (extract_xlsx lib content fname)"
  by (auto simp: extract_xlsx_def Let_def split: prod.split intro!: keeps_intros)

lemma bounded_pptx: "keeps bounded_message (extract_pptx lib content fname)"
  by (auto simp: extract_pptx_def Let_def split: prod.split intro!: keeps_intros)

lemma bounded_html: "keeps bounded_message (extract_html lib content fname)"
  by (auto simp: extract_html_def Let_def intro!: keeps_intros)

lemma bounded_text: "keeps bounded_message (extract_text lib content fname)"
  by (auto simp: extract_text_def Let_def intro!: keeps_intros)

lemma bounded_attachment: "keeps bounded_message (add_attachment n part b c)"
  unfolding add_attachment_def
  by (rule keeps_add_to) (auto intro: bounded_add)

lemma bounded_eml_part: "keeps bounded_message (extract_eml_part sub part)"
  unfolding extract_eml_part_def Let_def
  by (cases "ep_content part") (auto intro!: keeps_intros bounded_attachment)

lemma bounded_eml: "keeps bounded_message (extract_eml lib sub content fname)"
  unfolding extract_eml_def extract_eml_body_def Let_def
  by (auto intro!: keeps_intros bounded_eml_part)

lemmas bounded_handlers =
  bounded_pdf bounded_docx bounded_xlsx bounded_pptx bounded_html bounded_eml

lemma bounded_run_handler: "keeps bounded_message (run_handler lib sub h content fname)"
  by (cases h) (simp_all add: bounded_handlers)

lemma bounded_new: "bounded_message (new_message lib meta)"
  by (simp add: bounded_message_def new_message_def)

lemma bounded_inspect_with:
  assumes "inspect_with lib sub content fname meta = Inr msg"
  shows "bounded_message msg"
proof -
  have h: "bounded_message (snd (run_handler lib sub h content fname (new_message lib meta)))" for h
    by (rule keepsD [OF bounded_run_handler bounded_new])
  have t: "bounded_message (snd (extract_text lib content fname (new_message lib meta)))"
    by (rule keepsD [OF bounded_text bounded_new])
  have g: "bounded_message m \<Longrightarrow> bounded_message (add_component m GENERIC c d)" for m c d
    by (rule bounded_add_other) simp_all
  have a: "bounded_message (add_component (new_message lib meta) ATTACHMENT [] d)" for d
    by (rule bounded_add) (simp_all add: bounded_new)
  show ?thesis
  proof (cases "length content > MAX_FILE_SIZE")
    case True
    then show ?thesis using assms g [OF bounded_new] by (auto simp: inspect_with_def)
  next
    case small: False
    show ?thesis
    proof (cases "map_of HANDLERS (file_ext fname)")
      case (Some hd)
      obtain e m where r: "run_handler lib sub hd content fname (new_message lib meta) = (e, m)"
        by (cases "run_handler lib sub hd content fname (new_message lib meta)")
      have "bounded_message m" using h [of hd] r by simp
      then show ?thesis using assms small Some r g by (cases e) (auto simp: inspect_with_def Let_def)
    next
      case None
      obtain e m where r: "extract_text lib content fname (new_message lib meta) = (e, m)"
        by (cases "extract_text lib content fname (new_message lib meta)")
      have "bounded_message m" using t r by simp
      then show ?thesis using assms small None r a
        by (cases e) (auto simp: inspect_with_def Let_def split: if_split_asm)
    qed
  qed
qed

text \<open>
  Whatever the libraries return, no body or attachment component of an inspected file is
  longer than the limit plus the truncation mark. (The envelope and the subject are not cut.)
\<close>

theorem extracted_text_is_bounded:
  assumes "inspect lib fuel content fname meta = Inr msg" and "c \<in> set (msg_components msg)"
    and "comp_type c = BODY \<or> comp_type c = ATTACHMENT"
  shows "length (comp_content c) \<le> MAX_COMPONENT_TEXT + 12"
proof -
  obtain n where "fuel = Suc n" using assms(1) by (cases fuel) simp_all
  then have "bounded_message msg" using assms(1) bounded_inspect_with by (metis inspect.simps(2))
  then show ?thesis using assms(2,3) by (auto simp: bounded_message_def list_all_iff bounded_component_def)
qed

definition plain_lib :: inspect_lib where
  "plain_lib =
     \<lparr>pdf_open = (\<lambda>_. Inl (Exn (OtherError ''PDFSyntaxError'') ''No /Root object'')),
      docx_open = (\<lambda>_. Inl (Exn (OtherError ''BadZipFile'') ''File is not a zip file'')),
      xlsx_open = (\<lambda>_. Inl (Exn (OtherError ''BadZipFile'') ''File is not a zip file'')),
      pptx_open = (\<lambda>_. Inl (Exn (OtherError ''BadZipFile'') ''File is not a zip file'')),
      eml_parse = (\<lambda>b. Inr \<lparr>em_get = (\<lambda>_. None),
        em_body = Inr (Some \<lparr>eb_header_count = 0, eb_content = TextContent ''4111111111111111'',
          eb_content_type = ''text/plain''\<rparr>),
        em_attachments = (if b = [] then [] else [Inr \<lparr>ep_filename = Some ''m.eml'',
          ep_content = BytesContent (tl b), ep_content_type = ''application/octet-stream''\<rparr>])\<rparr>),
      html_feed = (\<lambda>s. [Data s]), chardet_detect = (\<lambda>_. (Some ''ascii'', Some 1)),
      decode_replace = (\<lambda>_ b. Inr (map (\<lambda>w. char_of (unat w)) b)), fresh_id = ''id''\<rparr>"

theorem extracted_text_is_bounded_witness:
  "\<exists>msg c. inspect plain_lib (Suc 0) [0x68, 0x69] ''a.txt'' [] = Inr msg \<and> c \<in> set (msg_components msg) \<and>
     comp_content c = ''hi'' \<and> length (comp_content c) \<le> MAX_COMPONENT_TEXT + 12"
proof -
  let ?c = "mk_component BODY ''hi'' [(''filename'', PyStr ''a.txt''), (''encoding'', PyStr ''ascii''),
    (''source'', PyStr ''text'')]"
  let ?msg = "\<lparr>msg_id = ''id'', msg_components = [?c], msg_meta = []\<rparr>"
  have r: "inspect plain_lib (Suc 0) [0x68, 0x69] ''a.txt'' [] = Inr ?msg"
  proof -
    have "file_ext ''a.txt'' = ''.txt''" "map_of HANDLERS ''.txt'' = None" "''.txt'' \<in> set TEXT_EXTENSIONS"
      "detect_encoding plain_lib [0x68, 0x69] = ''ascii''" "strip ''hi'' = ''hi''"
      "map (\<lambda>w. char_of (unat w)) [0x68, 0x69 :: 8 word] = ''hi''" by code_simp+
    then show ?thesis
      by (simp add: inspect_with_def extract_text_def Let_def with_res_def plain_lib_def add_to_def
          pure_proc_def truncate_text_def MAX_FILE_SIZE_def MAX_COMPONENT_TEXT_def new_message_def
          add_component_def)
  qed
  have "?c \<in> set (msg_components ?msg)" "comp_type ?c = BODY \<or> comp_type ?c = ATTACHMENT" by simp_all
  from extracted_text_is_bounded [OF r this] r show ?thesis
    by (intro exI [of _ ?msg] exI [of _ ?c]) simp
qed

section \<open>Faults stay where they are\<close>

text \<open>
  Inspection returns a message for every file of a handled format, whatever the library
  raises: the components read before the fault stay and a note is appended. It raises only
  for a text file whose detected encoding has no codec.
\<close>

theorem inspect_isolates_faults:
  "case map_of HANDLERS (file_ext fname) of
     Some h \<Rightarrow>
       (if length content > MAX_FILE_SIZE then True
        else \<exists>msg. inspect lib (Suc fuel) content fname meta = Inr msg \<and>
          (case run_handler lib (\<lambda>b n. inspect lib fuel b n []) h content fname (new_message lib meta) of
             (None, msg') \<Rightarrow> msg = msg'
           | (Some exc, msg') \<Rightarrow>
               msg_components msg = msg_components msg' @
                 [mk_component GENERIC (''[Extraction failed: '' @ exn_str exc @ '']'')
                   [(''filename'', PyStr fname), (''error'', PyStr (exn_str exc))]]))
   | None \<Rightarrow>
       is_ok (inspect lib (Suc fuel) content fname meta) \<longleftrightarrow>
         (if file_ext fname \<in> set TEXT_EXTENSIONS \<or> looks_like_text content
          then length content > MAX_FILE_SIZE \<or> is_ok (decode_replace lib (detect_encoding lib content) content)
          else True)"
proof (cases "map_of HANDLERS (file_ext fname)")
  case None
  have "(fst (extract_text lib content fname m) = None) \<longleftrightarrow>
      is_ok (decode_replace lib (detect_encoding lib content) content)" for m
    by (cases "decode_replace lib (detect_encoding lib content) content")
      (auto simp: extract_text_def Let_def with_res_def add_to_def pure_proc_def skip_proc_def)
  then show ?thesis using None
    by (auto simp: inspect_with_def Let_def split: prod.split option.split) (metis fst_conv option.distinct(1))+
next
  case (Some h)
  obtain e m where
    "run_handler lib (\<lambda>b n. inspect lib fuel b n []) h content fname (new_message lib meta) = (e, m)"
    by (cases "run_handler lib (\<lambda>b n. inspect lib fuel b n []) h content fname (new_message lib meta)")
  then show ?thesis using Some by (cases e) (auto simp: inspect_with_def Let_def)
qed

section \<open>The recursion into attachments ends\<close>

text \<open>Documented: a decoded attachment is smaller than the mail that contains it.\<close>

definition eml_shrinks :: "inspect_lib \<Rightarrow> bool" where
  "eml_shrinks lib \<longleftrightarrow>
     (\<forall>content eml part b. eml_parse lib content = Inr eml \<longrightarrow> Inr part \<in> set (em_attachments eml) \<longrightarrow>
        ep_content part = BytesContent b \<longrightarrow> length b < length content)"

lemma extract_eml_cong:
  assumes "eml_shrinks lib" and "\<And>b n. length b < length content \<Longrightarrow> sub b n = sub' b n"
  shows "extract_eml lib sub content fname msg = extract_eml lib sub' content fname msg"
proof (cases "eml_parse lib content")
  case (Inr eml)
  have part: "with_res p (extract_eml_part sub) m = with_res p (extract_eml_part sub') m"
    if "p \<in> set (em_attachments eml)" for p m
  proof (cases p)
    case (Inr part)
    have "sub b n = sub' b n" if "ep_content part = BytesContent b" for b n
    proof (rule assms(2))
      show "length b < length content"
        using assms(1) \<open>eml_parse lib content = Inr eml\<close> \<open>p \<in> set (em_attachments eml)\<close> that Inr
        unfolding eml_shrinks_def by blast
    qed
    then show ?thesis unfolding Inr
      by (cases "ep_content part") (simp_all add: extract_eml_part_def with_res_def Let_def)
  qed (simp add: with_res_def)
  have "for_proc (\<lambda>p. with_res p (extract_eml_part sub)) (em_attachments eml) =
      for_proc (\<lambda>p. with_res p (extract_eml_part sub')) (em_attachments eml)"
    using part by (intro ext for_proc_cong) simp_all
  then show ?thesis by (simp add: extract_eml_def Inr with_res_def)
qed (simp add: extract_eml_def with_res_def)

lemma inspect_with_cong:
  assumes "eml_shrinks lib" and "\<And>b n. length b < length content \<Longrightarrow> sub b n = sub' b n"
  shows "inspect_with lib sub content fname meta = inspect_with lib sub' content fname meta"
proof -
  have "run_handler lib sub h content fname m = run_handler lib sub' h content fname m" for h m
    using extract_eml_cong [OF assms] by (cases h) simp_all
  then show ?thesis
    by (cases "map_of HANDLERS (file_ext fname)") (simp_all add: inspect_with_def Let_def)
qed

text \<open>
  A stack that allows more nested calls than the file has bytes is enough: with any larger
  one the inspection gives the same result, so no attachment is lost to the recursion limit.
\<close>

theorem inspect_fuel_enough:
  assumes "eml_shrinks lib" and "length content < n" and "n \<le> m"
  shows "inspect lib m content fname meta = inspect lib n content fname meta"
  using assms(2,3)
proof (induction n arbitrary: m content fname meta)
  case (Suc n)
  then obtain m' where m: "m = Suc m'" "n \<le> m'" by (cases m) auto
  have "inspect lib m' b k [] = inspect lib n b k []" if "length b < length content" for b k
    using Suc.IH [of b m' k "[]"] Suc.prems(1) that m(2) by simp
  then show ?case unfolding m(1) inspect.simps by (rule inspect_with_cong [OF assms(1)])
qed simp

lemma plain_lib_shrinks: "eml_shrinks plain_lib"
  by (auto simp: eml_shrinks_def plain_lib_def split: if_splits)

theorem inspect_fuel_enough_witness:
  "inspect plain_lib 900 [0x41, 0x42] ''m.eml'' [] = inspect plain_lib 3 [0x41, 0x42] ''m.eml'' []"
  by (rule inspect_fuel_enough [OF plain_lib_shrinks]) simp_all

section \<open>Text of HTML\<close>

fun is_script_start :: "html_event \<Rightarrow> bool" where
  "is_script_start (StartTag tag) = (tag \<in> {''script'', ''style''})"
| "is_script_start _ = False"

fun event_data :: "html_event \<Rightarrow> string" where
  "event_data (Data d) = d"
| "event_data _ = []"

definition squeeze :: "string \<Rightarrow> string" where
  "squeeze s = filter (\<lambda>c. \<not> is_space c) s"

lemma squeeze_dropWhile: "squeeze (dropWhile is_space s) = squeeze s"
  by (induction s) (auto simp: squeeze_def)

lemma squeeze_strip: "squeeze (strip s) = squeeze s"
proof -
  have "squeeze (rev t) = rev (squeeze t)" for t by (simp add: squeeze_def rev_filter)
  then have "squeeze (rstrip t) = squeeze t" for t
    unfolding rstrip_def by (metis squeeze_dropWhile rev_rev_ident)
  then show ?thesis by (simp add: strip_def lstrip_def squeeze_dropWhile)
qed

lemma squeeze_append: "squeeze (s @ t) = squeeze s @ squeeze t"
  by (simp add: squeeze_def)

lemma squeeze_newline: "squeeze newline = []"
  by code_simp

lemma fold_events:
  "list_all (\<lambda>e. \<not> is_script_start e) evs \<Longrightarrow> \<not> hx_skip x \<Longrightarrow>
   squeeze (concat (hx_text (fold handle_event evs x))) =
     squeeze (concat (hx_text x)) @ squeeze (concat (map event_data evs))"
proof (induction evs arbitrary: x)
  case Nil
  then show ?case by (simp add: squeeze_def)
next
  case (Cons e evs)
  have nx: "\<not> hx_skip (handle_event e x)" using Cons.prems by (cases e) (auto simp: Let_def)
  have "squeeze (concat (hx_text (handle_event e x))) =
      squeeze (concat (hx_text x)) @ squeeze (event_data e)"
    using Cons.prems by (cases e) (auto simp: Let_def squeeze_append squeeze_newline, simp_all add: squeeze_def)
  then show ?case using Cons.IH [OF _ nx] Cons.prems(1) by (simp add: squeeze_append)
qed

text \<open>
  Stripping the tags of a document without scripts and styles loses no text: up to white
  space, what is scanned is the concatenation of all character data in document order.
\<close>

theorem html_keeps_visible_text:
  assumes "list_all (\<lambda>e. \<not> is_script_start e) evs"
  shows "squeeze (html_to_text evs) = squeeze (concat (map event_data evs))"
  using fold_events [OF assms, of "\<lparr>hx_text = [], hx_skip = False\<rparr>"]
  by (simp add: html_to_text_def squeeze_strip) (simp add: squeeze_def)

theorem html_keeps_visible_text_witness:
  "squeeze (html_to_text [StartTag ''p'', Data ''41 '', StartTag ''b'', Data ''11'', EndTag ''b'',
     EndTag ''p'']) = ''4111''"
proof -
  let ?e = "[StartTag ''p'', Data ''41 '', StartTag ''b'', Data ''11'', EndTag ''b'', EndTag ''p'']"
  have "list_all (\<lambda>e. \<not> is_script_start e) ?e" by simp
  from html_keeps_visible_text [OF this] show ?thesis
    unfolding event_data.simps list.map concat.simps by (simp only: append.simps) code_simp
qed

section \<open>What a mail hides\<close>

text \<open>
  The body of a mail whose body part carries no header of its own is not extracted: the
  inspection succeeds and no body component is in the result, though the parser found a body.
\<close>

theorem headerless_body_is_not_extracted:
  assumes "file_ext fname = ''.eml''" and "length content \<le> MAX_FILE_SIZE"
    and "eml_parse lib content = Inr eml" and "em_body eml = Inr (Some b)" and "eb_header_count b = 0"
    and "em_attachments eml = []"
  shows "\<exists>msg. inspect lib (Suc fuel) content fname meta = Inr msg \<and>
    list_all (\<lambda>c. comp_type c \<noteq> BODY) (msg_components msg)"
proof -
  have h: "map_of HANDLERS ''.eml'' = Some EML" by (simp add: HANDLERS_def)
  let ?run = "extract_eml lib (\<lambda>b n. inspect lib fuel b n []) content fname (new_message lib meta)"
  have "fst ?run = None \<and> list_all (\<lambda>c. comp_type c \<noteq> BODY) (msg_components (snd ?run))"
    using assms(3-6)
    by (simp add: extract_eml_def extract_eml_body_def with_res_def seq_proc_def skip_proc_def
        pure_proc_def add_to_def new_message_def)
  then show ?thesis using assms(1,2) h
    by (cases ?run) (auto simp: inspect_with_def Let_def)
qed

theorem headerless_body_is_not_extracted_witness:
  "\<exists>msg. inspect plain_lib (Suc 0) [] ''m.eml'' [] = Inr msg \<and>
     list_all (\<lambda>c. comp_type c \<noteq> BODY) (msg_components msg)"
proof -
  have ext: "file_ext ''m.eml'' = ''.eml''" by code_simp
  let ?b = "\<lparr>eb_header_count = 0, eb_content = TextContent ''4111111111111111'',
    eb_content_type = ''text/plain''\<rparr>"
  have p: "eml_parse plain_lib [] = Inr \<lparr>em_get = (\<lambda>_. None), em_body = Inr (Some ?b), em_attachments = []\<rparr>"
    by (simp add: plain_lib_def)
  show ?thesis
    by (rule headerless_body_is_not_extracted [OF ext _ p, where b = ?b]) simp_all
qed

end
