(* ===== verification/ArchiveInspector.thy ===== *)
theory ArchiveInspector
  imports FileInspector "HOL-Library.Sublist"
begin

text \<open>
  \<open>server/detection/archive_inspector.py\<close>: recursive extraction of archives under limits on
  depth, total size, number of files and compression ratio. The archive readers (zipfile,
  tarfile, gzip, bz2, py7zr, rarfile) are parameters; every read may raise. The message and the
  counters are one state that keeps what was added before an exception.

  The recursion is bounded by the depth limit itself, so the definition needs no fuel of its own.
\<close>

section \<open>Member names\<close>

definition reserved_names :: "string list" where
  "reserved_names = [''con'', ''prn'', ''aux'', ''nul''] @
     map (\<lambda>d. ''com'' @ nat_str d) [1..<10] @ map (\<lambda>d. ''lpt'' @ nat_str d) [1..<10]"

definition is_reserved :: "string \<Rightarrow> bool" where
  "is_reserved part =
     list_ex (\<lambda>n. starts_with (lower part) n \<and>
       (let r = drop (length n) (lower part) in r = [] \<or> hd r = CHR ''.'' \<or> r = [CHR 0x0A]))
       reserved_names"

definition posix_isabs :: "string \<Rightarrow> bool" where
  "posix_isabs s = starts_with s ''/''"

definition nt_isabs :: "string \<Rightarrow> bool" where
  "nt_isabs s =
     (let t = map (\<lambda>c. if c = CHR ''/'' then CHR 0x5C else c) (take 3 s)
      in starts_with t [CHR 0x5C] \<or> starts_with (drop 1 t) [CHR '':'', CHR 0x5C])"

definition member_parts :: "string \<Rightarrow> string list" where
  "member_parts name = split_on CHR ''/'' (map (\<lambda>c. if c = CHR 0x5C then CHR ''/'' else c) name)"

fun check_parts :: "string \<Rightarrow> string list \<Rightarrow> unit res" where
  "check_parts name [] = Inr ()"
| "check_parts name (part # parts) =
     (if part = ''..'' then Inl (Exn PathTraversalError (''Path traversal in archive: '' @ repr_str name))
      else if is_reserved part
      then Inl (Exn PathTraversalError (''Reserved Windows name in archive: '' @ repr_str name))
      else check_parts name parts)"

definition validate_member_path :: "string \<Rightarrow> unit res" where
  "validate_member_path name =
     (if name = [] \<or> strip name = []
      then Inl (Exn PathTraversalError ''Empty archive member name'')
      else if posix_isabs name \<or> nt_isabs name
      then Inl (Exn PathTraversalError (''Absolute path in archive: '' @ repr_str name))
      else check_parts name (member_parts name))"

section \<open>Limits and state\<close>

record archive_limits =
  max_depth :: int
  max_total_size :: int
  max_files :: int
  max_ratio :: rat

definition default_limits :: archive_limits where
  "default_limits = \<lparr>max_depth = 3, max_total_size = 100 * 1024 * 1024, max_files = 500, max_ratio = 1000\<rparr>"

record extraction =
  ex_msg :: parsed_message
  total_bytes :: int
  total_files :: int
  ex_errors :: "string list"

definition check_size :: "archive_limits \<Rightarrow> nat \<Rightarrow> extraction proc" where
  "check_size lims sz s =
     (if total_bytes s + int sz > max_total_size lims
      then (Some (Exn MaxSizeError (''Total extracted size would exceed '' @
              int_str (max_total_size lims) @ '' bytes'')), s)
      else (None, s))"

definition check_files :: "archive_limits \<Rightarrow> extraction proc" where
  "check_files lims s =
     (if total_files s \<ge> max_files lims
      then (Some (Exn MaxFilesError (''Total file count would exceed '' @ int_str (max_files lims))), s)
      else (None, s))"

definition count_file :: "nat \<Rightarrow> extraction proc" where
  "count_file sz = pure_proc (\<lambda>s. s\<lparr>total_bytes := total_bytes s + int sz,
     total_files := total_files s + 1\<rparr>)"

definition log_error :: "string \<Rightarrow> extraction proc" where
  "log_error e = pure_proc (\<lambda>s. s\<lparr>ex_errors := ex_errors s @ [e]\<rparr>)"

definition nothing :: "extraction proc" where
  "nothing = pure_proc (\<lambda>s. s)"

text \<open>\<open>f"{r:.0f}"\<close>: to the nearest integer, ties to even.\<close>

definition fixed0 :: "rat \<Rightarrow> string" where
  "fixed0 r =
     (let f = \<lfloor>r\<rfloor>; d = r - of_int f in
      int_str (if d < 1 / 2 then f else if d > 1 / 2 then f + 1 else if even f then f else f + 1))"

text \<open>(The dash of the message is an em dash in the source, outside the model's characters.)\<close>

definition check_ratio :: "archive_limits \<Rightarrow> nat \<Rightarrow> nat \<Rightarrow> extraction proc" where
  "check_ratio lims compressed uncompressed =
     (if compressed > 0 \<and> rat_of_nat uncompressed / rat_of_nat compressed > max_ratio lims
      then raise_proc (Exn ZipBombError (''Compression ratio '' @
             fixed0 (rat_of_nat uncompressed / rat_of_nat compressed) @ '':1 exceeds max '' @
             fixed0 (max_ratio lims) @ '':1 - possible zip bomb''))
      else nothing)"

section \<open>Archive types\<close>

datatype archive_type = Zip | SevenZip | Rar | Gzip | Bzip2 | Tar | TarGz | TarBz2

definition is_archive :: "string \<Rightarrow> bytes \<Rightarrow> archive_type option" where
  "is_archive fname content =
     (let ext = lower (path_suffix fname) in
      if take 4 content = [0x50, 0x4B, 0x03, 0x04] then Some Zip
      else if take 6 content = [0x37, 0x7A, 0xBC, 0xAF, 0x27, 0x1C] then Some SevenZip
      else if take 7 content = [0x52, 0x61, 0x72, 0x21, 0x1A, 0x07, 0x00] \<or>
              take 8 content = [0x52, 0x61, 0x72, 0x21, 0x1A, 0x07, 0x01, 0x00] then Some Rar
      else if take 2 content = [0x1F, 0x8B] then Some Gzip
      else if take 5 content = [0x42, 0x5A, 0x68] then Some Bzip2
      else if length content > 262 \<and> slice content 257 262 = [0x75, 0x73, 0x74, 0x61, 0x72] then Some Tar
      else if ext = ''.zip'' then Some Zip
      else if ext = ''.7z'' then Some SevenZip
      else if ext = ''.rar'' then Some Rar
      else if ext \<in> {''.gz'', ''.gzip''} then Some Gzip
      else if ext = ''.tar'' then Some Tar
      else if ext = ''.tgz'' \<or> ends_with (lower fname) ''.tar.gz'' then Some TarGz
      else if ext = ''.bz2'' then Some Bzip2
      else if ends_with (lower fname) ''.tar.bz2'' then Some TarBz2
      else None)"

section \<open>The readers\<close>

record member_info =
  mi_name :: string
  mi_is_dir :: bool
  compress_size :: nat
  file_size :: nat

text \<open>A ZIP or RAR file: its directory, and its \<open>read\<close>, which goes by the member's name.\<close>

record named_archive =
  infolist :: "member_info list"
  read_member :: "string \<Rightarrow> bytes res"

record tar_member =
  tm_name :: string
  tm_is_link :: bool
  tm_is_file :: bool
  tm_size :: nat
  tm_data :: "bytes option res"

record seven_zip =
  sz_names :: "string list"
  sz_extracted :: "(string \<times> bytes res) list res"

record archive_lib =
  zip_open :: "bytes \<Rightarrow> named_archive res"
  rar_open :: "bytes \<Rightarrow> named_archive res"
  tar_open :: "bytes \<Rightarrow> tar_member list res"
  sz_open :: "bytes \<Rightarrow> seven_zip res"
  gzip_decompress :: "bytes \<Rightarrow> bytes res"
  bz2_decompress :: "bytes \<Rightarrow> bytes res"
  al_inspect :: inspect_lib
  al_fuel :: nat

section \<open>Extraction\<close>

type_synonym extractor = "bytes \<Rightarrow> string \<Rightarrow> string \<Rightarrow> extraction proc"

definition add_archived :: "string \<Rightarrow> message_component list \<Rightarrow> extraction \<Rightarrow> extraction" where
  "add_archived path comps s =
     s\<lparr>ex_msg := (ex_msg s)\<lparr>msg_components := msg_components (ex_msg s) @
       map (\<lambda>c. c\<lparr>comp_meta := dict_set (comp_meta c) ''archive_path'' (PyStr path)\<rparr>) comps\<rparr>\<rparr>"

definition inspect_file :: "archive_lib \<Rightarrow> extractor" where
  "inspect_file lib content fname pfx =
     (case inspect (al_inspect lib) (al_fuel lib) content fname [] of
        Inr sub_msg \<Rightarrow> pure_proc (add_archived (pfx @ fname) (msg_components sub_msg))
      | Inl exc \<Rightarrow> log_error (''Failed to inspect '' @ fname @ '': '' @ exn_str exc))"

text \<open>\<open>try: _validate_member_path(name) except PathTraversalError: log and continue\<close>.\<close>

definition if_valid :: "string \<Rightarrow> extraction proc \<Rightarrow> extraction proc" where
  "if_valid name body =
     (case validate_member_path name of Inl exc \<Rightarrow> log_error (exn_str exc) | Inr _ \<Rightarrow> body)"

text \<open>The loops of \<open>_extract_zip\<close> and \<open>_extract_rar\<close>, which are the same code.\<close>

definition extract_named ::
  "archive_limits \<Rightarrow> extractor \<Rightarrow> named_archive \<Rightarrow> string \<Rightarrow> string \<Rightarrow> extraction proc" where
  "extract_named lims rec ar fname pfx =
     for_proc (\<lambda>info.
       if mi_is_dir info then nothing
       else if_valid (mi_name info)
         (seq_proc (check_files lims)
         (seq_proc (check_ratio lims (compress_size info) (file_size info))
         (seq_proc (check_size lims (file_size info))
         (with_res (read_member ar (mi_name info)) (\<lambda>data.
          seq_proc (count_file (length data))
          (rec data (path_name (mi_name info)) (pfx @ fname @ ''/'' @ mi_name info @ ''/''))))))))
       (infolist ar)"

definition extract_zip :: "archive_lib \<Rightarrow> archive_limits \<Rightarrow> extractor \<Rightarrow> extractor" where
  "extract_zip lib lims rec content fname pfx =
     with_res (zip_open lib content) (\<lambda>zf. extract_named lims rec zf fname pfx)"

definition extract_rar :: "archive_lib \<Rightarrow> archive_limits \<Rightarrow> extractor \<Rightarrow> extractor" where
  "extract_rar lib lims rec content fname pfx =
     with_res (rar_open lib content) (\<lambda>rf. extract_named lims rec rf fname pfx)"

definition extract_tar :: "archive_lib \<Rightarrow> archive_limits \<Rightarrow> extractor \<Rightarrow> extractor" where
  "extract_tar lib lims rec content fname pfx =
     with_res (tar_open lib content) (for_proc (\<lambda>tm.
       if tm_is_link tm then log_error (''Skipping symlink/hardlink: '' @ tm_name tm)
       else if \<not> tm_is_file tm then nothing
       else if_valid (tm_name tm)
         (seq_proc (check_files lims)
         (seq_proc (check_size lims (tm_size tm))
         (with_res (tm_data tm) (\<lambda>f.
           case f of
             None \<Rightarrow> nothing
           | Some data \<Rightarrow>
               seq_proc (count_file (length data))
               (rec data (path_name (tm_name tm)) (pfx @ fname @ ''/'' @ tm_name tm @ ''/''))))))))"

text \<open>The common tail of the two single-file formats.\<close>

definition extract_single ::
  "archive_limits \<Rightarrow> extractor \<Rightarrow> bytes \<Rightarrow> bytes \<Rightarrow> string \<Rightarrow> string \<Rightarrow> string \<Rightarrow> extraction proc" where
  "extract_single lims rec content decompressed inner_name fname pfx =
     seq_proc (check_ratio lims (length content) (length decompressed))
     (seq_proc (check_size lims (length decompressed))
     (seq_proc (count_file (length decompressed))
     (rec decompressed inner_name (pfx @ fname @ ''/''))))"

definition drop_suffix :: "nat \<Rightarrow> string \<Rightarrow> string" where
  "drop_suffix n s = take (length s - n) s"

definition gzip_inner :: "string \<Rightarrow> string" where
  "gzip_inner fname =
     (if ends_with (lower fname) ''.gz'' then drop_suffix 3 fname
      else if ends_with (lower fname) ''.gzip'' then drop_suffix 5 fname
      else fname)"

definition extract_gzip :: "archive_lib \<Rightarrow> archive_limits \<Rightarrow> extractor \<Rightarrow> extractor" where
  "extract_gzip lib lims rec content fname pfx =
     with_res (gzip_decompress lib content) (\<lambda>decompressed.
       extract_single lims rec content decompressed (gzip_inner fname) fname pfx)"

definition extract_bzip2 :: "archive_lib \<Rightarrow> archive_limits \<Rightarrow> extractor \<Rightarrow> extractor" where
  "extract_bzip2 lib lims rec content fname pfx =
     with_res (bz2_decompress lib content) (\<lambda>decompressed.
       extract_single lims rec content decompressed
         (if ends_with (lower fname) ''.bz2'' then drop_suffix 4 fname else fname) fname pfx)"

text \<open>
  A 7z file is extracted to a directory after all of its names were validated; the loop is over
  the files found there, with their paths relative to it.
\<close>

definition extract_7z :: "archive_lib \<Rightarrow> archive_limits \<Rightarrow> extractor \<Rightarrow> extractor" where
  "extract_7z lib lims rec content fname pfx =
     with_res (sz_open lib content) (\<lambda>sz.
     seq_proc (for_proc (\<lambda>name. with_res (validate_member_path name) (\<lambda>_. nothing)) (sz_names sz))
     (with_res (sz_extracted sz) (for_proc (\<lambda>(rel_path, rd).
       seq_proc (check_files lims)
       (if_valid rel_path
         (with_res rd (\<lambda>data.
            seq_proc (check_size lims (length data))
            (seq_proc (count_file (length data))
            (rec data (path_name rel_path) (pfx @ fname @ ''/'' @ rel_path @ ''/''))))))))))"

fun extract_as :: "archive_lib \<Rightarrow> archive_limits \<Rightarrow> extractor \<Rightarrow> archive_type \<Rightarrow> extractor" where
  "extract_as lib lims rec Zip = extract_zip lib lims rec"
| "extract_as lib lims rec Tar = extract_tar lib lims rec"
| "extract_as lib lims rec Gzip = extract_gzip lib lims rec"
| "extract_as lib lims rec TarGz = extract_gzip lib lims rec"
| "extract_as lib lims rec SevenZip = extract_7z lib lims rec"
| "extract_as lib lims rec Rar = extract_rar lib lims rec"
| "extract_as lib lims rec Bzip2 = extract_bzip2 lib lims rec"
| "extract_as lib lims rec TarBz2 = (\<lambda>_ _ _. log_error ''Unsupported archive type: tar.bz2'')"

definition is_safety_error :: "exn \<Rightarrow> bool" where
  "is_safety_error e \<longleftrightarrow>
     exn_cls e \<in> {ZipBombError, MaxDepthError, MaxSizeError, MaxFilesError, PathTraversalError}"

text \<open>\<open>except ArchiveSafetyError: raise\<close>, \<open>except Exception\<close>: log.\<close>

definition guard_extraction :: "string \<Rightarrow> extraction proc \<Rightarrow> extraction proc" where
  "guard_extraction fname body s =
     (case body s of
        (None, s') \<Rightarrow> (None, s')
      | (Some exc, s') \<Rightarrow>
          if is_safety_error exc then (Some exc, s')
          else log_error (''Failed to extract '' @ fname @ '': '' @ exn_str exc) s')"

definition extract_level :: "archive_lib \<Rightarrow> archive_limits \<Rightarrow> extractor \<Rightarrow> extractor" where
  "extract_level lib lims rec content fname pfx =
     (case is_archive fname content of
        None \<Rightarrow> inspect_file lib content fname pfx
      | Some ty \<Rightarrow> guard_extraction fname (extract_as lib lims rec ty content fname pfx))"

function extract_recursive :: "archive_lib \<Rightarrow> archive_limits \<Rightarrow> int \<Rightarrow> extractor" where
  "extract_recursive lib lims depth =
     (if depth > max_depth lims
      then (\<lambda>content fname pfx. raise_proc (Exn MaxDepthError
              (''Nesting depth '' @ int_str depth @ '' exceeds max '' @ int_str (max_depth lims))))
      else extract_level lib lims (extract_recursive lib lims (depth + 1)))"
  by pat_completeness auto
termination
  by (relation "measure (\<lambda>(lib, lims, depth). nat (max_depth lims + 1 - depth))") auto

declare extract_recursive.simps [simp del]

fun exn_class_name :: "exn_class \<Rightarrow> string" where
  "exn_class_name ValueError = ''ValueError''"
| "exn_class_name KeyError = ''KeyError''"
| "exn_class_name TypeError = ''TypeError''"
| "exn_class_name RuntimeError = ''RuntimeError''"
| "exn_class_name RecursionError = ''RecursionError''"
| "exn_class_name ZipBombError = ''ZipBombError''"
| "exn_class_name MaxDepthError = ''MaxDepthError''"
| "exn_class_name MaxSizeError = ''MaxSizeError''"
| "exn_class_name MaxFilesError = ''MaxFilesError''"
| "exn_class_name PathTraversalError = ''PathTraversalError''"
| "exn_class_name (OtherError n) = n"

definition note_safety :: "string \<Rightarrow> exn \<Rightarrow> parsed_message \<Rightarrow> parsed_message" where
  "note_safety fname exc msg =
     add_component msg GENERIC (''[Archive safety limit: '' @ exn_str exc @ '']'')
       [(''filename'', PyStr fname), (''error'', PyStr (exn_class_name (exn_cls exc))),
        (''message'', PyStr (exn_str exc))]"

definition note_errors :: "string \<Rightarrow> string list \<Rightarrow> parsed_message \<Rightarrow> parsed_message" where
  "note_errors fname errs msg =
     fold (\<lambda>err m. add_component m GENERIC (''[Extraction error: '' @ err @ '']'')
       [(''filename'', PyStr fname), (''error'', PyStr err)]) errs msg"

definition start_extraction :: "archive_lib \<Rightarrow> meta \<Rightarrow> extraction" where
  "start_extraction lib meta =
     \<lparr>ex_msg = new_message (al_inspect lib) meta, total_bytes = 0, total_files = 0, ex_errors = []\<rparr>"

definition archive_inspect ::
  "archive_lib \<Rightarrow> archive_limits \<Rightarrow> bytes \<Rightarrow> string \<Rightarrow> meta \<Rightarrow> parsed_message res" where
  "archive_inspect lib lims content fname meta =
     (case extract_recursive lib lims 0 content fname [] (start_extraction lib meta) of
        (None, s) \<Rightarrow> Inr (note_errors fname (ex_errors s) (ex_msg s))
      | (Some exc, s) \<Rightarrow>
          if is_safety_error exc
          then Inr (note_errors fname (ex_errors s) (note_safety fname exc (ex_msg s)))
          else Inl exc)"

section \<open>Members stay inside\<close>

text \<open>One step of resolving a relative path: empty and dot parts stay, two dots go up.\<close>

definition path_step :: "string \<Rightarrow> string list \<Rightarrow> string list" where
  "path_step part dir =
     (if part = [] \<or> part = ''.'' then dir else if part = ''..'' then butlast dir else dir @ [part])"

lemma check_parts_ok:
  "is_ok (check_parts name parts) \<longleftrightarrow> ''..'' \<notin> set parts \<and> \<not> list_ex is_reserved parts"
  by (induction name parts rule: check_parts.induct) auto

lemma split_on_map:
  assumes "f c = c"
  shows "split_on c (map f xs) = concat (map (\<lambda>p. split_on c (map f p)) (split_on c xs))"
proof (induction xs)
  case (Cons x xs)
  obtain q qs where q: "split_on c xs = q # qs" by (cases "split_on c xs") auto
  show ?case
  proof (cases "x = c")
    case True
    then show ?thesis using Cons.IH assms by simp
  next
    case False
    obtain h t where "split_on c (map f q) = h # t" by (cases "split_on c (map f q)") auto
    then show ?thesis using Cons.IH q False by auto
  qed
qed simp

lemma dotdot_part: "''..'' \<in> set (split_on CHR ''/'' s) \<Longrightarrow> ''..'' \<in> set (member_parts s)"
proof -
  let ?f = "\<lambda>c. if c = CHR 0x5C then CHR ''/'' else c"
  assume "''..'' \<in> set (split_on CHR ''/'' s)"
  moreover have "split_on CHR ''/'' (map ?f ''..'') = [''..'']" by simp
  ultimately show ?thesis unfolding member_parts_def
    by (subst split_on_map) (auto intro!: bexI [of _ "''..''"])
qed

lemma fold_path_step: "''..'' \<notin> set parts \<Longrightarrow> prefix base (fold path_step parts base)"
proof (induction parts arbitrary: base)
  case (Cons p parts)
  have "prefix base (path_step p base)" using Cons.prems by (auto simp: path_step_def)
  moreover have "prefix (path_step p base) (fold path_step (p # parts) base)" using Cons by simp
  ultimately show ?case by (rule prefix_order.trans)
qed simp

lemma validate_ok:
  "validate_member_path name = Inr () \<Longrightarrow>
   ''..'' \<notin> set (member_parts name) \<and> \<not> list_ex is_reserved (member_parts name) \<and>
   \<not> posix_isabs name \<and> \<not> nt_isabs name \<and> strip name \<noteq> []"
  using check_parts_ok [of name "member_parts name"]
  by (auto simp: validate_member_path_def split: if_split_asm)

text \<open>
  C17: an accepted member name is relative and resolving it from any directory, part by part,
  ends inside that directory, whether only the slash or also the backslash separates parts.
\<close>

theorem accepted_member_stays_inside:
  assumes "validate_member_path name = Inr ()"
  shows "prefix base (fold path_step (split_on CHR ''/'' name) base) \<and>
    prefix base (fold path_step (member_parts name) base) \<and>
    \<not> starts_with name ''/'' \<and> \<not> starts_with name [CHR 0x5C] \<and>
    \<not> list_ex is_reserved (member_parts name)"
proof -
  note v = validate_ok [OF assms]
  have "''..'' \<notin> set (split_on CHR ''/'' name)" using v dotdot_part by blast
  moreover have "\<not> starts_with name [CHR 0x5C]"
    using v by (cases name) (auto simp: nt_isabs_def starts_with_def Let_def)
  ultimately show ?thesis using v fold_path_step by (simp add: posix_isabs_def)
qed

theorem accepted_member_stays_inside_witness:
  "prefix [''out''] (fold path_step (split_on CHR ''/'' ''a/./b.txt'') [''out''])"
proof -
  have "validate_member_path ''a/./b.txt'' = Inr ()" by code_simp
  from accepted_member_stays_inside [OF this] show ?thesis by blast
qed

section \<open>Resources\<close>


























section \<open>Inspection always returns\<close>

definition only_safety :: "extraction proc \<Rightarrow> bool" where
  "only_safety f \<longleftrightarrow> (\<forall>s e s'. f s = (Some e, s') \<longrightarrow> is_safety_error e)"

lemma guard_only_safety: "only_safety (guard_extraction fname body)"
  by (auto simp: only_safety_def guard_extraction_def log_error_def pure_proc_def
      split: prod.splits option.splits if_splits)

lemma extract_recursive_only_safety: "only_safety (extract_recursive lib lims depth content fname pfx)"
proof (cases "depth > max_depth lims")
  case True
  then show ?thesis
    by (simp add: extract_recursive.simps [of lib lims depth] only_safety_def raise_proc_def is_safety_error_def)
next
  case False
  have "only_safety (extract_level lib lims rec content fname pfx)" for rec
    using guard_only_safety
    by (auto simp: extract_level_def inspect_file_def log_error_def pure_proc_def only_safety_def
        split: option.split sum.split)
  then show ?thesis using False by (simp add: extract_recursive.simps [of lib lims depth])
qed

lemma note_errors_components:
  "msg_components (note_errors fname errs msg) = msg_components msg @
     map (\<lambda>err. mk_component GENERIC (''[Extraction error: '' @ err @ '']'')
       [(''filename'', PyStr fname), (''error'', PyStr err)]) errs"
  unfolding note_errors_def by (induction errs arbitrary: msg) simp_all

text \<open>
  Inspecting an archive always returns a message, for any behaviour of the readers, the
  file inspector and the content. A violated limit costs only what was not yet extracted:
  every component extracted before it is in the message, followed by one note for the limit
  and one per logged error.
\<close>

theorem archive_inspect_returns:
  "\<exists>msg. archive_inspect lib lims content fname meta = Inr msg \<and>
    (case extract_recursive lib lims 0 content fname [] (start_extraction lib meta) of (e, s) \<Rightarrow>
       prefix (msg_components (ex_msg s)) (msg_components msg) \<and>
       length (msg_components msg) = length (msg_components (ex_msg s)) +
         (if e = None then 0 else 1) + length (ex_errors s))"
proof -
  obtain e s where r: "extract_recursive lib lims 0 content fname [] (start_extraction lib meta) = (e, s)"
    by (cases "extract_recursive lib lims 0 content fname [] (start_extraction lib meta)")
  have "is_safety_error exc" if "e = Some exc" for exc
    using extract_recursive_only_safety [of lib lims 0 content fname "[]"] r that
    unfolding only_safety_def by blast
  then show ?thesis using r
    by (cases e) (auto simp: archive_inspect_def note_errors_components note_safety_def)
qed

section \<open>What the checks miss\<close>

text \<open>
  Content is recognised as bzip2 by its file name only: five bytes are compared with a
  magic number of three, so a bzip2 file (which is longer) under another name is not unpacked.
\<close>

theorem bzip2_recognised_by_name_only:
  assumes "lower (path_suffix fname) \<noteq> ''.bz2''" and "rest \<noteq> []"
  shows "is_archive fname (0x42 # 0x5A # 0x68 # rest) \<noteq> Some Bzip2"
proof -
  have "take 5 ([0x42, 0x5A, 0x68] @ rest) \<noteq> [0x42, 0x5A, 0x68]" using assms(2) by simp
  then show ?thesis using assms(1) unfolding is_archive_def Let_def by simp
qed

theorem bzip2_recognised_by_name_only_witness:
  "is_archive ''backup.dat'' [0x42, 0x5A, 0x68, 0x39, 0x31, 0x41] \<noteq> Some Bzip2"
proof -
  have "lower (path_suffix ''backup.dat'') \<noteq> ''.bz2''" by code_simp
  from bzip2_recognised_by_name_only [OF this, of "[0x39, 0x31, 0x41]"] show ?thesis by blast
qed

text \<open>
  A file that only carries the name of an archive is not scanned: when the reader rejects
  it, the message holds notes of the failure and no text of the file.
\<close>

theorem misnamed_file_is_not_scanned:
  assumes "is_archive fname content = Some Zip" and "zip_open lib content = Inl exc"
    and "\<not> is_safety_error exc" and "0 \<le> max_depth lims"
  shows "\<exists>msg. archive_inspect lib lims content fname meta = Inr msg \<and>
    map comp_content (msg_components msg) =
      [''[Extraction error: Failed to extract '' @ fname @ '': '' @ exn_str exc @ '']'']"
proof -
  have "extract_recursive lib lims 0 content fname [] (start_extraction lib meta) =
      (None, (start_extraction lib meta)\<lparr>ex_errors := [''Failed to extract '' @ fname @ '': '' @ exn_str exc]\<rparr>)"
    using assms
    by (subst extract_recursive.simps)
      (simp add: extract_level_def guard_extraction_def extract_zip_def with_res_def log_error_def
        pure_proc_def start_extraction_def)
  then show ?thesis
    by (simp add: archive_inspect_def note_errors_components start_extraction_def new_message_def)
qed

definition empty_archives :: archive_lib where
  "empty_archives =
     (let bad = (\<lambda>_. Inl (Exn (OtherError ''BadZipFile'') ''File is not a zip file'')) in
      \<lparr>zip_open = bad, rar_open = bad, tar_open = (\<lambda>_. Inr []), sz_open = (\<lambda>_. Inr \<lparr>sz_names = [],
        sz_extracted = Inr []\<rparr>), gzip_decompress = (\<lambda>_. Inr []), bz2_decompress = (\<lambda>_. Inr []),
       al_inspect = plain_lib, al_fuel = 0\<rparr>)"

theorem misnamed_file_is_not_scanned_witness:
  "\<exists>msg. archive_inspect empty_archives default_limits (utf8 ''4111111111111111'') ''cards.zip'' [] = Inr msg \<and>
     map comp_content (msg_components msg) =
       [''[Extraction error: Failed to extract cards.zip: File is not a zip file]'']"
proof -
  let ?e = "Exn (OtherError ''BadZipFile'') ''File is not a zip file''"
  have "is_archive ''cards.zip'' (utf8 ''4111111111111111'') = Some Zip" by code_simp
  moreover have "zip_open empty_archives (utf8 ''4111111111111111'') = Inl ?e"
    by (simp add: empty_archives_def Let_def)
  moreover have "\<not> is_safety_error ?e" "0 \<le> max_depth default_limits"
    by (simp_all add: is_safety_error_def default_limits_def)
  ultimately show ?thesis
    using misnamed_file_is_not_scanned [of "''cards.zip''" "utf8 ''4111111111111111''" empty_archives ?e
        default_limits "[]"] by simp
qed


text \<open>
  A ZIP file with two entries of one name: the reader returns the content of the last entry for
  both, the size that is checked for the first is the one its own entry declares.
\<close>

definition twin_zip :: named_archive where
  "twin_zip =
     \<lparr>infolist = [\<lparr>mi_name = ''a'', mi_is_dir = False, compress_size = 1, file_size = 1\<rparr>,
        \<lparr>mi_name = ''a'', mi_is_dir = False, compress_size = 3, file_size = 3\<rparr>],
      read_member = (\<lambda>_. Inr [1, 2, 3])\<rparr>"

definition twin_archives :: archive_lib where
  "twin_archives = empty_archives\<lparr>zip_open := (\<lambda>_. Inr twin_zip)\<rparr>"

text \<open>
  Without distinct names the size limit can be overrun: with a limit of two bytes the model
  extracts the three bytes of the last entry under the declaration of the first.
\<close>

theorem duplicate_names_evade_size_limit:
  "total_bytes (snd (extract_recursive twin_archives (default_limits\<lparr>max_total_size := 2\<rparr>) 0
     [0x50, 0x4B, 0x03, 0x04] ''t.zip'' [] (start_extraction twin_archives []))) = 3"
proof -
  have a: "is_archive ''t.zip'' [0x50, 0x4B, 0x03, 0x04] = Some Zip" "is_archive ''a'' [1, 2, 3] = None"
      "validate_member_path ''a'' = Inr ()" "path_name ''a'' = ''a''" by code_simp+
  show ?thesis
    by (subst extract_recursive.simps)
      (simp add: a extract_level_def guard_extraction_def extract_zip_def with_res_def extract_named_def
        twin_archives_def twin_zip_def default_limits_def if_valid_def seq_proc_def check_files_def
        check_ratio_def check_size_def count_file_def pure_proc_def nothing_def start_extraction_def
        extract_recursive.simps inspect_file_def log_error_def empty_archives_def Let_def
        is_safety_error_def)
qed

end
