(* ===== verification/ContentNormalizer.thy ===== *)
theory ContentNormalizer
  imports Complex_Main PyText
begin

text \<open>
  \<open>network/content_normalizer.py\<close>: repeated URL, HTML-entity and base64 decoding of request
  bodies. \<open>unquote\<close>, \<open>html.unescape\<close> and the strict UTF-8 codec are parameters; the search for
  base64 blobs and their decoding are modelled as they are.
\<close>

section \<open>Base64\<close>

record decode_lib =
  unquote :: "string \<Rightarrow> string res"
  html_unescape :: "string \<Rightarrow> string res"
  utf8_strict :: "nat list \<Rightarrow> string res"

definition MIN_B64_LENGTH :: nat where "MIN_B64_LENGTH = 32"

text \<open>The value of a character of the base64 alphabet, and the alphabet itself.\<close>

definition b64_val :: "char \<Rightarrow> nat option" where
  "b64_val c =
     (let n = code c in
      if 65 \<le> n \<and> n \<le> 90 then Some (n - 65)
      else if 97 \<le> n \<and> n \<le> 122 then Some (n - 71)
      else if 48 \<le> n \<and> n \<le> 57 then Some (n + 4)
      else if n = 43 then Some 62
      else if n = 47 then Some 63
      else None)"

definition b64_char :: "nat \<Rightarrow> char" where
  "b64_char v =
     char_of (if v < 26 then v + 65 else if v < 52 then v + 71 else if v < 62 then v - 4
              else if v = 62 then 43 else 47)"

definition is_b64 :: "char \<Rightarrow> bool" where
  "is_b64 c \<longleftrightarrow> b64_val c \<noteq> None"

definition binascii_error :: exn where
  "binascii_error = Exn (OtherError ''Error'') ''Incorrect padding''"

text \<open>
  Decoding of a run of alphabet characters followed by padding: whole groups of four give three
  bytes, a rest of two one byte, a rest of three two bytes; a rest of one is an error.
\<close>

fun b64_groups :: "nat list \<Rightarrow> nat list res" where
  "b64_groups (a # b # c # d # vs) =
     rbind (b64_groups vs) (\<lambda>bs. Inr ((a * 4 + b div 16) # (b mod 16 * 16 + c div 4) # (c mod 4 * 64 + d) # bs))"
| "b64_groups [a, b, c] = Inr [a * 4 + b div 16, b mod 16 * 16 + c div 4]"
| "b64_groups [a, b] = Inr [a * 4 + b div 16]"
| "b64_groups [a] = Inl binascii_error"
| "b64_groups [] = Inr []"

text \<open>
  \<open>b64decode(padded, validate=True)\<close> for \<open>run\<close> of alphabet characters with \<open>pads\<close> equals signs
  after it in the text and the code's own padding up to a multiple of four: only a run that
  already ends its group with one sign and has another after it is rejected as excess data.
\<close>

definition b64decode_padded :: "string \<Rightarrow> nat \<Rightarrow> nat list res" where
  "b64decode_padded run pads =
     (if length run mod 4 = 3 \<and> pads = 2 then Inl binascii_error
      else b64_groups (map (\<lambda>c. the (b64_val c)) run))"

definition printable_ratio :: "string \<Rightarrow> rat" where
  "printable_ratio s =
     of_nat (length (filter (\<lambda>c. is_printable c \<or> c \<in> {CHR 0x0A, CHR 0x0D, CHR 0x09}) s)) /
     of_nat (max (length s) 1)"

text \<open>\<open>_try_decode\<close>: the replacement for one match.\<close>

definition try_decode :: "decode_lib \<Rightarrow> string \<Rightarrow> nat \<Rightarrow> string" where
  "try_decode lib run pads =
     (let b64_str = run @ replicate pads CHR ''='' in
      case rbind (b64decode_padded run pads) (utf8_strict lib) of
        Inl _ \<Rightarrow> b64_str
      | Inr decoded_text \<Rightarrow> if printable_ratio decoded_text \<ge> 8 / 10 then decoded_text else b64_str)"

text \<open>
  \<open>_B64_PATTERN.sub\<close>: a maximal run of alphabet characters matches when it is long enough,
  together with up to two equals signs after it.
\<close>

function base64_decode_embedded :: "decode_lib \<Rightarrow> string \<Rightarrow> string" where
  "base64_decode_embedded lib [] = []"
| "base64_decode_embedded lib (c # cs) =
     (if is_b64 c then
        (let run = takeWhile is_b64 (c # cs); rest = dropWhile is_b64 (c # cs) in
         if length run < MIN_B64_LENGTH then run @ base64_decode_embedded lib rest
         else (let pads = min 2 (length (takeWhile (\<lambda>x. x = CHR ''='') rest))
               in try_decode lib run pads @ base64_decode_embedded lib (drop pads rest)))
      else c # base64_decode_embedded lib cs)"
  by pat_completeness auto
termination
  by (relation "measure (\<lambda>(lib, s). length s)")
    (auto simp: le_imp_less_Suc length_dropWhile_le less_Suc_eq_le diff_le_self intro: le_trans [OF diff_le_self])

section \<open>Passes\<close>

definition or_self :: "string \<Rightarrow> string res \<Rightarrow> string" where
  "or_self s r = (case r of Inr t \<Rightarrow> t | Inl _ \<Rightarrow> s)"

definition url_decode :: "decode_lib \<Rightarrow> string \<Rightarrow> string" where
  "url_decode lib s = (if CHR ''%'' \<notin> set s then s else or_self s (unquote lib s))"

definition html_entity_decode :: "decode_lib \<Rightarrow> string \<Rightarrow> string" where
  "html_entity_decode lib s = (if CHR ''&'' \<notin> set s then s else or_self s (html_unescape lib s))"

definition decode_pass :: "decode_lib \<Rightarrow> string \<Rightarrow> string" where
  "decode_pass lib s = base64_decode_embedded lib (html_entity_decode lib (url_decode lib s))"

text \<open>The loop of \<open>normalize\<close>: \<open>seen\<close> holds what \<open>variants\<close> holds.\<close>

fun normalize_loop :: "decode_lib \<Rightarrow> nat \<Rightarrow> string \<Rightarrow> string list \<Rightarrow> string list" where
  "normalize_loop lib 0 current variants = variants"
| "normalize_loop lib (Suc n) current variants =
     (let decoded = decode_pass lib current in
      if decoded = current then variants
      else normalize_loop lib n decoded
             (if decoded \<notin> set variants then variants @ [decoded] else variants))"

definition normalize :: "decode_lib \<Rightarrow> string \<Rightarrow> nat \<Rightarrow> string list" where
  "normalize lib s depth = normalize_loop lib depth s [s]"

section \<open>Lemmas\<close>

lemma normalize_loop_extends: "\<exists>ws. normalize_loop lib n cur vs = vs @ ws"
proof (induction n arbitrary: cur vs)
  case (Suc n)
  show ?case
    using Suc.IH [of "decode_pass lib cur" vs] Suc.IH [of "decode_pass lib cur" "vs @ [decode_pass lib cur]"]
    by (auto simp: Let_def)
qed simp

lemma normalize_loop_props:
  "distinct vs \<Longrightarrow> distinct (normalize_loop lib n cur vs) \<and>
   length (normalize_loop lib n cur vs) \<le> length vs + n"
proof (induction n arbitrary: cur vs)
  case (Suc n)
  show ?case
    using Suc.IH [of vs "decode_pass lib cur"] Suc.IH [of "vs @ [decode_pass lib cur]" "decode_pass lib cur"] Suc.prems
    by (auto simp: Let_def)
qed simp

text \<open>The texts after each pass.\<close>

definition pass_iterates :: "decode_lib \<Rightarrow> nat \<Rightarrow> string \<Rightarrow> string" where
  "pass_iterates lib k s = (decode_pass lib ^^ k) s"

lemma normalize_loop_iterates:
  "k \<le> n \<Longrightarrow> cur \<in> set vs \<Longrightarrow> pass_iterates lib k cur \<in> set (normalize_loop lib n cur vs)"
proof (induction n arbitrary: k cur vs)
  case 0
  then show ?case by (simp add: pass_iterates_def)
next
  case (Suc n)
  let ?d = "decode_pass lib cur"
  show ?case
  proof (cases "?d = cur")
    case True
    have "(decode_pass lib ^^ k) cur = cur" by (induction k) (simp_all add: True)
    then show ?thesis using Suc.prems True by (simp add: pass_iterates_def)
  next
    case False
    show ?thesis
    proof (cases k)
      case 0
      obtain ws where "normalize_loop lib n ?d (if ?d \<notin> set vs then vs @ [?d] else vs) =
          (if ?d \<notin> set vs then vs @ [?d] else vs) @ ws"
        using normalize_loop_extends by blast
      then show ?thesis using Suc.prems False 0
        by (auto simp: pass_iterates_def Let_def split: if_split_asm)
    next
      case (Suc j)
      have "pass_iterates lib k cur = pass_iterates lib j ?d"
        by (simp add: Suc pass_iterates_def funpow_Suc_right del: funpow.simps)
      moreover have "pass_iterates lib j ?d \<in>
          set (normalize_loop lib n ?d (if ?d \<notin> set vs then vs @ [?d] else vs))"
        using Suc.IH [of j ?d "if ?d \<notin> set vs then vs @ [?d] else vs"] Suc.prems(1) Suc by simp
      ultimately show ?thesis using False by (simp add: Let_def)
    qed
  qed
qed

lemma normalize_hd: "\<exists>ws. normalize lib s depth = s # ws"
  using normalize_loop_extends [of lib depth s "[s]"] by (auto simp: normalize_def)

text \<open>
  The variants start with the text as it arrived, are pairwise different, are at most one
  per pass more than it, and contain the text after every number of passes up to the depth.
\<close>

theorem normalize_covers_passes:
  "hd (normalize lib s depth) = s \<and> distinct (normalize lib s depth) \<and>
   length (normalize lib s depth) \<le> depth + 1 \<and>
   pass_iterates lib (min k depth) s \<in> set (normalize lib s depth)"
  using normalize_hd [of lib s depth] normalize_loop_props [of "[s]" lib depth s]
    normalize_loop_iterates [of "min k depth" depth s "[s]" lib]
  by (auto simp: normalize_def)

section \<open>Base64 round trip\<close>

fun b64_sextets :: "nat list \<Rightarrow> nat list" where
  "b64_sextets (a # b # c # bs) =
     (a div 4) # (a mod 4 * 16 + b div 16) # (b mod 16 * 4 + c div 64) # (c mod 64) # b64_sextets bs"
| "b64_sextets [a, b] = [a div 4, a mod 4 * 16 + b div 16, b mod 16 * 4]"
| "b64_sextets [a] = [a div 4, a mod 4 * 16]"
| "b64_sextets [] = []"

definition b64_run :: "nat list \<Rightarrow> string" where
  "b64_run bs = map b64_char (b64_sextets bs)"

definition b64_pads :: "nat list \<Rightarrow> nat" where
  "b64_pads bs = (if length bs mod 3 = 0 then 0 else 3 - length bs mod 3)"

text \<open>The standard encoding of bytes, with its padding.\<close>

definition b64encode :: "nat list \<Rightarrow> string" where
  "b64encode bs = b64_run bs @ replicate (b64_pads bs) CHR ''=''"

lemma b64_val_char: "v < 64 \<Longrightarrow> b64_val (b64_char v) = Some v"
  by (auto simp: b64_val_def b64_char_def Let_def)

lemma sextets_bound: "list_all (\<lambda>b. b < 256) bs \<Longrightarrow> v \<in> set (b64_sextets bs) \<Longrightarrow> v < 64"
proof (induction bs rule: b64_sextets.induct)
  case (1 a b c bs)
  have "a div 4 < 64" "a mod 4 * 16 + b div 16 < 64" "b mod 16 * 4 + c div 64 < 64" "c mod 64 < 64"
    using 1(2) by (auto simp: less_mult_imp_div_less)
  then show ?case using 1 by auto
qed (auto simp: less_mult_imp_div_less)

lemma groups_sextets: "list_all (\<lambda>b. b < 256) bs \<Longrightarrow> b64_groups (b64_sextets bs) = Inr bs"
proof (induction bs rule: b64_sextets.induct)
  case (1 a b c bs)
  have "a div 4 * 4 + (a mod 4 * 16 + b div 16) div 16 = a"
    "(a mod 4 * 16 + b div 16) mod 16 * 16 + (b mod 16 * 4 + c div 64) div 4 = b"
    "(b mod 16 * 4 + c div 64) mod 4 * 64 + c mod 64 = c"
    using 1(2) by auto
  then show ?case using 1 by simp
qed auto

lemma length_sextets: "length (b64_sextets bs) = (4 * length bs + 2) div 3"
  by (induction bs rule: b64_sextets.induct) auto

lemma decode_run:
  assumes "list_all (\<lambda>b. b < 256) bs"
  shows "b64decode_padded (b64_run bs) (b64_pads bs) = Inr bs"
proof -
  have "map (\<lambda>c. the (b64_val c)) (b64_run bs) = b64_sextets bs"
    using sextets_bound [OF assms] by (simp add: b64_run_def map_idI b64_val_char)
  moreover have "\<not> (length (b64_run bs) mod 4 = 3 \<and> b64_pads bs = 2)"
  proof
    assume a: "length (b64_run bs) mod 4 = 3 \<and> b64_pads bs = 2"
    then have "length bs mod 3 = 1" by (auto simp: b64_pads_def split: if_splits)
    then obtain k where "length bs = 3 * k + 1" by (metis div_mult_mod_eq mult.commute)
    then have "length (b64_run bs) = 4 * k + 2" by (simp add: b64_run_def length_sextets)
    then show False using a by presburger
  qed
  ultimately show ?thesis using groups_sextets [OF assms] by (simp add: b64decode_padded_def)
qed

lemma run_is_b64: "list_all (\<lambda>b. b < 256) bs \<Longrightarrow> c \<in> set (b64_run bs) \<Longrightarrow> is_b64 c"
  by (auto simp: b64_run_def is_b64_def dest!: sextets_bound) (metis b64_val_char option.distinct(1))

lemma b64_pads_le: "b64_pads bs \<le> 2"
  by (auto simp: b64_pads_def)

definition byte_codes :: "string \<Rightarrow> nat list" where
  "byte_codes s = map unat (utf8 s)"

lemma byte_codes_bound: "list_all (\<lambda>b. b < 256) (byte_codes s)"
proof -
  have "unat b < 256" for b :: "8 word" using unsigned_less [of b, where 'a = nat] by simp
  then show ?thesis by (simp add: byte_codes_def list_all_iff)
qed

lemma unwrap_base64:
  assumes "utf8_strict lib (byte_codes s) = Inr s" and "printable_ratio s \<ge> 8 / 10"
    and "length (byte_codes s) \<ge> 24"
  shows "base64_decode_embedded lib (b64encode (byte_codes s)) = s"
proof -
  let ?bs = "byte_codes s" and ?p = "b64_pads (byte_codes s)"
  let ?run = "b64_run ?bs" and ?rest = "replicate ?p CHR ''=''"
  have len: "length ?run \<ge> 32" using assms(3) by (simp add: b64_run_def length_sextets)
  then obtain c cs where c: "?run = c # cs" by (cases ?run) auto
  have eq_not: "\<not> is_b64 CHR ''=''" by (simp add: is_b64_def b64_val_def code_def)
  have tw: "takeWhile is_b64 (?run @ ?rest) = ?run" "dropWhile is_b64 (?run @ ?rest) = ?rest"
    using run_is_b64 [OF byte_codes_bound] eq_not
    by (auto simp: takeWhile_append dropWhile_append takeWhile_replicate)
  have pads: "min 2 (length (takeWhile (\<lambda>x. x = CHR ''='') ?rest)) = ?p"
    using b64_pads_le [of ?bs] by (simp add: takeWhile_replicate)
  have "is_b64 c" using run_is_b64 [OF byte_codes_bound] c by (metis list.set_intros(1))
  then have "base64_decode_embedded lib (?run @ ?rest) =
      try_decode lib ?run ?p @ base64_decode_embedded lib (drop ?p ?rest)"
    using tw pads len unfolding c append_Cons base64_decode_embedded.simps
    by (simp add: Let_def MIN_B64_LENGTH_def)
  moreover have "try_decode lib ?run ?p = s"
    using decode_run [OF byte_codes_bound] assms(1,2) by (simp add: try_decode_def Let_def)
  ultimately show ?thesis by (simp add: b64encode_def)
qed

text \<open>
  Wrapping a text in base64 does not hide it: for a codec that decodes what UTF-8 encodes,
  a text that is mostly printable and long enough to be recognised is restored by the decoder
  from its base64 form.
\<close>

theorem base64_wrapping_is_undone:
  assumes "utf8_strict lib (byte_codes s) = Inr s" and "printable_ratio s \<ge> 8 / 10"
    and "length (byte_codes s) \<ge> 24"
  shows "base64_decode_embedded lib (b64encode (byte_codes s)) = s"
  using assms by (rule unwrap_base64)

definition ascii_lib :: decode_lib where
  "ascii_lib = \<lparr>unquote = Inr, html_unescape = Inr, utf8_strict = (\<lambda>bs. Inr (map char_of bs))\<rparr>"

theorem base64_wrapping_is_undone_witness:
  "base64_decode_embedded ascii_lib (b64encode (byte_codes ''card 4111 1111 1111 1111 exp'')) =
     ''card 4111 1111 1111 1111 exp''"
proof (rule base64_wrapping_is_undone)
  show "utf8_strict ascii_lib (byte_codes ''card 4111 1111 1111 1111 exp'') =
      Inr ''card 4111 1111 1111 1111 exp''" by code_simp
  show "8 / 10 \<le> printable_ratio ''card 4111 1111 1111 1111 exp''" by code_simp
  show "24 \<le> length (byte_codes ''card 4111 1111 1111 1111 exp'')" by code_simp
qed

end
