(* ===== verification/IncidentLog.thy ===== *)
theory IncidentLog
  imports Engine
begin

text \<open>
  What the HTTP and the SMTP channel share: the incident a monitor logs for a message with
  matches, and the contract of a monitor, stated as two locales. \<open>incident_log\<close> is the promise
  of every channel (a quiet message leaves the incidents alone, a message with matches adds
  exactly one); \<open>enforcing_log\<close> adds the record of sanctions a prevent channel keeps, and
  promises that a sanction that blocks stands for an incident that says so. The channels
  (\<open>network/http_monitor.py\<close>, \<open>http_prevent.py\<close>, \<open>smtp_monitor.py\<close>, \<open>smtp_prevent.py\<close>)
  interpret them.
\<close>

section \<open>Incidents\<close>

text \<open>An element of \<open>matches\<close> of an incident; the matched text is cut for the log.\<close>

record match_entry =
  me_analyzer :: string
  me_rule :: string
  me_component :: string
  me_text :: string
  me_confidence :: rat

definition match_entry_of :: "match \<Rightarrow> match_entry" where
  "match_entry_of m =
     \<lparr>me_analyzer = analyzer_name m, me_rule = rule_name m,
      me_component = component_type_value (comp_type (match_component m)),
      me_text = slice (matched_text m) 0 100, me_confidence = confidence m\<rparr>"

record net_incident =
  inc_timestamp :: string
  inc_channel :: string
  inc_source_type :: string
  inc_source_ip :: string
  inc_match_count :: nat
  inc_matches :: "match_entry list"
  inc_action :: string
  inc_message_id :: string

text \<open>
  What a call takes from outside: the clock, the uuid generator, and whether the append to the
  log file succeeds (its \<open>OSError\<close> is caught).
\<close>

record call_env =
  env_now :: string
  env_uuid :: string
  env_log_ok :: bool

text \<open>\<open>if self._incidents: self._incidents[-1]["action_taken"] = action\<close>\<close>

definition set_last_action :: "string \<Rightarrow> 'a net_incident_scheme list \<Rightarrow> 'a net_incident_scheme list" where
  "set_last_action a is = (if is = [] then is else butlast is @ [(last is)\<lparr>inc_action := a\<rparr>])"

lemma set_last_action_snoc [simp]: "set_last_action a (is @ [i]) = is @ [i\<lparr>inc_action := a\<rparr>]"
  by (simp add: set_last_action_def)

text \<open>The count and the action an incident records.\<close>

definition incident_entry :: "'a net_incident_scheme \<Rightarrow> nat \<times> string" where
  "incident_entry i = (inc_match_count i, inc_action i)"

definition says_block :: "nat \<times> string \<Rightarrow> bool" where
  "says_block e \<longleftrightarrow> snd e = ''block''"

text \<open>\<open>data.decode("utf-8", errors="replace")\<close>, a parameter, with its fallback to Latin-1.\<close>

definition decode_text :: "(bytes \<Rightarrow> string res) \<Rightarrow> bytes \<Rightarrow> string" where
  "decode_text utf8_decode data =
     (case utf8_decode data of Inr t \<Rightarrow> t | Inl _ \<Rightarrow> map (\<lambda>b. char_of (unat b)) data)"

text \<open>The state after a call; a call that raised has changed nothing.\<close>

definition state_after :: "('a \<times> 's) res \<Rightarrow> 's \<Rightarrow> 's" where
  "state_after r s = (case r of Inr (_, s') \<Rightarrow> s' | Inl _ \<Rightarrow> s)"

section \<open>The contract of a monitor\<close>

text \<open>\<open>outcome q\<close> is what request \<open>q\<close> must leave in the log, if anything.\<close>

locale incident_log =
  fixes incidents :: "'s \<Rightarrow> 'i list"
    and process :: "'q \<Rightarrow> 's \<Rightarrow> 's"
    and entry :: "'i \<Rightarrow> nat \<times> string"
    and outcome :: "'q \<Rightarrow> (nat \<times> string) option"
  assumes quiet: "outcome q = None \<Longrightarrow> incidents (process q s) = incidents s"
    and alert: "outcome q = Some e \<Longrightarrow> \<exists>i. incidents (process q s) = incidents s @ [i] \<and> entry i = e"
begin

lemma step_extends: "\<exists>is. incidents (process q s) = incidents s @ is \<and>
    map entry is = (case outcome q of None \<Rightarrow> [] | Some e \<Rightarrow> [e])"
proof (cases "outcome q")
  case None
  then show ?thesis using quiet by simp
next
  case (Some e)
  then obtain i where "incidents (process q s) = incidents s @ [i]" "entry i = e" using alert by blast
  then show ?thesis using Some by (intro exI [of _ "[i]"]) simp
qed

lemma run_extends: "\<exists>is. incidents (fold process qs s) = incidents s @ is \<and>
    map entry is = List.map_filter outcome qs"
proof (induction qs arbitrary: s)
  case Nil
  then show ?case by (simp add: List.map_filter_def)
next
  case (Cons q qs)
  obtain js where j: "incidents (process q s) = incidents s @ js"
      "map entry js = (case outcome q of None \<Rightarrow> [] | Some e \<Rightarrow> [e])"
    using step_extends by blast
  obtain ks where "incidents (fold process qs (process q s)) = incidents (process q s) @ ks"
      "map entry ks = List.map_filter outcome qs"
    using Cons.IH by blast
  then show ?case using j
    by (intro exI [of _ "js @ ks"]) (simp add: List.map_filter_def split: option.splits)
qed

lemma run_entries:
  "map entry (incidents (fold process qs s)) = map entry (incidents s) @ List.map_filter outcome qs"
  using run_extends [of qs s] by auto

lemma run_keeps: "take (length (incidents s)) (incidents (fold process qs s)) = incidents s"
  using run_extends [of qs s] by auto

lemma run_length:
  "length (incidents (fold process qs s)) =
     length (incidents s) + length (filter (\<lambda>q. outcome q \<noteq> None) qs)"
  using arg_cong [OF run_entries [of qs s], of length] by (simp add: List.map_filter_def comp_def)

end

text \<open>
  A channel that enforces keeps a list of sanctions beside the incidents; \<open>blocking v\<close> says
  that sanction \<open>v\<close> stops the message.
\<close>

locale enforcing_log = incident_log incidents process entry outcome
  for incidents :: "'s \<Rightarrow> 'i list" and process :: "'q \<Rightarrow> 's \<Rightarrow> 's"
    and entry :: "'i \<Rightarrow> nat \<times> string" and outcome :: "'q \<Rightarrow> (nat \<times> string) option" +
  fixes sanctions :: "'s \<Rightarrow> 'v list"
    and blocking :: "'v \<Rightarrow> bool"
  assumes sanction: "\<exists>vs. sanctions (process q s) = sanctions s @ vs \<and>
      length (filter blocking vs) = (case outcome q of None \<Rightarrow> 0 | Some e \<Rightarrow> if says_block e then 1 else 0)"
begin

abbreviation blocked :: "'s \<Rightarrow> nat" where
  "blocked s \<equiv> length (filter blocking (sanctions s))"

abbreviation reported :: "'s \<Rightarrow> nat" where
  "reported s \<equiv> length (filter (\<lambda>i. says_block (entry i)) (incidents s))"

lemma step_audited: "blocked (process q s) + reported s = blocked s + reported (process q s)"
proof -
  obtain vs where v: "sanctions (process q s) = sanctions s @ vs"
      "length (filter blocking vs) = (case outcome q of None \<Rightarrow> 0 | Some e \<Rightarrow> if says_block e then 1 else 0)"
    using sanction by blast
  obtain js where j: "incidents (process q s) = incidents s @ js"
      "map entry js = (case outcome q of None \<Rightarrow> [] | Some e \<Rightarrow> [e])"
    using step_extends by blast
  have "length (filter (\<lambda>i. says_block (entry i)) js) = length (filter says_block (map entry js))"
    by (simp add: filter_map comp_def)
  also have "\<dots> = (case outcome q of None \<Rightarrow> 0 | Some e \<Rightarrow> if says_block e then 1 else 0)"
    unfolding j(2) by (simp split: option.split)
  finally show ?thesis using v j(1) by simp
qed

lemma run_audited: "blocked s = reported s \<Longrightarrow> blocked (fold process qs s) = reported (fold process qs s)"
proof (induction qs arbitrary: s)
  case (Cons q qs)
  then show ?case using step_audited [of q s] by simp
qed simp

end

end
