(* ===== verification/HttpChannel.thy ===== *)
theory HttpChannel
  imports IncidentLog ContentNormalizer
begin

text \<open>
  The HTTP channel: \<open>network/dlp_addon.py\<close> builds a message from a request, normalises it and
  runs detection; \<open>network/http_monitor.py\<close> logs what is found; \<open>network/http_prevent.py\<close>
  blocks; \<open>network/mitmproxy_entry.py\<close> is the hook of the proxy. The parser of multipart
  bodies, the URL parser and the UTF-8 decoder that replaces what it cannot decode are
  parameters. The JSON line of the log file is abstracted to the incident it holds.
\<close>

section \<open>Multipart bodies\<close>

record form_part =
  fp_disposition :: string
  fp_filename :: "string option"
  fp_payload :: "bytes option"

text \<open>
  \<open>parse_form\<close> is what the mail parser makes of the raw text: \<open>None\<close> when it is not multipart.
\<close>

record web_lib =
  parse_form :: "bytes \<Rightarrow> form_part list option res"
  utf8_replace :: "bytes \<Rightarrow> string res"
  url_hostname :: "string \<Rightarrow> string option res"
  decoders :: decode_lib

text \<open>\<open>re.search(rb"boundary=([^\s;]+)", ...)\<close>: whether there is one; its value is not used.\<close>

definition boundary_byte :: "8 word \<Rightarrow> bool" where
  "boundary_byte b \<longleftrightarrow> b \<notin> {9, 10, 11, 12, 13, 32, 59}"

fun has_boundary :: "bytes \<Rightarrow> bool" where
  "has_boundary [] = False"
| "has_boundary (b # bs) =
     ((case drop 9 (b # bs) of [] \<Rightarrow> False | c # _ \<Rightarrow> starts_with (b # bs) (utf8 ''boundary='') \<and> boundary_byte c)
      \<or> has_boundary bs)"

text \<open>\<open>re.search(r'name="([^"]*)"', disposition)\<close> and its group, or the empty string.\<close>

definition name_open :: string where
  "name_open = ''name='' @ [CHR 0x22]"

fun field_name_of :: "string \<Rightarrow> string" where
  "field_name_of [] = []"
| "field_name_of (c # cs) =
     (let after = drop (length name_open) (c # cs) in
      if starts_with (c # cs) name_open \<and> CHR 0x22 \<in> set after
      then takeWhile (\<lambda>x. x \<noteq> CHR 0x22) after else field_name_of cs)"

definition crlf :: string where
  "crlf = [CHR 0x0D, CHR 0x0A]"

definition parse_multipart ::
  "web_lib \<Rightarrow> string \<Rightarrow> bytes \<Rightarrow> (string \<times> string \<times> bytes) list res" where
  "parse_multipart lib content_type body =
     (if \<not> has_boundary (utf8 content_type) then Inr []
      else
        rbind (parse_form lib (utf8 (''MIME-Version: 1.0'' @ crlf @ ''Content-Type: '') @
                 utf8 content_type @ utf8 (crlf @ crlf) @ body)) (\<lambda>parsed.
          Inr (case parsed of
                 None \<Rightarrow> []
               | Some parts \<Rightarrow>
                   map (\<lambda>p. (field_name_of (fp_disposition p),
                             case fp_filename p of None \<Rightarrow> [] | Some f \<Rightarrow> f,
                             case fp_payload p of None \<Rightarrow> [] | Some b \<Rightarrow> b)) parts)))"

section \<open>Inspection\<close>

record http_request =
  rq_method :: string
  rq_url :: string
  rq_headers :: "(string \<times> string) list"
  rq_body :: bytes
  rq_client_ip :: string

record inspection_result =
  ir_url :: string
  ir_source_ip :: string
  ir_method :: string
  ir_detection :: detection_result

definition result_has_violations :: "inspection_result \<Rightarrow> bool" where
  "result_has_violations r = has_matches (ir_detection r)"

definition start_message :: "string \<Rightarrow> http_request \<Rightarrow> parsed_message" where
  "start_message uuid rq =
     add_component
       \<lparr>msg_id = uuid, msg_components = [],
        msg_meta = [(''channel'', PyStr ''http_upload''), (''url'', PyStr (rq_url rq)),
          (''method'', PyStr (rq_method rq)), (''source_ip'', PyStr (rq_client_ip rq))]\<rparr>
       ENVELOPE
       (''URL: '' @ rq_url rq @ [CHR 0x0A] @ ''Source-IP: '' @ rq_client_ip rq @ [CHR 0x0A] @
        ''Method: '' @ rq_method rq)
       [(''url'', PyStr (rq_url rq)), (''source_ip'', PyStr (rq_client_ip rq))]"

definition add_form_part :: "web_lib \<Rightarrow> string \<times> string \<times> bytes \<Rightarrow> parsed_message \<Rightarrow> parsed_message" where
  "add_form_part lib = (\<lambda>(field_name, filename, data) msg.
     if filename \<noteq> [] then
       add_component msg ATTACHMENT (decode_text (utf8_replace lib) data)
         [(''filename'', PyStr filename), (''field_name'', PyStr field_name), (''size'', PyInt (int (length data)))]
     else
       add_component msg BODY (decode_text (utf8_replace lib) data) [(''field_name'', PyStr field_name)])"

definition content_type_of :: "http_request \<Rightarrow> string" where
  "content_type_of rq =
     dict_get (rq_headers rq) ''content-type'' (dict_get (rq_headers rq) ''Content-Type'' [])"

definition request_message :: "web_lib \<Rightarrow> string \<Rightarrow> http_request \<Rightarrow> parsed_message res" where
  "request_message lib uuid rq =
     (let msg = start_message uuid rq; content_type = content_type_of rq in
      if contains ''multipart/form-data'' content_type then
        rbind (parse_multipart lib content_type (rq_body rq)) (\<lambda>parts.
          Inr (fold (add_form_part lib) parts msg))
      else
        Inr (add_component msg BODY (decode_text (utf8_replace lib) (rq_body rq)) [(''content_type'', PyStr content_type)]))"

text \<open>The loop that collects the normalised variants, and the one that adds them.\<close>

definition max_depth :: nat where "max_depth = 5"

definition component_variants ::
  "web_lib \<Rightarrow> message_component \<Rightarrow> (component_type \<times> string \<times> meta) list" where
  "component_variants lib cm =
     (if comp_type cm \<in> {BODY, ATTACHMENT, SUBJECT}
      then map (\<lambda>v. (comp_type cm, v,
                      dict_set (dict_set (comp_meta cm) ''normalized'' (PyBool True))
                        ''original_component'' (component_name cm)))
             (tl (normalize (decoders lib) (comp_content cm) max_depth))
      else [])"

definition add_variants :: "web_lib \<Rightarrow> parsed_message \<Rightarrow> parsed_message" where
  "add_variants lib msg =
     fold (\<lambda>(ct, content, meta) m. add_component m ct content meta)
       (concat (map (component_variants lib) (msg_components msg))) msg"

definition inspect_request ::
  "web_lib \<Rightarrow> engine \<Rightarrow> string \<Rightarrow> http_request \<Rightarrow> inspection_result res" where
  "inspect_request lib eng uuid rq =
     rbind (request_message lib uuid rq) (\<lambda>msg.
       Inr \<lparr>ir_url = rq_url rq, ir_source_ip = rq_client_ip rq, ir_method = rq_method rq,
            ir_detection = detect eng (add_variants lib msg)\<rparr>)"

section \<open>The monitor\<close>

record http_incident = net_incident +
  inc_url :: string
  inc_method :: string

record http_state =
  http_incidents :: "http_incident list"
  http_log :: "http_incident list"

definition MONITORED_METHODS :: "string list" where
  "MONITORED_METHODS = [''POST'', ''PUT'', ''PATCH'']"

definition should_inspect :: "string \<Rightarrow> string \<Rightarrow> bool" where
  "should_inspect meth url = (upper meth \<in> set (map (map code) MONITORED_METHODS))"

definition create_http_incident :: "string \<Rightarrow> inspection_result \<Rightarrow> http_incident" where
  "create_http_incident now r =
     \<lparr>inc_timestamp = now, inc_channel = ''http_upload'', inc_source_type = ''network'',
      inc_source_ip = ir_source_ip r, inc_match_count = match_count (ir_detection r),
      inc_matches = map match_entry_of (matches (ir_detection r)), inc_action = ''log'',
      inc_message_id = result_id (ir_detection r), inc_url = ir_url r, inc_method = ir_method r\<rparr>"

definition log_http_incident :: "call_env \<Rightarrow> http_incident \<Rightarrow> 'a http_state_scheme \<Rightarrow> 'a http_state_scheme" where
  "log_http_incident env i s = (if env_log_ok env then s\<lparr>http_log := http_log s @ [i]\<rparr> else s)"

text \<open>
  \<open>HttpMonitor.process_request\<close>; \<open>inspects\<close> is the method \<open>should_inspect\<close>, which the prevent
  mode overrides. When the parser raises, nothing has changed.
\<close>

definition monitor_request ::
  "web_lib \<Rightarrow> engine \<Rightarrow> (string \<Rightarrow> string \<Rightarrow> bool) \<Rightarrow> call_env \<Rightarrow> http_request \<Rightarrow> 'a http_state_scheme
   \<Rightarrow> (inspection_result option \<times> 'a http_state_scheme) res" where
  "monitor_request lib eng inspects env rq s =
     (if \<not> inspects (rq_method rq) (rq_url rq) then Inr (None, s)
      else if rq_body rq = [] then Inr (None, s)
      else
        rbind (inspect_request lib eng (env_uuid env) rq) (\<lambda>r.
          Inr (Some r,
               if result_has_violations r then
                 (let incident = create_http_incident (env_now env) r in
                  log_http_incident env incident
                    (s\<lparr>http_incidents := http_incidents s @ [incident]\<rparr>))
               else s)))"

section \<open>The prevent mode\<close>

record blocked_request =
  br_url :: string
  br_method :: string
  br_source_ip :: string
  br_match_count :: nat

record prevent_state = http_state +
  blocked_requests :: "blocked_request list"

record prevent_config =
  block_threshold :: int
  allowlisted_domains :: "string list"
  block_page_html :: string

definition is_allowlisted :: "web_lib \<Rightarrow> prevent_config \<Rightarrow> string \<Rightarrow> bool" where
  "is_allowlisted lib cfg url =
     (case url_hostname lib url of
        Inl _ \<Rightarrow> False
      | Inr h \<Rightarrow>
          (let hostname = (case h of None \<Rightarrow> [] | Some x \<Rightarrow> x)
           in list_ex (\<lambda>domain. hostname = domain \<or> ends_with hostname (CHR ''.'' # domain))
                (allowlisted_domains cfg)))"

definition prevent_should_inspect :: "web_lib \<Rightarrow> prevent_config \<Rightarrow> string \<Rightarrow> string \<Rightarrow> bool" where
  "prevent_should_inspect lib cfg meth url =
     (if \<not> should_inspect meth url then False
      else if is_allowlisted lib cfg url then False
      else True)"

definition should_block :: "prevent_config \<Rightarrow> inspection_result \<Rightarrow> bool" where
  "should_block cfg r =
     (if \<not> result_has_violations r then False
      else int (match_count (ir_detection r)) \<ge> block_threshold cfg)"

definition prevent_request ::
  "web_lib \<Rightarrow> engine \<Rightarrow> prevent_config \<Rightarrow> call_env \<Rightarrow> http_request \<Rightarrow> prevent_state
   \<Rightarrow> (inspection_result option \<times> prevent_state) res" where
  "prevent_request lib eng cfg env rq s =
     rbind (monitor_request lib eng (prevent_should_inspect lib cfg) env rq s) (\<lambda>(result, s').
       Inr (result,
            case result of
              None \<Rightarrow> s'
            | Some r \<Rightarrow>
                if should_block cfg r then
                  s'\<lparr>http_incidents := set_last_action ''block'' (http_incidents s'),
                     blocked_requests := blocked_requests s' @
                       [\<lparr>br_url = rq_url rq, br_method = rq_method rq, br_source_ip = rq_client_ip rq,
                         br_match_count = match_count (ir_detection r)\<rparr>]\<rparr>
                else s'))"


section \<open>The proxy hook\<close>

text \<open>
  \<open>mitmproxy_entry.py\<close>: the handler built from the environment variables, and the hook that
  answers a request in place of the server (\<open>None\<close>: the request goes through).
\<close>

datatype http_handler = Monitor http_state | Prevent prevent_config prevent_state

definition domain_set :: "string \<Rightarrow> string list" where
  "domain_set s = remdups (map strip (filter (\<lambda>d. strip d \<noteq> []) (split_on CHR '','' s)))"

definition build_handler :: "(string \<times> string) list \<Rightarrow> string \<Rightarrow> http_handler res" where
  "build_handler environ page =
     (case py_int (dict_get environ ''DLP_BLOCK_THRESHOLD'' ''1'') of
        None \<Rightarrow> Inl (Exn ValueError (''invalid literal for int() with base 10: '' @
                  repr_str (dict_get environ ''DLP_BLOCK_THRESHOLD'' ''1'')))
      | Some n \<Rightarrow>
          Inr (if dict_get environ ''DLP_MODE'' ''monitor'' = ''prevent''
               then Prevent
                 \<lparr>block_threshold = n,
                  allowlisted_domains = domain_set (dict_get environ ''DLP_DOMAIN_ALLOWLIST'' []),
                  block_page_html = page\<rparr>
                 \<lparr>http_incidents = [], http_log = [], blocked_requests = []\<rparr>
               else Monitor \<lparr>http_incidents = [], http_log = []\<rparr>))"




section \<open>The incident log\<close>

definition monitor_step ::
  "web_lib \<Rightarrow> engine \<Rightarrow> (string \<Rightarrow> string \<Rightarrow> bool) \<Rightarrow> call_env \<times> http_request
   \<Rightarrow> 'a http_state_scheme \<Rightarrow> 'a http_state_scheme" where
  "monitor_step lib eng inspects q s = state_after (monitor_request lib eng inspects (fst q) (snd q) s) s"

definition prevent_step ::
  "web_lib \<Rightarrow> engine \<Rightarrow> prevent_config \<Rightarrow> call_env \<times> http_request \<Rightarrow> prevent_state \<Rightarrow> prevent_state" where
  "prevent_step lib eng cfg q s = state_after (prevent_request lib eng cfg (fst q) (snd q) s) s"

text \<open>The inspection a request gets, if any, and what it must leave in the log.\<close>

definition inspection ::
  "web_lib \<Rightarrow> engine \<Rightarrow> (string \<Rightarrow> string \<Rightarrow> bool) \<Rightarrow> call_env \<times> http_request \<Rightarrow> inspection_result option" where
  "inspection lib eng inspects q =
     (if inspects (rq_method (snd q)) (rq_url (snd q)) \<and> rq_body (snd q) \<noteq> []
      then (case inspect_request lib eng (env_uuid (fst q)) (snd q) of Inr r \<Rightarrow> Some r | Inl _ \<Rightarrow> None)
      else None)"

definition hit_count ::
  "web_lib \<Rightarrow> engine \<Rightarrow> (string \<Rightarrow> string \<Rightarrow> bool) \<Rightarrow> call_env \<times> http_request \<Rightarrow> nat" where
  "hit_count lib eng inspects q =
     (case inspection lib eng inspects q of None \<Rightarrow> 0 | Some r \<Rightarrow> match_count (ir_detection r))"

definition http_outcome ::
  "web_lib \<Rightarrow> engine \<Rightarrow> (string \<Rightarrow> string \<Rightarrow> bool) \<Rightarrow> (nat \<Rightarrow> string) \<Rightarrow> call_env \<times> http_request
   \<Rightarrow> (nat \<times> string) option" where
  "http_outcome lib eng inspects act q =
     (let n = hit_count lib eng inspects q in if n = 0 then None else Some (n, act n))"

definition block_action :: "prevent_config \<Rightarrow> nat \<Rightarrow> string" where
  "block_action cfg n = (if int n \<ge> block_threshold cfg then ''block'' else ''log'')"

lemma monitor_request_Inr:
  "monitor_request lib eng inspects env rq s = Inr (result, s') \<Longrightarrow>
   result = inspection lib eng inspects (env, rq) \<and>
   s' = (if hit_count lib eng inspects (env, rq) = 0 then s
         else log_http_incident env (create_http_incident (env_now env) (the result))
                (s\<lparr>http_incidents := http_incidents s @ [create_http_incident (env_now env) (the result)]\<rparr>))"
  by (auto simp: monitor_request_def inspection_def hit_count_def rbind_Inr_iff Let_def
      result_has_violations_def has_matches_iff split: if_splits)

lemma monitor_request_Inl:
  "monitor_request lib eng inspects env rq s = Inl e \<Longrightarrow> inspection lib eng inspects (env, rq) = None"
  by (auto simp: monitor_request_def inspection_def rbind_Inl_iff split: if_splits)

lemma should_block_iff:
  "should_block cfg r \<longleftrightarrow> match_count (ir_detection r) \<noteq> 0 \<and>
     says_block (match_count (ir_detection r), block_action cfg (match_count (ir_detection r)))"
  by (simp add: should_block_def result_has_violations_def has_matches_iff says_block_def block_action_def)

lemma http_incidents_log [simp]: "http_incidents (log_http_incident env i s) = http_incidents s"
  by (simp add: log_http_incident_def)

lemma create_http_incident_entry [simp]:
  "incident_entry (create_http_incident now r) = (match_count (ir_detection r), ''log'')"
  by (simp add: incident_entry_def create_http_incident_def)

lemma hit_countD:
  "hit_count lib eng inspects q \<noteq> 0 \<Longrightarrow>
   \<exists>r. inspection lib eng inspects q = Some r \<and> match_count (ir_detection r) = hit_count lib eng inspects q"
  by (auto simp: hit_count_def split: option.splits)

lemma monitor_step_eq:
  "monitor_step lib eng inspects (env, rq) s =
     (if hit_count lib eng inspects (env, rq) = 0 then s
      else let i = create_http_incident (env_now env) (the (inspection lib eng inspects (env, rq)))
           in log_http_incident env i (s\<lparr>http_incidents := http_incidents s @ [i]\<rparr>))"
proof (cases "monitor_request lib eng inspects env rq s")
  case (Inl e)
  then show ?thesis using monitor_request_Inl [OF Inl]
    by (simp add: monitor_step_def state_after_def hit_count_def)
next
  case (Inr p)
  obtain r s' where "p = (r, s')" by (cases p)
  then show ?thesis using monitor_request_Inr [of lib eng inspects env rq s r s'] Inr
    by (simp add: monitor_step_def state_after_def Let_def)
qed

lemma prevent_step_eq:
  "prevent_step lib eng cfg (env, rq) s =
     (let inspects = prevent_should_inspect lib cfg; n = hit_count lib eng inspects (env, rq);
          s' = monitor_step lib eng inspects (env, rq) s
      in if n \<noteq> 0 \<and> block_action cfg n = ''block'' then
           s'\<lparr>http_incidents := set_last_action ''block'' (http_incidents s'),
              blocked_requests := blocked_requests s' @
                [\<lparr>br_url = rq_url rq, br_method = rq_method rq, br_source_ip = rq_client_ip rq,
                  br_match_count = n\<rparr>]\<rparr>
         else s')"
proof (cases "monitor_request lib eng (prevent_should_inspect lib cfg) env rq s")
  case (Inl e)
  then show ?thesis using monitor_request_Inl [OF Inl]
    by (simp add: monitor_step_def prevent_step_def prevent_request_def state_after_def hit_count_def Let_def)
next
  case (Inr p)
  obtain r s' where p: "p = (r, s')" by (cases p)
  have r: "r = inspection lib eng (prevent_should_inspect lib cfg) (env, rq)"
    using monitor_request_Inr [of lib eng "prevent_should_inspect lib cfg" env rq s r s'] Inr p by simp
  show ?thesis
  proof (cases r)
    case None
    then show ?thesis using Inr p r
      by (simp add: monitor_step_def prevent_step_def prevent_request_def state_after_def hit_count_def Let_def)
  next
    case (Some x)
    then have "hit_count lib eng (prevent_should_inspect lib cfg) (env, rq) = match_count (ir_detection x)"
      using r by (simp add: hit_count_def)
    then show ?thesis using Inr p Some
      by (simp add: monitor_step_def prevent_step_def prevent_request_def state_after_def Let_def
          should_block_iff says_block_def)
  qed
qed

interpretation http_monitor: incident_log
  http_incidents "monitor_step lib eng should_inspect" incident_entry
  "http_outcome lib eng should_inspect (\<lambda>_. ''log'')" for lib eng
proof
  show "http_outcome lib eng should_inspect (\<lambda>_. ''log'') q = None \<Longrightarrow>
      http_incidents (monitor_step lib eng should_inspect q s) = http_incidents s" for q s
    by (cases q) (simp add: http_outcome_def monitor_step_eq Let_def split: if_splits)
  show "http_outcome lib eng should_inspect (\<lambda>_. ''log'') q = Some e \<Longrightarrow>
      \<exists>i. http_incidents (monitor_step lib eng should_inspect q s) = http_incidents s @ [i] \<and>
        incident_entry i = e" for q e s
    using hit_countD [of lib eng should_inspect q]
    by (cases q) (fastforce simp: http_outcome_def monitor_step_eq Let_def split: if_splits)
qed

interpretation http_prevent: enforcing_log
  http_incidents "prevent_step lib eng cfg" incident_entry
  "http_outcome lib eng (prevent_should_inspect lib cfg) (block_action cfg)"
  blocked_requests "\<lambda>_. True" for lib eng cfg
proof
  let ?out = "http_outcome lib eng (prevent_should_inspect lib cfg) (block_action cfg)"
  fix q :: "call_env \<times> http_request" and s :: prevent_state and e
  show "?out q = None \<Longrightarrow> http_incidents (prevent_step lib eng cfg q s) = http_incidents s"
    by (cases q) (simp add: http_outcome_def prevent_step_eq monitor_step_eq Let_def split: if_splits)
  show "\<exists>i. http_incidents (prevent_step lib eng cfg q s) = http_incidents s @ [i] \<and> incident_entry i = e"
    if "?out q = Some e"
  proof -
    obtain env rq where q: "q = (env, rq)" by (cases q)
    let ?n = "hit_count lib eng (prevent_should_inspect lib cfg) q"
    let ?i = "create_http_incident (env_now env) (the (inspection lib eng (prevent_should_inspect lib cfg) q))"
    have n: "?n \<noteq> 0" "e = (?n, block_action cfg ?n)"
      using that by (auto simp: http_outcome_def Let_def split: if_splits)
    have i: "incident_entry ?i = (?n, ''log'')" using hit_countD [OF n(1)] by auto
    show ?thesis
    proof (cases "block_action cfg ?n = ''block''")
      case True
      then show ?thesis using n i q
        by (intro exI [of _ "?i\<lparr>inc_action := ''block''\<rparr>"])
          (auto simp: prevent_step_eq monitor_step_eq Let_def incident_entry_def)
    next
      case False
      then have "block_action cfg ?n = ''log''" by (simp add: block_action_def split: if_splits)
      then show ?thesis using False n i q
        by (intro exI [of _ ?i]) (auto simp: prevent_step_eq monitor_step_eq Let_def)
    qed
  qed
  show "\<exists>vs. blocked_requests (prevent_step lib eng cfg q s) = blocked_requests s @ vs \<and>
      length (filter (\<lambda>_. True) vs) = (case ?out q of None \<Rightarrow> 0 | Some e \<Rightarrow> if says_block e then 1 else 0)"
    by (cases q) (auto simp: prevent_step_eq monitor_step_eq http_outcome_def Let_def says_block_def
        log_http_incident_def)
qed

section \<open>Properties\<close>

definition no_incidents :: prevent_state where
  "no_incidents = \<lparr>http_incidents = [], http_log = [], blocked_requests = []\<rparr>"


text \<open>
  After any sequence of requests the prevent mode's incidents are, in order, one for each request
  in which something was found, with its number of matches and the action "block" exactly when
  that number reaches the threshold; and the requests recorded as blocked are as many as the
  incidents that say so.
\<close>

theorem http_enforcement_audited:
  "map incident_entry (http_incidents (fold (prevent_step lib eng cfg) qs no_incidents)) =
     List.map_filter (http_outcome lib eng (prevent_should_inspect lib cfg) (block_action cfg)) qs \<and>
   length (blocked_requests (fold (prevent_step lib eng cfg) qs no_incidents)) =
     length (filter (\<lambda>i. inc_action i = ''block'')
       (http_incidents (fold (prevent_step lib eng cfg) qs no_incidents)))"
  using http_prevent.run_entries [of lib eng cfg qs no_incidents]
    http_prevent.run_audited [of no_incidents lib eng cfg qs]
  by (simp add: no_incidents_def says_block_def incident_entry_def)

text \<open>A step in prevent mode writes the incident to the file before its action is set.\<close>

lemma prevent_step_log:
  assumes "env_log_ok (fst q)"
    and "map (\<lambda>i. i\<lparr>inc_action := ''log''\<rparr>) (http_incidents s) = http_log s"
  shows "map (\<lambda>i. i\<lparr>inc_action := ''log''\<rparr>) (http_incidents (prevent_step lib eng cfg q s)) =
    http_log (prevent_step lib eng cfg q s)"
  using assms
  by (cases q) (auto simp: prevent_step_eq monitor_step_eq Let_def log_http_incident_def
      create_http_incident_def)

text \<open>
  The incident log on disk never tells that a request was blocked: as long as its writes
  succeed it holds a line for every incident, but the line is written before the action is
  changed to "block", so each says "log".
\<close>

theorem http_log_never_says_block:
  assumes "list_all (\<lambda>q. env_log_ok (fst q)) qs"
  shows "http_log (fold (prevent_step lib eng cfg) qs no_incidents) =
    map (\<lambda>i. i\<lparr>inc_action := ''log''\<rparr>) (http_incidents (fold (prevent_step lib eng cfg) qs no_incidents))"
proof -
  have "map (\<lambda>i. i\<lparr>inc_action := ''log''\<rparr>) (http_incidents (fold (prevent_step lib eng cfg) qs s)) =
      http_log (fold (prevent_step lib eng cfg) qs s)"
    if "map (\<lambda>i. i\<lparr>inc_action := ''log''\<rparr>) (http_incidents s) = http_log s" for s
    using assms that
  proof (induction qs arbitrary: s)
    case (Cons q qs)
    then show ?case using prevent_step_log [of q s lib eng cfg] by simp
  qed simp
  from this [of no_incidents] show ?thesis by (simp add: no_incidents_def)
qed

text \<open>A library for texts in ASCII, an analyzer that reports every body, and a request.\<close>

definition ascii_web :: web_lib where
  "ascii_web = \<lparr>parse_form = (\<lambda>_. Inr None), utf8_replace = (\<lambda>b. Inr (map (\<lambda>w. char_of (unat w)) b)),
     url_hostname = (\<lambda>_. Inr (Some ''files.example'')), decoders = ascii_lib\<rparr>"

definition upload :: http_request where
  "upload = \<lparr>rq_method = ''post'', rq_url = ''http://files.example/'', rq_headers = [],
     rq_body = utf8 ''secret'', rq_client_ip = ''10.0.0.1''\<rparr>"

definition upload_env :: call_env where
  "upload_env = \<lparr>env_now = ''2024'', env_uuid = ''id'', env_log_ok = True\<rparr>"

definition block_all :: prevent_config where
  "block_all = \<lparr>block_threshold = 1, allowlisted_domains = [], block_page_html = []\<rparr>"

lemma upload_blocked:
  "map inc_action (http_incidents
     (prevent_step ascii_web [mail_probe ''a'' ''secret''] block_all (upload_env, upload) no_incidents))
   = [''block'']"
  by code_simp

theorem http_log_never_says_block_witness:
  "map inc_action (http_incidents (fold (prevent_step ascii_web [mail_probe ''a'' ''secret''] block_all)
     [(upload_env, upload)] no_incidents)) = [''block''] \<and>
   map inc_action (http_log (fold (prevent_step ascii_web [mail_probe ''a'' ''secret''] block_all)
     [(upload_env, upload)] no_incidents)) = [''log'']"
proof -
  have "list_all (\<lambda>q. env_log_ok (fst q)) [(upload_env, upload)]" by (simp add: upload_env_def)
  note * = http_log_never_says_block [OF this, of ascii_web "[mail_probe ''a'' ''secret'']" block_all]
  show ?thesis using * upload_blocked by (auto simp: comp_def map_eq_Cons_conv)
qed

section \<open>What is scanned\<close>

lemma fold_add_components:
  "msg_components (fold (\<lambda>(ct, content, meta) m. add_component m ct content meta) cs msg) =
     msg_components msg @ map (\<lambda>(ct, content, meta). mk_component ct content meta) cs"
  by (induction cs arbitrary: msg) auto

lemma add_variants_components:
  "msg_components (add_variants lib msg) = msg_components msg @
     map (\<lambda>(ct, content, meta). mk_component ct content meta)
       (concat (map (component_variants lib) (msg_components msg)))"
  by (simp add: add_variants_def fold_add_components)

lemma variant_scanned:
  assumes "c \<in> set (msg_components msg)" "comp_type c \<in> {BODY, ATTACHMENT, SUBJECT}"
    and "v \<in> set (normalize (decoders lib) (comp_content c) max_depth)"
  shows "\<exists>d \<in> set (msg_components (add_variants lib msg)). comp_type d = comp_type c \<and> comp_content d = v"
proof (cases "v = comp_content c")
  case True
  then show ?thesis using assms(1) by (auto simp: add_variants_components)
next
  case False
  have "hd (normalize (decoders lib) (comp_content c) max_depth) = comp_content c"
      "normalize (decoders lib) (comp_content c) max_depth \<noteq> []"
    using normalize_loop_extends [of "decoders lib" max_depth "comp_content c" "[comp_content c]"]
    by (auto simp: normalize_def)
  then have "v \<in> set (tl (normalize (decoders lib) (comp_content c) max_depth))"
    using False assms(3) by (cases "normalize (decoders lib) (comp_content c) max_depth") auto
  then obtain meta where "(comp_type c, v, meta) \<in> set (component_variants lib c)"
    using assms(2) by (auto simp: component_variants_def)
  then have "mk_component (comp_type c) v meta \<in> set (msg_components (add_variants lib msg))"
    using assms(1) by (force simp: add_variants_components)
  then show ?thesis by (rule rev_bexI) simp
qed

lemma first_pass_variant: "decode_pass lib s \<in> set (normalize lib s max_depth)"
proof -
  have "decode_pass lib s \<in> set (normalize lib s (Suc n))" for n
    using normalize_loop_extends [of lib n "decode_pass lib s" "[s, decode_pass lib s]"]
    by (auto simp: normalize_def Let_def)
  from this [of 4] show ?thesis by (simp add: max_depth_def)
qed

text \<open>A text of base64 characters has no URL or entity encoding for the earlier passes.\<close>

lemma base64_decode_pass:
  assumes "utf8_strict lib (byte_codes s) = Inr s" and "printable_ratio s \<ge> 8 / 10"
    and "length (byte_codes s) \<ge> 24"
  shows "decode_pass lib (b64encode (byte_codes s)) = s"
proof -
  have "is_b64 c \<or> c = CHR ''=''" if "c \<in> set (b64encode (byte_codes s))" for c
    using that run_is_b64 [OF byte_codes_bound] by (auto simp: b64encode_def)
  moreover have "\<not> is_b64 CHR ''%''" "\<not> is_b64 CHR ''&''" by code_simp+
  ultimately have "CHR ''%'' \<notin> set (b64encode (byte_codes s))" "CHR ''&'' \<notin> set (b64encode (byte_codes s))"
    by auto
  then show ?thesis
    using unwrap_base64 [OF assms] by (simp add: decode_pass_def url_decode_def html_entity_decode_def)
qed

text \<open>
  Base64 does not hide an upload: when the body of a request that is not multipart decodes to
  the base64 form of a long enough, mostly printable text, the message that is given to the
  analyzers has a body component with that text itself, beside the one as it was sent.
\<close>

theorem base64_body_is_scanned:
  assumes "utf8_strict (decoders lib) (byte_codes t) = Inr t" and "printable_ratio t \<ge> 8 / 10"
    and "length (byte_codes t) \<ge> 24"
    and "decode_text (utf8_replace lib) (rq_body rq) = b64encode (byte_codes t)"
    and "\<not> contains ''multipart/form-data'' (content_type_of rq)"
  shows "\<exists>msg sent clear. request_message lib uuid rq = Inr msg \<and>
    inspect_request lib eng uuid rq = Inr \<lparr>ir_url = rq_url rq, ir_source_ip = rq_client_ip rq,
      ir_method = rq_method rq, ir_detection = detect eng (add_variants lib msg)\<rparr> \<and>
    {sent, clear} \<subseteq> set (msg_components (add_variants lib msg)) \<and>
    comp_type sent = BODY \<and> comp_content sent = b64encode (byte_codes t) \<and>
    comp_type clear = BODY \<and> comp_content clear = t"
proof -
  let ?c = "mk_component BODY (b64encode (byte_codes t)) [(''content_type'', PyStr (content_type_of rq))]"
  define msg where "msg = add_component (start_message uuid rq) BODY (b64encode (byte_codes t))
    [(''content_type'', PyStr (content_type_of rq))]"
  have m: "request_message lib uuid rq = Inr msg"
    using assms(4,5) by (simp add: request_message_def Let_def msg_def)
  have c: "?c \<in> set (msg_components msg)" by (simp add: msg_def)
  have t: "t \<in> set (normalize (decoders lib) (comp_content ?c) max_depth)"
    using first_pass_variant [of "decoders lib" "comp_content ?c"] base64_decode_pass [OF assms(1-3)] by simp
  obtain d where "d \<in> set (msg_components (add_variants lib msg))" "comp_type d = BODY" "comp_content d = t"
    using variant_scanned [OF c _ t] by auto
  moreover have "?c \<in> set (msg_components (add_variants lib msg))"
    using c by (simp add: add_variants_components)
  ultimately show ?thesis using m
    by (intro exI [of _ msg] exI [of _ ?c] exI [of _ d]) (simp add: inspect_request_def)
qed

definition wrapped_text :: string where
  "wrapped_text = ''card 4111 1111 1111 1111 exp''"

definition wrapped_upload :: http_request where
  "wrapped_upload = upload\<lparr>rq_body := utf8 (b64encode (byte_codes wrapped_text))\<rparr>"

theorem base64_body_is_scanned_witness:
  "\<exists>msg clear. request_message ascii_web ''id'' wrapped_upload = Inr msg \<and>
     clear \<in> set (msg_components (add_variants ascii_web msg)) \<and> comp_content clear = wrapped_text"
proof -
  have "utf8_strict (decoders ascii_web) (byte_codes wrapped_text) = Inr wrapped_text"
    "8 / 10 \<le> printable_ratio wrapped_text" "24 \<le> length (byte_codes wrapped_text)"
    "decode_text (utf8_replace ascii_web) (rq_body wrapped_upload) = b64encode (byte_codes wrapped_text)"
    "\<not> contains ''multipart/form-data'' (content_type_of wrapped_upload)"
    by code_simp+
  from base64_body_is_scanned [OF this, of "''id''" "[]"] show ?thesis by blast
qed

text \<open>
  A multipart upload is not scanned at all when its content type names no boundary: the only
  component is the envelope, whatever the body holds.
\<close>

theorem unbounded_multipart_is_not_scanned:
  assumes "contains ''multipart/form-data'' (content_type_of rq)"
    and "\<not> has_boundary (utf8 (content_type_of rq))"
  shows "request_message lib uuid rq = Inr (start_message uuid rq) \<and>
    map comp_type (msg_components (add_variants lib (start_message uuid rq))) = [ENVELOPE]"
  using assms
  by (simp add: request_message_def parse_multipart_def add_variants_components component_variants_def
      start_message_def)

theorem unbounded_multipart_is_not_scanned_witness:
  "map comp_type (msg_components (add_variants ascii_web (start_message ''id''
     (upload\<lparr>rq_headers := [(''content-type'', ''multipart/form-data'')]\<rparr>)))) = [ENVELOPE]"
proof -
  let ?rq = "upload\<lparr>rq_headers := [(''content-type'', ''multipart/form-data'')]\<rparr>"
  have "contains ''multipart/form-data'' (content_type_of ?rq)" "\<not> has_boundary (utf8 (content_type_of ?rq))"
    by code_simp+
  from unbounded_multipart_is_not_scanned [OF this] show ?thesis by blast
qed

end
