(* ===== verification/SmtpChannel.thy ===== *)
theory SmtpChannel
  imports IncidentLog
begin

text \<open>
  The mail channel: \<open>network/smtp_monitor.py\<close> turns a mail into a message and logs what
  detection finds, \<open>network/smtp_prevent.py\<close> decides on an action and records the verdict, and
  \<open>network/smtp_entry.py\<close> is the relay that answers the sending server and forwards. The mail
  parser and the UTF-8 decoder are parameters, and so is the storing of a header.
\<close>

section \<open>Mails\<close>

record email_envelope =
  mail_from :: string
  rcpt_tos :: "string list"
  peer :: "string \<times> int"

record mail_part =
  mp_content_type :: string
  mp_disposition :: string
  mp_filename :: "string option"
  mp_payload :: "bytes option"

text \<open>A parsed mail: \<open>ml_parts\<close> is what \<open>walk\<close> yields, \<open>None\<close> for a mail that is not multipart.\<close>

type_synonym headers = "(string \<times> string) list"

record mail =
  ml_headers :: headers
  ml_content_type :: string
  ml_payload :: "bytes option"
  ml_parts :: "mail_part list option"

record mail_lib =
  parse_mail :: "bytes \<Rightarrow> mail res"
  mail_decode :: "bytes \<Rightarrow> string res"

text \<open>\<open>msg.get(name, default)\<close>: the first header of that name, in any case.\<close>

definition get_header :: "headers \<Rightarrow> string \<Rightarrow> string \<Rightarrow> string" where
  "get_header hs name dflt =
     (case find (\<lambda>h. lower (fst h) = lower name) hs of None \<Rightarrow> dflt | Some h \<Rightarrow> snd h)"

section \<open>Parsing\<close>

definition envelope_component :: "email_envelope \<Rightarrow> mail \<Rightarrow> parsed_message \<Rightarrow> parsed_message" where
  "envelope_component envl msg m =
     add_component m ENVELOPE
       (''From: '' @ mail_from envl @ [CHR 0x0A] @
        ''To: '' @ join '', '' (rcpt_tos envl) @ [CHR 0x0A] @
        ''Reply-To: '' @ get_header (ml_headers msg) ''Reply-To'' [] @ [CHR 0x0A] @
        ''X-Mailer: '' @ get_header (ml_headers msg) ''X-Mailer'' [] @ [CHR 0x0A])
       [(''mail_from'', PyStr (mail_from envl)), (''rcpt_tos'', PyList (map PyStr (rcpt_tos envl)))]"

definition payload_text :: "mail_lib \<Rightarrow> bytes option \<Rightarrow> string" where
  "payload_text lib payload =
     decode_text (mail_decode lib) (case payload of None \<Rightarrow> [] | Some b \<Rightarrow> b)"

definition is_attachment :: "mail_part \<Rightarrow> bool" where
  "is_attachment p \<longleftrightarrow>
     contains ''attachment'' (mp_disposition p) \<or> (mp_filename p \<noteq> None \<and> mp_filename p \<noteq> Some [])"

definition part_filename :: "mail_part \<Rightarrow> string" where
  "part_filename p =
     (case mp_filename p of Some f \<Rightarrow> if f = [] then ''unnamed'' else f | None \<Rightarrow> ''unnamed'')"

definition add_part :: "mail_lib \<Rightarrow> mail_part \<Rightarrow> parsed_message \<times> nat \<Rightarrow> parsed_message \<times> nat" where
  "add_part lib p = (\<lambda>(m, attachment_count).
     if is_attachment p then
       (add_component m ATTACHMENT (payload_text lib (mp_payload p))
          [(''filename'', PyStr (part_filename p)), (''content_type'', PyStr (mp_content_type p)),
           (''size'', PyInt (int (length (case mp_payload p of None \<Rightarrow> [] | Some b \<Rightarrow> b))))],
        attachment_count + 1)
     else if mp_content_type p \<in> {''text/plain'', ''text/html''} then
       (add_component m BODY (payload_text lib (mp_payload p))
          [(''content_type'', PyStr (mp_content_type p))], attachment_count)
     else (m, attachment_count))"

definition parse_email :: "mail_lib \<Rightarrow> string \<Rightarrow> email_envelope \<Rightarrow> mail \<Rightarrow> parsed_message \<times> string \<times> nat" where
  "parse_email lib uuid envl msg =
     (let m0 = envelope_component envl msg
            \<lparr>msg_id = uuid, msg_components = [],
             msg_meta = [(''channel'', PyStr ''email''), (''mail_from'', PyStr (mail_from envl)),
               (''rcpt_tos'', PyList (map PyStr (rcpt_tos envl))), (''source_ip'', PyStr (fst (peer envl)))]\<rparr>;
          subject = get_header (ml_headers msg) ''Subject'' [];
          m1 = (if subject \<noteq> [] then add_component m0 SUBJECT subject [] else m0);
          (m2, attachment_count) =
            (case ml_parts msg of
               Some parts \<Rightarrow> fold (add_part lib) parts (m1, 0)
             | None \<Rightarrow>
                 (add_component m1 BODY (payload_text lib (ml_payload msg))
                    [(''content_type'', PyStr (ml_content_type msg))], 0))
      in (m2, subject, attachment_count))"

section \<open>The monitor\<close>

record email_inspection =
  ei_envelope :: email_envelope
  ei_subject :: string
  ei_detection :: detection_result
  ei_attachment_count :: nat

definition email_has_violations :: "email_inspection \<Rightarrow> bool" where
  "email_has_violations r = has_matches (ei_detection r)"

record smtp_incident = net_incident +
  inc_mail_from :: string
  inc_rcpt_tos :: "string list"
  inc_subject :: string
  inc_attachment_count :: nat

record smtp_state =
  smtp_incidents :: "smtp_incident list"
  smtp_log :: "smtp_incident list"

definition create_smtp_incident :: "string \<Rightarrow> email_inspection \<Rightarrow> smtp_incident" where
  "create_smtp_incident now r =
     \<lparr>inc_timestamp = now, inc_channel = ''email'', inc_source_type = ''network'',
      inc_source_ip = fst (peer (ei_envelope r)), inc_match_count = match_count (ei_detection r),
      inc_matches = map match_entry_of (matches (ei_detection r)), inc_action = ''log'',
      inc_message_id = result_id (ei_detection r), inc_mail_from = mail_from (ei_envelope r),
      inc_rcpt_tos = rcpt_tos (ei_envelope r), inc_subject = ei_subject r,
      inc_attachment_count = ei_attachment_count r\<rparr>"

definition log_smtp_incident :: "call_env \<Rightarrow> smtp_incident \<Rightarrow> 'a smtp_state_scheme \<Rightarrow> 'a smtp_state_scheme" where
  "log_smtp_incident env i s = (if env_log_ok env then s\<lparr>smtp_log := smtp_log s @ [i]\<rparr> else s)"

definition inspect_email ::
  "mail_lib \<Rightarrow> engine \<Rightarrow> string \<Rightarrow> email_envelope \<Rightarrow> bytes \<Rightarrow> email_inspection res" where
  "inspect_email lib eng uuid envl raw =
     rbind (parse_mail lib raw) (\<lambda>msg.
       let (m, subject, attachment_count) = parse_email lib uuid envl msg
       in Inr \<lparr>ei_envelope = envl, ei_subject = subject, ei_detection = detect eng m,
               ei_attachment_count = attachment_count\<rparr>)"

definition monitor_email ::
  "mail_lib \<Rightarrow> engine \<Rightarrow> call_env \<Rightarrow> email_envelope \<Rightarrow> bytes \<Rightarrow> 'a smtp_state_scheme
   \<Rightarrow> (email_inspection \<times> 'a smtp_state_scheme) res" where
  "monitor_email lib eng env envl raw s =
     rbind (inspect_email lib eng (env_uuid env) envl raw) (\<lambda>r.
       Inr (r,
            if email_has_violations r then
              (let incident = create_smtp_incident (env_now env) r in
               log_smtp_incident env incident
                 (s\<lparr>smtp_incidents := smtp_incidents s @ [incident]\<rparr>))
            else s))"

section \<open>The prevent mode\<close>

datatype smtp_action = PASS | LOG | BLOCK | MODIFY | REDIRECT

record smtp_verdict =
  sv_action :: smtp_action
  sv_inspection :: email_inspection
  modified_subject :: "string option"
  modified_headers :: "headers option"
  redirect_to :: "string option"
  reject_code :: nat
  reject_message :: string

record smtp_config =
  smtp_block_threshold :: int
  modify_threshold :: int
  quarantine_address :: string
  default_action :: smtp_action

record smtp_prevent_state = smtp_state +
  verdicts :: "smtp_verdict list"

definition determine_action :: "smtp_config \<Rightarrow> email_inspection \<Rightarrow> smtp_action" where
  "determine_action cfg r =
     (if \<not> email_has_violations r then PASS
      else
        (let n = int (match_count (ei_detection r)) in
         if n \<ge> smtp_block_threshold cfg then BLOCK
         else if n \<ge> modify_threshold cfg then default_action cfg
         else LOG))"

definition new_verdict :: "smtp_action \<Rightarrow> email_inspection \<Rightarrow> smtp_verdict" where
  "new_verdict a r =
     \<lparr>sv_action = a, sv_inspection = r, modified_subject = None, modified_headers = None,
      redirect_to = None, reject_code = 550,
      reject_message = ''5.7.1 Message rejected: DLP policy violation''\<rparr>"

definition mark_last :: "string \<Rightarrow> smtp_prevent_state \<Rightarrow> smtp_prevent_state" where
  "mark_last a s = s\<lparr>smtp_incidents := set_last_action a (smtp_incidents s)\<rparr>"

fun apply_action ::
  "smtp_config \<Rightarrow> smtp_action \<Rightarrow> email_inspection \<Rightarrow> smtp_prevent_state \<Rightarrow> smtp_verdict \<times> smtp_prevent_state" where
  "apply_action cfg BLOCK r s =
     ((new_verdict BLOCK r)\<lparr>reject_code := 550,
        reject_message := ''5.7.1 Message rejected: DLP policy violation''\<rparr>, mark_last ''block'' s)"
| "apply_action cfg MODIFY r s =
     ((new_verdict MODIFY r)\<lparr>modified_subject := Some (''[DLP VIOLATION] '' @ ei_subject r),
        modified_headers := Some
          [(''X-DLP-Violation'', ''true''),
           (''X-DLP-Match-Count'', nat_str (match_count (ei_detection r))),
           (''X-DLP-Action'', ''modify'')]\<rparr>, mark_last ''modify'' s)"
| "apply_action cfg REDIRECT r s =
     ((new_verdict REDIRECT r)\<lparr>redirect_to := Some (quarantine_address cfg)\<rparr>, mark_last ''redirect'' s)"
| "apply_action cfg a r s = (new_verdict a r, s)"

definition prevent_email ::
  "mail_lib \<Rightarrow> engine \<Rightarrow> smtp_config \<Rightarrow> call_env \<Rightarrow> email_envelope \<Rightarrow> bytes \<Rightarrow> smtp_prevent_state
   \<Rightarrow> (email_inspection \<times> smtp_prevent_state) res" where
  "prevent_email lib eng cfg env envl raw s =
     rbind (monitor_email lib eng env envl raw s) (\<lambda>(r, s').
       let (v, s'') = apply_action cfg (determine_action cfg r) r s'
       in Inr (r, s''\<lparr>verdicts := verdicts s'' @ [v]\<rparr>))"

definition get_reject_response :: "smtp_verdict \<Rightarrow> nat \<times> string" where
  "get_reject_response v = (reject_code v, reject_message v)"

definition get_redirect_recipients :: "smtp_verdict \<Rightarrow> string list" where
  "get_redirect_recipients v =
     (case redirect_to v of Some a \<Rightarrow> if a \<noteq> [] then [a] else [] | None \<Rightarrow> [])"

text \<open>
  \<open>msg[name] = value\<close> under the default policy: the value is stored as the policy makes it (a
  value of several lines is a \<open>ValueError\<close>), and a second subject is refused. The mail is
  changed in place, so what was done before a raise stays.
\<close>

type_synonym header_store = "string \<Rightarrow> string \<Rightarrow> string res"

definition has_header :: "string \<Rightarrow> headers \<Rightarrow> bool" where
  "has_header name hs = list_ex (\<lambda>h. lower (fst h) = lower name) hs"

definition del_header :: "string \<Rightarrow> headers \<Rightarrow> headers" where
  "del_header name hs = filter (\<lambda>h. lower (fst h) \<noteq> lower name) hs"

definition set_header :: "header_store \<Rightarrow> string \<Rightarrow> string \<Rightarrow> headers proc" where
  "set_header store name value' =
     (\<lambda>hs. if lower name = ''subject'' \<and> has_header name hs
       then raise_proc (Exn ValueError (''There may be at most 1 '' @ name @ '' headers in a message'')) hs
       else with_res (store name value') (\<lambda>v. pure_proc (\<lambda>hs. hs @ [(name, v)])) hs)"

definition apply_modifications :: "header_store \<Rightarrow> smtp_verdict \<Rightarrow> headers proc" where
  "apply_modifications store v =
     seq_proc
       (case modified_subject v of
          Some subj \<Rightarrow>
            if subj \<noteq> [] then
              seq_proc (pure_proc (\<lambda>hs. if has_header ''Subject'' hs then del_header ''Subject'' hs else hs))
                (set_header store ''Subject'' subj)
            else pure_proc id
        | None \<Rightarrow> pure_proc id)
       (case modified_headers v of
          Some hs \<Rightarrow> for_proc (\<lambda>(name, value'). set_header store name value') hs
        | None \<Rightarrow> pure_proc id)"

section \<open>The relay\<close>

datatype smtp_handler = SmtpMonitor smtp_state | SmtpPrevent smtp_config smtp_prevent_state

record delivery =
  dl_from :: string
  dl_rcpts :: "string list"
  dl_data :: bytes

text \<open>\<open>_forward\<close>: whether the upstream server takes the mail is an argument; a failure is logged.\<close>

definition forward :: "bool \<Rightarrow> string \<Rightarrow> string list \<Rightarrow> bytes \<Rightarrow> delivery list" where
  "forward upstream_ok sender rcpts data =
     (if upstream_ok then [\<lparr>dl_from = sender, dl_rcpts = rcpts, dl_data = data\<rparr>] else [])"

text \<open>\<open>handle_DATA\<close>: the reply, what reaches the upstream server, and the monitor afterwards.\<close>

fun handle_data ::
  "mail_lib \<Rightarrow> engine \<Rightarrow> call_env \<Rightarrow> bool \<Rightarrow> email_envelope \<Rightarrow> bytes \<Rightarrow> smtp_handler
   \<Rightarrow> (string \<times> delivery list \<times> smtp_handler) res" where
  "handle_data lib eng env upstream_ok envl content (SmtpMonitor s) =
     rbind (monitor_email lib eng env envl content s) (\<lambda>(_, s').
       Inr (''250 OK'', forward upstream_ok (mail_from envl) (rcpt_tos envl) content, SmtpMonitor s'))"
| "handle_data lib eng env upstream_ok envl content (SmtpPrevent cfg s) =
     rbind (prevent_email lib eng cfg env envl content s) (\<lambda>(_, s').
       let relay = (''250 OK'', forward upstream_ok (mail_from envl) (rcpt_tos envl) content, SmtpPrevent cfg s')
       in Inr
         (if verdicts s' \<noteq> [] then
            (let verdict = last (verdicts s') in
             if sv_action verdict = BLOCK then
               (nat_str (fst (get_reject_response verdict)) @ '' '' @ snd (get_reject_response verdict),
                [], SmtpPrevent cfg s')
             else if sv_action verdict = REDIRECT then
               (''250 OK (redirected to quarantine)'',
                forward upstream_ok (mail_from envl) (get_redirect_recipients verdict) content,
                SmtpPrevent cfg s')
             else relay)
          else relay))"

section \<open>The incident log\<close>

type_synonym email_call = "call_env \<times> email_envelope \<times> bytes"

definition smtp_monitor_step ::
  "mail_lib \<Rightarrow> engine \<Rightarrow> email_call \<Rightarrow> 'a smtp_state_scheme \<Rightarrow> 'a smtp_state_scheme" where
  "smtp_monitor_step lib eng = (\<lambda>(env, envl, raw) s. state_after (monitor_email lib eng env envl raw s) s)"

definition smtp_prevent_step ::
  "mail_lib \<Rightarrow> engine \<Rightarrow> smtp_config \<Rightarrow> email_call \<Rightarrow> smtp_prevent_state \<Rightarrow> smtp_prevent_state" where
  "smtp_prevent_step lib eng cfg = (\<lambda>(env, envl, raw) s. state_after (prevent_email lib eng cfg env envl raw s) s)"

text \<open>
  The action for a number of matches, and the word the incident records for it. The inspection
  of a mail depends on the mail and the uuid only.
\<close>

definition action_for :: "smtp_config \<Rightarrow> nat \<Rightarrow> smtp_action" where
  "action_for cfg n =
     (if n = 0 then PASS else if int n \<ge> smtp_block_threshold cfg then BLOCK
      else if int n \<ge> modify_threshold cfg then default_action cfg else LOG)"

fun action_word :: "smtp_action \<Rightarrow> string" where
  "action_word BLOCK = ''block''"
| "action_word MODIFY = ''modify''"
| "action_word REDIRECT = ''redirect''"
| "action_word _ = ''log''"

definition email_outcome ::
  "mail_lib \<Rightarrow> engine \<Rightarrow> (nat \<Rightarrow> string) \<Rightarrow> email_call \<Rightarrow> (nat \<times> string) option" where
  "email_outcome lib eng word = (\<lambda>(env, envl, raw).
     case inspect_email lib eng (env_uuid env) envl raw of
       Inl _ \<Rightarrow> None
     | Inr r \<Rightarrow> (let n = match_count (ei_detection r) in if n = 0 then None else Some (n, word n)))"

lemma determine_action_eq: "determine_action cfg r = action_for cfg (match_count (ei_detection r))"
  by (simp add: determine_action_def action_for_def email_has_violations_def has_matches_iff Let_def)

lemma smtp_incidents_log [simp]: "smtp_incidents (log_smtp_incident env i s) = smtp_incidents s"
  and verdicts_log [simp]: "verdicts (log_smtp_incident env i t) = verdicts t"
  by (simp_all add: log_smtp_incident_def)

lemma create_smtp_incident_entry [simp]:
  "incident_entry (create_smtp_incident now r) = (match_count (ei_detection r), ''log'')"
  by (simp add: incident_entry_def create_smtp_incident_def)

lemma monitor_email_eq:
  "monitor_email lib eng env envl raw s =
     (case inspect_email lib eng (env_uuid env) envl raw of
        Inl e \<Rightarrow> Inl e
      | Inr r \<Rightarrow> Inr (r, if match_count (ei_detection r) = 0 then s
          else log_smtp_incident env (create_smtp_incident (env_now env) r)
                 (s\<lparr>smtp_incidents := smtp_incidents s @ [create_smtp_incident (env_now env) r]\<rparr>)))"
  by (simp add: monitor_email_def email_has_violations_def has_matches_iff Let_def split: sum.split)

text \<open>The state a verdict leaves: one more verdict, and the last incident marked.\<close>

lemma verdicts_mark_last [simp]: "verdicts (mark_last w s) = verdicts s"
  by (simp add: mark_last_def)

lemma new_verdict_action [simp]: "sv_action (new_verdict a r) = a"
  by (simp add: new_verdict_def)

lemma apply_action_verdicts [simp]: "verdicts (snd (apply_action cfg a r s)) = verdicts s"
  by (cases a) simp_all

lemma apply_action_sv [simp]: "sv_action (fst (apply_action cfg a r s)) = a"
  by (cases a) (simp_all add: new_verdict_def)

lemma apply_action_state:
  "snd (apply_action cfg a r s) = (if action_word a = ''log'' then s else mark_last (action_word a) s)"
  by (cases a) simp_all

lemma prevent_email_eq:
  "prevent_email lib eng cfg env envl raw s =
     (case monitor_email lib eng env envl raw s of
        Inl e \<Rightarrow> Inl e
      | Inr (r, s') \<Rightarrow>
          (let a = action_for cfg (match_count (ei_detection r)); t = snd (apply_action cfg a r s')
           in Inr (r, t\<lparr>verdicts := verdicts t @ [fst (apply_action cfg a r s')]\<rparr>)))"
  by (simp add: prevent_email_def determine_action_eq Let_def case_prod_unfold split: sum.split)

lemma action_word_0 [simp]: "action_word (action_for cfg 0) = ''log''"
  by (simp add: action_for_def)

lemma prevent_email_incidents:
  assumes "inspect_email lib eng (env_uuid env) envl raw = Inr r"
  shows "\<exists>s' v. prevent_email lib eng cfg env envl raw s = Inr (r, s') \<and>
    verdicts s' = verdicts s @ [v] \<and> sv_action v = action_for cfg (match_count (ei_detection r)) \<and>
    v = fst (apply_action cfg (sv_action v) r s') \<and>
    (if match_count (ei_detection r) = 0 then smtp_incidents s' = smtp_incidents s
     else \<exists>i. smtp_incidents s' = smtp_incidents s @ [i] \<and>
       incident_entry i = (match_count (ei_detection r), action_word (sv_action v)))"
proof -
  let ?n = "match_count (ei_detection r)"
  let ?i = "create_smtp_incident (env_now env) r"
  let ?a = "action_for cfg ?n"
  have fst_eq: "fst (apply_action cfg a r s1) = fst (apply_action cfg a r s2)" for a s1 s2
    by (cases a) simp_all
  show ?thesis
  proof (cases "?n = 0")
    case True
    then show ?thesis using assms fst_eq
      by (auto simp: prevent_email_eq monitor_email_eq Let_def apply_action_state)
  next
    case False
    have "incident_entry (?i\<lparr>inc_action := w\<rparr>) = (?n, w)" for w
      by (simp add: incident_entry_def create_smtp_incident_def)
    then show ?thesis using False assms fst_eq
      by (auto simp: prevent_email_eq monitor_email_eq Let_def apply_action_state mark_last_def)
  qed
qed

interpretation smtp_monitor: incident_log
  smtp_incidents "smtp_monitor_step lib eng" incident_entry "email_outcome lib eng (\<lambda>_. ''log'')" for lib eng
proof
  fix q :: email_call and s e
  obtain env envl raw where q: "q = (env, envl, raw)" by (cases q)
  show "email_outcome lib eng (\<lambda>_. ''log'') q = None \<Longrightarrow>
      smtp_incidents (smtp_monitor_step lib eng q s) = smtp_incidents s"
    by (auto simp: q email_outcome_def smtp_monitor_step_def state_after_def monitor_email_eq Let_def
        split: sum.splits if_splits)
  show "email_outcome lib eng (\<lambda>_. ''log'') q = Some e \<Longrightarrow>
      \<exists>i. smtp_incidents (smtp_monitor_step lib eng q s) = smtp_incidents s @ [i] \<and> incident_entry i = e"
    by (auto simp: q email_outcome_def smtp_monitor_step_def state_after_def monitor_email_eq Let_def
        split: sum.splits if_splits)
qed

lemma action_word_block: "action_word a = ''block'' \<longleftrightarrow> a = BLOCK"
  by (cases a) simp_all

lemma prevent_email_Inl:
  "inspect_email lib eng (env_uuid env) envl raw = Inl e \<Longrightarrow>
   prevent_email lib eng cfg env envl raw s = Inl e"
  by (simp add: prevent_email_eq monitor_email_eq)

interpretation smtp_prevent: enforcing_log
  smtp_incidents "smtp_prevent_step lib eng cfg" incident_entry
  "email_outcome lib eng (\<lambda>n. action_word (action_for cfg n))"
  verdicts "\<lambda>v. sv_action v = BLOCK" for lib eng cfg
proof
  let ?out = "email_outcome lib eng (\<lambda>n. action_word (action_for cfg n))"
  let ?step = "smtp_prevent_step lib eng cfg"
  fix q :: email_call and s e
  obtain env envl raw where q: "q = (env, envl, raw)" by (cases q)
  have all: "(?out q = None \<longrightarrow> smtp_incidents (?step q s) = smtp_incidents s) \<and>
      (\<forall>e. ?out q = Some e \<longrightarrow> (\<exists>i. smtp_incidents (?step q s) = smtp_incidents s @ [i] \<and> incident_entry i = e)) \<and>
      (\<exists>vs. verdicts (?step q s) = verdicts s @ vs \<and> length (filter (\<lambda>v. sv_action v = BLOCK) vs) =
        (case ?out q of None \<Rightarrow> 0 | Some e \<Rightarrow> if says_block e then 1 else 0))"
  proof (cases "inspect_email lib eng (env_uuid env) envl raw")
    case (Inl x)
    then show ?thesis
      by (simp add: q smtp_prevent_step_def state_after_def prevent_email_Inl email_outcome_def)
  next
    case (Inr r)
    obtain s' v where p: "prevent_email lib eng cfg env envl raw s = Inr (r, s')"
        "verdicts s' = verdicts s @ [v]" "sv_action v = action_for cfg (match_count (ei_detection r))"
        "if match_count (ei_detection r) = 0 then smtp_incidents s' = smtp_incidents s
         else \<exists>i. smtp_incidents s' = smtp_incidents s @ [i] \<and>
           incident_entry i = (match_count (ei_detection r), action_word (sv_action v))"
      using prevent_email_incidents [OF Inr, of cfg s] by blast
    then show ?thesis using Inr
      by (auto simp: q smtp_prevent_step_def state_after_def email_outcome_def Let_def says_block_def
          action_word_block action_for_def)
  qed
  show "?out q = None \<Longrightarrow> smtp_incidents (?step q s) = smtp_incidents s" using all by blast
  show "?out q = Some e \<Longrightarrow> \<exists>i. smtp_incidents (?step q s) = smtp_incidents s @ [i] \<and> incident_entry i = e"
    using all by blast
  show "\<exists>vs. verdicts (?step q s) = verdicts s @ vs \<and> length (filter (\<lambda>v. sv_action v = BLOCK) vs) =
      (case ?out q of None \<Rightarrow> 0 | Some e \<Rightarrow> if says_block e then 1 else 0)" using all by blast
qed

section \<open>Properties\<close>

definition no_mail :: smtp_prevent_state where
  "no_mail = \<lparr>smtp_incidents = [], smtp_log = [], verdicts = []\<rparr>"

text \<open>A parser for mails of one body, an analyzer that reports a secret in it, and a call.\<close>

definition plain_mail :: mail_lib where
  "plain_mail = \<lparr>parse_mail = (\<lambda>raw. Inr \<lparr>ml_headers = [(''Subject'', ''hi'')], ml_content_type = ''text/plain'',
       ml_payload = Some raw, ml_parts = None\<rparr>),
     mail_decode = (\<lambda>b. Inr (map (\<lambda>w. char_of (unat w)) b))\<rparr>"

definition mail_env :: call_env where
  "mail_env = \<lparr>env_now = ''2024'', env_uuid = ''id'', env_log_ok = True\<rparr>"

definition some_envelope :: email_envelope where
  "some_envelope = \<lparr>mail_from = ''a@x'', rcpt_tos = [''b@y''], peer = (''10.0.0.1'', 25)\<rparr>"

definition default_config :: smtp_config where
  "default_config = \<lparr>smtp_block_threshold = 5, modify_threshold = 1,
     quarantine_address = ''quarantine@dlp.local'', default_action = MODIFY\<rparr>"

definition secret_inspection :: email_inspection where
  "secret_inspection = \<lparr>ei_envelope = some_envelope, ei_subject = ''hi'',
     ei_detection = detect [mail_probe ''a'' ''secret''] (fst (parse_email plain_mail ''id'' some_envelope
       \<lparr>ml_headers = [(''Subject'', ''hi'')], ml_content_type = ''text/plain'',
        ml_payload = Some (utf8 ''secret''), ml_parts = None\<rparr>)), ei_attachment_count = 0\<rparr>"

lemma secret_mail:
  "inspect_email plain_mail [mail_probe ''a'' ''secret''] (env_uuid mail_env) some_envelope (utf8 ''secret'') =
     Inr secret_inspection"
  by (simp add: inspect_email_def plain_mail_def mail_env_def secret_inspection_def parse_email_def Let_def
      get_header_def case_prod_unfold)

lemma secret_count: "match_count (ei_detection secret_inspection) = 1"
  by code_simp

lemma secret_action: "action_for default_config (match_count (ei_detection secret_inspection)) = MODIFY"
  by code_simp

lemma secret_subject: "ei_subject secret_inspection = ''hi''"
  by (simp add: secret_inspection_def)

text \<open>
  After any sequence of mails the prevent mode's incidents are, in order, one for each mail in
  which something was found, with its number of matches and the action taken for that number;
  and as many verdicts block as incidents say so.
\<close>

theorem smtp_enforcement_audited:
  "map incident_entry (smtp_incidents (fold (smtp_prevent_step lib eng cfg) qs no_mail)) =
     List.map_filter (email_outcome lib eng (\<lambda>n. action_word (action_for cfg n))) qs \<and>
   length (filter (\<lambda>v. sv_action v = BLOCK) (verdicts (fold (smtp_prevent_step lib eng cfg) qs no_mail))) =
     length (filter (\<lambda>i. inc_action i = ''block'')
       (smtp_incidents (fold (smtp_prevent_step lib eng cfg) qs no_mail)))"
  using smtp_prevent.run_entries [of lib eng cfg qs no_mail]
    smtp_prevent.run_audited [of no_mail lib eng cfg qs]
  by (simp add: no_mail_def says_block_def incident_entry_def)

lemma handle_data_eq:
  assumes "inspect_email lib eng (env_uuid env) envl raw = Inr r"
  shows "\<exists>s'. handle_data lib eng env ok envl raw (SmtpPrevent cfg s) =
    Inr (case action_for cfg (match_count (ei_detection r)) of
           BLOCK \<Rightarrow> (''550 5.7.1 Message rejected: DLP policy violation'', [], SmtpPrevent cfg s')
         | REDIRECT \<Rightarrow> (''250 OK (redirected to quarantine)'',
             forward ok (mail_from envl)
               (if quarantine_address cfg = [] then [] else [quarantine_address cfg]) raw, SmtpPrevent cfg s')
         | _ \<Rightarrow> (''250 OK'', forward ok (mail_from envl) (rcpt_tos envl) raw, SmtpPrevent cfg s')) \<and>
    verdicts s' \<noteq> [] \<and>
    last (verdicts s') = fst (apply_action cfg (action_for cfg (match_count (ei_detection r))) r s')"
proof -
  obtain s' v where p: "prevent_email lib eng cfg env envl raw s = Inr (r, s')"
      "verdicts s' = verdicts s @ [v]" "sv_action v = action_for cfg (match_count (ei_detection r))"
      "v = fst (apply_action cfg (sv_action v) r s')"
    using prevent_email_incidents [OF assms, of cfg s] by blast
  have "nat_str 550 = ''550''" by code_simp
  then show ?thesis using p
    by (intro exI [of _ s'], cases "sv_action v")
      (auto simp: Let_def get_reject_response_def get_redirect_recipients_def new_verdict_def)
qed

text \<open>
  What the relay does with a mail in prevent mode: with no match, or fewer than every threshold,
  it is forwarded as it came; from the block threshold on it is refused with a 550 and nothing
  is forwarded; a redirected mail goes to the quarantine address only.
\<close>

theorem relay_decision:
  assumes "inspect_email lib eng (env_uuid env) envl raw = Inr r" and "quarantine_address cfg \<noteq> []"
  shows "\<exists>s'. handle_data lib eng env ok envl raw (SmtpPrevent cfg s) =
    Inr (case action_for cfg (match_count (ei_detection r)) of
           BLOCK \<Rightarrow> (''550 5.7.1 Message rejected: DLP policy violation'', [], SmtpPrevent cfg s')
         | REDIRECT \<Rightarrow> (''250 OK (redirected to quarantine)'',
             forward ok (mail_from envl) [quarantine_address cfg] raw, SmtpPrevent cfg s')
         | _ \<Rightarrow> (''250 OK'', forward ok (mail_from envl) (rcpt_tos envl) raw, SmtpPrevent cfg s'))"
  using handle_data_eq [OF assms(1), of ok cfg s] assms(2) by (auto split: smtp_action.splits)

theorem relay_decision_witness:
  "\<exists>s'. handle_data plain_mail [mail_probe ''a'' ''secret''] mail_env True some_envelope (utf8 ''secret'')
     (SmtpPrevent (default_config\<lparr>default_action := REDIRECT\<rparr>) no_mail) =
   Inr (''250 OK (redirected to quarantine)'', [\<lparr>dl_from = ''a@x'', dl_rcpts = [''quarantine@dlp.local''],
     dl_data = utf8 ''secret''\<rparr>], s')"
proof -
  let ?cfg = "default_config\<lparr>default_action := REDIRECT\<rparr>"
  have q: "quarantine_address ?cfg \<noteq> []"
    and a: "action_for ?cfg (match_count (ei_detection secret_inspection)) = REDIRECT"
    and e: "mail_from some_envelope = ''a@x''" "quarantine_address ?cfg = ''quarantine@dlp.local''" by code_simp+
  from relay_decision [OF secret_mail q, of True no_mail] show ?thesis
    unfolding a e smtp_action.case forward_def if_True by blast
qed

text \<open>
  The modify action has no effect on the mail: the verdict orders a changed subject and three
  headers, but what reaches the upstream server is the mail as it came, for the original
  recipients.
\<close>

theorem modified_mail_is_forwarded_unmodified:
  assumes "inspect_email lib eng (env_uuid env) envl raw = Inr r"
    and "action_for cfg (match_count (ei_detection r)) = MODIFY"
  shows "\<exists>s'. handle_data lib eng env True envl raw (SmtpPrevent cfg s) =
      Inr (''250 OK'', [\<lparr>dl_from = mail_from envl, dl_rcpts = rcpt_tos envl, dl_data = raw\<rparr>], SmtpPrevent cfg s') \<and>
    verdicts s' \<noteq> [] \<and> sv_action (last (verdicts s')) = MODIFY \<and>
    modified_subject (last (verdicts s')) = Some (''[DLP VIOLATION] '' @ ei_subject r)"
  using handle_data_eq [OF assms(1), of True cfg s] assms(2) by (auto simp: forward_def)

theorem modified_mail_is_forwarded_unmodified_witness:
  "\<exists>s'. handle_data plain_mail [mail_probe ''a'' ''secret''] mail_env True some_envelope (utf8 ''secret'')
     (SmtpPrevent default_config no_mail) =
   Inr (''250 OK'', [\<lparr>dl_from = ''a@x'', dl_rcpts = [''b@y''], dl_data = utf8 ''secret''\<rparr>],
     SmtpPrevent default_config s') \<and>
   modified_subject (last (verdicts s')) = Some ''[DLP VIOLATION] hi''"
proof -
  from modified_mail_is_forwarded_unmodified [OF secret_mail secret_action, of no_mail]
  obtain s' where h: "handle_data plain_mail [mail_probe ''a'' ''secret''] mail_env True some_envelope
      (utf8 ''secret'') (SmtpPrevent default_config no_mail) = Inr (''250 OK'',
      [\<lparr>dl_from = mail_from some_envelope, dl_rcpts = rcpt_tos some_envelope, dl_data = utf8 ''secret''\<rparr>],
      SmtpPrevent default_config s')"
    and m: "modified_subject (last (verdicts s')) = Some (''[DLP VIOLATION] '' @ ei_subject secret_inspection)"
    by blast
  show ?thesis using h m by (intro exI [of _ s'] conjI) (simp_all only: some_envelope_def secret_subject
      email_envelope.select_convs append.simps)
qed

text \<open>
  A mail that is not refused is acknowledged whether or not the upstream server takes it: when
  forwarding fails the sender is told "250 OK" and the mail is lost.
\<close>

theorem unforwarded_mail_is_acknowledged:
  assumes "inspect_email lib eng (env_uuid env) envl raw = Inr r"
    and "action_for cfg (match_count (ei_detection r)) \<noteq> BLOCK"
  shows "\<exists>reply h. handle_data lib eng env False envl raw (SmtpPrevent cfg s) = Inr (reply, [], h) \<and>
    starts_with reply ''250 OK''"
  using handle_data_eq [OF assms(1), of False cfg s] assms(2)
  by (cases "action_for cfg (match_count (ei_detection r))")
    (auto simp: forward_def starts_with_def simp del: handle_data.simps)

theorem unforwarded_mail_is_acknowledged_witness:
  "\<exists>reply h. handle_data plain_mail [mail_probe ''a'' ''secret''] mail_env False some_envelope (utf8 ''secret'')
     (SmtpPrevent default_config no_mail) = Inr (reply, [], h) \<and> starts_with reply ''250 OK''"
  by (rule unforwarded_mail_is_acknowledged [OF secret_mail]) (simp add: secret_action)

text \<open>
  The headers a modified mail would get: for a policy that stores the four values, the mail has
  exactly one subject, the new one, the three headers, and every other header it had.
\<close>

theorem apply_modifications_spec:
  assumes "store ''Subject'' (''[DLP VIOLATION] '' @ ei_subject r) = Inr subj"
    and "store ''X-DLP-Violation'' ''true'' = Inr a"
    and "store ''X-DLP-Match-Count'' (nat_str (match_count (ei_detection r))) = Inr b"
    and "store ''X-DLP-Action'' ''modify'' = Inr c"
  shows "apply_modifications store (fst (apply_action cfg MODIFY r s)) hs =
    (None, filter (\<lambda>h. lower (fst h) \<noteq> ''subject'') hs @
       [(''Subject'', subj), (''X-DLP-Violation'', a), (''X-DLP-Match-Count'', b), (''X-DLP-Action'', c)])"
proof -
  have l: "lower ''Subject'' = ''subject''" "lower ''X-DLP-Violation'' \<noteq> ''subject''"
    "lower ''X-DLP-Match-Count'' \<noteq> ''subject''" "lower ''X-DLP-Action'' \<noteq> ''subject''" by code_simp+
  have d: "(if has_header ''Subject'' hs then del_header ''Subject'' hs else hs) =
      filter (\<lambda>h. lower (fst h) \<noteq> ''subject'') hs"
    by (auto simp: has_header_def del_header_def l list_ex_iff filter_id_conv)
  have n: "\<not> has_header ''Subject'' (filter (\<lambda>h. lower (fst h) \<noteq> ''subject'') hs)"
    by (simp add: has_header_def l list_ex_iff)
  show ?thesis using assms n d l
    by (simp add: apply_modifications_def new_verdict_def seq_proc_def pure_proc_def set_header_def
        with_res_def)
qed

theorem apply_modifications_spec_witness:
  "apply_modifications (\<lambda>_. Inr) (fst (apply_action default_config MODIFY secret_inspection no_mail))
     [(''From'', ''a@x''), (''SUBJECT'', ''hi'')] =
   (None, [(''From'', ''a@x''), (''Subject'', ''[DLP VIOLATION] hi''), (''X-DLP-Violation'', ''true''),
      (''X-DLP-Match-Count'', nat_str 1), (''X-DLP-Action'', ''modify'')])"
proof -
  have "lower ''From'' \<noteq> ''subject''" "lower ''SUBJECT'' = ''subject''" by code_simp+
  then show ?thesis
    using apply_modifications_spec [of "\<lambda>_. Inr" secret_inspection _ _ _ _ default_config no_mail
        "[(''From'', ''a@x''), (''SUBJECT'', ''hi'')]"]
    by (simp add: secret_count) (simp add: secret_inspection_def)
qed

end
