(* ===== verification/RateLimiter.thy ===== *)
theory RateLimiter
  imports Complex_Main PyText
begin

text \<open>
  \<open>server/grpc_rate_limiter.py\<close>: a token bucket per agent and method, the registry of buckets
  with its periodic cleanup, and the interceptor that refuses a call. The clock is an argument:
  a call reads it up to four times. Tokens and times are rationals. The behaviour over time is
  a step relation with the clock in the state.
\<close>

section \<open>Token buckets\<close>

record token_bucket =
  tb_capacity :: rat
  refill_rate :: rat
  tokens :: rat
  last_refill :: rat

definition new_bucket :: "rat \<Rightarrow> rat \<Rightarrow> rat \<Rightarrow> token_bucket" where
  "new_bucket cap rate now = \<lparr>tb_capacity = cap, refill_rate = rate, tokens = cap, last_refill = now\<rparr>"

definition consume :: "rat \<Rightarrow> rat \<Rightarrow> token_bucket \<Rightarrow> bool \<times> token_bucket" where
  "consume n now b =
     (let elapsed = now - last_refill b;
          b' = b\<lparr>tokens := min (tb_capacity b) (tokens b + elapsed * refill_rate b), last_refill := now\<rparr>
      in if tokens b' \<ge> n then (True, b'\<lparr>tokens := tokens b' - n\<rparr>) else (False, b'))"

section \<open>The registry\<close>

text \<open>The limits are read from the environment when the module is loaded.\<close>

record limits =
  method_limits :: "(string \<times> int) list"
  default_limit :: int

definition env_int :: "(string \<times> string) list \<Rightarrow> string \<Rightarrow> string \<Rightarrow> int res" where
  "env_int environ key dflt =
     (case py_int (dict_get environ key dflt) of
        Some n \<Rightarrow> Inr n
      | None \<Rightarrow> Inl (Exn ValueError
          (''invalid literal for int() with base 10: '' @ repr_str (dict_get environ key dflt))))"

definition service_method :: "string \<Rightarrow> string" where
  "service_method m = ''/akesodlp.AkesoDLPService/'' @ m"

definition load_limits :: "(string \<times> string) list \<Rightarrow> limits res" where
  "load_limits environ =
     rbind (env_int environ ''DLP_GRPC_RATE_HEARTBEAT'' ''60'') (\<lambda>heartbeat.
     rbind (env_int environ ''DLP_GRPC_RATE_DETECT'' ''120'') (\<lambda>detect.
     rbind (env_int environ ''DLP_GRPC_RATE_INCIDENT'' ''60'') (\<lambda>incident.
     rbind (env_int environ ''DLP_GRPC_RATE_DEFAULT'' ''120'') (\<lambda>dflt.
       Inr \<lparr>method_limits =
              [(service_method ''Heartbeat'', heartbeat), (service_method ''DetectContent'', detect),
               (service_method ''ReportIncident'', incident),
               (service_method ''ReportDiscoverResults'', incident)],
            default_limit = dflt\<rparr>))))"

definition rpm_of :: "limits \<Rightarrow> string \<Rightarrow> int" where
  "rpm_of cfg meth = dict_get (method_limits cfg) meth (default_limit cfg)"

type_synonym bucket_key = "string \<times> string"

record registry =
  reg_buckets :: "(bucket_key \<times> token_bucket) list"
  last_cleanup :: rat

definition cleanup_interval :: rat where "cleanup_interval = 300"

definition new_registry :: "rat \<Rightarrow> registry" where
  "new_registry now = \<lparr>reg_buckets = [], last_cleanup = now\<rparr>"

record clock_reads =
  at_create :: rat
  at_consume :: rat
  at_check :: rat
  at_cleanup :: rat

definition get_or_create :: "limits \<Rightarrow> rat \<Rightarrow> bucket_key \<Rightarrow> string \<Rightarrow> registry \<Rightarrow> token_bucket \<times> registry" where
  "get_or_create cfg now key meth reg =
     (case map_of (reg_buckets reg) key of
        Some b \<Rightarrow> (b, reg)
      | None \<Rightarrow>
          (let rpm = rpm_of cfg meth; b = new_bucket (of_int rpm) (of_int rpm / 60) now
           in (b, reg\<lparr>reg_buckets := dict_set (reg_buckets reg) key b\<rparr>)))"

definition cleanup :: "rat \<Rightarrow> registry \<Rightarrow> registry" where
  "cleanup now reg =
     reg\<lparr>last_cleanup := now,
         reg_buckets := filter (\<lambda>(k, b). \<not> tokens b \<ge> tb_capacity b - 1 / 10) (reg_buckets reg)\<rparr>"

definition allow :: "limits \<Rightarrow> clock_reads \<Rightarrow> string \<Rightarrow> string \<Rightarrow> registry \<Rightarrow> bool \<times> registry" where
  "allow cfg clock agent_id meth reg =
     (let key = (agent_id, meth);
          (bucket, reg1) = get_or_create cfg (at_create clock) key meth reg;
          (allowed, bucket') = consume 1 (at_consume clock) bucket;
          reg2 = reg1\<lparr>reg_buckets := dict_set (reg_buckets reg1) key bucket'\<rparr>
      in (allowed,
          if at_check clock - last_cleanup reg2 > cleanup_interval
          then cleanup (at_cleanup clock) reg2 else reg2))"

section \<open>The interceptor\<close>

text \<open>A handler by its kind; \<open>None\<close> is a method the server does not have.\<close>

datatype 'h rpc_handler = UnaryUnary 'h | UnaryStream 'h | OtherHandler 'h

definition agent_of :: "string option \<Rightarrow> string" where
  "agent_of agent_field =
     (case agent_field of None \<Rightarrow> ''anonymous'' | Some a \<Rightarrow> if a = [] then ''anonymous'' else a)"

type_synonym 'r rpc = "string option \<Rightarrow> registry \<Rightarrow> 'r res \<times> registry"

text \<open>
  The wrapper around a handler: \<open>context.abort\<close> raises, so the handler does not run.
\<close>

definition rate_limited :: "limits \<Rightarrow> clock_reads \<Rightarrow> string \<Rightarrow> 'r rpc \<Rightarrow> 'r rpc" where
  "rate_limited cfg clock meth original = (\<lambda>request reg.
     (let (allowed, reg') = allow cfg clock (agent_of request) meth reg in
      if \<not> allowed
      then (Inl (Exn (OtherError ''AbortError'')
              (''Rate limit exceeded for '' @ last (split_on CHR ''/'' meth) @ ''. Try again shortly.'')), reg')
      else original request reg'))"

definition intercept_service ::
  "limits \<Rightarrow> clock_reads \<Rightarrow> string \<Rightarrow> 'r rpc rpc_handler option \<Rightarrow> 'r rpc rpc_handler option" where
  "intercept_service cfg clock meth handler =
     (case handler of
        None \<Rightarrow> None
      | Some h \<Rightarrow>
          if ends_with meth ''/Register'' then Some h
          else (case h of
                  UnaryUnary f \<Rightarrow> Some (UnaryUnary (rate_limited cfg clock meth f))
                | UnaryStream f \<Rightarrow> Some (UnaryStream (rate_limited cfg clock meth f))
                | OtherHandler f \<Rightarrow> Some (OtherHandler f)))"

section \<open>Behaviour over time\<close>

text \<open>
  A step of the registry is one call of \<open>allow\<close>; the clock does not run backwards. A label says
  which bucket was asked and whether the call was admitted.
\<close>

type_synonym rl_label = "bucket_key \<times> bool"

inductive rl_step :: "limits \<Rightarrow> rat \<times> registry \<Rightarrow> rl_label \<Rightarrow> rat \<times> registry \<Rightarrow> bool" for cfg where
  rl_call: "now \<le> at_create c \<Longrightarrow> at_create c \<le> at_consume c \<Longrightarrow> at_consume c \<le> at_check c \<Longrightarrow>
    at_check c \<le> at_cleanup c \<Longrightarrow> allow cfg c agent meth reg = (ok, reg') \<Longrightarrow>
    rl_step cfg (now, reg) ((agent, meth), ok) (at_cleanup c, reg')"

inductive rl_run :: "limits \<Rightarrow> rat \<times> registry \<Rightarrow> rl_label list \<Rightarrow> rat \<times> registry \<Rightarrow> bool" for cfg where
  rl_refl: "rl_run cfg s [] s"
| rl_trans: "rl_step cfg s l t \<Longrightarrow> rl_run cfg t ls u \<Longrightarrow> rl_run cfg s (l # ls) u"

inductive_cases rl_stepE: "rl_step cfg s l t"

text \<open>What every reachable registry satisfies, when no limit is below two calls a minute.\<close>

definition limits_ok :: "limits \<Rightarrow> bool" where
  "limits_ok cfg \<longleftrightarrow> default_limit cfg \<ge> 2 \<and> list_all (\<lambda>p. snd p \<ge> 2) (method_limits cfg)"

definition bucket_ok :: "limits \<Rightarrow> rat \<Rightarrow> bucket_key \<Rightarrow> token_bucket \<Rightarrow> bool" where
  "bucket_ok cfg now key b \<longleftrightarrow>
     tb_capacity b = of_int (rpm_of cfg (snd key)) \<and> refill_rate b = of_int (rpm_of cfg (snd key)) / 60 \<and>
     0 \<le> tokens b \<and> tokens b \<le> tb_capacity b - 1 \<and> last_refill b \<le> now"

definition registry_ok :: "limits \<Rightarrow> rat \<times> registry \<Rightarrow> bool" where
  "registry_ok cfg s \<longleftrightarrow>
     distinct (map fst (reg_buckets (snd s))) \<and>
     (\<forall>(k, b) \<in> set (reg_buckets (snd s)). bucket_ok cfg (fst s) k b)"

text \<open>The tokens a key could use at the time of the state.\<close>

definition available :: "limits \<Rightarrow> bucket_key \<Rightarrow> rat \<times> registry \<Rightarrow> rat" where
  "available cfg key s =
     (case map_of (reg_buckets (snd s)) key of
        None \<Rightarrow> of_int (rpm_of cfg (snd key))
      | Some b \<Rightarrow> min (of_int (rpm_of cfg (snd key)))
                     (tokens b + (fst s - last_refill b) * (of_int (rpm_of cfg (snd key)) / 60)))"

lemma rpm_ge: "limits_ok cfg \<Longrightarrow> rpm_of cfg meth \<ge> 2"
  by (auto simp: limits_ok_def rpm_of_def dict_get_def list_all_iff split: option.split dest!: map_of_SomeD)

lemma consume_facts:
  assumes "last_refill b \<le> now" "0 \<le> refill_rate b" "0 \<le> tokens b" "tokens b \<le> tb_capacity b"
    "2 \<le> tb_capacity b" "consume 1 now b = (ok, b')"
  shows "tb_capacity b' = tb_capacity b \<and> refill_rate b' = refill_rate b \<and> last_refill b' = now \<and>
    0 \<le> tokens b' \<and> tokens b' \<le> tb_capacity b - 1 \<and>
    tokens b' = min (tb_capacity b) (tokens b + (now - last_refill b) * refill_rate b) - (if ok then 1 else 0) \<and>
    (ok \<longleftrightarrow> tokens b + (now - last_refill b) * refill_rate b \<ge> 1)"
proof -
  have "0 \<le> (now - last_refill b) * refill_rate b" using assms(1,2) by simp
  then show ?thesis using assms(3-6) by (auto simp: consume_def Let_def min_def split: if_splits)
qed

text \<open>With every bucket below its capacity by one, the cleanup finds nothing to remove.\<close>

lemma cleanup_ok:
  "registry_ok cfg (now, reg) \<Longrightarrow> cleanup t reg = reg\<lparr>last_cleanup := t\<rparr>"
proof -
  assume ok: "registry_ok cfg (now, reg)"
  have "filter (\<lambda>(k, b). \<not> tokens b \<ge> tb_capacity b - 1 / 10) (reg_buckets reg) = reg_buckets reg"
    using ok by (auto simp: registry_ok_def bucket_ok_def filter_id_conv)
  then show ?thesis by (simp add: cleanup_def)
qed

lemma registry_ok_later:
  "registry_ok cfg (now, reg) \<Longrightarrow> now \<le> t \<Longrightarrow> registry_ok cfg (t, reg\<lparr>last_cleanup := c\<rparr>)"
  "registry_ok cfg (now, reg) \<Longrightarrow> now \<le> t \<Longrightarrow> registry_ok cfg (t, reg)"
  by (force simp: registry_ok_def bucket_ok_def)+

text \<open>A call replaces the bucket of its key and leaves the others.\<close>

lemma allow_spec:
  assumes wf: "limits_ok cfg" "registry_ok cfg (now, reg)"
    and t: "now \<le> at_create c" "at_create c \<le> at_consume c" "at_consume c \<le> at_check c" "at_check c \<le> at_cleanup c"
    and call: "allow cfg c agent meth reg = (ok, reg')"
  shows "\<exists>b b'. consume 1 (at_consume c) b = (ok, b') \<and>
    (map_of (reg_buckets reg) (agent, meth) = Some b \<or>
     map_of (reg_buckets reg) (agent, meth) = None \<and>
       b = new_bucket (of_int (rpm_of cfg meth)) (of_int (rpm_of cfg meth) / 60) (at_create c)) \<and>
    reg_buckets reg' = dict_set (if map_of (reg_buckets reg) (agent, meth) = None
        then dict_set (reg_buckets reg) (agent, meth) b else reg_buckets reg) (agent, meth) b' \<and>
    registry_ok cfg (at_cleanup c, reg')"
proof -
  let ?key = "(agent, meth)"
  obtain b reg1 where g: "get_or_create cfg (at_create c) ?key meth reg = (b, reg1)" by fastforce
  obtain ok' b' where k: "consume 1 (at_consume c) b = (ok', b')" by fastforce
  define reg2 where "reg2 = reg1\<lparr>reg_buckets := dict_set (reg_buckets reg1) ?key b'\<rparr>"
  have b: "map_of (reg_buckets reg) ?key = Some b \<and> reg1 = reg \<or>
      map_of (reg_buckets reg) ?key = None \<and>
        b = new_bucket (of_int (rpm_of cfg meth)) (of_int (rpm_of cfg meth) / 60) (at_create c) \<and>
        reg1 = reg\<lparr>reg_buckets := dict_set (reg_buckets reg) ?key b\<rparr>"
    using g by (auto simp: get_or_create_def Let_def split: option.splits)
  have rpm: "rpm_of cfg meth \<ge> 2" using wf(1) by (rule rpm_ge)
  have later: "bucket_ok cfg now k x \<Longrightarrow> bucket_ok cfg (at_consume c) k x" for k x
    using t(1,2) by (simp add: bucket_ok_def)
  have old: "tb_capacity b = of_int (rpm_of cfg meth) \<and> refill_rate b = of_int (rpm_of cfg meth) / 60 \<and>
      0 \<le> tokens b \<and> tokens b \<le> tb_capacity b \<and> last_refill b \<le> at_consume c"
  proof (cases "map_of (reg_buckets reg) ?key")
    case None
    then show ?thesis using b rpm t(2) by (simp add: new_bucket_def)
  next
    case (Some x)
    then have "bucket_ok cfg now ?key b" using b wf(2) by (auto simp: registry_ok_def dest: map_of_SomeD)
    from later [OF this] show ?thesis by (simp add: bucket_ok_def)
  qed
  have new: "bucket_ok cfg (at_consume c) ?key b'"
    using consume_facts [of b "at_consume c" ok' b'] old k rpm by (simp add: bucket_ok_def)
  have d: "distinct (map fst (reg_buckets reg1))" using b wf(2) by (auto simp: registry_ok_def)
  have "bucket_ok cfg now k x" if "(k, x) \<in> set (reg_buckets reg1)" "k \<noteq> ?key" for k x
    using that b wf(2) by (auto simp: registry_ok_def dict_set_in_set)
  then have "bucket_ok cfg (at_consume c) k x" if "(k, x) \<in> set (reg_buckets reg2)" for k x
    using that d new later by (cases "k = ?key") (auto simp: reg2_def dict_set_in_set)
  then have "registry_ok cfg (at_consume c, reg2)"
    using d by (auto simp: registry_ok_def reg2_def)
  moreover have "allow cfg c agent meth reg =
      (ok', if at_check c - last_cleanup reg2 > cleanup_interval then cleanup (at_cleanup c) reg2 else reg2)"
    using g k by (simp add: allow_def Let_def reg2_def)
  ultimately have r: "ok' = ok" "reg_buckets reg' = reg_buckets reg2" "registry_ok cfg (at_cleanup c, reg')"
    using call t(3,4) cleanup_ok [of cfg "at_consume c" reg2 "at_cleanup c"]
    by (auto simp: registry_ok_later split: if_splits)
  show ?thesis using b k r by (intro exI [of _ b] exI [of _ b']) (auto simp: reg2_def)
qed

lemma fst_consume: "fst (consume n now b) \<longleftrightarrow>
    n \<le> min (tb_capacity b) (tokens b + (now - last_refill b) * refill_rate b)"
  by (simp add: consume_def Let_def)

lemma wait_split: "(t2 - t1) * rho + (t1 - t0) * rho = (t2 - t0) * (rho :: rat)"
  by (simp add: algebra_simps)

text \<open>A bucket fills no faster than its rate.\<close>

lemma fill_later:
  fixes x t t' l rho cap :: rat
  assumes "t \<le> t'" "0 \<le> rho"
  shows "min cap (x + (t' - l) * rho) \<le> min cap (x + (t - l) * rho) + (t' - t) * rho"
proof -
  have "x + (t' - l) * rho = (x + (t - l) * rho) + (t' - t) * rho" by (simp add: algebra_simps)
  moreover have "0 \<le> (t' - t) * rho" using assms by simp
  ultimately show ?thesis by (simp add: min_def)
qed

text \<open>A step keeps the registry well formed, and the tokens of a key are only gained by waiting.\<close>

lemma rl_step_spec:
  assumes "limits_ok cfg" "registry_ok cfg s" "rl_step cfg s (key, ok) s'"
  shows "registry_ok cfg s' \<and> fst s \<le> fst s' \<and>
    (\<forall>k. k \<noteq> key \<longrightarrow> map_of (reg_buckets (snd s')) k = map_of (reg_buckets (snd s)) k)"
  using assms(3)
proof (cases rule: rl_step.cases)
  case (rl_call now c agent meth reg reg')
  from allow_spec [OF assms(1) _ rl_call(4-8)] assms(2) rl_call(1)
  obtain b b' where
    "reg_buckets reg' = dict_set (if map_of (reg_buckets reg) (agent, meth) = None
        then dict_set (reg_buckets reg) (agent, meth) b else reg_buckets reg) (agent, meth) b'"
    "registry_ok cfg (at_cleanup c, reg')" by blast
  then show ?thesis using rl_call by (auto simp: fun_eq_iff)
qed

lemma available_later:
  assumes "limits_ok cfg" "t \<le> t'"
  shows "available cfg k (t', reg) \<le> available cfg k (t, reg) + (t' - t) * (of_int (rpm_of cfg (snd k)) / 60)"
proof -
  have r: "(of_int (rpm_of cfg (snd k)) / 60 :: rat) \<ge> 0" using rpm_ge [OF assms(1), of "snd k"] by simp
  then have "(t' - t) * (of_int (rpm_of cfg (snd k)) / 60) \<ge> 0" using assms(2) by simp
  then show ?thesis using fill_later [OF assms(2) r] by (simp add: available_def split: option.split)
qed

lemma available_step:
  assumes ok: "limits_ok cfg" "registry_ok cfg s" and step: "rl_step cfg s (key, adm) s'"
  shows "available cfg k s' \<le> available cfg k s + (fst s' - fst s) * (of_int (rpm_of cfg (snd k)) / 60) -
    (if k = key \<and> adm then 1 else 0)"
  using step
proof (cases rule: rl_step.cases)
  case (rl_call now c agent meth reg reg')
  let ?r = "of_int (rpm_of cfg (snd k)) :: rat"
  have r: "?r \<ge> 2" using rpm_ge [OF ok(1), of "snd k"] by simp
  from allow_spec [OF ok(1) _ rl_call(4-8)] ok(2) rl_call(1)
  obtain b b' where b: "consume 1 (at_consume c) b = (adm, b')"
    "map_of (reg_buckets reg) (agent, meth) = Some b \<or>
     map_of (reg_buckets reg) (agent, meth) = None \<and>
       b = new_bucket (of_int (rpm_of cfg meth)) (of_int (rpm_of cfg meth) / 60) (at_create c)"
    "reg_buckets reg' = dict_set (if map_of (reg_buckets reg) (agent, meth) = None
        then dict_set (reg_buckets reg) (agent, meth) b else reg_buckets reg) (agent, meth) b'" by blast
  have t: "now \<le> at_consume c" "at_consume c \<le> at_cleanup c" using rl_call by linarith+
  show ?thesis
  proof (cases "k = key")
    case False
    then have "map_of (reg_buckets reg') k = map_of (reg_buckets reg) k"
      using b(3) rl_call(2) by (auto simp: fun_eq_iff)
    then have "available cfg k (at_cleanup c, reg') = available cfg k (at_cleanup c, reg)"
      unfolding available_def fst_conv snd_conv by (rule arg_cong)
    moreover have "now \<le> at_cleanup c" using t by linarith
    ultimately show ?thesis using False rl_call available_later [OF ok(1), of now "at_cleanup c" k reg] by simp
  next
    case True
    then have k: "k = (agent, meth)" using rl_call(2) by simp
    have bk: "tb_capacity b = ?r" "refill_rate b = ?r / 60" "0 \<le> tokens b" "tokens b \<le> ?r"
        "last_refill b \<le> at_consume c"
      using b(2) ok(2) rl_call k r
      by (fastforce simp: registry_ok_def bucket_ok_def new_bucket_def dest: map_of_SomeD)+
    have b': "tokens b' = min ?r (tokens b + (at_consume c - last_refill b) * (?r / 60)) - (if adm then 1 else 0)"
      "last_refill b' = at_consume c"
      using consume_facts [of b "at_consume c" adm b'] b(1) r bk by simp_all
    have "available cfg k (at_consume c, reg) = min ?r (tokens b + (at_consume c - last_refill b) * (?r / 60))"
    proof (cases "map_of (reg_buckets reg) (agent, meth)")
      case None
      then have "b = new_bucket ?r (?r / 60) (at_create c)" using b(2) k by simp
      moreover have "0 \<le> (at_consume c - at_create c) * (?r / 60)" using rl_call r by simp
      ultimately show ?thesis using None k by (simp add: available_def new_bucket_def)
    next
      case (Some x)
      then show ?thesis using b(2) k by (simp add: available_def)
    qed
    moreover have "available cfg k (at_consume c, reg') = min ?r (tokens b')"
      using b(3) b' k by (simp add: available_def)
    moreover have "tokens b' \<le> ?r" using b' by (simp split: if_splits)
    ultimately have "available cfg k (at_consume c, reg') = available cfg k (at_consume c, reg) - (if adm then 1 else 0)"
      using b' by simp
    moreover note available_later [OF ok(1) t(1), of k reg] available_later [OF ok(1) t(2), of k reg']
    moreover note wait_split [of "at_cleanup c" "at_consume c" "?r / 60" now]
    ultimately show ?thesis using True rl_call by simp
  qed
qed

lemma rl_run_ok:
  "rl_run cfg s tr s' \<Longrightarrow> limits_ok cfg \<Longrightarrow> registry_ok cfg s \<Longrightarrow> registry_ok cfg s' \<and> fst s \<le> fst s'"
proof (induction rule: rl_run.induct)
  case (rl_trans s l t ls u)
  obtain key ok where "l = (key, ok)" by (cases l)
  then show ?case using rl_trans rl_step_spec [of cfg s key ok t] by auto
qed simp

lemma rl_run_available:
  "rl_run cfg s tr s' \<Longrightarrow> limits_ok cfg \<Longrightarrow> registry_ok cfg s \<Longrightarrow>
   available cfg k s' + of_nat (length (filter (\<lambda>l. l = (k, True)) tr)) \<le>
     available cfg k s + (fst s' - fst s) * (of_int (rpm_of cfg (snd k)) / 60)"
proof (induction rule: rl_run.induct)
  case (rl_trans s l t ls u)
  obtain key ok where l: "l = (key, ok)" by (cases l)
  note * = available_step [OF rl_trans.prems, of key ok t k] rl_step_spec [OF rl_trans.prems, of key ok t]
  note wait_split [of "fst u" "fst t" "of_int (rpm_of cfg (snd k)) / 60" "fst s"]
  moreover have "(l = (k, True)) = (k = key \<and> ok)" using l by auto
  ultimately show ?case using * rl_trans.IH rl_trans.hyps(1) rl_trans.prems(1) l by auto
qed simp

lemma new_registry_ok: "registry_ok cfg (t, new_registry t)"
  by (simp add: registry_ok_def new_registry_def)

lemma available_bounds:
  assumes "limits_ok cfg" "registry_ok cfg s"
  shows "0 \<le> available cfg k s \<and> available cfg k s \<le> of_int (rpm_of cfg (snd k))"
proof (cases "map_of (reg_buckets (snd s)) k")
  case None
  then show ?thesis using rpm_ge [OF assms(1), of "snd k"] by (simp add: available_def)
next
  case (Some b)
  then have "bucket_ok cfg (fst s) k b" using assms(2) by (auto simp: registry_ok_def dest: map_of_SomeD)
  then show ?thesis using Some rpm_ge [OF assms(1), of "snd k"] by (simp add: available_def bucket_ok_def)
qed

text \<open>The limits without environment variables, and one call a second after the start.\<close>

definition default_limits :: limits where
  "default_limits = \<lparr>method_limits =
     [(service_method ''Heartbeat'', 60), (service_method ''DetectContent'', 120),
      (service_method ''ReportIncident'', 60), (service_method ''ReportDiscoverResults'', 60)],
     default_limit = 120\<rparr>"

lemma load_default_limits: "load_limits [] = Inr default_limits"
  by code_simp

lemma default_limits_ok: "limits_ok default_limits"
  by code_simp

definition first_second :: clock_reads where
  "first_second = \<lparr>at_create = 1, at_consume = 1, at_check = 1, at_cleanup = 1\<rparr>"

lemma first_call:
  "rl_run default_limits (0, new_registry 0) [((''a'', ''m''), True)]
     (1, snd (allow default_limits first_second ''a'' ''m'' (new_registry 0)))"
proof -
  have "fst (allow default_limits first_second ''a'' ''m'' (new_registry 0))" by code_simp
  then have "allow default_limits first_second ''a'' ''m'' (new_registry 0) =
      (True, snd (allow default_limits first_second ''a'' ''m'' (new_registry 0)))"
    by (simp add: prod_eq_iff)
  from rl_step.intros [OF _ _ _ _ this, of 0] show ?thesis
    by (intro rl_trans [OF _ rl_refl]) (simp add: first_second_def)
qed

section \<open>Properties\<close>

text \<open>
  C13: The limit holds over any window of any run: between two states of the registry, the calls
  admitted for one agent and method are at most the limit, the burst the bucket allows, plus
  the limit's share of the time between the two states.
\<close>

theorem rate_limit_holds:
  assumes "limits_ok cfg"
    and "rl_run cfg (start, new_registry start) before (now, reg)"
    and "rl_run cfg (now, reg) window (now', reg')"
  shows "of_nat (length (filter (\<lambda>l. l = ((agent, meth), True)) window)) \<le>
    of_int (rpm_of cfg meth) * (1 + (now' - now) / 60)"
proof -
  have ok: "registry_ok cfg (now, reg)" using rl_run_ok [OF assms(2,1) new_registry_ok] by simp
  have ok': "registry_ok cfg (now', reg')" using rl_run_ok [OF assms(3,1) ok] by simp
  have "of_int (rpm_of cfg meth) * (1 + (now' - now) / 60) =
      of_int (rpm_of cfg meth) + (now' - now) * (of_int (rpm_of cfg meth) / 60 :: rat)"
    by (simp add: algebra_simps)
  then show ?thesis
    using rl_run_available [OF assms(3,1) ok, of "(agent, meth)"]
      available_bounds [OF assms(1) ok, of "(agent, meth)"] available_bounds [OF assms(1) ok', of "(agent, meth)"]
    by simp
qed

theorem rate_limit_holds_witness:
  "(of_nat (length (filter (\<lambda>l. l = ((''a'', ''m''), True)) [((''a'', ''m''), True)])) :: rat) \<le>
     of_int (rpm_of default_limits ''m'') * (1 + (1 - 0) / 60)"
  by (rule rate_limit_holds [OF default_limits_ok rl_refl first_call])

text \<open>
  C38: No agent is locked out: whatever was asked before, a call that comes at least 60 / limit
  seconds after the last one is admitted.
\<close>

theorem call_admitted_after_pause:
  assumes "limits_ok cfg"
    and "rl_run cfg (start, new_registry start) before (now, reg)"
    and "now \<le> at_create c" and "at_create c \<le> at_consume c"
    and "at_consume c \<ge> now + 60 / of_int (rpm_of cfg meth)"
  shows "fst (allow cfg c agent meth reg)"
proof -
  let ?r = "of_int (rpm_of cfg meth) :: rat"
  have r: "?r \<ge> 2" using rpm_ge [OF assms(1), of meth] by simp
  have ok: "registry_ok cfg (now, reg)" using rl_run_ok [OF assms(2,1) new_registry_ok] by simp
  obtain b where b: "fst (allow cfg c agent meth reg) = fst (consume 1 (at_consume c) b)"
    "map_of (reg_buckets reg) (agent, meth) = Some b \<or>
       b = new_bucket ?r (?r / 60) (at_create c)"
    by (cases "map_of (reg_buckets reg) (agent, meth)")
      (auto simp: allow_def get_or_create_def Let_def case_prod_unfold)
  show ?thesis
  proof (cases "map_of (reg_buckets reg) (agent, meth) = Some b")
    case False
    moreover have "0 \<le> (at_consume c - at_create c) * (?r / 60)" using r assms(4) by simp
    ultimately show ?thesis using b r by (simp add: new_bucket_def fst_consume)
  next
    case True
    then have "bucket_ok cfg now (agent, meth) b" using ok by (auto simp: registry_ok_def dest: map_of_SomeD)
    then have f: "tb_capacity b = ?r" "refill_rate b = ?r / 60" "0 \<le> tokens b" "last_refill b \<le> now"
      by (auto simp: bucket_ok_def)
    have "60 / ?r \<le> at_consume c - last_refill b" using assms(5) f(4) by simp
    then have "60 / ?r * (?r / 60) \<le> (at_consume c - last_refill b) * (?r / 60)"
      using r by (intro mult_right_mono) auto
    then have "1 \<le> (at_consume c - last_refill b) * refill_rate b" unfolding f(2) using r by simp
    then have "1 \<le> tokens b + (at_consume c - last_refill b) * refill_rate b" using f(3) by linarith
    moreover have "1 \<le> tb_capacity b" using f(1) r by linarith
    ultimately show ?thesis unfolding b(1) fst_consume by simp
  qed
qed

theorem call_admitted_after_pause_witness:
  "fst (allow default_limits first_second ''a'' ''m'' (new_registry 0))"
proof (rule call_admitted_after_pause [OF default_limits_ok rl_refl])
  show "0 \<le> at_create first_second" "at_create first_second \<le> at_consume first_second"
    by (simp_all add: first_second_def)
  show "0 + 60 / of_int (rpm_of default_limits ''m'') \<le> at_consume first_second" by code_simp
qed

text \<open>
  The cleanup of idle buckets never removes one: tokens are only counted when a call asks for
  one, and that call leaves the bucket at least one below its capacity, so no bucket is ever
  found full, however long its agent has been silent.
\<close>

theorem cleanup_never_removes:
  assumes "limits_ok cfg"
    and "rl_run cfg (start, new_registry start) tr (now, reg)"
  shows "reg_buckets (cleanup t reg) = reg_buckets reg"
  using cleanup_ok [of cfg now reg t] rl_run_ok [OF assms(2,1) new_registry_ok] by simp

theorem cleanup_never_removes_witness:
  "reg_buckets (cleanup 1000 (snd (allow default_limits first_second ''a'' ''m'' (new_registry 0)))) =
     reg_buckets (snd (allow default_limits first_second ''a'' ''m'' (new_registry 0)))"
  by (rule cleanup_never_removes [OF default_limits_ok first_call])

end
