(* ===== verification/CommandQueue.thy ===== *)
theory CommandQueue
  imports PyBase "HOL-Library.Multiset"
begin

text \<open>
  \<open>server/command_queue.py\<close>: commands wait for an agent under its id, and under a special key
  when they are for all agents, until the agent's next heartbeat drains them. The behaviour is
  specified against the history of calls: what is pending under a key is what was queued under
  it since the last call that drained it.
\<close>

section \<open>The queue\<close>

record agent_command =
  command_type :: string
  parameters :: "(string \<times> string) list"

text \<open>
  A key of the dictionary: callers pass texts and, against the annotation, UUID objects. The two
  are never equal in Python; a UUID is always true, a text when it is not empty.
\<close>

datatype agent_key = StrKey string | UuidKey nat

type_synonym command_queue = "(agent_key \<times> agent_command list) list"

definition broadcast_key :: agent_key where "broadcast_key = StrKey ''__broadcast__''"

definition target_key :: "agent_key option \<Rightarrow> agent_key" where
  "target_key agent_id =
     (case agent_id of Some a \<Rightarrow> if a \<noteq> StrKey [] then a else broadcast_key | None \<Rightarrow> broadcast_key)"

definition enqueue :: "agent_key option \<Rightarrow> agent_command \<Rightarrow> command_queue \<Rightarrow> command_queue" where
  "enqueue agent_id command q =
     dict_set q (target_key agent_id) (dict_get q (target_key agent_id) [] @ [command])"

definition drain :: "agent_key \<Rightarrow> command_queue \<Rightarrow> agent_command list \<times> command_queue" where
  "drain agent_id q =
     (let cmds = dict_get q agent_id []; q1 = dict_del q agent_id;
          broadcast = dict_get q1 broadcast_key []; q2 = dict_del q1 broadcast_key
      in (cmds @ broadcast, q2))"

section \<open>Histories\<close>

datatype cq_event = Enqueued "agent_key option" agent_command | Drained agent_key "agent_command list"

inductive cq_step :: "command_queue \<Rightarrow> cq_event \<Rightarrow> command_queue \<Rightarrow> bool" where
  cq_enqueue: "cq_step q (Enqueued target c) (enqueue target c q)"
| cq_drain: "drain agent q = (cs, q') \<Longrightarrow> cq_step q (Drained agent cs) q'"

inductive_cases cq_enqueueE: "cq_step q (Enqueued target c) q'"
inductive_cases cq_drainE: "cq_step q (Drained agent cs) q'"

text \<open>A history, the latest event first, and the queue it leads to.\<close>

inductive cq_history :: "cq_event list \<Rightarrow> command_queue \<Rightarrow> bool" where
  cq_start: "cq_history [] []"
| cq_more: "cq_history es q \<Longrightarrow> cq_step q e q' \<Longrightarrow> cq_history (e # es) q'"

text \<open>What was queued under a key since the last event that drained it, the oldest first.\<close>

fun pending :: "agent_key \<Rightarrow> cq_event list \<Rightarrow> agent_command list" where
  "pending key [] = []"
| "pending key (Enqueued target c # es) =
     (if target_key target = key then pending key es @ [c] else pending key es)"
| "pending key (Drained agent cs # es) =
     (if key = agent \<or> key = broadcast_key then [] else pending key es)"

lemma queue_is_pending: "cq_history es q \<Longrightarrow> dict_get q key [] = pending key es"
proof (induction arbitrary: key rule: cq_history.induct)
  case cq_start
  then show ?case by (simp add: dict_get_def)
next
  case (cq_more es q e q')
  from cq_more.hyps(2) show ?case
  proof (cases rule: cq_step.cases)
    case (cq_enqueue target c)
    then show ?thesis using cq_more.IH [of "target_key target"] cq_more.IH [of key]
      by (simp add: enqueue_def dict_get_def)
  next
    case (cq_drain agent cs)
    then show ?thesis using cq_more.IH [of key]
      by (auto simp: drain_def Let_def dict_get_def)
  qed
qed

lemma history_tail: "cq_history (e # es) q' \<Longrightarrow> \<exists>q. cq_history es q \<and> cq_step q e q'"
  by (auto elim: cq_history.cases)

lemma drained_pending:
  assumes "cq_history (Drained agent cs # es) q'"
  shows "cs = pending agent es @ (if agent = broadcast_key then [] else pending broadcast_key es)"
proof -
  obtain q where q: "cq_history es q" "cq_step q (Drained agent cs) q'" using history_tail [OF assms] by blast
  from q(2) have "drain agent q = (cs, q')" by (auto elim: cq_drainE)
  then show ?thesis
    using queue_is_pending [OF q(1), of agent] queue_is_pending [OF q(1), of broadcast_key]
    by (auto simp: drain_def Let_def dict_get_def)
qed

text \<open>The commands a history queued, those its heartbeats returned, and those a queue holds.\<close>

definition enqueued :: "cq_event list \<Rightarrow> agent_command list" where
  "enqueued es = concat (map (\<lambda>e. case e of Enqueued t c \<Rightarrow> [c] | Drained a cs \<Rightarrow> []) es)"

definition returned :: "cq_event list \<Rightarrow> agent_command list" where
  "returned es = concat (map (\<lambda>e. case e of Enqueued t c \<Rightarrow> [] | Drained a cs \<Rightarrow> cs) es)"

definition waiting :: "command_queue \<Rightarrow> agent_command multiset" where
  "waiting q = mset (concat (map snd q))"

lemma waiting_set:
  "distinct (map fst q) \<Longrightarrow>
   waiting (dict_set q k cs) + mset (dict_get q k []) = waiting q + mset cs"
  by (induction q k cs rule: dict_set.induct) (auto simp: waiting_def dict_get_def ac_simps)

lemma dict_del_absent: "k \<notin> fst ` set q \<Longrightarrow> dict_del q k = q"
  by (auto simp: dict_del_def filter_id_conv)

lemma waiting_del:
  "distinct (map fst q) \<Longrightarrow> waiting q = mset (dict_get q k []) + waiting (dict_del q k)"
proof (induction q)
  case (Cons p q)
  have "dict_del (p # q) k = (if fst p = k then dict_del q k else p # dict_del q k)"
    by (simp add: dict_del_def)
  then show ?case using Cons dict_del_absent [of k q]
    by (cases p) (auto simp: waiting_def dict_get_def ac_simps)
qed (simp add: waiting_def dict_get_def dict_del_def)

lemma step_conserves:
  assumes "cq_step q e q'" "distinct (map fst q)"
  shows "distinct (map fst q') \<and> waiting q' + mset (returned [e]) = waiting q + mset (enqueued [e])"
  using assms(1)
proof (cases rule: cq_step.cases)
  case (cq_enqueue target c)
  let ?k = "target_key target"
  have "waiting q' + mset (dict_get q ?k []) = waiting q + mset [c] + mset (dict_get q ?k [])"
    using waiting_set [OF assms(2), of ?k "dict_get q ?k [] @ [c]"] cq_enqueue by (simp add: enqueue_def ac_simps)
  then show ?thesis using cq_enqueue assms(2) by (auto simp: enqueue_def enqueued_def returned_def)
next
  case (cq_drain agent cs)
  then show ?thesis
    using waiting_del [OF assms(2), of agent]
      waiting_del [OF distinct_dict_del [OF assms(2)], of agent broadcast_key] assms(2)
    by (auto simp: drain_def Let_def enqueued_def returned_def ac_simps)
qed

lemma history_conserves:
  "cq_history es q \<Longrightarrow> distinct (map fst q) \<and> mset (enqueued es) = mset (returned es) + waiting q"
proof (induction rule: cq_history.induct)
  case cq_start
  then show ?case by (simp add: enqueued_def returned_def waiting_def)
next
  case (cq_more es q e q')
  have "enqueued (e # es) = enqueued [e] @ enqueued es" "returned (e # es) = returned [e] @ returned es"
    by (simp_all add: enqueued_def returned_def)
  then show ?case using step_conserves [OF cq_more.hyps(2)] cq_more.IH
    by simp (metis add.assoc add.commute)
qed

section \<open>Properties\<close>

text \<open>
  A heartbeat returns exactly the commands queued for the agent since its last heartbeat, in the
  order they were queued, followed by those for all agents that no agent has drained yet, and
  it leaves neither behind.
\<close>

theorem drain_delivers_pending:
  assumes "cq_history es q" and "agent \<noteq> broadcast_key"
  shows "fst (drain agent q) = pending agent es @ pending broadcast_key es \<and>
    cq_history (Drained agent (fst (drain agent q)) # es) (snd (drain agent q)) \<and>
    dict_get (snd (drain agent q)) agent [] = []"
proof -
  have h: "cq_history (Drained agent (fst (drain agent q)) # es) (snd (drain agent q))"
    by (rule cq_more [OF assms(1)]) (simp add: cq_drain)
  then show ?thesis using drained_pending [OF h] queue_is_pending [OF h, of agent] assms(2) by simp
qed

definition rescan :: agent_command where
  "rescan = \<lparr>command_type = ''rescan'', parameters = []\<rparr>"

lemma rescan_history:
  "cq_history [Enqueued (Some (StrKey ''a'')) rescan] (enqueue (Some (StrKey ''a'')) rescan [])"
  by (intro cq_more [OF cq_start] cq_enqueue)

theorem drain_delivers_pending_witness:
  "fst (drain (StrKey ''a'') (enqueue (Some (StrKey ''a'')) rescan [])) = [rescan]"
proof -
  have "StrKey ''a'' \<noteq> broadcast_key" "target_key (Some (StrKey ''a'')) = StrKey ''a''" by (simp_all add: broadcast_key_def target_key_def)
  with drain_delivers_pending [OF rescan_history this(1)] show ?thesis by simp
qed

text \<open>
  No command is lost or repeated: in any history, the commands queued are, as a multiset, those
  the heartbeats returned together with those still waiting.
\<close>

theorem commands_conserved:
  assumes "cq_history es q"
  shows "mset (enqueued es) = mset (returned es) + mset (concat (map snd q))"
  using history_conserves [OF assms] by (simp add: waiting_def)

theorem commands_conserved_witness:
  "mset (enqueued [Enqueued (Some (StrKey ''a'')) rescan]) = mset [] + mset (concat (map snd (enqueue (Some (StrKey ''a'')) rescan [])))"
  using commands_conserved [OF rescan_history] by (simp add: returned_def)

text \<open>
  A broadcast reaches one agent only: the first to send a heartbeat takes it, and the next agent
  gets what was queued for itself and nothing of it.
\<close>

theorem broadcast_reaches_one_agent:
  assumes "cq_history (Drained b cs2 # Drained a cs1 # Enqueued None c # es) q"
    and "a \<noteq> b" and "a \<noteq> broadcast_key" and "b \<noteq> broadcast_key"
  shows "last cs1 = c \<and> cs2 = pending b es"
proof -
  obtain q1 where "cq_history (Drained a cs1 # Enqueued None c # es) q1" using history_tail [OF assms(1)] by blast
  from drained_pending [OF this] drained_pending [OF assms(1)] assms(2-4) show ?thesis
    by (simp add: target_key_def)
qed

theorem broadcast_reaches_one_agent_witness:
  "fst (drain (StrKey ''b'') (snd (drain (StrKey ''a'') (enqueue None rescan [])))) = []"
proof -
  let ?q = "enqueue None rescan []"
  have "cq_history (Drained (StrKey ''b'') (fst (drain (StrKey ''b'') (snd (drain (StrKey ''a'') ?q)))) #
      Drained (StrKey ''a'') (fst (drain (StrKey ''a'') ?q)) # Enqueued None rescan # []) (snd (drain (StrKey ''b'') (snd (drain (StrKey ''a'') ?q))))"
    by (intro cq_more [OF cq_more [OF cq_more [OF cq_start cq_enqueue] cq_drain] cq_drain]) simp_all
  from broadcast_reaches_one_agent [OF this] show ?thesis by (simp add: broadcast_key_def)
qed

end
