(* ===== verification/DeadLetter.thy ===== *)
theory DeadLetter
  imports PyText
begin

text \<open>
  \<open>server/services/dead_letter_queue.py\<close> on the table of \<open>server/models/dead_letter.py\<close>: failed
  operations with their retry counter. The table is the list of its rows; the uuid, the
  clock and the row's creation time are arguments; a payload is given by its JSON text.
\<close>

section \<open>Entries\<close>

datatype payload =
    Original string
  | Truncated nat string

text \<open>The error is an exception, with its class name and message, or a plain string.\<close>

datatype failure = Raised string string | Message string

record dead_letter =
  dl_id :: nat
  operation_type :: string
  dl_source :: string
  request_payload :: payload
  error_message :: string
  error_type :: string
  retry_count :: nat
  max_retries :: int
  is_permanent :: bool
  is_dismissed :: bool
  last_retry_at :: "int option"
  created_at :: int

type_synonym dl_table = "dead_letter list"

definition MAX_PAYLOAD :: nat where "MAX_PAYLOAD = 1000000"

definition capped_payload :: "string \<Rightarrow> payload" where
  "capped_payload payload_str =
     (if length payload_str > MAX_PAYLOAD
      then Truncated (length payload_str) (slice payload_str 0 10000) else Original payload_str)"

fun failure_message :: "failure \<Rightarrow> string" where
  "failure_message (Raised cls msg) = msg"
| "failure_message (Message s) = s"

fun failure_type :: "failure \<Rightarrow> string" where
  "failure_type (Raised cls msg) = cls"
| "failure_type (Message s) = ''str''"

definition enqueue_failure ::
  "nat \<Rightarrow> int \<Rightarrow> string \<Rightarrow> string \<Rightarrow> string \<Rightarrow> failure \<Rightarrow> int \<Rightarrow> dl_table \<Rightarrow> dead_letter \<times> dl_table" where
  "enqueue_failure uid now op src payload_str err retries db =
     (let entry =
        \<lparr>dl_id = uid, operation_type = op, dl_source = src, request_payload = capped_payload payload_str,
         error_message = slice (failure_message err) 0 5000, error_type = slice (failure_type err) 0 200,
         retry_count = 0, max_retries = retries, is_permanent = False, is_dismissed = False,
         last_retry_at = None, created_at = now\<rparr>
      in (entry, db @ [entry]))"

section \<open>Queries\<close>

text \<open>
  \<open>list_entries\<close>: the page and the number of all entries that pass the filters. Entries of the
  same time come in table order; a negative offset is an error of the database.
\<close>

definition list_entries ::
  "string option \<Rightarrow> bool \<Rightarrow> int \<Rightarrow> int \<Rightarrow> dl_table \<Rightarrow> (dead_letter list \<times> nat) res" where
  "list_entries op include_dismissed page page_size db =
     (let by_op = (case op of None \<Rightarrow> db | Some o' \<Rightarrow> if o' = [] then db
                     else filter (\<lambda>e. operation_type e = o') db);
          rows = (if include_dismissed then by_op else filter (\<lambda>e. \<not> is_dismissed e) by_op);
          offset = (page - 1) * page_size
      in if offset < 0 \<or> page_size < 0 then Inl (Exn (OtherError ''DBAPIError'') ''OFFSET must not be negative'')
         else Inr (take (nat page_size) (drop (nat offset) (sort_key (\<lambda>e. - created_at e) rows)),
                   length rows))"

definition get_entry :: "nat \<Rightarrow> dl_table \<Rightarrow> dead_letter option" where
  "get_entry uid db = find (\<lambda>e. dl_id e = uid) db"

definition get_stats :: "dl_table \<Rightarrow> nat \<times> nat \<times> nat" where
  "get_stats db =
     (length (filter (\<lambda>e. \<not> is_dismissed e) db),
      length (filter (\<lambda>e. \<not> is_dismissed e \<and> \<not> is_permanent e) db),
      length (filter (\<lambda>e. is_permanent e \<and> \<not> is_dismissed e) db))"

section \<open>Retry and dismissal\<close>

definition update_row :: "dead_letter \<Rightarrow> dl_table \<Rightarrow> dl_table" where
  "update_row e db = map (\<lambda>r. if dl_id r = dl_id e then e else r) db"

definition retried :: "int \<Rightarrow> dead_letter \<Rightarrow> dead_letter" where
  "retried now e =
     (let e1 = e\<lparr>retry_count := retry_count e + 1, last_retry_at := Some now\<rparr>
      in if int (retry_count e1) \<ge> max_retries e1 then e1\<lparr>is_permanent := True\<rparr> else e1)"

definition retry :: "int \<Rightarrow> nat \<Rightarrow> dl_table \<Rightarrow> dead_letter option \<times> dl_table" where
  "retry now uid db =
     (case get_entry uid db of
        None \<Rightarrow> (None, db)
      | Some e \<Rightarrow>
          if is_permanent e \<or> is_dismissed e then (None, db)
          else (Some (retried now e), update_row (retried now e) db))"

definition dismiss :: "nat \<Rightarrow> dl_table \<Rightarrow> dead_letter option \<times> dl_table" where
  "dismiss uid db =
     (case get_entry uid db of
        None \<Rightarrow> (None, db)
      | Some e \<Rightarrow> (Some (e\<lparr>is_dismissed := True\<rparr>), update_row (e\<lparr>is_dismissed := True\<rparr>) db))"

section \<open>Behaviour over time\<close>

text \<open>What happens to the table; a label records the entry a retry was granted for.\<close>

datatype dl_event = Stored nat | Retried nat | Refused nat | Dismissed nat

inductive dl_step :: "dl_table \<Rightarrow> dl_event \<Rightarrow> dl_table \<Rightarrow> bool" where
  dl_enqueue: "uid \<notin> dl_id ` set db \<Longrightarrow> enqueue_failure uid now op src payload_str err retries db = (e, db') \<Longrightarrow>
    dl_step db (Stored uid) db'"
| dl_retry: "retry now uid db = (Some e, db') \<Longrightarrow> dl_step db (Retried uid) db'"
| dl_refuse: "retry now uid db = (None, db') \<Longrightarrow> dl_step db (Refused uid) db'"
| dl_dismiss: "dismiss uid db = (r, db') \<Longrightarrow> dl_step db (Dismissed uid) db'"

inductive dl_run :: "dl_table \<Rightarrow> dl_event list \<Rightarrow> dl_table \<Rightarrow> bool" where
  dl_refl: "dl_run db [] db"
| dl_more: "dl_run db es db1 \<Longrightarrow> dl_step db1 e db' \<Longrightarrow> dl_run db (es @ [e]) db'"

inductive_cases dl_storedE: "dl_step db (Stored uid) db'"
inductive_cases dl_retriedE: "dl_step db (Retried uid) db'"
inductive_cases dl_refusedE: "dl_step db (Refused uid) db'"
inductive_cases dl_dismissedE: "dl_step db (Dismissed uid) db'"

text \<open>
  The counter of an entry is the number of retries granted for it, an entry is permanent exactly
  when a retry has used up its budget, and ids are unique.
\<close>

definition budget :: "dead_letter \<Rightarrow> nat" where
  "budget e = max 1 (nat (max_retries e))"

definition entry_ok :: "dl_event list \<Rightarrow> dead_letter \<Rightarrow> bool" where
  "entry_ok es e \<longleftrightarrow> retry_count e = count_list es (Retried (dl_id e)) \<and>
     retry_count e \<le> budget e \<and> (is_permanent e \<longleftrightarrow> retry_count e = budget e)"

definition table_ok :: "dl_event list \<Rightarrow> dl_table \<Rightarrow> bool" where
  "table_ok es db \<longleftrightarrow> distinct (map dl_id db) \<and> (\<forall>e \<in> set db. entry_ok es e) \<and>
     (\<forall>uid. uid \<notin> dl_id ` set db \<longrightarrow> Retried uid \<notin> set es)"

lemma get_entry_Some: "get_entry uid db = Some e \<Longrightarrow> e \<in> set db \<and> dl_id e = uid"
  by (auto simp: get_entry_def find_Some_iff)

lemma get_entry_None: "get_entry uid db = None \<longleftrightarrow> uid \<notin> dl_id ` set db"
  by (auto simp: get_entry_def find_None_iff)

lemma update_row_ids [simp]: "dl_id e = uid \<Longrightarrow> map dl_id (update_row e db) = map dl_id db"
  by (auto simp: update_row_def)

lemma set_update_row: "x \<in> set (update_row e db) \<Longrightarrow> x = e \<or> x \<in> set db \<and> dl_id x \<noteq> dl_id e"
  by (auto simp: update_row_def)

lemma budget_simps [simp]:
  "budget (e\<lparr>is_dismissed := d\<rparr>) = budget e" "budget (retried now e) = budget e"
  by (simp_all add: budget_def retried_def Let_def)

lemma retried_simps [simp]:
  "dl_id (retried now e) = dl_id e" "retry_count (retried now e) = retry_count e + 1"
  "is_dismissed (retried now e) = is_dismissed e"
  by (simp_all add: retried_def Let_def)

lemma retried_ok:
  "entry_ok es e \<Longrightarrow> \<not> is_permanent e \<Longrightarrow> entry_ok (es @ [Retried (dl_id e)]) (retried now e)"
  by (auto simp: entry_ok_def retried_def Let_def budget_def)

lemma other_ok: "entry_ok es e \<Longrightarrow> ev \<noteq> Retried (dl_id e) \<Longrightarrow> entry_ok (es @ [ev]) e"
  by (simp add: entry_ok_def)

lemma image_update_row: "dl_id ` set (update_row e db) = dl_id ` set db"
  using arg_cong [OF update_row_ids [OF refl, of e db], of set] by (simp only: set_map)

lemma step_ok:
  assumes "dl_step db ev db'" "table_ok es db"
  shows "table_ok (es @ [ev]) db'"
  using assms(1)
proof (cases rule: dl_step.cases)
  case (dl_enqueue uid now op src payload_str err retries e)
  then have "Retried uid \<notin> set es" using assms(2) by (simp add: table_ok_def)
  then have "entry_ok (es @ [Stored uid]) e"
    using dl_enqueue by (auto simp: enqueue_failure_def Let_def entry_ok_def budget_def count_list_0_iff)
  then show ?thesis using dl_enqueue assms(2)
    by (auto simp: table_ok_def enqueue_failure_def Let_def intro: other_ok)
next
  case (dl_retry now uid e)
  then obtain e0 where e0: "get_entry uid db = Some e0" "\<not> is_permanent e0" "e = retried now e0"
      "db' = update_row e db"
    by (auto simp: retry_def split: option.splits if_splits)
  then have "entry_ok es e0" "dl_id e0 = uid" "e0 \<in> set db"
    using assms(2) get_entry_Some [OF e0(1)] by (auto simp: table_ok_def)
  then have e: "entry_ok (es @ [Retried uid]) e" "dl_id e = uid"
    using retried_ok [of es e0 now] e0 by simp_all
  have "entry_ok (es @ [Retried uid]) x" if "x \<in> set db'" for x
    using set_update_row [of x e db] that e e0(4) assms(2) by (auto simp: table_ok_def intro: other_ok)
  moreover have "uid \<in> dl_id ` set db" using \<open>dl_id e0 = uid\<close> \<open>e0 \<in> set db\<close> by blast
  ultimately show ?thesis using dl_retry(1) e0(4) assms(2) e
    by (auto simp: table_ok_def image_update_row)
next
  case (dl_refuse now uid)
  then show ?thesis using assms(2)
    by (auto simp: table_ok_def retry_def intro: other_ok split: option.splits if_splits)
next
  case (dl_dismiss uid r)
  show ?thesis
  proof (cases "get_entry uid db")
    case None
    then show ?thesis using dl_dismiss assms(2) by (auto simp: table_ok_def dismiss_def intro: other_ok)
  next
    case (Some e0)
    let ?e = "e0\<lparr>is_dismissed := True\<rparr>"
    have db': "db' = update_row ?e db" using dl_dismiss Some by (simp add: dismiss_def)
    have "entry_ok es e0" using assms(2) get_entry_Some [OF Some] by (auto simp: table_ok_def)
    then have "entry_ok (es @ [Dismissed uid]) ?e" by (simp add: entry_ok_def)
    then have "entry_ok (es @ [ev]) x" if "x \<in> set db'" for x
      using set_update_row [of x ?e db] that db' assms(2) dl_dismiss(1)
      by (auto simp: table_ok_def intro: other_ok)
    then show ?thesis using db' assms(2) dl_dismiss(1) by (auto simp: table_ok_def image_update_row)
  qed
qed

lemma run_ok: "dl_run [] es db \<Longrightarrow> table_ok es db"
proof (induction "[] :: dl_table" es db rule: dl_run.induct)
  case dl_refl
  then show ?case by (simp add: table_ok_def)
next
  case (dl_more es db1 e db')
  then show ?case using step_ok by blast
qed

section \<open>Properties\<close>

text \<open>
  The retry budget: in any history a failed operation is granted no more retries than its
  maximum (one when the maximum is not positive), its counter is their number, and it is marked
  permanent exactly when they are used up; a permanent entry gets no further retry.
\<close>

theorem retry_budget_holds:
  assumes "dl_run [] es db" and "get_entry uid db = Some e"
  shows "retry_count e = count_list es (Retried uid) \<and>
    count_list es (Retried uid) \<le> max 1 (nat (max_retries e)) \<and>
    (is_permanent e \<longleftrightarrow> count_list es (Retried uid) = max 1 (nat (max_retries e))) \<and>
    (is_permanent e \<longrightarrow> fst (retry now uid db) = None)"
proof -
  have "entry_ok es e" "dl_id e = uid"
    using run_ok [OF assms(1)] get_entry_Some [OF assms(2)] by (auto simp: table_ok_def)
  then show ?thesis using assms(2) by (auto simp: entry_ok_def budget_def retry_def)
qed

definition failed_scan :: "dead_letter \<times> dl_table" where
  "failed_scan = enqueue_failure 7 0 ''detection'' ''api'' ''{}'' (Raised ''ValueError'' ''bad'') 1 []"

lemma failed_scan_simps:
  "snd failed_scan = [fst failed_scan]" "dl_id (fst failed_scan) = 7" "max_retries (fst failed_scan) = 1"
  "\<not> is_dismissed (fst failed_scan)" "\<not> is_permanent (fst failed_scan)" "retry_count (fst failed_scan) = 0"
  by (simp_all add: failed_scan_def enqueue_failure_def Let_def)

lemma failed_scan_step: "dl_step [] (Stored 7) (snd failed_scan)"
  by (rule dl_enqueue [of _ _ 0 "''detection''" "''api''" "''{}''" "Raised ''ValueError'' ''bad''" 1 "fst failed_scan"])
    (simp_all add: failed_scan_def)

lemma failed_scan_entry: "get_entry 7 (snd failed_scan) = Some (fst failed_scan)"
  by (simp add: get_entry_def failed_scan_simps)

lemma failed_scan_retry:
  "retry now 7 (snd failed_scan) = (Some (retried now (fst failed_scan)), [retried now (fst failed_scan)])"
  unfolding retry_def failed_scan_entry by (simp add: failed_scan_simps update_row_def)

lemma failed_scan_run:
  "dl_run [] [Stored 7] (snd failed_scan)"
  "dl_run [] [Stored 7, Retried 7] [retried 5 (fst failed_scan)]"
  using dl_more [OF dl_refl failed_scan_step]
    dl_more [OF dl_more [OF dl_refl failed_scan_step] dl_retry [OF failed_scan_retry [of 5]]] by simp_all

theorem retry_budget_holds_witness:
  "is_permanent (retried 5 (fst failed_scan)) \<and> fst (retry 6 7 [retried 5 (fst failed_scan)]) = None"
proof -
  have "get_entry 7 [retried 5 (fst failed_scan)] = Some (retried 5 (fst failed_scan))"
    by (simp add: get_entry_def failed_scan_simps)
  moreover have "max_retries (retried 5 (fst failed_scan)) = 1"
    by (simp add: retried_def Let_def failed_scan_simps)
  ultimately show ?thesis
    using retry_budget_holds [OF failed_scan_run(2), of 7 "retried 5 (fst failed_scan)" 6] by simp
qed

text \<open>
  C37: Every entry that is not dismissed becomes permanent after at most its budget of further
  retries: as long as it is not, a retry is granted and the number that remains gets smaller.
\<close>

theorem retries_run_out:
  assumes "dl_run [] es db" and "get_entry uid db = Some e" and "\<not> is_dismissed e" and "\<not> is_permanent e"
  shows "\<exists>e' db'. retry now uid db = (Some e', db') \<and> dl_run [] (es @ [Retried uid]) db' \<and>
    get_entry uid db' = Some e' \<and> \<not> is_dismissed e' \<and>
    budget e' - retry_count e' < budget e - retry_count e"
proof -
  have ok: "table_ok es db" "e \<in> set db" "dl_id e = uid"
    using run_ok [OF assms(1)] get_entry_Some [OF assms(2)] by auto
  then have lt: "retry_count e < budget e" using assms(4) by (auto simp: table_ok_def entry_ok_def)
  let ?db = "update_row (retried now e) db"
  have r: "retry now uid db = (Some (retried now e), ?db)" using assms by (simp add: retry_def)
  have g: "get_entry uid ?db = Some (retried now e)"
    using assms(2) ok(3) unfolding get_entry_def update_row_def
    by (induction db) (auto split: if_splits)
  show ?thesis using r g dl_more [OF assms(1) dl_retry [OF r]] assms(3) lt
    by (intro exI [of _ "retried now e"] exI [of _ ?db]) simp
qed

theorem retries_run_out_witness:
  "\<exists>e' db'. retry 5 7 (snd failed_scan) = (Some e', db') \<and> budget e' - retry_count e' < 1"
  using retries_run_out [OF failed_scan_run(1) failed_scan_entry failed_scan_simps(4,5), of 5]
  by (auto simp: failed_scan_simps budget_def)

text \<open>
  The dashboard's three numbers agree with each other and with the list: the total is the number
  of entries pending a retry plus those failed for good, and it is what the unfiltered list
  counts on any page.
\<close>

theorem stats_agree_with_list:
  "(case get_stats db of (tot, pending_retry, permanent_failure) \<Rightarrow>
     tot = pending_retry + permanent_failure \<and>
     list_entries None False (int page + 1) (int page_size) db =
       Inr (take page_size (drop (page * page_size) (sort_key (\<lambda>e. - created_at e)
              (filter (\<lambda>e. \<not> is_dismissed e) db))), tot))"
proof -
  have "length (filter (\<lambda>e. \<not> is_dismissed e) db) =
      length (filter (\<lambda>e. \<not> is_dismissed e \<and> \<not> is_permanent e) db) +
      length (filter (\<lambda>e. is_permanent e \<and> \<not> is_dismissed e) db)"
    by (induction db) auto
  moreover have "nat (int page * int page_size) = page * page_size" "\<not> int page * int page_size < 0"
    by (simp_all add: nat_mult_distrib not_less)
  ultimately show ?thesis by (simp add: get_stats_def list_entries_def Let_def)
qed

end
