(* ===== verification/Tables.thy ===== *)
theory Tables
  imports PyText
begin

text \<open>
  What the services share of the database layer: a transaction sees its own work on the
  tables, a commit makes it durable, closing the session drops what was not committed;
  queries that expect at most one row, case-insensitive patterns, and pages of a sorted list.
\<close>

section \<open>Sessions\<close>

record 't tx =
  tx_work :: 't
  tx_durable :: 't

definition tx_commit :: "'t tx \<Rightarrow> 't tx" where
  "tx_commit s = s\<lparr>tx_durable := tx_work s\<rparr>"

definition tx_close :: "'t tx \<Rightarrow> 't tx" where
  "tx_close s = s\<lparr>tx_work := tx_durable s\<rparr>"

definition tx_do :: "('t \<Rightarrow> 't) \<Rightarrow> 't tx \<Rightarrow> 't tx" where
  "tx_do f s = s\<lparr>tx_work := f (tx_work s)\<rparr>"

definition tx_open :: "'t \<Rightarrow> 't tx" where
  "tx_open t = \<lparr>tx_work = t, tx_durable = t\<rparr>"

lemma tx_simps [simp]:
  "tx_work (tx_open t) = t" "tx_durable (tx_open t) = t"
  "tx_durable (tx_do f s) = tx_durable s" "tx_work (tx_do f s) = f (tx_work s)"
  "tx_durable (tx_commit s) = tx_work s" "tx_work (tx_commit s) = tx_work s"
  "tx_durable (tx_close s) = tx_durable s" "tx_work (tx_close s) = tx_durable s"
  by (simp_all add: tx_open_def tx_do_def tx_commit_def tx_close_def)

section \<open>Errors of an endpoint\<close>

text \<open>\<open>HTTPException(status_code, detail)\<close>; an exception no one catches is the status 500.\<close>

datatype http_error = HttpError nat string

definition internal_error :: http_error where
  "internal_error = HttpError 500 ''Internal Server Error''"

section \<open>Ids\<close>

text \<open>The text of an id, and the id a text stands for (\<open>uuid.UUID(text)\<close>).\<close>

definition parse_uuid :: "string \<Rightarrow> nat option" where
  "parse_uuid s =
     (let v = nat (horner 0 (map digit_val s))
      in if s \<noteq> [] \<and> list_all is_decimal s \<and> nat_str v = s then Some v else None)"

lemma parse_uuid_str [simp]: "parse_uuid (nat_str n) = Some n"
  by (auto simp: parse_uuid_def horner_nat_str list_all_iff nat_str_decimal)

lemma parse_uuid_SomeD: "parse_uuid s = Some n \<Longrightarrow> s = nat_str n"
  by (auto simp: parse_uuid_def Let_def split: if_splits)

section \<open>Queries\<close>

definition multiple_rows :: exn where
  "multiple_rows = Exn (OtherError ''MultipleResultsFound'') ''Multiple rows were found when one or none was required''"

fun scalar_one_or_none :: "'a list \<Rightarrow> 'a option res" where
  "scalar_one_or_none [] = Inr None"
| "scalar_one_or_none [x] = Inr (Some x)"
| "scalar_one_or_none (x # y # zs) = Inl multiple_rows"

text \<open>A query or a flush the database refuses: a value of the wrong type, a broken constraint.\<close>

definition db_error :: exn where
  "db_error = Exn (OtherError ''DBAPIError'') ''invalid input for query argument''"

definition integrity_error :: exn where
  "integrity_error = Exn (OtherError ''IntegrityError'') ''constraint violation''"

lemma find_SomeD: "find P xs = Some x \<Longrightarrow> x \<in> set xs \<and> P x"
  by (induction xs) (auto split: if_splits)

lemma find_image: "v \<in> k ` set xs \<Longrightarrow> \<exists>x. find (\<lambda>x. k x = v) xs = Some x"
  by (induction xs) auto

lemma scalar_distinct:
  "distinct (map k xs) \<Longrightarrow> scalar_one_or_none (filter (\<lambda>x. k x = v) xs) = Inr (find (\<lambda>x. k x = v) xs)"
proof (induction xs)
  case (Cons x xs)
  show ?case
  proof (cases "k x = v")
    case True
    then have "\<forall>y \<in> set xs. k y \<noteq> v" using Cons.prems by (auto simp: image_iff)
    then have "filter (\<lambda>x. k x = v) xs = []" by (simp add: filter_empty_conv)
    then show ?thesis using True by simp
  next
    case False
    then show ?thesis using Cons by simp
  qed
qed simp

text \<open>
  \<open>column.ilike(pattern)\<close>: a percent sign stands for any text, an underscore for any character, a backslash
  takes the next character literally.
\<close>

fun like :: "string \<Rightarrow> string \<Rightarrow> bool" where
  "like [] s = (s = [])"
| "like (p # ps) s =
     (if p = CHR ''%'' then like ps s \<or> (case s of [] \<Rightarrow> False | c # cs \<Rightarrow> like (p # ps) cs)
      else if p = CHR ''_'' then (case s of [] \<Rightarrow> False | c # cs \<Rightarrow> like ps cs)
      else if p = CHR 0x5C \<and> ps \<noteq> [] then
        (case s of [] \<Rightarrow> False | c # cs \<Rightarrow> hd ps = c \<and> like (tl ps) cs)
      else (case s of [] \<Rightarrow> False | c # cs \<Rightarrow> p = c \<and> like ps cs))"

definition ilike :: "string \<Rightarrow> string \<Rightarrow> bool" where
  "ilike pattern s = like (lower pattern) (lower s)"

definition search_pattern :: "string \<Rightarrow> string" where
  "search_pattern search = ''%'' @ search @ ''%''"

text \<open>\<open>if value:\<close> on an optional text: a filter that is missing or empty does not apply.\<close>

definition wanted :: "string option \<Rightarrow> string option" where
  "wanted v = (case v of Some s \<Rightarrow> if s \<noteq> [] then Some s else None | None \<Rightarrow> None)"

section \<open>Pages\<close>

text \<open>\<open>offset((page - 1) * page_size).limit(page_size)\<close> for a page from 1 on.\<close>

definition page_of :: "nat \<Rightarrow> nat \<Rightarrow> 'a list \<Rightarrow> 'a list" where
  "page_of page page_size xs = take page_size (drop ((page - 1) * page_size) xs)"

text \<open>\<open>max(1, math.ceil(total / page_size))\<close> for a positive page size.\<close>

definition pages_of :: "nat \<Rightarrow> nat \<Rightarrow> nat" where
  "pages_of count page_size = max 1 ((count + page_size - 1) div page_size)"

lemma pages_prefix: "concat (map (\<lambda>p. page_of (Suc p) sz xs) [0..<n]) = take (n * sz) xs"
proof (induction n)
  case (Suc n)
  have "take (Suc n * sz) xs = take (n * sz) xs @ take sz (drop (n * sz) xs)"
    by (metis add.commute mult_Suc take_add)
  then show ?case using Suc by (simp add: page_of_def)
qed simp

lemma pages_cover:
  assumes "0 < sz"
  shows "concat (map (\<lambda>p. page_of (Suc p) sz xs) [0..<pages_of (length xs) sz]) = xs"
proof -
  let ?n = "length xs"
  have "?n + sz - 1 = sz * ((?n + sz - 1) div sz) + (?n + sz - 1) mod sz"
    by (simp only: mult_div_mod_eq)
  moreover have "(?n + sz - 1) mod sz \<le> sz - 1"
    using assms by (metis Suc_pred' less_Suc_eq_le mod_less_divisor)
  ultimately have "?n \<le> sz * ((?n + sz - 1) div sz)"
    using assms by linarith
  also have "\<dots> = ((?n + sz - 1) div sz) * sz" by (rule mult.commute)
  also have "\<dots> \<le> pages_of ?n sz * sz" by (simp add: pages_of_def)
  finally show ?thesis using pages_prefix [of sz xs "pages_of ?n sz"] by simp
qed

lemma page_length: "length (page_of page page_size xs) \<le> page_size"
  by (simp add: page_of_def)

end
