(* ===== verification/Incidents.thy ===== *)
theory Incidents
  imports Tables
begin

text \<open>
  The incident workflow: \<open>server/services/incident_service.py\<close> (fields, history, notes, audit),
  \<open>server/services/smart_response.py\<close> and the endpoints of \<open>server/api/incidents.py\<close> that
  change incidents. A database session has the tables as the transaction sees them and the
  tables that are durable; \<open>commit\<close> copies the first to the second, and closing the session
  at the end of a request drops what was not committed. An incident's columns are a dictionary,
  because the code reads and sets them by name; a column holds nothing, a text, a member of a
  string enumeration, a number or a JSON object.
\<close>

section \<open>Tables\<close>

datatype attr = NoAttr | TextAttr string | EnumAttr string | IntAttr int | DictAttr string

record incident_row =
  in_id :: nat
  in_attrs :: "(string \<times> attr) list"

record incident_note =
  nt_incident :: nat
  nt_author :: nat
  nt_content :: string
  nt_created :: string

record history_entry =
  hi_incident :: nat
  hi_actor :: nat
  hi_field :: string
  hi_old :: "string option"
  hi_new :: "string option"
  hi_created :: string

record audit_entry =
  au_actor :: nat
  au_action :: string
  au_resource_id :: "string option"
  au_detail :: "string option"
  au_changes :: "(string \<times> attr) list option"
  au_ip :: string

record tables =
  t_incidents :: "incident_row list"
  t_notes :: "incident_note list"
  t_history :: "history_entry list"
  t_audit :: "audit_entry list"

record session =
  work :: tables
  durable :: tables

definition commit :: "session \<Rightarrow> session" where
  "commit s = s\<lparr>durable := work s\<rparr>"

definition close_session :: "session \<Rightarrow> session" where
  "close_session s = s\<lparr>work := durable s\<rparr>"

definition in_work :: "(tables \<Rightarrow> tables) \<Rightarrow> session \<Rightarrow> session" where
  "in_work f s = s\<lparr>work := f (work s)\<rparr>"

section \<open>The service\<close>

definition get_incident :: "nat \<Rightarrow> tables \<Rightarrow> incident_row option" where
  "get_incident uid t = find (\<lambda>i. in_id i = uid) (t_incidents t)"

definition get_attr :: "incident_row \<Rightarrow> string \<Rightarrow> attr" where
  "get_attr i key = dict_get (in_attrs i) key NoAttr"

text \<open>The texts that \<open>update_incident\<close> compares: of the old value and of the new one.\<close>

fun old_text :: "attr \<Rightarrow> string option" where
  "old_text NoAttr = None"
| "old_text (TextAttr s) = Some s"
| "old_text (EnumAttr s) = Some s"
| "old_text (IntAttr n) = Some (int_str n)"
| "old_text (DictAttr d) = Some d"

fun new_text :: "attr \<Rightarrow> string option" where
  "new_text (DictAttr d) = None"
| "new_text NoAttr = Some ''None''"
| "new_text v = old_text v"

text \<open>One round of the loop over the fields to change.\<close>

definition update_field ::
  "string \<Rightarrow> nat \<Rightarrow> string \<times> attr \<Rightarrow> incident_row \<times> history_entry list \<Rightarrow> incident_row \<times> history_entry list" where
  "update_field now actor = (\<lambda>(key, value') (i, hs).
     if value' = NoAttr then (i, hs)
     else
       (let old_str = old_text (get_attr i key); new_str = new_text value' in
        if old_str \<noteq> new_str then
          (i\<lparr>in_attrs := dict_set (in_attrs i) key value'\<rparr>,
           hs @ [\<lparr>hi_incident = in_id i, hi_actor = actor, hi_field = key, hi_old = old_str,
                  hi_new = new_str, hi_created = now\<rparr>])
        else (i, hs)))"

definition update_fields ::
  "string \<Rightarrow> nat \<Rightarrow> (string \<times> attr) list \<Rightarrow> incident_row \<Rightarrow> incident_row \<times> history_entry list" where
  "update_fields now actor data i = fold (update_field now actor) data (i, [])"

definition update_incident ::
  "string \<Rightarrow> nat \<Rightarrow> (string \<times> attr) list \<Rightarrow> incident_row \<Rightarrow> tables \<Rightarrow> tables" where
  "update_incident now actor data i t =
     (let (i', hs) = update_fields now actor data i in
      t\<lparr>t_incidents := map (\<lambda>r. if in_id r = in_id i then i' else r) (t_incidents t),
        t_history := t_history t @ hs\<rparr>)"

definition add_note :: "string \<Rightarrow> nat \<Rightarrow> nat \<Rightarrow> string \<Rightarrow> tables \<Rightarrow> tables" where
  "add_note now uid author content t =
     t\<lparr>t_notes := t_notes t @
         [\<lparr>nt_incident = uid, nt_author = author, nt_content = content, nt_created = now\<rparr>]\<rparr>"

definition create_audit_entry ::
  "nat \<Rightarrow> string \<Rightarrow> string option \<Rightarrow> string option \<Rightarrow> (string \<times> attr) list option \<Rightarrow> string \<Rightarrow> tables \<Rightarrow> tables" where
  "create_audit_entry actor action resource detail changes ip t =
     t\<lparr>t_audit := t_audit t @
         [\<lparr>au_actor = actor, au_action = action, au_resource_id = resource, au_detail = detail,
           au_changes = changes, au_ip = ip\<rparr>]\<rparr>"

section \<open>Smart response\<close>

record outcome =
  so_success :: bool
  so_action :: string
  so_detail :: "string option"

definition failed :: "string \<Rightarrow> string \<Rightarrow> outcome" where
  "failed action detail = \<lparr>so_success = False, so_action = action, so_detail = Some detail\<rparr>"

definition succeeded :: "string \<Rightarrow> string \<Rightarrow> outcome" where
  "succeeded action detail = \<lparr>so_success = True, so_action = action, so_detail = Some detail\<rparr>"

definition VALID_ACTIONS :: "string list" where
  "VALID_ACTIONS = [''add_note'', ''escalate'', ''send_email'', ''set_status'']"

definition valid_statuses :: "string list" where
  "valid_statuses = [''dismissed'', ''escalated'', ''in_progress'', ''new'', ''resolved'']"

text \<open>\<open>value.strip()\<close>: only texts have it; the error is caught by \<open>execute\<close>.\<close>

definition no_strip :: "string \<Rightarrow> exn" where
  "no_strip ty = Exn (OtherError ''AttributeError'') ([CHR 0x27] @ ty @ [CHR 0x27] @ '' object has no attribute '' @ [CHR 0x27] @ ''strip'' @ [CHR 0x27])"

fun strip_attr :: "attr \<Rightarrow> string res" where
  "strip_attr (TextAttr s) = Inr (strip s)"
| "strip_attr (EnumAttr s) = Inr (strip s)"
| "strip_attr NoAttr = Inl (no_strip ''NoneType'')"
| "strip_attr (IntAttr n) = Inl (no_strip ''int'')"
| "strip_attr (DictAttr d) = Inl (no_strip ''dict'')"

fun attr_str :: "attr \<Rightarrow> string" where
  "attr_str NoAttr = ''None''"
| "attr_str (TextAttr s) = s"
| "attr_str (EnumAttr s) = s"
| "attr_str (IntAttr n) = int_str n"
| "attr_str (DictAttr d) = d"

text \<open>
  An action works on the session and returns its outcome, or raises; what it did to the session
  before a raise stays in it.
\<close>

type_synonym action = "session \<Rightarrow> outcome res \<times> session"

definition action_add_note :: "string \<Rightarrow> nat \<Rightarrow> nat \<Rightarrow> (string \<times> attr) list \<Rightarrow> action" where
  "action_add_note now uid actor params s =
     (case strip_attr (dict_get params ''content'' (TextAttr [])) of
        Inl e \<Rightarrow> (Inl e, s)
      | Inr content \<Rightarrow>
          if content = [] then
            (Inr (failed ''add_note'' ''Note content is required (params.content)''), s)
          else
            (Inr (succeeded ''add_note'' (''Note added: '' @ slice content 0 80 @
                    (if length content > 80 then ''...'' else []))),
             commit (in_work (add_note now uid actor content) s)))"

definition action_set_status :: "string \<Rightarrow> incident_row \<Rightarrow> nat \<Rightarrow> (string \<times> attr) list \<Rightarrow> action" where
  "action_set_status now i actor params s =
     (case strip_attr (dict_get params ''status'' (TextAttr [])) of
        Inl e \<Rightarrow> (Inl e, s)
      | Inr new_status \<Rightarrow>
          if new_status \<notin> set valid_statuses then
            (Inr (failed ''set_status'' (''Invalid status '' @ [CHR 0x27] @ new_status @ [CHR 0x27] @
                    ''. Valid: '' @ join '', '' valid_statuses)), s)
          else
            (Inr (succeeded ''set_status'' (''Status changed from '' @ attr_str (get_attr i ''status'') @
                    '' to '' @ new_status)),
             commit (in_work (update_incident now actor [(''status'', TextAttr new_status)] i) s)))"

definition action_send_email :: "string \<Rightarrow> nat \<Rightarrow> nat \<Rightarrow> (string \<times> attr) list \<Rightarrow> action" where
  "action_send_email now uid actor params s =
     (case strip_attr (dict_get params ''recipient'' (TextAttr [])) of
        Inl e \<Rightarrow> (Inl e, s)
      | Inr recipient \<Rightarrow>
          if recipient = [] then
            (Inr (failed ''send_email'' ''Recipient email is required (params.recipient)''), s)
          else
            (let subject = dict_get params ''subject'' (TextAttr ''DLP Incident Notification'') in
             (Inr (succeeded ''send_email'' (''Email notification queued for '' @ recipient)),
              commit (in_work (add_note now uid actor
                (''[Smart Response] Email notification sent to '' @ recipient @ '' '' @
                 [CHR ''-''] @ '' Subject: '' @ attr_str subject)) s))))"

definition action_escalate :: "string \<Rightarrow> incident_row \<Rightarrow> nat \<Rightarrow> nat \<Rightarrow> (string \<times> attr) list \<Rightarrow> action" where
  "action_escalate now i uid actor params s =
     (case strip_attr (dict_get params ''reason'' (TextAttr ''Escalated via smart response'')) of
        Inl e \<Rightarrow> (Inl e, s)
      | Inr reason \<Rightarrow>
          (Inr (succeeded ''escalate'' (''Incident escalated: '' @ reason)),
           commit (in_work (add_note now uid actor (''[Escalated] '' @ reason))
             (in_work (update_incident now actor [(''status'', TextAttr ''escalated'')] i) s))))"

text \<open>The chain of tests on the action's name, which is valid here.\<close>

definition dispatch ::
  "string \<Rightarrow> nat \<Rightarrow> incident_row \<Rightarrow> nat \<Rightarrow> string \<Rightarrow> (string \<times> attr) list \<Rightarrow> action" where
  "dispatch now uid i actor action params =
     (if action = ''add_note'' then action_add_note now uid actor params
      else if action = ''set_status'' then action_set_status now i actor params
      else if action = ''send_email'' then action_send_email now uid actor params
      else action_escalate now i uid actor params)"

definition execute ::
  "string \<Rightarrow> nat \<Rightarrow> nat \<Rightarrow> string \<Rightarrow> (string \<times> attr) list \<Rightarrow> session \<Rightarrow> outcome \<times> session" where
  "execute now uid actor action params s =
     (if action \<notin> set VALID_ACTIONS then
        (failed action (''Unknown action '' @ [CHR 0x27] @ action @ [CHR 0x27] @ ''. Valid actions: '' @
           join '', '' VALID_ACTIONS), s)
      else
        (case get_incident uid (work s) of
           None \<Rightarrow> (failed action ''Incident not found'', s)
         | Some i \<Rightarrow>
             (case dispatch now uid i actor action params s of
                (Inr r, s') \<Rightarrow> (r, s')
              | (Inl e, s') \<Rightarrow> (failed action (''Action failed: '' @ exn_str e), s'))))"

section \<open>Endpoints\<close>

text \<open>An endpoint raises an HTTP error or returns a value; the session is closed afterwards.\<close>

definition update_endpoint ::
  "string \<Rightarrow> nat \<Rightarrow> string \<Rightarrow> nat \<Rightarrow> (string \<times> attr) list \<Rightarrow> session
   \<Rightarrow> (http_error + incident_row option) \<times> session" where
  "update_endpoint now user ip uid update_data s =
     (case get_incident uid (work s) of
        None \<Rightarrow> (Inl (HttpError 404 ''Incident not found''), close_session s)
      | Some i \<Rightarrow>
          if update_data = [] then (Inl (HttpError 400 ''No fields to update''), close_session s)
          else
            (let s1 = in_work (update_incident now user update_data i) s;
                 s2 = in_work (create_audit_entry user ''incident.update'' (Some (nat_str uid))
                        (Some (''Updated incident fields: '' @ join '', '' (map fst update_data)))
                        (Some update_data) ip) s1
             in (Inr (get_incident uid (work s1)), close_session (commit s2))))"

definition add_note_endpoint ::
  "string \<Rightarrow> nat \<Rightarrow> string \<Rightarrow> nat \<Rightarrow> string \<Rightarrow> session \<Rightarrow> (http_error + string) \<times> session" where
  "add_note_endpoint now user ip uid content s =
     (case get_incident uid (work s) of
        None \<Rightarrow> (Inl (HttpError 404 ''Incident not found''), close_session s)
      | Some i \<Rightarrow>
          (Inr content,
           close_session (commit (in_work
             (create_audit_entry user ''incident.add_note'' (Some (nat_str uid)) (Some ''Added note to incident'') None ip)
             (in_work (add_note now uid user content) s)))))"

definition respond_endpoint ::
  "string \<Rightarrow> nat \<Rightarrow> string \<Rightarrow> nat \<Rightarrow> string \<Rightarrow> (string \<times> attr) list \<Rightarrow> session \<Rightarrow> outcome \<times> session" where
  "respond_endpoint now user ip uid action params s =
     (let (r, s1) = execute now uid user action params s;
          s2 = (if so_success r
                then in_work (create_audit_entry user (''incident.smart_response.'' @ action)
                       (Some (nat_str uid)) (so_detail r) None ip) s1
                else s1)
      in (r, close_session s2))"

section \<open>Requests\<close>

text \<open>A request that may change an incident, with its time, user and address.\<close>

datatype change = Patch "(string \<times> attr) list" | PostNote string | Respond string "(string \<times> attr) list"

record request =
  rq_now :: string
  rq_user :: nat
  rq_ip :: string
  rq_incident :: nat
  rq_change :: change

definition serve :: "request \<Rightarrow> session \<Rightarrow> session" where
  "serve rq s =
     (case rq_change rq of
        Patch data \<Rightarrow> snd (update_endpoint (rq_now rq) (rq_user rq) (rq_ip rq) (rq_incident rq) data s)
      | PostNote content \<Rightarrow> snd (add_note_endpoint (rq_now rq) (rq_user rq) (rq_ip rq) (rq_incident rq) content s)
      | Respond action params \<Rightarrow>
          snd (respond_endpoint (rq_now rq) (rq_user rq) (rq_ip rq) (rq_incident rq) action params s))"

text \<open>The values a request may give to a field.\<close>

fun sets :: "string \<Rightarrow> change \<Rightarrow> attr set" where
  "sets key (Patch data) = {v. (key, v) \<in> set data}"
| "sets key (PostNote content) = {}"
| "sets key (Respond action params) = (if key = ''status'' then range TextAttr else {})"







lemma update_field_ids:
  "in_id (fst (update_field now actor p (i, hs))) = in_id i"
  "list_all (\<lambda>h. hi_incident h = in_id i) hs \<Longrightarrow>
   list_all (\<lambda>h. hi_incident h = in_id i) (snd (update_field now actor p (i, hs)))"
  by (cases p; simp add: update_field_def Let_def)+

lemma update_fields_ids:
  "in_id (fst (fold (update_field now actor) data (i, hs))) = in_id i \<and>
   (list_all (\<lambda>h. hi_incident h = in_id i) hs \<longrightarrow>
    list_all (\<lambda>h. hi_incident h = in_id i) (snd (fold (update_field now actor) data (i, hs))))"
proof (induction data arbitrary: i hs)
  case (Cons p data)
  obtain i1 h1 where u: "update_field now actor p (i, hs) = (i1, h1)" by fastforce
  note ids = update_field_ids(1) [of now actor p i hs, unfolded u fst_conv]
    update_field_ids(2) [of i hs now actor p, unfolded u snd_conv]
  show ?case using Cons.IH [of i1 h1] ids by (simp add: u)
qed simp

lemma get_attr_set [simp]:
  "get_attr (i\<lparr>in_attrs := dict_set (in_attrs i) k v\<rparr>) key = (if key = k then v else get_attr i key)"
  by (simp add: get_attr_def dict_get_def)




lemma find_map_same:
  "(\<And>r. f (g r) = f r) \<Longrightarrow> find (\<lambda>r. f r = u) (map g xs) = map_option g (find (\<lambda>r. f r = u) xs)"
  by (induction xs) auto

lemma get_incident_id: "get_incident uid t = Some i \<Longrightarrow> in_id i = uid"
  by (auto simp: get_incident_def find_Some_iff)

lemma update_incident_get:
  assumes "get_incident uid t = Some i"
  shows "get_incident u (update_incident now actor data i t) =
    (if u = uid then Some (fst (update_fields now actor data i)) else get_incident u t)"
proof -
  have id: "in_id (fst (update_fields now actor data i)) = uid"
    using update_fields_ids [of now actor data i "[]"] get_incident_id [OF assms] by (simp add: update_fields_def)
  let ?g = "\<lambda>r. if in_id r = uid then fst (update_fields now actor data i) else r"
  have "get_incident u (update_incident now actor data i t) = map_option ?g (get_incident u t)"
    using find_map_same [of in_id ?g u "t_incidents t"] id get_incident_id [OF assms]
    by (simp add: update_incident_def get_incident_def case_prod_unfold Let_def)
  then show ?thesis using assms get_incident_id [of u t] by (cases "get_incident u t") auto
qed


section \<open>What a run of requests keeps\<close>

text \<open>
  A relation between tables that notes and audit entries do not affect, that composes, and that
  every update with allowed values satisfies, holds between the durable tables before and after
  any sequence of requests.
\<close>

definition allowed_change :: "((string \<times> attr) list \<Rightarrow> bool) \<Rightarrow> change \<Rightarrow> bool" where
  "allowed_change ok c = (case c of Patch data \<Rightarrow> ok data | _ \<Rightarrow> True)"

locale table_relation =
  fixes R :: "tables \<Rightarrow> tables \<Rightarrow> bool"
    and allowed :: "(string \<times> attr) list \<Rightarrow> bool"
  assumes same: "t_incidents t' = t_incidents t \<Longrightarrow> t_history t' = t_history t \<Longrightarrow> R t t'"
    and compose: "R t t1 \<Longrightarrow> R t1 t2 \<Longrightarrow> R t t2"
    and update: "get_incident uid t = Some i \<Longrightarrow> allowed data \<Longrightarrow> R t (update_incident now actor data i t)"
    and set_status: "allowed [(''status'', TextAttr v)]"
begin

lemma note_and_audit:
  "R t (add_note now uid author content t)"
  "R t (create_audit_entry actor act resource detail changes ip t)"
  by (rule same; simp add: add_note_def create_audit_entry_def)+

lemma status_update:
  "get_incident uid t = Some i \<Longrightarrow> R t (update_incident now actor [(''status'', TextAttr v)] i t)"
  by (rule update [OF _ set_status])

lemma dispatch_relates:
  assumes "get_incident uid (work s) = Some i"
  shows "R (work s) (work (snd (dispatch now uid i actor action params s)))"
proof -
  note st = status_update [OF assms]
  have "R (work s) (work (snd (action_add_note now uid actor params s)))"
    "R (work s) (work (snd (action_set_status now i actor params s)))"
    "R (work s) (work (snd (action_send_email now uid actor params s)))"
    by (auto simp: action_add_note_def action_set_status_def action_send_email_def commit_def in_work_def
        Let_def same note_and_audit st split: sum.splits)
  moreover have "R (work s) (work (snd (action_escalate now i uid actor params s)))"
    by (auto simp: action_escalate_def commit_def in_work_def same
        intro: compose [OF st note_and_audit(1)] split: sum.splits)
  ultimately show ?thesis by (simp add: dispatch_def)
qed

lemma execute_relates: "R (work s) (work (snd (execute now uid actor action params s)))"
proof (cases "get_incident uid (work s)")
  case None
  then show ?thesis by (simp add: execute_def same)
next
  case (Some i)
  show ?thesis using dispatch_relates [OF Some, of now actor action params] Some
    by (cases "dispatch now uid i actor action params s"; cases "fst (dispatch now uid i actor action params s)")
      (simp_all add: execute_def same)
qed

end

text \<open>An action has done nothing, or it has succeeded and committed; it writes no audit entry.\<close>

definition all_or_nothing :: "session \<Rightarrow> outcome res \<times> session \<Rightarrow> bool" where
  "all_or_nothing s p \<longleftrightarrow> snd p = s \<and> (\<forall>r. fst p = Inr r \<longrightarrow> \<not> so_success r) \<or>
     (\<exists>r. fst p = Inr r \<and> so_success r) \<and> durable (snd p) = work (snd p) \<and>
     t_audit (work (snd p)) = t_audit (work s)"

lemma dispatch_all_or_nothing: "all_or_nothing s (dispatch now uid i actor action params s)"
proof -
  have "all_or_nothing s (action_add_note now uid actor params s)"
    by (auto simp: all_or_nothing_def action_add_note_def commit_def in_work_def add_note_def succeeded_def
        failed_def split: sum.splits)
  moreover have "all_or_nothing s (action_set_status now i actor params s)"
    by (auto simp: all_or_nothing_def action_set_status_def commit_def in_work_def update_incident_def
        succeeded_def failed_def Let_def case_prod_unfold split: sum.splits)
  moreover have "all_or_nothing s (action_send_email now uid actor params s)"
    by (auto simp: all_or_nothing_def action_send_email_def commit_def in_work_def add_note_def
        succeeded_def failed_def Let_def split: sum.splits)
  moreover have "all_or_nothing s (action_escalate now i uid actor params s)"
    by (auto simp: all_or_nothing_def action_escalate_def commit_def in_work_def add_note_def
        update_incident_def succeeded_def Let_def case_prod_unfold split: sum.splits)
  ultimately show ?thesis by (simp add: dispatch_def)
qed

lemma execute_effect:
  "snd (execute now uid actor action params s) = s \<and> \<not> so_success (fst (execute now uid actor action params s)) \<or>
   so_success (fst (execute now uid actor action params s)) \<and>
   durable (snd (execute now uid actor action params s)) = work (snd (execute now uid actor action params s)) \<and>
   t_audit (work (snd (execute now uid actor action params s))) = t_audit (work s)"
proof (cases "get_incident uid (work s)")
  case None
  then show ?thesis by (simp add: execute_def failed_def)
next
  case (Some i)
  then show ?thesis using dispatch_all_or_nothing [of s now uid i actor action params]
    by (cases "dispatch now uid i actor action params s"; cases "fst (dispatch now uid i actor action params s)")
      (auto simp: execute_def all_or_nothing_def failed_def)
qed

lemma serve_closed: "work (serve rq s) = durable (serve rq s)"
  by (auto simp: serve_def update_endpoint_def add_note_endpoint_def respond_endpoint_def close_session_def
      Let_def case_prod_unfold split: change.split option.split)

lemma respond_durable:
  "work s = durable s \<Longrightarrow>
   durable (snd (respond_endpoint now user ip uid action params s)) =
     work (snd (execute now uid user action params s)) \<and>
   (so_success (fst (respond_endpoint now user ip uid action params s)) \<or>
      durable (snd (respond_endpoint now user ip uid action params s)) = durable s) \<and>
   t_audit (durable (snd (respond_endpoint now user ip uid action params s))) = t_audit (durable s)"
  using execute_effect [of now uid user action params s]
  by (auto simp: respond_endpoint_def close_session_def in_work_def Let_def case_prod_unfold)

context table_relation
begin

lemma serve_relates:
  assumes "work s = durable s" "allowed_change allowed (rq_change rq)"
  shows "R (durable s) (durable (serve rq s))"
proof (cases "rq_change rq")
  case (Patch data)
  then have "allowed data" using assms(2) by (simp add: allowed_change_def)
  then show ?thesis using Patch assms(1)
    by (auto simp: serve_def update_endpoint_def close_session_def commit_def in_work_def Let_def same
        intro: compose [OF update note_and_audit(2)] split: option.split)
next
  case (PostNote content)
  then show ?thesis using assms(1)
    by (auto simp: serve_def add_note_endpoint_def close_session_def commit_def in_work_def same
        intro: compose [OF note_and_audit] split: option.split)
next
  case (Respond action params)
  then show ?thesis
    using respond_durable [OF assms(1)] execute_relates [of s] assms(1) by (simp add: serve_def)
qed

lemma run_relates:
  "work s = durable s \<Longrightarrow> list_all (\<lambda>rq. allowed_change allowed (rq_change rq)) rqs \<Longrightarrow>
   R (durable s) (durable (fold serve rqs s))"
proof (induction rqs arbitrary: s)
  case Nil
  then show ?case by (simp add: same)
next
  case (Cons rq rqs)
  have "R (durable s) (durable (serve rq s))" using serve_relates Cons.prems by simp
  moreover have "R (durable (serve rq s)) (durable (fold serve rqs (serve rq s)))"
    using Cons.IH serve_closed [of rq s] Cons.prems(2) by simp
  ultimately show ?case using compose by simp
qed

end




text \<open>A field that never held a value, and requests that give it JSON objects only.\<close>

definition is_json :: "attr \<Rightarrow> bool" where
  "is_json v = (case v of DictAttr d \<Rightarrow> True | NoAttr \<Rightarrow> True | _ \<Rightarrow> False)"

definition only_json :: "string \<Rightarrow> (string \<times> attr) list \<Rightarrow> bool" where
  "only_json key data \<longleftrightarrow> key \<noteq> ''status'' \<and> list_all (\<lambda>(k, v). if k = key then is_json v else True) data"

definition stays_unset :: "nat \<Rightarrow> string \<Rightarrow> tables \<Rightarrow> tables \<Rightarrow> bool" where
  "stays_unset uid key t t' \<longleftrightarrow>
     (\<forall>i. get_incident uid t = Some i \<and> get_attr i key = NoAttr \<longrightarrow>
        (\<exists>i'. get_incident uid t' = Some i' \<and> get_attr i' key = NoAttr))"

lemma update_field_unset:
  "get_attr i key = NoAttr \<Longrightarrow> (if fst p = key then is_json (snd p) else True) \<Longrightarrow>
   get_attr (fst (update_field now actor p (i, hs))) key = NoAttr"
  by (cases p; cases "snd p") (auto simp: update_field_def Let_def is_json_def)

lemma update_fields_unset:
  "get_attr i key = NoAttr \<Longrightarrow> list_all (\<lambda>(k, v). if k = key then is_json v else True) data \<Longrightarrow>
   get_attr (fst (fold (update_field now actor) data (i, hs))) key = NoAttr"
proof (induction data arbitrary: i hs)
  case (Cons p data)
  obtain i1 h1 where u: "update_field now actor p (i, hs) = (i1, h1)" by fastforce
  have "get_attr i1 key = NoAttr"
    using update_field_unset [OF Cons.prems(1), of p now actor hs] Cons.prems(2) u by (simp add: case_prod_unfold)
  then show ?case using Cons.IH [of i1 h1] Cons.prems(2) u by simp
qed simp

interpretation unset: table_relation "stays_unset uid ''custom_attributes''" "only_json ''custom_attributes''" for uid
proof
  let ?k = "''custom_attributes''"
  show "t_incidents t' = t_incidents t \<Longrightarrow> t_history t' = t_history t \<Longrightarrow> stays_unset uid ?k t t'" for t t'
    by (simp add: stays_unset_def get_incident_def)
  show "stays_unset uid ?k t t1 \<Longrightarrow> stays_unset uid ?k t1 t2 \<Longrightarrow> stays_unset uid ?k t t2" for t t1 t2
    unfolding stays_unset_def by blast
  show "only_json ?k [(''status'', TextAttr v)]" for v by (simp add: only_json_def)
  show "stays_unset uid ?k t (update_incident now actor data i t)"
    if g: "get_incident u t = Some i" "only_json ?k data" for u t i data now actor
  proof -
    have "get_attr (fst (update_fields now actor data i)) ?k = NoAttr" if "get_attr i ?k = NoAttr"
      using update_fields_unset [OF that, of data now actor "[]"] g(2)
      by (simp add: update_fields_def only_json_def)
    then show ?thesis using g(1) unfolding stays_unset_def update_incident_get [OF g(1)] by auto
  qed
qed

section \<open>Properties\<close>


definition open_case :: session where
  "open_case = (let t = \<lparr>t_incidents = [\<lparr>in_id = 1, in_attrs = [(''status'', EnumAttr ''new'')]\<rparr>],
      t_notes = [], t_history = [], t_audit = []\<rparr> in \<lparr>work = t, durable = t\<rparr>)"

definition escalation :: request where
  "escalation = \<lparr>rq_now = ''2024'', rq_user = 3, rq_ip = ''::1'', rq_incident = 1,
     rq_change = Respond ''escalate'' []\<rparr>"

definition tagging :: request where
  "tagging = \<lparr>rq_now = ''2024'', rq_user = 3, rq_ip = ''::1'', rq_incident = 1,
     rq_change = Patch [(''custom_attributes'', DictAttr ''{1: 2}'')]\<rparr>"

definition open_incident :: incident_row where
  "open_incident = \<lparr>in_id = 1, in_attrs = [(''status'', EnumAttr ''new'')]\<rparr>"

lemma open_case_simps:
  "work open_case = durable open_case" "get_incident 1 (durable open_case) = Some open_incident"
  "t_history (durable open_case) = []" "get_attr open_incident ''custom_attributes'' = NoAttr"
  "old_text (get_attr open_incident ''status'') = Some ''new''"
  by code_simp+


text \<open>
  Custom attributes cannot be given to an incident that has none: the comparison that decides
  whether to set a field reads a new JSON object as "no text", which is what the missing old
  value reads as, so no sequence of requests ever sets the field.
\<close>

theorem custom_attributes_never_set:
  assumes "work s = durable s" and "get_incident uid (durable s) = Some i"
    and "get_attr i ''custom_attributes'' = NoAttr"
    and "list_all (\<lambda>rq. allowed_change (only_json ''custom_attributes'') (rq_change rq)) rqs"
  shows "\<exists>i'. get_incident uid (durable (fold serve rqs s)) = Some i' \<and>
    get_attr i' ''custom_attributes'' = NoAttr"
  using unset.run_relates [OF assms(1,4), of uid] assms(2,3) unfolding stays_unset_def by blast

theorem custom_attributes_never_set_witness:
  "\<exists>i'. get_incident 1 (durable (fold serve [tagging, escalation] open_case)) = Some i' \<and>
     get_attr i' ''custom_attributes'' = NoAttr"
proof -
  have "list_all (\<lambda>rq. allowed_change (only_json ''custom_attributes'') (rq_change rq)) [tagging, escalation]"
    by code_simp
  from custom_attributes_never_set [OF open_case_simps(1,2,4) this] show ?thesis .
qed

lemma update_audit:
  "work s = durable s \<Longrightarrow> get_incident uid (durable s) = Some i \<Longrightarrow> data \<noteq> [] \<Longrightarrow>
   t_audit (durable (snd (update_endpoint now user ip uid data s))) = t_audit (durable s) @
     [\<lparr>au_actor = user, au_action = ''incident.update'', au_resource_id = Some (nat_str uid),
       au_detail = Some (''Updated incident fields: '' @ join '', '' (map fst data)),
       au_changes = Some data, au_ip = ip\<rparr>]"
  by (simp add: update_endpoint_def close_session_def commit_def in_work_def create_audit_entry_def
      update_incident_def Let_def case_prod_unfold)

text \<open>
  A smart response leaves no audit entry, whatever its action does: the endpoint writes it after
  the action has committed and never commits it, so closing the session drops it. The same
  change made by an update of the fields does leave one.
\<close>

theorem smart_response_is_not_audited:
  assumes "work s = durable s" and "get_incident uid (durable s) = Some i"
  shows "t_audit (durable (snd (respond_endpoint now user ip uid action params s))) = t_audit (durable s) \<and>
    length (t_audit (durable (snd (update_endpoint now user ip uid [(''status'', v)] s)))) =
      Suc (length (t_audit (durable s)))"
proof (rule conjI)
  show "t_audit (durable (snd (respond_endpoint now user ip uid action params s))) = t_audit (durable s)"
    using respond_durable [OF assms(1)] by blast
  show "length (t_audit (durable (snd (update_endpoint now user ip uid [(''status'', v)] s)))) =
      Suc (length (t_audit (durable s)))"
    using update_audit [OF assms, of "[(''status'', v)]" now user ip] by simp
qed

theorem smart_response_is_not_audited_witness:
  "t_audit (durable (snd (respond_endpoint ''2024'' 3 ''::1'' 1 ''escalate'' [] open_case))) = []"
proof -
  have "t_audit (durable open_case) = []" by code_simp
  with smart_response_is_not_audited [OF open_case_simps(1,2)] show ?thesis by simp
qed

text \<open>
  A smart response is all or nothing: when it reports a failure the durable tables are as they
  were, also when the action raised half way.
\<close>

theorem failed_response_changes_nothing:
  assumes "work s = durable s" and "\<not> so_success (fst (respond_endpoint now user ip uid action params s))"
  shows "durable (snd (respond_endpoint now user ip uid action params s)) = durable s"
  using respond_durable [OF assms(1), of now user ip uid action params] assms(2) by blast

theorem failed_response_changes_nothing_witness:
  "durable (snd (respond_endpoint ''2024'' 3 ''::1'' 1 ''close'' [] open_case)) = durable open_case"
  by (rule failed_response_changes_nothing [OF open_case_simps(1)]) code_simp

end
