(* ===== verification/Reports.thy ===== *)
theory Reports
  imports Complex_Main PyText "HOL-Library.Multiset"
begin

text \<open>
  \<open>server/services/report_generator.py\<close> (summary, detail and trend of incident records) and
  \<open>server/services/risk_calculator.py\<close> (risk score of a user). A time is a number of seconds;
  floats are rationals, so a rounding is exact; the power \<open>0.95 ** days\<close> is a parameter.
\<close>

section \<open>Rounding\<close>

text \<open>\<open>round\<close>: to the nearest integer, ties to the even one; and to a number of decimals.\<close>

definition round_even :: "rat \<Rightarrow> int" where
  "round_even x =
     (let n = \<lfloor>x\<rfloor>; r = x - of_int n in
      if r < 1 / 2 then n else if r > 1 / 2 then n + 1 else if even n then n else n + 1)"

definition round_to :: "nat \<Rightarrow> rat \<Rightarrow> rat" where
  "round_to d x = of_int (round_even (x * 10 ^ d)) / 10 ^ d"

lemma round_even_of_int [simp]: "round_even (of_int n) = n"
  by (simp add: round_even_def)

lemma round_even_bounds: "of_int (round_even x) - 1 / 2 \<le> x \<and> x \<le> of_int (round_even x) + 1 / 2"
proof -
  define n where "n = \<lfloor>x\<rfloor>"
  have "of_int n \<le> x" "x < of_int n + 1" unfolding n_def by linarith+
  then show ?thesis by (auto simp: round_even_def Let_def n_def [symmetric])
qed

lemma round_even_mono:
  assumes "x \<le> y"
  shows "round_even x \<le> round_even y"
proof (cases "\<lfloor>x\<rfloor> = \<lfloor>y\<rfloor>")
  case True
  then show ?thesis using assms by (auto simp: round_even_def Let_def)
next
  case False
  then have "\<lfloor>x\<rfloor> + 1 \<le> \<lfloor>y\<rfloor>" using floor_mono [OF assms] by linarith
  moreover have "round_even x \<le> \<lfloor>x\<rfloor> + 1" "\<lfloor>y\<rfloor> \<le> round_even y" by (auto simp: round_even_def Let_def)
  ultimately show ?thesis by linarith
qed

section \<open>Records and buckets\<close>

record incident_record =
  ir_id :: string
  ir_policy_name :: string
  ir_severity :: string
  ir_status :: string
  ir_channel :: string
  ir_source_type :: string
  ir_user :: "string option"
  ir_file_name :: "string option"
  ir_action_taken :: string
  ir_match_count :: int
  ir_created_at :: rat

record bucket =
  bk_key :: string
  bk_count :: nat
  bk_percentage :: rat

text \<open>\<open>key_fn(inc) or "unknown"\<close>\<close>

definition or_unknown :: "string option \<Rightarrow> string" where
  "or_unknown k = (case k of None \<Rightarrow> ''unknown'' | Some s \<Rightarrow> if s = [] then ''unknown'' else s)"

definition bump :: "string \<Rightarrow> (string \<times> nat) list \<Rightarrow> (string \<times> nat) list" where
  "bump k counts = dict_set counts k (dict_get counts k 0 + 1)"

definition count_keys :: "string list \<Rightarrow> (string \<times> nat) list" where
  "count_keys ks = fold bump ks []"

definition aggregate :: "incident_record list \<Rightarrow> (incident_record \<Rightarrow> string option) \<Rightarrow> nat \<Rightarrow> bucket list" where
  "aggregate incidents key_fn tot =
     sort_key (\<lambda>b. - int (bk_count b))
       (map (\<lambda>(k, c). \<lparr>bk_key = k, bk_count = c,
                bk_percentage = (if tot > 0 then round_to 1 (of_nat c / of_nat tot * 100) else 0)\<rparr>)
          (count_keys (map (\<lambda>inc. or_unknown (key_fn inc)) incidents)))"

record summary_report =
  sr_start :: rat
  sr_end :: rat
  sr_total :: nat
  by_severity :: "bucket list"
  by_policy :: "bucket list"
  by_channel :: "bucket list"
  by_status :: "bucket list"
  by_source_type :: "bucket list"
  top_users :: "bucket list"

definition in_period :: "rat \<Rightarrow> rat \<Rightarrow> incident_record \<Rightarrow> bool" where
  "in_period a b i \<longleftrightarrow> a \<le> ir_created_at i \<and> ir_created_at i \<le> b"

definition generate_summary :: "incident_record list \<Rightarrow> rat \<Rightarrow> rat \<Rightarrow> summary_report" where
  "generate_summary incidents start_date end_date =
     (let filtered = filter (in_period start_date end_date) incidents; tot = length filtered in
      \<lparr>sr_start = start_date, sr_end = end_date, sr_total = tot,
       by_severity = aggregate filtered (Some \<circ> ir_severity) tot,
       by_policy = aggregate filtered (Some \<circ> ir_policy_name) tot,
       by_channel = aggregate filtered (Some \<circ> ir_channel) tot,
       by_status = aggregate filtered (Some \<circ> ir_status) tot,
       by_source_type = aggregate filtered (Some \<circ> ir_source_type) tot,
       top_users = aggregate filtered ir_user tot\<rparr>)"

record detail_report =
  dr_start :: rat
  dr_end :: rat
  dr_total :: nat
  dr_incidents :: "incident_record list"

definition generate_detail :: "incident_record list \<Rightarrow> rat \<Rightarrow> rat \<Rightarrow> detail_report" where
  "generate_detail incidents start_date end_date =
     (let filtered = sort_key (\<lambda>i. - ir_created_at i) (filter (in_period start_date end_date) incidents) in
      \<lparr>dr_start = start_date, dr_end = end_date, dr_total = length filtered, dr_incidents = filtered\<rparr>)"

section \<open>Trends\<close>

record trend_delta =
  td_metric :: string
  td_current :: nat
  td_previous :: nat
  td_delta :: int
  td_percent :: rat

definition compute_delta :: "string \<Rightarrow> nat \<Rightarrow> nat \<Rightarrow> trend_delta" where
  "compute_delta metric current previous =
     (let delta = int current - int previous in
      \<lparr>td_metric = metric, td_current = current, td_previous = previous, td_delta = delta,
       td_percent = (if previous > 0 then round_to 1 (of_int delta / of_nat previous * 100)
                     else if current > 0 then 100 else 0)\<rparr>)"

fun find_bucket_count :: "bucket list \<Rightarrow> string \<Rightarrow> nat" where
  "find_bucket_count [] key = 0"
| "find_bucket_count (b # bs) key = (if bk_key b = key then bk_count b else find_bucket_count bs key)"

record trend_report =
  tr_current :: summary_report
  tr_previous :: summary_report
  tr_deltas :: "trend_delta list"

definition report_severities :: "string list" where
  "report_severities = [''critical'', ''high'', ''medium'', ''low'', ''info'']"

definition generate_trend :: "incident_record list \<Rightarrow> rat \<Rightarrow> rat \<Rightarrow> trend_report" where
  "generate_trend incidents current_start current_end =
     (let period_length = current_end - current_start;
          previous_end = current_start - 1;
          previous_start = previous_end - period_length;
          current = generate_summary incidents current_start current_end;
          previous = generate_summary incidents previous_start previous_end
      in \<lparr>tr_current = current, tr_previous = previous,
          tr_deltas = compute_delta ''total_incidents'' (sr_total current) (sr_total previous) #
            concat (map (\<lambda>sev.
              (let curr_count = find_bucket_count (by_severity current) sev;
                   prev_count = find_bucket_count (by_severity previous) sev
               in if curr_count > 0 \<or> prev_count > 0
                  then [compute_delta (''severity_'' @ sev) curr_count prev_count] else []))
              report_severities)\<rparr>)"

section \<open>Risk scores\<close>

definition SEVERITY_WEIGHTS :: "(string \<times> int) list" where
  "SEVERITY_WEIGHTS = [(''critical'', 15), (''high'', 10), (''medium'', 5), (''low'', 2), (''info'', 1)]"

definition MAX_SCORE :: int where "MAX_SCORE = 100"

record user_risk =
  ur_user :: string
  ur_raw_score :: rat
  ur_normalized :: int
  ur_incident_count :: nat
  ur_breakdown :: "(string \<times> nat) list"
  ur_latest :: "rat option"
  ur_oldest :: "rat option"

definition decayed_weight :: "(rat \<Rightarrow> rat) \<Rightarrow> rat \<Rightarrow> incident_record \<Rightarrow> rat" where
  "decayed_weight decay ref_time inc =
     (let weight = dict_get SEVERITY_WEIGHTS (ir_severity inc) 1;
          days_ago = max 0 ((ref_time - ir_created_at inc) / 86400)
      in of_int weight * decay days_ago)"

definition normalize_score :: "rat \<Rightarrow> rat \<Rightarrow> int" where
  "normalize_score cap raw_score =
     (let normalized = min MAX_SCORE (round_even (raw_score / cap * of_int MAX_SCORE))
      in if raw_score > 0 then max 1 normalized else 0)"

definition zero_division :: exn where
  "zero_division = Exn (OtherError ''ZeroDivisionError'') ''float division by zero''"

definition score_user ::
  "(rat \<Rightarrow> rat) \<Rightarrow> rat \<Rightarrow> rat \<Rightarrow> string \<Rightarrow> incident_record list \<Rightarrow> user_risk res" where
  "score_user decay ref_time cap user incidents =
     (let raw_score = fold (\<lambda>inc acc. acc + decayed_weight decay ref_time inc) incidents 0;
          dates = map ir_created_at incidents
      in if cap = 0 then Inl zero_division
         else Inr
           \<lparr>ur_user = user, ur_raw_score = round_to 2 raw_score,
            ur_normalized = normalize_score cap raw_score,
            ur_incident_count = length incidents,
            ur_breakdown = count_keys (map ir_severity incidents),
            ur_latest = (if dates = [] then None else Some (Max (set dates))),
            ur_oldest = (if dates = [] then None else Some (Min (set dates)))\<rparr>)"

definition group_by_user :: "incident_record list \<Rightarrow> (string \<times> incident_record list) list" where
  "group_by_user incidents =
     fold (\<lambda>inc groups. (let user = or_unknown (ir_user inc) in
             dict_set groups user (dict_get groups user [] @ [inc]))) incidents []"

definition calculate_user_risk ::
  "(rat \<Rightarrow> rat) \<Rightarrow> rat \<Rightarrow> rat \<Rightarrow> incident_record list \<Rightarrow> user_risk list res" where
  "calculate_user_risk decay ref_time cap incidents =
     rbind (map_res (\<lambda>(user, user_incs). score_user decay ref_time cap user user_incs) (group_by_user incidents))
       (\<lambda>scores. Inr (sort_key (\<lambda>s. - ur_normalized s) scores))"

definition get_risk_level :: "int \<Rightarrow> string" where
  "get_risk_level score =
     (if score \<ge> 80 then ''critical'' else if score \<ge> 60 then ''high''
      else if score \<ge> 40 then ''medium'' else if score \<ge> 20 then ''low'' else ''minimal'')"

section \<open>Lemmas\<close>

text \<open>Counting with a dictionary: every key once, in order of appearance, with its count.\<close>

lemma count_fold:
  "dict_get (fold bump ks d) k 0 = dict_get d k 0 + count_list ks k"
  by (induction ks arbitrary: d) (auto simp: dict_get_def bump_def)

lemma count_keys_dict:
  "distinct (map fst d) \<Longrightarrow>
   distinct (map fst (fold bump ks d)) \<and> fst ` set (fold bump ks d) = fst ` set d \<union> set ks"
proof (induction ks arbitrary: d)
  case (Cons k ks)
  then have "distinct (map fst (bump k d))" by (auto simp: bump_def)
  then show ?case using Cons.IH by (auto simp: bump_def keys_dict_set)
qed simp

lemma count_keys_spec:
  "distinct (map fst (count_keys ks)) \<and> set (count_keys ks) = {(k, count_list ks k) | k. k \<in> set ks}"
proof -
  have d: "distinct (map fst (count_keys ks))" "fst ` set (count_keys ks) = set ks"
    using count_keys_dict [of "[]" ks] by (simp_all add: count_keys_def)
  have "dict_get (count_keys ks) k 0 = count_list ks k" for k
    using count_fold [of ks "[]" k] by (simp add: count_keys_def dict_get_def)
  then have v: "c = count_list ks k" if "(k, c) \<in> set (count_keys ks)" for k c
    using map_of_is_SomeI [OF d(1) that] by (metis dict_get_def option.simps(5))
  have "id ` set (count_keys ks) = (\<lambda>p. (fst p, count_list ks (fst p))) ` set (count_keys ks)"
    by (rule image_cong) (auto dest: v)
  also have "\<dots> = (\<lambda>k. (k, count_list ks k)) ` set ks"
    unfolding d(2) [symmetric] image_image ..
  finally show ?thesis using d(1) by auto
qed

lemma sum_count_list: "(\<Sum>k \<in> set ks. count_list ks k) = length ks"
  by (rule sum_count_set) auto

lemma count_keys_sum: "sum_list (map snd (count_keys ks)) = length ks"
proof -
  have "sum_list (map snd (count_keys ks)) = (\<Sum>p \<in> set (count_keys ks). snd p)"
    using count_keys_spec [of ks] by (simp add: sum_list_distinct_conv_sum_set distinct_map)
  also have "set (count_keys ks) = (\<lambda>k. (k, count_list ks k)) ` set ks" using count_keys_spec [of ks] by auto
  also have "(\<Sum>p \<in> (\<lambda>k. (k, count_list ks k)) ` set ks. snd p) = (\<Sum>k \<in> set ks. count_list ks k)"
    by (subst sum.reindex) (auto simp: inj_on_def)
  finally show ?thesis by (simp add: sum_count_list)
qed

lemma mset_sort_key: "mset (map f (sort_key g xs)) = mset (map f xs)"
  by simp

lemma aggregate_keys:
  "mset (map (\<lambda>b. (bk_key b, bk_count b)) (aggregate incidents key_fn tot)) =
     mset (count_keys (map (\<lambda>inc. or_unknown (key_fn inc)) incidents))"
  unfolding aggregate_def mset_sort_key by (simp add: comp_def case_prod_unfold)

text \<open>Grouping: a dictionary from users to their incidents, in order.\<close>

lemma group_fold:
  "dict_get (fold (\<lambda>inc groups. (let user = or_unknown (ir_user inc) in
       dict_set groups user (dict_get groups user [] @ [inc]))) incs d) u [] =
     dict_get d u [] @ filter (\<lambda>inc. or_unknown (ir_user inc) = u) incs"
  by (induction incs arbitrary: d) (auto simp: dict_get_def Let_def)

lemma group_keys:
  "distinct (map fst d) \<Longrightarrow>
   distinct (map fst (fold (\<lambda>inc groups. (let user = or_unknown (ir_user inc) in
       dict_set groups user (dict_get groups user [] @ [inc]))) incs d)) \<and>
   fst ` set (fold (\<lambda>inc groups. (let user = or_unknown (ir_user inc) in
       dict_set groups user (dict_get groups user [] @ [inc]))) incs d) =
     fst ` set d \<union> (\<lambda>inc. or_unknown (ir_user inc)) ` set incs"
proof (induction incs arbitrary: d)
  case (Cons inc incs)
  let ?u = "or_unknown (ir_user inc)"
  have "distinct (map fst (dict_set d ?u (dict_get d ?u [] @ [inc])))" using Cons.prems by auto
  from Cons.IH [OF this] show ?case by (simp add: Let_def keys_dict_set)
qed simp

lemma group_by_user_spec:
  "distinct (map fst (group_by_user incs)) \<and>
   fst ` set (group_by_user incs) = (\<lambda>inc. or_unknown (ir_user inc)) ` set incs \<and>
   (\<forall>(u, gs) \<in> set (group_by_user incs). gs = filter (\<lambda>inc. or_unknown (ir_user inc) = u) incs)"
proof -
  have d: "distinct (map fst (group_by_user incs))"
    using group_keys [of "[]" incs] by (simp add: group_by_user_def)
  have "gs = filter (\<lambda>inc. or_unknown (ir_user inc) = u) incs" if "(u, gs) \<in> set (group_by_user incs)" for u gs
    using map_of_is_SomeI [OF d that] group_fold [of incs "[]" u]
    by (simp add: group_by_user_def dict_get_def)
  then show ?thesis using d group_keys [of "[]" incs] by (auto simp: group_by_user_def)
qed

lemma sorted_negated: "sorted (map (\<lambda>b. - int (f b)) xs) \<Longrightarrow> sorted (rev (map f xs))"
  by (induction xs) (auto simp: sorted_append)

section \<open>Properties\<close>

text \<open>
  An aggregation counts every incident once: its buckets have different keys, each holds the
  number of incidents with its key, they are ordered by that number, the largest first, and
  they add up to the number of incidents.
\<close>

theorem aggregate_correct:
  "distinct (map bk_key (aggregate incs f tot)) \<and>
   sorted (rev (map bk_count (aggregate incs f tot))) \<and>
   sum_list (map bk_count (aggregate incs f tot)) = length incs \<and>
   list_all (\<lambda>b. bk_count b = length (filter (\<lambda>i. or_unknown (f i) = bk_key b) incs)) (aggregate incs f tot)"
proof -
  let ?a = "aggregate incs f tot" and ?ks = "map (\<lambda>inc. or_unknown (f inc)) incs"
  have m: "mset (map (\<lambda>b. (bk_key b, bk_count b)) ?a) = mset (count_keys ?ks)" by (rule aggregate_keys)
  have "mset (map bk_key ?a) = mset (map fst (count_keys ?ks))"
    using arg_cong [OF m, of "image_mset fst"] by (simp add: image_mset.compositionality comp_def flip: mset_map)
  then have d: "distinct (map bk_key ?a)"
    using count_keys_spec [of ?ks] mset_eq_imp_distinct_iff by blast
  have "mset (map bk_count ?a) = mset (map snd (count_keys ?ks))"
    using arg_cong [OF m, of "image_mset snd"] by (simp add: image_mset.compositionality comp_def flip: mset_map)
  then have "sum_list (map bk_count ?a) = sum_list (map snd (count_keys ?ks))"
    by (metis sum_mset_sum_list)
  then have t: "sum_list (map bk_count ?a) = length incs" by (simp add: count_keys_sum)
  have "sorted (map (\<lambda>b. - int (bk_count b)) ?a)" unfolding aggregate_def by (rule sorted_sort_key)
  then have o: "sorted (rev (map bk_count ?a))" by (rule sorted_negated)
  have "(bk_key b, bk_count b) \<in> set (count_keys ?ks)" if "b \<in> set ?a" for b
    using arg_cong [OF m, of set_mset] that by auto
  then have "bk_count b = count_list ?ks (bk_key b)" if "b \<in> set ?a" for b
    using that count_keys_spec [of ?ks] by fastforce
  moreover have "count_list ?ks k = length (filter (\<lambda>i. or_unknown (f i) = k) incs)" for k
    by (induction incs) auto
  ultimately show ?thesis using d t o by (simp add: list_all_iff)
qed

text \<open>
  The two periods of a trend leave out the second between them: the previous period ends one
  second before the current one starts, so an incident later than that and before the start is
  counted in neither.
\<close>

theorem trend_skips_last_second:
  assumes "current_start - 1 < ir_created_at i" and "ir_created_at i < current_start"
  shows "sr_total (tr_current (generate_trend [i] current_start current_end)) = 0 \<and>
    sr_total (tr_previous (generate_trend [i] current_start current_end)) = 0"
  using assms by (simp add: generate_trend_def generate_summary_def Let_def in_period_def)

definition some_incident :: incident_record where
  "some_incident = \<lparr>ir_id = ''1'', ir_policy_name = ''PCI'', ir_severity = ''high'', ir_status = ''new'',
     ir_channel = ''email'', ir_source_type = ''network'', ir_user = Some ''ann'', ir_file_name = None,
     ir_action_taken = ''log'', ir_match_count = 1, ir_created_at = 199 / 2\<rparr>"

theorem trend_skips_last_second_witness:
  "sr_total (tr_previous (generate_trend [some_incident] 100 200)) = 0"
  using trend_skips_last_second [of 100 some_incident 200] by (simp add: some_incident_def)

text \<open>The power \<open>0.95 ** d\<close> as the code relies on it: between zero and one for a past day.\<close>

definition decay_ok :: "(rat \<Rightarrow> rat) \<Rightarrow> bool" where
  "decay_ok decay \<longleftrightarrow> (\<forall>d \<ge> 0. 0 \<le> decay d \<and> decay d \<le> 1)"

lemma decayed_weight_nonneg: "decay_ok decay \<Longrightarrow> 0 \<le> decayed_weight decay t inc"
  by (auto simp: decayed_weight_def Let_def decay_ok_def SEVERITY_WEIGHTS_def dict_get_def
      split: option.split if_splits)

lemma fold_weights: "fold (\<lambda>inc acc. acc + decayed_weight decay t inc) incs a =
    a + sum_list (map (decayed_weight decay t) incs)"
  by (induction incs arbitrary: a) (simp_all add: add.assoc)

lemma normalize_score_bounds: "0 \<le> normalize_score cap raw \<and> normalize_score cap raw \<le> 100"
  by (auto simp: normalize_score_def Let_def MAX_SCORE_def)

lemma normalize_score_mono:
  assumes "0 < cap" "0 \<le> raw" "raw \<le> raw'"
  shows "normalize_score cap raw \<le> normalize_score cap raw'"
proof -
  have "raw / cap * 100 \<le> raw' / cap * 100" using assms by (simp add: divide_right_mono)
  from round_even_mono [OF this] show ?thesis
    using assms by (auto simp: normalize_score_def Let_def MAX_SCORE_def)
qed

lemma score_user_eq:
  "cap \<noteq> 0 \<Longrightarrow> \<exists>s. score_user decay t cap u incs = Inr s \<and> ur_user s = u \<and>
     ur_incident_count s = length incs \<and>
     ur_normalized s = normalize_score cap (sum_list (map (decayed_weight decay t) incs))"
  by (simp add: score_user_def fold_weights Let_def)

lemma group_lengths: "sum_list (map (\<lambda>p. length (snd p)) (group_by_user incs)) = length incs"
proof -
  let ?u = "\<lambda>inc. or_unknown (ir_user inc)"
  have g: "distinct (map fst (group_by_user incs))" "fst ` set (group_by_user incs) = ?u ` set incs"
    "\<And>p. p \<in> set (group_by_user incs) \<Longrightarrow> length (snd p) = count_list (map ?u incs) (fst p)"
  proof -
    have c: "length (filter (\<lambda>inc. ?u inc = u) incs) = count_list (map ?u incs) u" for u by (induction incs) auto
    show "distinct (map fst (group_by_user incs))" "fst ` set (group_by_user incs) = ?u ` set incs"
      using group_by_user_spec [of incs] by auto
    show "length (snd p) = count_list (map ?u incs) (fst p)" if "p \<in> set (group_by_user incs)" for p
      using group_by_user_spec [of incs] that c by (cases p) auto
  qed
  have "sum_list (map (\<lambda>p. length (snd p)) (group_by_user incs)) =
      sum_list (map (count_list (map ?u incs)) (map fst (group_by_user incs)))"
    using g(3) by (simp add: comp_def cong: map_cong)
  also have "\<dots> = (\<Sum>u \<in> ?u ` set incs. count_list (map ?u incs) u)"
    unfolding sum_list_distinct_conv_sum_set [OF g(1)] set_map g(2) ..
  also have "\<dots> = length incs" using sum_count_list [of "map ?u incs"] by simp
  finally show ?thesis .
qed

text \<open>
  Every incident counts for exactly one user: with a positive cap the report has each user once,
  the users' incidents add up to all of them, the scores are between 0 and 100, and the users
  come in order of their scores, the highest first.
\<close>

lemma risk_report_spec:
  assumes "0 < cap"
  shows "\<exists>scores. calculate_user_risk decay ref_time cap incs = Inr scores \<and>
    distinct (map ur_user scores) \<and>
    set (map ur_user scores) = set (map (\<lambda>inc. or_unknown (ir_user inc)) incs) \<and>
    sum_list (map ur_incident_count scores) = length incs \<and>
    sorted (rev (map ur_normalized scores)) \<and>
    list_all (\<lambda>s. 0 \<le> ur_normalized s \<and> ur_normalized s \<le> 100) scores"
proof -
  let ?P = "\<lambda>(u, gs) s. ur_user s = u \<and> ur_incident_count s = length gs \<and>
      0 \<le> ur_normalized s \<and> ur_normalized s \<le> 100"
  have "\<exists>s. (\<lambda>(u, gs). score_user decay ref_time cap u gs) p = Inr s \<and> ?P p s" for p
    using score_user_eq [of cap decay ref_time "fst p" "snd p"] assms normalize_score_bounds
    by (cases p) fastforce
  then obtain ss where ss: "map_res (\<lambda>(u, gs). score_user decay ref_time cap u gs) (group_by_user incs) = Inr ss"
      "list_all2 ?P (group_by_user incs) ss"
    using map_res_total_rel [of "group_by_user incs" "\<lambda>(u, gs). score_user decay ref_time cap u gs" ?P] by blast
  let ?scores = "sort_key (\<lambda>s. - ur_normalized s) ss"
  have u: "map ur_user ss = map fst (group_by_user incs)"
    and c: "map ur_incident_count ss = map (\<lambda>p. length (snd p)) (group_by_user incs)"
    using ss(2) by (induction rule: list_all2_induct) auto
  have mu: "mset (map ur_user ?scores) = mset (map fst (group_by_user incs))"
    unfolding mset_sort_key u ..
  have mc: "mset (map ur_incident_count ?scores) = mset (map (\<lambda>p. length (snd p)) (group_by_user incs))"
    unfolding mset_sort_key c ..
  have "distinct (map ur_user ?scores)"
    using mset_eq_imp_distinct_iff [OF mu] group_by_user_spec [of incs] by blast
  moreover have "set (map ur_user ?scores) = set (map fst (group_by_user incs))"
    by (rule mset_eq_setD [OF mu])
  moreover have "sum_list (map ur_incident_count ?scores) = length incs"
    using arg_cong [OF mc, of sum_mset] unfolding sum_mset_sum_list group_lengths .
  moreover have "sorted (rev (map ur_normalized ?scores))"
  proof -
    have "sorted (map (\<lambda>s. - ur_normalized s) xs) \<Longrightarrow> sorted (rev (map ur_normalized xs))" for xs
      by (induction xs) (auto simp: sorted_append)
    then show ?thesis using sorted_sort_key by blast
  qed
  moreover have "\<forall>s \<in> set ss. 0 \<le> ur_normalized s \<and> ur_normalized s \<le> 100"
    using ss(2) by (induction rule: list_all2_induct) auto
  ultimately show ?thesis using ss(1) group_by_user_spec [of incs]
    by (intro exI [of _ ?scores]) (simp add: calculate_user_risk_def list_all_iff)
qed

text \<open>
  One more incident never lowers a user's score.
\<close>

theorem risk_score_monotone:
  assumes "0 < cap" and "decay_ok decay"
  shows "\<exists>s s'. score_user decay ref_time cap user incs = Inr s \<and>
    score_user decay ref_time cap user (incs @ [inc]) = Inr s' \<and> ur_normalized s \<le> ur_normalized s'"
proof -
  have "0 \<le> sum_list (map (decayed_weight decay ref_time) incs)"
    using decayed_weight_nonneg [OF assms(2)] by (intro sum_list_nonneg) auto
  moreover have "0 \<le> decayed_weight decay ref_time inc" by (rule decayed_weight_nonneg [OF assms(2)])
  ultimately have "normalize_score cap (sum_list (map (decayed_weight decay ref_time) incs)) \<le>
      normalize_score cap (sum_list (map (decayed_weight decay ref_time) (incs @ [inc])))"
    by (intro normalize_score_mono [OF assms(1)]) simp_all
  then show ?thesis
    using score_user_eq [of cap decay ref_time user incs] score_user_eq [of cap decay ref_time user "incs @ [inc]"]
      assms(1) by fastforce
qed

theorem risk_score_monotone_witness:
  "\<exists>s s'. score_user (\<lambda>_. 1) 100 50 ''ann'' [] = Inr s \<and>
     score_user (\<lambda>_. 1) 100 50 ''ann'' [some_incident] = Inr s' \<and> ur_normalized s \<le> ur_normalized s'"
proof -
  have "(0 :: rat) < 50" "decay_ok (\<lambda>_. 1)" by (simp_all add: decay_ok_def)
  from risk_score_monotone [OF this, of 100 "''ann''" "[]" some_incident] show ?thesis by simp
qed

end
