(* ===== verification/ReportExport.thy ===== *)
theory ReportExport
  imports Reports
begin

text \<open>
  The CSV export of \<open>server/services/report_exporter.py\<close>. The writer is that of the \<open>csv\<close>
  module's default dialect; a reader of the same dialect is defined to state what the export
  means. The byte order mark before the first row is left out of the texts, the printing of
  times and floats is a parameter.
\<close>

section \<open>Writing rows\<close>

abbreviation quote :: char where "quote \<equiv> CHR 0x22"
abbreviation comma :: char where "comma \<equiv> CHR 0x2C"
abbreviation cr :: char where "cr \<equiv> CHR 0x0D"
abbreviation lf :: char where "lf \<equiv> CHR 0x0A"

definition needs_quotes :: "string \<Rightarrow> bool" where
  "needs_quotes s \<longleftrightarrow> list_ex (\<lambda>c. c = comma \<or> c = quote \<or> c = cr \<or> c = lf) s"

definition double_quotes :: "string \<Rightarrow> string" where
  "double_quotes s = concat (map (\<lambda>c. if c = quote then [quote, quote] else [c]) s)"

definition csv_field :: "string \<Rightarrow> string" where
  "csv_field s = (if needs_quotes s then [quote] @ double_quotes s @ [quote] else s)"

text \<open>\<open>writerow\<close>: a row of one empty field is written as an empty quoted field.\<close>

definition csv_row :: "string list \<Rightarrow> string" where
  "csv_row cells =
     (if cells = [[]] then [quote, quote] else join [comma] (map csv_field cells)) @ [cr, lf]"

definition csv_rows :: "string list list \<Rightarrow> string" where
  "csv_rows rows = concat (map csv_row rows)"

section \<open>Exports\<close>

definition detail_header :: "string list" where
  "detail_header = [''ID'', ''Policy'', ''Severity'', ''Status'', ''Channel'', ''Source Type'', ''User'',
     ''File Name'', ''Action Taken'', ''Match Count'', ''Created At'']"

definition or_empty :: "string option \<Rightarrow> string" where
  "or_empty s = (case s of None \<Rightarrow> [] | Some x \<Rightarrow> x)"

definition detail_row :: "(rat \<Rightarrow> string) \<Rightarrow> incident_record \<Rightarrow> string list" where
  "detail_row isoformat inc =
     [ir_id inc, ir_policy_name inc, ir_severity inc, ir_status inc, ir_channel inc, ir_source_type inc,
      or_empty (ir_user inc), or_empty (ir_file_name inc), ir_action_taken inc,
      int_str (ir_match_count inc), isoformat (ir_created_at inc)]"

definition export_detail_csv :: "(rat \<Rightarrow> string) \<Rightarrow> detail_report \<Rightarrow> string" where
  "export_detail_csv isoformat report =
     csv_rows (detail_header # map (detail_row isoformat) (dr_incidents report))"

record printer =
  date_of :: "rat \<Rightarrow> string"
  percent_of :: "rat \<Rightarrow> string"

definition summary_sections :: "summary_report \<Rightarrow> (string \<times> bucket list) list" where
  "summary_sections r =
     [(''By Severity'', by_severity r), (''By Policy'', by_policy r), (''By Channel'', by_channel r),
      (''By Status'', by_status r), (''By Source Type'', by_source_type r), (''Top Users'', top_users r)]"

definition export_summary_csv :: "printer \<Rightarrow> summary_report \<Rightarrow> string" where
  "export_summary_csv pr r =
     csv_rows
       ([[''Summary Report''],
         [''Period'', date_of pr (sr_start r) @ '' to '' @ date_of pr (sr_end r)],
         [''Total Incidents'', nat_str (sr_total r)], []] @
        concat (map (\<lambda>(title, buckets).
          [[title], [''Category'', ''Count'', ''Percentage'']] @
          map (\<lambda>b. [bk_key b, nat_str (bk_count b), percent_of pr (bk_percentage b) @ ''%'']) buckets @ [[]])
          (summary_sections r)))"

text \<open>\<open>metric.replace("_", " ").title()\<close>: a letter after a letter is lowered, any other raised.\<close>

definition title_char :: "bool \<Rightarrow> char \<Rightarrow> char" where
  "title_char after_letter c =
     (if after_letter then lower_char c
      else if 97 \<le> code c \<and> code c \<le> 122 then char_of (code c - 32) else c)"

fun title_from :: "bool \<Rightarrow> string \<Rightarrow> string" where
  "title_from after_letter [] = []"
| "title_from after_letter (c # cs) = title_char after_letter c # title_from (is_alpha c) cs"

definition metric_title :: "string \<Rightarrow> string" where
  "metric_title metric = title_from False (map (\<lambda>c. if c = CHR ''_'' then CHR '' '' else c) metric)"

definition trend_row :: "printer \<Rightarrow> trend_delta \<Rightarrow> string list" where
  "trend_row pr d =
     [metric_title (td_metric d), nat_str (td_current d), nat_str (td_previous d),
      (if td_delta d > 0 then ''+'' else []) @ int_str (td_delta d),
      (if td_percent d > 0 then ''+'' else []) @ percent_of pr (td_percent d) @ ''%'']"

definition export_trend_csv :: "printer \<Rightarrow> trend_report \<Rightarrow> string" where
  "export_trend_csv pr r =
     csv_rows
       ([[''Trend Report''],
         [''Current Period'', date_of pr (sr_start (tr_current r)) @ '' to '' @ date_of pr (sr_end (tr_current r))],
         [''Previous Period'', date_of pr (sr_start (tr_previous r)) @ '' to '' @ date_of pr (sr_end (tr_previous r))],
         [], [''Metric'', ''Current'', ''Previous'', ''Delta'', ''Change %'']] @
        map (trend_row pr) (tr_deltas r))"

section \<open>A reader of the same dialect\<close>

datatype csv_state = Row_Start | Field_Start | In_Field | In_Quotes | Quote_Seen

text \<open>\<open>csv_read st f row s\<close>: \<open>f\<close> is the field read so far, \<open>row\<close> the fields before it.\<close>

fun csv_read :: "csv_state \<Rightarrow> string \<Rightarrow> string list \<Rightarrow> string \<Rightarrow> string list list" where
  "csv_read st f row [] = (if st = Row_Start then [] else [row @ [f]])"
| "csv_read In_Quotes f row (c # cs) =
     (if c = quote then csv_read Quote_Seen f row cs else csv_read In_Quotes (f @ [c]) row cs)"
| "csv_read st f row (c # cs) =
     (if c = quote then
        (if st = Quote_Seen then csv_read In_Quotes (f @ [quote]) row cs
         else if st = In_Field then csv_read In_Field (f @ [c]) row cs
         else csv_read In_Quotes f row cs)
      else if c = comma then csv_read Field_Start [] (row @ [f]) cs
      else if c = cr then csv_read st f row cs
      else if c = lf then
        (if st = Row_Start then [] else row @ [f]) # csv_read Row_Start [] [] cs
      else csv_read In_Field (f @ [c]) row cs)"

definition csv_parse :: "string \<Rightarrow> string list list" where
  "csv_parse s = csv_read Row_Start [] [] s"

lemma read_plain:
  "\<not> needs_quotes s \<Longrightarrow> st \<noteq> In_Quotes \<Longrightarrow>
   csv_read st f row (s @ rest) = csv_read (if s = [] then st else In_Field) (f @ s) row rest"
proof (induction s arbitrary: st f)
  case (Cons c s)
  then show ?case by (cases st) (auto simp: needs_quotes_def)
qed simp

lemma read_quoted:
  "csv_read In_Quotes f row (double_quotes s @ quote # rest) = csv_read Quote_Seen (f @ s) row rest"
  by (induction s arbitrary: f) (auto simp: double_quotes_def)

text \<open>After a field the reader stands before a comma or the end of the row.\<close>

lemma read_field:
  assumes "st = Row_Start \<or> st = Field_Start"
  shows "csv_read st [] row (csv_field s @ comma # rest) = csv_read Field_Start [] (row @ [s]) rest"
    and "st = Field_Start \<or> s \<noteq> [] \<Longrightarrow>
      csv_read st [] row (csv_field s @ cr # lf # rest) = (row @ [s]) # csv_read Row_Start [] [] rest"
  using assms read_plain [of s st "[]" row] read_quoted [of "[]" row s]
  by (cases "needs_quotes s"; auto simp: csv_field_def)+

lemma read_fields:
  assumes "fs \<noteq> []" "st = Row_Start \<or> st = Field_Start"
    and "st = Field_Start \<or> fs \<noteq> [[]]"
  shows "csv_read st [] row (join [comma] (map csv_field fs) @ cr # lf # rest) =
    (row @ fs) # csv_read Row_Start [] [] rest"
  using assms
proof (induction fs arbitrary: st row)
  case (Cons f fs)
  show ?case
  proof (cases fs)
    case Nil
    then show ?thesis using read_field(2) [OF Cons.prems(2), of f row rest] Cons.prems(3) by simp
  next
    case (Cons g gs)
    then show ?thesis
      using read_field(1) [OF Cons.prems(2), of row f] Cons.IH [of Field_Start "row @ [f]"] by simp
  qed
qed simp

lemma read_row: "csv_read Row_Start [] [] (csv_row cells @ rest) = cells # csv_read Row_Start [] [] rest"
proof (cases "cells = [] \<or> cells = [[]]")
  case True
  then show ?thesis by (auto simp: csv_row_def)
next
  case False
  then show ?thesis using read_fields [of cells Row_Start "[]" rest] by (simp add: csv_row_def)
qed

lemma csv_parse_rows: "csv_parse (csv_rows rows) = rows"
proof -
  have "csv_read Row_Start [] [] (csv_rows rows) = rows"
    by (induction rows) (simp_all add: csv_rows_def read_row)
  then show ?thesis by (simp add: csv_parse_def)
qed

section \<open>Properties\<close>

text \<open>
  C35: The exported table reads back as the report: parsing the CSV text of a detail report gives the
  header and one row for each incident of the period, the newest first, with every field as it
  was, whatever commas, quotes or line breaks it holds.
\<close>

theorem detail_csv_reads_back:
  "csv_parse (export_detail_csv isoformat (generate_detail incidents a b)) =
     detail_header # map (detail_row isoformat)
       (sort_key (\<lambda>i. - ir_created_at i) (filter (\<lambda>i. a \<le> ir_created_at i \<and> ir_created_at i \<le> b) incidents))"
  by (simp add: export_detail_csv_def csv_parse_rows generate_detail_def Let_def in_period_def [abs_def])

end
