(* ===== verification/Discover.thy ===== *)
theory Discover
  imports Tables Json CommandQueue
begin

text \<open>
  Scans of data at rest: \<open>server/services/discover_service.py\<close> over \<open>server/models/discover.py\<close>
  and the endpoints of \<open>server/api/discover.py\<close>. A scan is created pending, triggered (which
  also queues a command for its agent) and completed with results.
\<close>

section \<open>Scans\<close>

datatype discover_status = PENDING | RUNNING | COMPLETED | FAILED | CANCELLED

fun discover_status_value :: "discover_status \<Rightarrow> string" where
  "discover_status_value PENDING = ''pending''"
| "discover_status_value RUNNING = ''running''"
| "discover_status_value COMPLETED = ''completed''"
| "discover_status_value FAILED = ''failed''"
| "discover_status_value CANCELLED = ''cancelled''"

record scan =
  sc_id :: nat
  sc_name :: string
  sc_agent :: "nat option"
  sc_status :: discover_status
  sc_path :: string
  sc_recursive :: bool
  sc_extensions :: "string list option"
  sc_exclusions :: "string list option"
  sc_started :: "int option"
  sc_completed :: "int option"
  sc_examined :: int
  sc_scanned :: int
  sc_violations :: int
  sc_quarantined :: int
  sc_duration :: "int option"
  sc_findings :: "json option"
  sc_created :: int

record scan_tables =
  st_scans :: "scan list"
  st_next :: nat

section \<open>The service\<close>

text \<open>
  \<open>list_discovers\<close>: a filter that is missing or empty does not apply; a status that is no member
  of the enumeration, or an agent id that is no UUID, is refused by the database.
\<close>

text \<open>The column takes a member by its value or by its name.\<close>

definition discover_status_of :: "string \<Rightarrow> discover_status option" where
  "discover_status_of v =
     map_of [(''pending'', PENDING), (''running'', RUNNING), (''completed'', COMPLETED), (''failed'', FAILED),
             (''cancelled'', CANCELLED), (''PENDING'', PENDING), (''RUNNING'', RUNNING), (''COMPLETED'', COMPLETED),
             (''FAILED'', FAILED), (''CANCELLED'', CANCELLED)] v"

definition list_discovers ::
  "nat \<Rightarrow> nat \<Rightarrow> string option \<Rightarrow> string option \<Rightarrow> string option \<Rightarrow> scan_tables \<Rightarrow> (scan list \<times> nat) res" where
  "list_discovers page page_size status_filter agent_id search t =
     (let by_status = (case wanted status_filter of None \<Rightarrow> (\<lambda>sc. True)
                       | Some v \<Rightarrow> (\<lambda>sc. discover_status_of v = Some (sc_status sc)));
          by_agent = (case wanted agent_id of None \<Rightarrow> (\<lambda>sc. True)
                      | Some v \<Rightarrow> (\<lambda>sc. sc_agent sc \<noteq> None \<and> sc_agent sc = parse_uuid v));
          by_name = (case wanted search of None \<Rightarrow> (\<lambda>sc. True)
                     | Some v \<Rightarrow> (\<lambda>sc. ilike (search_pattern v) (sc_name sc)));
          base = filter (\<lambda>sc. by_status sc \<and> by_agent sc \<and> by_name sc) (st_scans t)
      in if (case wanted status_filter of None \<Rightarrow> False | Some v \<Rightarrow> discover_status_of v = None) \<or>
            (case wanted agent_id of None \<Rightarrow> False | Some v \<Rightarrow> parse_uuid v = None)
         then Inl db_error
         else Inr (page_of page page_size (sort_key (\<lambda>sc. - sc_created sc) base), length base))"

definition get_discover :: "nat \<Rightarrow> scan_tables \<Rightarrow> scan option" where
  "get_discover did t = find (\<lambda>sc. sc_id sc = did) (st_scans t)"

definition replace_scan :: "scan \<Rightarrow> scan_tables \<Rightarrow> scan_tables" where
  "replace_scan sc t = t\<lparr>st_scans := map (\<lambda>q. if sc_id q = sc_id sc then sc else q) (st_scans t)\<rparr>"

record scan_data =
  sd_name :: string
  sd_agent :: "nat option"
  sd_path :: string
  sd_recursive :: "bool option"
  sd_extensions :: "string list option"
  sd_exclusions :: "string list option"

definition create_discover :: "int \<Rightarrow> scan_data \<Rightarrow> scan_tables \<Rightarrow> scan \<times> scan_tables" where
  "create_discover now d t =
     (let sc = \<lparr>sc_id = st_next t, sc_name = sd_name d, sc_agent = sd_agent d, sc_status = PENDING,
                sc_path = sd_path d,
                sc_recursive = (case sd_recursive d of Some b \<Rightarrow> b | None \<Rightarrow> True),
                sc_extensions = sd_extensions d, sc_exclusions = sd_exclusions d, sc_started = None,
                sc_completed = None, sc_examined = 0, sc_scanned = 0, sc_violations = 0, sc_quarantined = 0,
                sc_duration = None, sc_findings = None, sc_created = now\<rparr>
      in (sc, t\<lparr>st_scans := st_scans t @ [sc], st_next := st_next t + 1\<rparr>))"

text \<open>
  An entry of the data of an update. Here a \<open>null\<close> is assigned; a column that must not be null
  then makes the flush fail.
\<close>

datatype scan_change =
    ScName "string option"
  | ScAgent "nat option"
  | ScPath "string option"
  | ScRecursive "bool option"
  | ScExtensions "string list option"
  | ScExclusions "string list option"

fun set_scan_field :: "scan_change \<Rightarrow> scan \<Rightarrow> scan res" where
  "set_scan_field (ScName (Some v)) sc = Inr (sc\<lparr>sc_name := v\<rparr>)"
| "set_scan_field (ScPath (Some v)) sc = Inr (sc\<lparr>sc_path := v\<rparr>)"
| "set_scan_field (ScRecursive (Some v)) sc = Inr (sc\<lparr>sc_recursive := v\<rparr>)"
| "set_scan_field (ScAgent v) sc = Inr (sc\<lparr>sc_agent := v\<rparr>)"
| "set_scan_field (ScExtensions v) sc = Inr (sc\<lparr>sc_extensions := v\<rparr>)"
| "set_scan_field (ScExclusions v) sc = Inr (sc\<lparr>sc_exclusions := v\<rparr>)"
| "set_scan_field _ sc = Inl (Exn (OtherError ''IntegrityError'') ''null value in column'')"

definition update_discover :: "scan \<Rightarrow> scan_change list \<Rightarrow> scan_tables \<Rightarrow> (scan \<times> scan_tables) res" where
  "update_discover sc data t = rbind (fold_res set_scan_field data sc) (\<lambda>sc1. Inr (sc1, replace_scan sc1 t))"

definition trigger_discover :: "int \<Rightarrow> scan \<Rightarrow> scan_tables \<Rightarrow> scan \<times> scan_tables" where
  "trigger_discover now sc t =
     (let sc1 = sc\<lparr>sc_status := RUNNING, sc_started := Some now\<rparr> in (sc1, replace_scan sc1 t))"

record scan_results =
  sr_examined :: int
  sr_scanned :: int
  sr_violations :: int
  sr_quarantined :: int
  sr_duration :: "int option"
  sr_findings :: "json option"

definition complete_discover :: "int \<Rightarrow> scan \<Rightarrow> scan_results \<Rightarrow> scan_tables \<Rightarrow> scan \<times> scan_tables" where
  "complete_discover now sc d t =
     (let sc1 = sc\<lparr>sc_status := COMPLETED, sc_completed := Some now, sc_examined := sr_examined d,
                   sc_scanned := sr_scanned d, sc_violations := sr_violations d,
                   sc_quarantined := sr_quarantined d, sc_duration := sr_duration d,
                   sc_findings := sr_findings d\<rparr>
      in (sc1, replace_scan sc1 t))"

section \<open>The endpoints\<close>

text \<open>
  The scans a session works on and the command queue of the process. Every endpoint that
  changes a scan commits; one that raises leaves the tables as they were.
\<close>

record scan_server =
  ss_tables :: scan_tables
  ss_queue :: command_queue

definition scan_not_found :: http_error where
  "scan_not_found = HttpError 404 ''Discover scan not found''"

definition create_discover_endpoint :: "int \<Rightarrow> scan_data \<Rightarrow> scan_server \<Rightarrow> scan \<times> scan_server" where
  "create_discover_endpoint now body s =
     (let (sc, t) = create_discover now body (ss_tables s) in (sc, s\<lparr>ss_tables := t\<rparr>))"

definition update_discover_endpoint ::
  "nat \<Rightarrow> scan_change list \<Rightarrow> scan_server \<Rightarrow> (http_error + scan) \<times> scan_server" where
  "update_discover_endpoint did data s =
     (case get_discover did (ss_tables s) of
        None \<Rightarrow> (Inl scan_not_found, s)
      | Some sc \<Rightarrow>
          if data = [] then (Inl (HttpError 400 ''No fields to update''), s)
          else (case update_discover sc data (ss_tables s) of
                  Inl e \<Rightarrow> (Inl internal_error, s)
                | Inr (sc1, t) \<Rightarrow> (Inr sc1, s\<lparr>ss_tables := t\<rparr>)))"

definition triggerable :: "string list" where
  "triggerable = [''pending'', ''completed'', ''failed'', ''cancelled'']"

definition scan_command :: "nat \<Rightarrow> scan \<Rightarrow> agent_command" where
  "scan_command did sc =
     \<lparr>command_type = ''run_discover'',
      parameters =
        [(''discover_id'', nat_str did), (''scan_path'', sc_path sc)] @
        (case sc_extensions sc of Some (e # es) \<Rightarrow> [(''file_extensions'', join '','' (e # es))] | _ \<Rightarrow> []) @
        (case sc_exclusions sc of Some (p # ps) \<Rightarrow> [(''path_exclusions'', join '','' (p # ps))] | _ \<Rightarrow> [])\<rparr>"

definition trigger_discover_endpoint ::
  "int \<Rightarrow> nat \<Rightarrow> scan_server \<Rightarrow> (http_error + scan) \<times> scan_server" where
  "trigger_discover_endpoint now did s =
     (case get_discover did (ss_tables s) of
        None \<Rightarrow> (Inl scan_not_found, s)
      | Some sc \<Rightarrow>
          if discover_status_value (sc_status sc) \<notin> set triggerable then
            (Inl (HttpError 400 (''Cannot trigger scan in '' @ [CHR 0x27] @ discover_status_value (sc_status sc) @
                    [CHR 0x27] @ '' state'')), s)
          else
            (let (sc1, t) = trigger_discover now sc (ss_tables s);
                 target = map_option UuidKey (sc_agent sc1)
             in (Inr sc1, s\<lparr>ss_tables := t, ss_queue := enqueue target (scan_command did sc1) (ss_queue s)\<rparr>)))"

definition complete_discover_endpoint ::
  "int \<Rightarrow> nat \<Rightarrow> scan_results \<Rightarrow> scan_server \<Rightarrow> (http_error + scan) \<times> scan_server" where
  "complete_discover_endpoint now did body s =
     (case get_discover did (ss_tables s) of
        None \<Rightarrow> (Inl scan_not_found, s)
      | Some sc \<Rightarrow> (let (sc1, t) = complete_discover now sc body (ss_tables s) in (Inr sc1, s\<lparr>ss_tables := t\<rparr>)))"

section \<open>Properties\<close>

text \<open>Ids are unique; a running scan has started, a completed one has ended.\<close>

definition scan_wf :: "scan \<Rightarrow> bool" where
  "scan_wf sc \<longleftrightarrow>
     (sc_status sc = RUNNING \<longrightarrow> sc_started sc \<noteq> None) \<and> (sc_status sc = COMPLETED \<longrightarrow> sc_completed sc \<noteq> None)"

definition scans_wf :: "scan_tables \<Rightarrow> bool" where
  "scans_wf t \<longleftrightarrow> distinct (map sc_id (st_scans t)) \<and>
     (\<forall>sc \<in> set (st_scans t). sc_id sc < st_next t \<and> scan_wf sc)"

lemma get_discoverD: "get_discover did t = Some sc \<Longrightarrow> sc \<in> set (st_scans t) \<and> sc_id sc = did"
  by (auto simp: get_discover_def find_Some_iff)

lemma replace_scan_ids: "map sc_id (map (\<lambda>q. if sc_id q = sc_id sc then sc else q) xs) = map sc_id xs"
  by (induction xs) auto

lemma replace_scan_wf: "scans_wf t \<Longrightarrow> sc_id sc < st_next t \<Longrightarrow> scan_wf sc \<Longrightarrow> scans_wf (replace_scan sc t)"
proof -
  assume t: "scans_wf t" and sc: "sc_id sc < st_next t" "scan_wf sc"
  have "distinct (map sc_id (st_scans (replace_scan sc t)))"
    using t replace_scan_ids [of sc "st_scans t"] by (simp add: replace_scan_def scans_wf_def del: map_map)
  moreover have "\<forall>q \<in> set (st_scans (replace_scan sc t)). sc_id q < st_next t \<and> scan_wf q"
    using t sc by (auto simp: replace_scan_def scans_wf_def)
  moreover have "st_next (replace_scan sc t) = st_next t" by (simp add: replace_scan_def)
  ultimately show ?thesis by (simp only: scans_wf_def simp_thms)
qed

lemma set_scan_field_frame:
  "set_scan_field c sc = Inr sc1 \<Longrightarrow>
   sc_id sc1 = sc_id sc \<and> sc_status sc1 = sc_status sc \<and> sc_started sc1 = sc_started sc \<and> sc_completed sc1 = sc_completed sc"
  by (induction c sc rule: set_scan_field.induct) auto

lemma set_scan_fields_frame:
  "fold_res set_scan_field data sc = Inr sc1 \<Longrightarrow>
   sc_id sc1 = sc_id sc \<and> sc_status sc1 = sc_status sc \<and> sc_started sc1 = sc_started sc \<and> sc_completed sc1 = sc_completed sc"
  by (rule fold_res_invariant [where P = "\<lambda>u. sc_id u = sc_id sc \<and> sc_status u = sc_status sc \<and>
        sc_started u = sc_started sc \<and> sc_completed u = sc_completed sc"])
    (auto dest: set_scan_field_frame)

lemma replaced_get:
  "get_discover did t = Some sc \<Longrightarrow> sc_id sc1 = sc_id sc \<Longrightarrow> get_discover k (replace_scan sc1 t) =
     (if k = did then Some sc1 else get_discover k t)"
proof -
  assume g: "get_discover did t = Some sc" and id: "sc_id sc1 = sc_id sc"
  have "find (\<lambda>q. sc_id q = k) (map (\<lambda>q. if sc_id q = i then sc1 else q) xs) =
      (if k = i \<and> i \<in> sc_id ` set xs then Some sc1 else find (\<lambda>q. sc_id q = k) xs)"
    if "i = sc_id sc1" for i xs using that by (induction xs) auto
  moreover have "sc_id sc1 \<in> sc_id ` set (st_scans t)" "did = sc_id sc1"
    using get_discoverD [OF g] id by (force, simp)
  ultimately show ?thesis by (simp add: get_discover_def replace_scan_def)
qed

text \<open>Requests that change scans, with their time.\<close>

datatype scan_request =
    CreateScan scan_data | UpdateScan nat "scan_change list" | TriggerScan nat | CompleteScan nat scan_results

fun serve_scan :: "int \<Rightarrow> scan_request \<Rightarrow> scan_server \<Rightarrow> scan_server" where
  "serve_scan now (CreateScan d) s = snd (create_discover_endpoint now d s)"
| "serve_scan now (UpdateScan did data) s = snd (update_discover_endpoint did data s)"
| "serve_scan now (TriggerScan did) s = snd (trigger_discover_endpoint now did s)"
| "serve_scan now (CompleteScan did r) s = snd (complete_discover_endpoint now did r s)"

lemma create_scan_wf: "scans_wf t \<Longrightarrow> create_discover now d t = (sc, t1) \<Longrightarrow> scans_wf t1"
  by (force simp: create_discover_def Let_def scans_wf_def scan_wf_def less_Suc_eq)

lemma trigger_scan_wf:
  "scans_wf t \<Longrightarrow> sc \<in> set (st_scans t) \<Longrightarrow> trigger_discover now sc t = (sc1, t1) \<Longrightarrow> scans_wf t1"
  by (auto simp: trigger_discover_def Let_def intro!: replace_scan_wf) (auto simp: scans_wf_def scan_wf_def)

lemma complete_scan_wf:
  "scans_wf t \<Longrightarrow> sc \<in> set (st_scans t) \<Longrightarrow> complete_discover now sc r t = (sc1, t1) \<Longrightarrow> scans_wf t1"
  by (auto simp: complete_discover_def Let_def intro!: replace_scan_wf) (auto simp: scans_wf_def scan_wf_def)

lemma update_scan_wf:
  "scans_wf t \<Longrightarrow> sc \<in> set (st_scans t) \<Longrightarrow> update_discover sc data t = Inr (sc1, t1) \<Longrightarrow> scans_wf t1"
  by (auto simp: update_discover_def rbind_Inr_iff dest!: set_scan_fields_frame intro!: replace_scan_wf)
    (auto simp: scans_wf_def scan_wf_def)

text \<open>
  Under any requests the scans stay well formed: ids unique, a running scan has its start time, a
  completed one its end time.
\<close>

theorem scans_invariant:
  assumes "scans_wf (ss_tables s)"
  shows "scans_wf (ss_tables (serve_scan now rq s))"
  using assms
  by (cases rq)
    (auto simp: create_discover_endpoint_def update_discover_endpoint_def trigger_discover_endpoint_def
      complete_discover_endpoint_def dest: get_discoverD
      intro: create_scan_wf trigger_scan_wf complete_scan_wf update_scan_wf split: prod.split option.split sum.split)

text \<open>
  A trigger is refused, and changes nothing, exactly when there is no such scan or it is running;
  otherwise the scan is running, started now, and no other scan changes.
\<close>

theorem trigger_spec:
  "case trigger_discover_endpoint now did s of
     (Inl e, s') \<Rightarrow> s' = s \<and> (case get_discover did (ss_tables s) of None \<Rightarrow> True | Some sc \<Rightarrow> sc_status sc = RUNNING)
   | (Inr sc, s') \<Rightarrow> (\<exists>old. get_discover did (ss_tables s) = Some old \<and> sc_status old \<noteq> RUNNING \<and>
       sc = old\<lparr>sc_status := RUNNING, sc_started := Some now\<rparr>) \<and>
       (\<forall>k. get_discover k (ss_tables s') = (if k = did then Some sc else get_discover k (ss_tables s)))"
proof (cases "get_discover did (ss_tables s)")
  case None
  then show ?thesis by (simp add: trigger_discover_endpoint_def)
next
  case (Some sc)
  have "discover_status_value (sc_status sc) \<in> set triggerable \<longleftrightarrow> sc_status sc \<noteq> RUNNING"
    by (cases "sc_status sc") (simp_all add: triggerable_def)
  then show ?thesis
    using Some replaced_get [OF Some, of "sc\<lparr>sc_status := RUNNING, sc_started := Some now\<rparr>"]
    by (auto simp: trigger_discover_endpoint_def trigger_discover_def Let_def)
qed

text \<open>
  A scan assigned to an agent never reaches it: its command is queued under the UUID object of the
  agent, while every heartbeat asks for a text, so no heartbeat of any agent returns anything
  more than without the trigger, and the command stays in the queue.
\<close>

theorem assigned_scan_is_never_delivered:
  assumes "get_discover did (ss_tables s) = Some sc" and "sc_status sc \<noteq> RUNNING" and "sc_agent sc = Some agent"
  shows "\<exists>r s'. trigger_discover_endpoint now did s = (Inr r, s') \<and>
    (\<forall>key. fst (drain (StrKey key) (ss_queue s')) = fst (drain (StrKey key) (ss_queue s)) \<and>
       dict_get (snd (drain (StrKey key) (ss_queue s'))) (UuidKey agent) [] =
         dict_get (ss_queue s) (UuidKey agent) [] @ [scan_command did r])"
proof -
  have "discover_status_value (sc_status sc) \<in> set triggerable"
    using assms(2) by (cases "sc_status sc") (simp_all add: triggerable_def)
  then show ?thesis using assms(1,3)
    by (simp add: trigger_discover_endpoint_def trigger_discover_def Let_def enqueue_def target_key_def drain_def
        broadcast_key_def dict_get_def)
qed

definition one_scan :: scan_server where
  "one_scan = \<lparr>ss_tables = snd (create_discover 0
       \<lparr>sd_name = ''s'', sd_agent = Some 7, sd_path = ''/home'', sd_recursive = None, sd_extensions = None, sd_exclusions = None\<rparr>
       \<lparr>st_scans = [], st_next = 1\<rparr>), ss_queue = []\<rparr>"

theorem scans_invariant_witness: "scans_wf (ss_tables (serve_scan 5 (TriggerScan 1) one_scan))"
  by (rule scans_invariant) (simp add: one_scan_def create_discover_def Let_def scans_wf_def scan_wf_def)

theorem assigned_scan_is_never_delivered_witness:
  "\<exists>r s'. trigger_discover_endpoint 5 1 one_scan = (Inr r, s') \<and> fst (drain (StrKey (nat_str 7)) (ss_queue s')) = []"
proof -
  obtain sc where "get_discover 1 (ss_tables one_scan) = Some sc" "sc_status sc \<noteq> RUNNING" "sc_agent sc = Some 7"
    by (simp add: one_scan_def create_discover_def Let_def get_discover_def)
  from assigned_scan_is_never_delivered [OF this, of 5] show ?thesis
    by (auto simp: one_scan_def drain_def dict_get_def dict_del_def)
qed

end
