(* ===== verification/PolicyEvents.thy ===== *)
theory PolicyEvents
  imports PyBase "HOL-Library.Sublist"
begin

text \<open>
  \<open>server/policy_events.py\<close>: the bus that hands policy changes to the open agent streams, with
  one queue per stream and a version counter, and the optional bridge that sends the changes
  through Redis so that every server process relays them. Redis is a counter and a channel
  with its documented behaviour: \<open>INCR\<close> returns the new value, a published message reaches
  those subscribed at that time, in the order of publication. The lock of the bus is never
  held across a suspension, so a call of the bus is one step; \<open>publish_event\<close> of the bridge
  suspends between \<open>INCR\<close> and \<open>PUBLISH\<close>, so it is two steps of the transition relation.
\<close>

section \<open>The bus\<close>

text \<open>\<open>pe_version\<close> is \<open>None\<close> while the event has no \<open>new_version\<close>.\<close>

record policy_event =
  pe_type :: string
  pe_policy :: string
  pe_version :: "nat option"

definition POLICY_ADD :: string where "POLICY_ADD = ''POLICY_ADD''"
definition POLICY_MODIFY :: string where "POLICY_MODIFY = ''POLICY_MODIFY''"
definition POLICY_REMOVE :: string where "POLICY_REMOVE = ''POLICY_REMOVE''"
definition POLICY_FULL_SYNC :: string where "POLICY_FULL_SYNC = ''POLICY_FULL_SYNC''"

text \<open>
  The subscribers are the queues in the order of subscription, each with its identity; the
  queues have no bound, so \<open>put_nowait\<close> does not fail.
\<close>

record bus =
  bus_subs :: "(nat \<times> policy_event list) list"
  bus_next :: nat
  bus_version :: nat

definition new_bus :: bus where
  "new_bus = \<lparr>bus_subs = [], bus_next = 0, bus_version = 0\<rparr>"

definition subscribe :: "bus \<Rightarrow> nat \<times> bus" where
  "subscribe b = (bus_next b, b\<lparr>bus_subs := bus_subs b @ [(bus_next b, [])], bus_next := bus_next b + 1\<rparr>)"

fun remove_queue :: "nat \<Rightarrow> (nat \<times> 'a) list \<Rightarrow> (nat \<times> 'a) list" where
  "remove_queue q [] = []"
| "remove_queue q ((k, es) # qs) = (if k = q then qs else (k, es) # remove_queue q qs)"

definition unsubscribe :: "nat \<Rightarrow> bus \<Rightarrow> bus" where
  "unsubscribe q b = b\<lparr>bus_subs := remove_queue q (bus_subs b)\<rparr>"

definition bus_publish :: "policy_event \<Rightarrow> bus \<Rightarrow> bus" where
  "bus_publish e b = b\<lparr>bus_subs := map (\<lambda>(k, es). (k, es @ [e])) (bus_subs b)\<rparr>"

definition increment_version :: "bus \<Rightarrow> nat \<times> bus" where
  "increment_version b = (bus_version b + 1, b\<lparr>bus_version := bus_version b + 1\<rparr>)"

text \<open>The loop \<open>while bus.get_version() < ver: bus.increment_version()\<close>.\<close>

function catch_up :: "nat \<Rightarrow> bus \<Rightarrow> bus" where
  "catch_up ver b = (if bus_version b < ver then catch_up ver (snd (increment_version b)) else b)"
  by pat_completeness auto
termination by (relation "measure (\<lambda>(ver, b). ver - bus_version b)") (auto simp: increment_version_def)

declare catch_up.simps [simp del]

lemma catch_up_max: "catch_up ver b = b\<lparr>bus_version := max (bus_version b) ver\<rparr>"
  by (induction ver b rule: catch_up.induct) (subst catch_up.simps, auto simp: increment_version_def)

section \<open>The bridge\<close>

text \<open>
  The process: its bus, whether the bridge is set, whether its listener is subscribed, the
  messages Redis still has to hand to the listener, the counter in Redis, and the events
  between their two steps. A message that is not JSON is \<open>Garbled\<close>; confirmations of
  (un)subscriptions are \<open>Notice\<close>.
\<close>

datatype redis_message = Notice | Garbled | Message policy_event

record hub =
  hub_bus :: bus
  hub_bridge :: bool
  hub_listening :: bool
  hub_channel :: "redis_message list"
  hub_redis_version :: nat
  hub_flight :: "policy_event list"

definition new_hub :: "nat \<Rightarrow> hub" where
  "new_hub v = \<lparr>hub_bus = new_bus, hub_bridge = False, hub_listening = False, hub_channel = [],
     hub_redis_version = v, hub_flight = []\<rparr>"

text \<open>\<open>new_version\<close> is read with the default 0.\<close>

definition event_version :: "policy_event \<Rightarrow> nat" where
  "event_version e = (case pe_version e of Some v \<Rightarrow> v | None \<Rightarrow> 0)"

text \<open>One round of the listener's loop.\<close>

fun relay :: "redis_message \<Rightarrow> bus \<Rightarrow> bus" where
  "relay Notice b = b"
| "relay Garbled b = b"
| "relay (Message e) b = bus_publish e (catch_up (event_version e) b)"

text \<open>The two steps of the bridge's \<open>publish_event\<close>.\<close>

definition redis_incr :: "policy_event \<Rightarrow> hub \<Rightarrow> hub" where
  "redis_incr e h =
     (let new_ver = hub_redis_version h + 1
      in h\<lparr>hub_redis_version := new_ver, hub_flight := hub_flight h @ [e\<lparr>pe_version := Some new_ver\<rparr>]\<rparr>)"

definition redis_publish :: "policy_event \<Rightarrow> hub \<Rightarrow> hub" where
  "redis_publish e h =
     h\<lparr>hub_flight := remove1 e (hub_flight h),
       hub_channel := (if hub_listening h then hub_channel h @ [Message e] else hub_channel h)\<rparr>"

text \<open>
  \<open>init_redis_bridge\<close> reads the version and catches up, then starts the listener's task; the
  task subscribes when it first runs.
\<close>

definition init_sync :: "hub \<Rightarrow> hub" where
  "init_sync h = h\<lparr>hub_bus := catch_up (hub_redis_version h) (hub_bus h), hub_bridge := True\<rparr>"

definition start_listening :: "hub \<Rightarrow> hub" where
  "start_listening h = h\<lparr>hub_listening := True, hub_channel := hub_channel h @ [Notice]\<rparr>"

definition shutdown_bridge :: "hub \<Rightarrow> hub" where
  "shutdown_bridge h =
     (if hub_bridge h then h\<lparr>hub_bridge := False, hub_listening := False, hub_channel := []\<rparr> else h)"

text \<open>\<open>publish_policy_event\<close> with no bridge; with one it is \<open>redis_incr\<close>, then \<open>redis_publish\<close>.\<close>

definition new_event :: "string \<Rightarrow> string \<Rightarrow> policy_event" where
  "new_event update_type policy_id = \<lparr>pe_type = update_type, pe_policy = policy_id, pe_version = None\<rparr>"

definition publish_local :: "policy_event \<Rightarrow> bus \<Rightarrow> bus" where
  "publish_local e b = (let (new_ver, b1) = increment_version b in bus_publish (e\<lparr>pe_version := Some new_ver\<rparr>) b1)"

definition publish_policy_event :: "string \<Rightarrow> string \<Rightarrow> hub \<Rightarrow> hub" where
  "publish_policy_event update_type policy_id h =
     (let e = new_event update_type policy_id in
      if hub_bridge h
      then (let h1 = redis_incr e h in redis_publish (last (hub_flight h1)) h1)
      else h\<lparr>hub_bus := publish_local e (hub_bus h)\<rparr>)"

text \<open>A stream takes the next event of its queue (\<open>queue.get()\<close>).\<close>

definition queue_of :: "nat \<Rightarrow> bus \<Rightarrow> policy_event list option" where
  "queue_of q b = map_of (bus_subs b) q"

definition queue_get :: "nat \<Rightarrow> bus \<Rightarrow> (policy_event \<times> bus) option" where
  "queue_get q b =
     (case queue_of q b of
        Some (e # es) \<Rightarrow> Some (e, b\<lparr>bus_subs := map (\<lambda>(k, xs). (k, if k = q then es else xs)) (bus_subs b)\<rparr>)
      | _ \<Rightarrow> None)"

section \<open>Histories\<close>

text \<open>
  What can happen to the hub: a local publication, the two steps of a publication through
  Redis (by this process or another), the listener taking a message, streams opening, reading
  and closing, the bridge starting and stopping, and a message another program publishes.
\<close>

datatype hub_event =
    Local policy_event
  | Incr policy_event
  | Publish policy_event
  | Relay redis_message
  | Opened nat
  | Closed nat
  | Delivered nat policy_event
  | Synced
  | Listening
  | Stopped
  | Noise redis_message

inductive hub_step :: "hub \<Rightarrow> hub_event \<Rightarrow> hub \<Rightarrow> bool" where
  hs_local: "\<not> hub_bridge h \<Longrightarrow>
     hub_step h (Local (e\<lparr>pe_version := Some (bus_version (hub_bus h) + 1)\<rparr>)) (h\<lparr>hub_bus := publish_local e (hub_bus h)\<rparr>)"
| hs_incr: "hub_step h (Incr e) (redis_incr e h)"
| hs_publish: "e \<in> set (hub_flight h) \<Longrightarrow> hub_step h (Publish e) (redis_publish e h)"
| hs_relay: "hub_channel h = m # ms \<Longrightarrow>
     hub_step h (Relay m) (h\<lparr>hub_channel := ms, hub_bus := relay m (hub_bus h)\<rparr>)"
| hs_open: "subscribe (hub_bus h) = (q, b) \<Longrightarrow> hub_step h (Opened q) (h\<lparr>hub_bus := b\<rparr>)"
| hs_close: "hub_step h (Closed q) (h\<lparr>hub_bus := unsubscribe q (hub_bus h)\<rparr>)"
| hs_deliver: "queue_get q (hub_bus h) = Some (e, b) \<Longrightarrow> hub_step h (Delivered q e) (h\<lparr>hub_bus := b\<rparr>)"
| hs_sync: "\<not> hub_bridge h \<Longrightarrow> hub_step h Synced (init_sync h)"
| hs_listen: "hub_bridge h \<Longrightarrow> \<not> hub_listening h \<Longrightarrow> hub_step h Listening (start_listening h)"
| hs_stop: "hub_step h Stopped (shutdown_bridge h)"
| hs_noise: "hub_listening h \<Longrightarrow> m \<in> {Notice, Garbled} \<Longrightarrow>
     hub_step h (Noise m) (h\<lparr>hub_channel := hub_channel h @ [m]\<rparr>)"

text \<open>A history, the latest event first, from a process that starts with the counter at \<open>v\<close>.\<close>

inductive hub_run :: "nat \<Rightarrow> hub_event list \<Rightarrow> hub \<Rightarrow> bool" for v where
  hr_start: "hub_run v [] (new_hub v)"
| hr_more: "hub_run v es h \<Longrightarrow> hub_step h e h' \<Longrightarrow> hub_run v (e # es) h'"

text \<open>The same transitions as a function of the event, to run a given history.\<close>

fun hub_next :: "hub_event \<Rightarrow> hub \<Rightarrow> hub option" where
  "hub_next (Local e) h =
     (if \<not> hub_bridge h \<and> pe_version e = Some (bus_version (hub_bus h) + 1)
      then Some (h\<lparr>hub_bus := publish_local e (hub_bus h)\<rparr>) else None)"
| "hub_next (Incr e) h = Some (redis_incr e h)"
| "hub_next (Publish e) h = (if e \<in> set (hub_flight h) then Some (redis_publish e h) else None)"
| "hub_next (Relay m) h =
     (case hub_channel h of
        [] \<Rightarrow> None
      | m' # ms \<Rightarrow> if m' = m then Some (h\<lparr>hub_channel := ms, hub_bus := relay m (hub_bus h)\<rparr>) else None)"
| "hub_next (Opened q) h =
     (case subscribe (hub_bus h) of (q', b) \<Rightarrow> if q' = q then Some (h\<lparr>hub_bus := b\<rparr>) else None)"
| "hub_next (Closed q) h = Some (h\<lparr>hub_bus := unsubscribe q (hub_bus h)\<rparr>)"
| "hub_next (Delivered q e) h =
     (case queue_get q (hub_bus h) of
        Some (e', b) \<Rightarrow> if e' = e then Some (h\<lparr>hub_bus := b\<rparr>) else None | None \<Rightarrow> None)"
| "hub_next Synced h = (if hub_bridge h then None else Some (init_sync h))"
| "hub_next Listening h = (if hub_bridge h \<and> \<not> hub_listening h then Some (start_listening h) else None)"
| "hub_next Stopped h = Some (shutdown_bridge h)"
| "hub_next (Noise m) h =
     (if hub_listening h \<and> m \<in> {Notice, Garbled} then Some (h\<lparr>hub_channel := hub_channel h @ [m]\<rparr>) else None)"

fun hub_play :: "hub_event list \<Rightarrow> hub \<Rightarrow> hub option" where
  "hub_play [] h = Some h"
| "hub_play (e # es) h = (case hub_play es h of Some h' \<Rightarrow> hub_next e h' | None \<Rightarrow> None)"

lemma hub_next_step: "hub_next e h = Some h' \<Longrightarrow> hub_step h e h'"
proof (induction e h rule: hub_next.induct)
  case (1 e h)
  then have "\<not> hub_bridge h" "e\<lparr>pe_version := Some (bus_version (hub_bus h) + 1)\<rparr> = e"
      "h' = h\<lparr>hub_bus := publish_local e (hub_bus h)\<rparr>"
    by (auto split: if_splits)
  then show ?case using hs_local [of h e] by simp
qed (auto split: if_splits list.splits prod.splits option.splits intro: hub_step.intros)

lemma hub_play_run: "hub_play es (new_hub v) = Some h \<Longrightarrow> hub_run v es h"
  by (induction es arbitrary: h) (auto split: option.splits intro: hub_run.intros hub_next_step)

text \<open>What the bus was given, and what a stream was given, since the stream opened.\<close>

fun fanned :: "hub_event \<Rightarrow> policy_event list" where
  "fanned (Local e) = [e]"
| "fanned (Relay (Message e)) = [e]"
| "fanned _ = []"

fun fanned_since :: "nat \<Rightarrow> hub_event list \<Rightarrow> policy_event list" where
  "fanned_since q [] = []"
| "fanned_since q (e # es) = (if e = Opened q then [] else fanned_since q es @ fanned e)"

fun delivered_since :: "nat \<Rightarrow> hub_event list \<Rightarrow> policy_event list" where
  "delivered_since q [] = []"
| "delivered_since q (e # es) =
     (if e = Opened q then []
      else delivered_since q es @ (case e of Delivered q' x \<Rightarrow> if q' = q then [x] else [] | _ \<Rightarrow> []))"

definition bus_wf :: "bus \<Rightarrow> bool" where
  "bus_wf b \<longleftrightarrow> distinct (map fst (bus_subs b)) \<and> (\<forall>k \<in> fst ` set (bus_subs b). k < bus_next b)"

lemma remove_queue_filter:
  "distinct (map fst qs) \<Longrightarrow> remove_queue q qs = filter (\<lambda>p. fst p \<noteq> q) qs"
proof (induction qs rule: remove_queue.induct [of _ q])
  case (2 q k es qs)
  then show ?case by (auto intro!: filter_True [symmetric])
qed simp

lemma map_of_filter_key: "map_of (filter (\<lambda>p. fst p \<noteq> q) qs) k = (if k = q then None else map_of qs k)"
  by (induction qs) auto

lemma map_of_map_val: "map_of (map (\<lambda>(k, es). (k, f k es)) qs) k = map_option (f k) (map_of qs k)"
  by (induction qs) auto

lemma bus_wf_new: "bus_wf new_bus"
  by (simp add: bus_wf_def new_bus_def)

lemma fst_case_map [simp]: "map (fst \<circ> (\<lambda>(k, es). (k, f k es))) qs = map fst qs"
  by (induction qs) auto

lemma fst_case_image [simp]: "fst ` (\<lambda>(k, es). (k, f k es)) ` A = fst ` A"
  by force

lemma bus_wf_map: "bus_wf b \<Longrightarrow> bus_wf (b\<lparr>bus_subs := map (\<lambda>(k, es). (k, f k es)) (bus_subs b)\<rparr>)"
  by (simp add: bus_wf_def)

lemma bus_wf_version [simp]: "bus_wf (bus_version_update f b) = bus_wf b"
  by (simp add: bus_wf_def)

lemma bus_wf_publish: "bus_wf b \<Longrightarrow> bus_wf (bus_publish e b)"
  unfolding bus_publish_def by (rule bus_wf_map)

lemma bus_wf_relay: "bus_wf b \<Longrightarrow> bus_wf (relay m b)"
  by (cases m) (simp_all add: bus_wf_publish catch_up_max)

lemma bus_wf_local: "bus_wf b \<Longrightarrow> bus_wf (publish_local e b)"
  by (simp add: publish_local_def increment_version_def bus_wf_publish)

lemma bus_wf_subscribe: "bus_wf b \<Longrightarrow> subscribe b = (q, b') \<Longrightarrow> bus_wf b'"
  by (force simp: bus_wf_def subscribe_def less_Suc_eq)

lemma bus_wf_unsubscribe: "bus_wf b \<Longrightarrow> bus_wf (unsubscribe q b)"
  by (auto simp: bus_wf_def unsubscribe_def remove_queue_filter distinct_map_filter)

lemma bus_wf_get: "bus_wf b \<Longrightarrow> queue_get q b = Some (e, b') \<Longrightarrow> bus_wf b'"
  by (auto simp: queue_get_def split: option.splits list.splits intro: bus_wf_map)

lemmas bus_wf_rules = bus_wf_relay bus_wf_local bus_wf_subscribe bus_wf_unsubscribe bus_wf_get

lemma step_bus_wf: "hub_step h e h' \<Longrightarrow> bus_wf (hub_bus h) \<Longrightarrow> bus_wf (hub_bus h')"
  by (cases rule: hub_step.cases, assumption)
    (auto simp: redis_incr_def redis_publish_def init_sync_def start_listening_def shutdown_bridge_def
      catch_up_max Let_def intro: bus_wf_rules)

lemma run_bus_wf: "hub_run v es h \<Longrightarrow> bus_wf (hub_bus h)"
  by (induction rule: hub_run.induct) (auto simp: new_hub_def bus_wf_new intro: step_bus_wf)

section \<open>What a stream receives\<close>

named_theorems queue_simps "the queue of a stream after an operation of the bus"

lemma queue_of_version [queue_simps]: "queue_of q (bus_version_update f b) = queue_of q b"
  by (simp add: queue_of_def)

lemma queue_of_publish [queue_simps]:
  "queue_of q (bus_publish e b) = map_option (\<lambda>xs. xs @ [e]) (queue_of q b)"
  by (simp add: queue_of_def bus_publish_def map_of_map_val)

lemma queue_of_local [queue_simps]:
  "queue_of q (publish_local e b) =
     map_option (\<lambda>xs. xs @ [e\<lparr>pe_version := Some (bus_version b + 1)\<rparr>]) (queue_of q b)"
  by (simp add: publish_local_def increment_version_def queue_simps)

lemma queue_of_relay [queue_simps]:
  "queue_of q (relay m b) = map_option (\<lambda>xs. xs @ fanned (Relay m)) (queue_of q b)"
  by (cases m) (simp_all add: queue_simps catch_up_max option.map_ident)

lemma queue_of_subscribe:
  "subscribe b = (k, b') \<Longrightarrow> bus_wf b \<Longrightarrow> queue_of q b' = (if q = k then Some [] else queue_of q b)"
  by (cases "map_of (bus_subs b) k")
    (auto simp: subscribe_def queue_of_def bus_wf_def map_add_def split: option.splits dest: map_of_SomeD)

lemma queue_of_unsubscribe:
  "bus_wf b \<Longrightarrow> queue_of q (unsubscribe k b) = (if q = k then None else queue_of q b)"
  by (simp add: queue_of_def unsubscribe_def bus_wf_def remove_queue_filter map_of_filter_key)

lemma queue_of_get:
  "queue_get k b = Some (e, b') \<Longrightarrow>
   \<exists>es. queue_of k b = Some (e # es) \<and> queue_of q b' = (if q = k then Some es else queue_of q b)"
  by (auto simp: queue_get_def queue_of_def map_of_map_val option.map_ident split: option.splits list.splits)

definition accounted :: "hub_event list \<Rightarrow> bus \<Rightarrow> bool" where
  "accounted es b \<longleftrightarrow>
     (\<forall>q xs. queue_of q b = Some xs \<longrightarrow> fanned_since q es = delivered_since q es @ xs)"

lemma step_accounted:
  assumes "hub_step h e h'" "bus_wf (hub_bus h)" "accounted es (hub_bus h)"
  shows "accounted (e # es) (hub_bus h')"
  using assms(1)
proof (cases rule: hub_step.cases)
  case (hs_open q b)
  then show ?thesis using assms(2,3) queue_of_subscribe [OF hs_open(3)]
    by (auto simp: accounted_def split: if_splits)
next
  case (hs_close q)
  then show ?thesis using assms(2,3)
    by (auto simp: accounted_def queue_of_unsubscribe split: if_splits)
next
  case (hs_deliver q x b)
  then show ?thesis using assms(3) queue_of_get [OF hs_deliver(3)]
    by (fastforce simp: accounted_def split: if_splits)
qed (use assms(3) in \<open>auto simp: accounted_def queue_simps redis_incr_def redis_publish_def init_sync_def
       start_listening_def shutdown_bridge_def catch_up_max Let_def\<close>)

lemma run_accounted: "hub_run v es h \<Longrightarrow> accounted es (hub_bus h)"
proof (induction rule: hub_run.induct)
  case hr_start
  then show ?case by (simp add: accounted_def new_hub_def new_bus_def queue_of_def)
next
  case (hr_more es h e h')
  then show ?case using step_accounted run_bus_wf by blast
qed

text \<open>
  C7: A stream misses nothing: what the bus was given since the stream subscribed is, in that order,
  what the stream has taken from its queue followed by what the queue still holds, whatever
  else happens to the bus and the bridge.
\<close>

theorem stream_is_complete:
  assumes "hub_run v es h" and "queue_of q (hub_bus h) = Some xs"
  shows "fanned_since q es = delivered_since q es @ xs"
  using run_accounted [OF assms(1)] assms(2) by (simp add: accounted_def)

definition added :: policy_event where
  "added = \<lparr>pe_type = POLICY_ADD, pe_policy = ''p'', pe_version = None\<rparr>"

definition removed :: policy_event where
  "removed = \<lparr>pe_type = POLICY_REMOVE, pe_policy = ''p'', pe_version = None\<rparr>"

text \<open>
  A history with two interleaved publications: the one that got version 2 from Redis is
  published before the one that got version 1.
\<close>

abbreviation numbered :: "policy_event \<Rightarrow> nat \<Rightarrow> policy_event" where
  "numbered e n \<equiv> e\<lparr>pe_version := Some n\<rparr>"

definition crossed :: "hub_event list" where
  "crossed = [Relay (Message (numbered added 1)), Relay (Message (numbered removed 2)), Relay Notice,
     Publish (numbered added 1), Publish (numbered removed 2), Incr removed, Incr added, Opened 0,
     Listening, Synced]"

lemma crossed_run:
  "hub_run 0 crossed
     \<lparr>hub_bus = \<lparr>bus_subs = [(0, [numbered removed 2, numbered added 1])], bus_next = 1, bus_version = 2\<rparr>,
      hub_bridge = True, hub_listening = True, hub_channel = [], hub_redis_version = 2, hub_flight = []\<rparr>"
  by (rule hub_play_run) code_simp

text \<open>
  Through Redis the versions may reach a stream out of order: a history in which an agent's
  stream holds the removal with version 2 before the addition with version 1, while the bus
  is already at version 2. Without the bridge the versions come in order.
\<close>

theorem bridge_may_reorder:
  "\<exists>es h. hub_run 0 es h \<and> hub_channel h = [] \<and> bus_version (hub_bus h) = hub_redis_version h \<and>
     queue_of 0 (hub_bus h) = Some [numbered removed 2, numbered added 1]"
  by (rule exI [of _ crossed], rule exI, rule conjI [OF crossed_run]) (simp add: queue_of_def)

text \<open>A publication that falls between the reading of the version and the subscription.\<close>

definition early :: "hub_event list" where
  "early = [Relay Notice, Listening, Publish (numbered added 1), Incr added, Synced]"

theorem bridge_startup_gap:
  "\<exists>es h. hub_run 0 es h \<and> hub_listening h \<and> hub_channel h = [] \<and> hub_flight h = [] \<and>
     bus_version (hub_bus h) < hub_redis_version h"
proof -
  have "hub_run 0 early
     \<lparr>hub_bus = new_bus, hub_bridge = True, hub_listening = True, hub_channel = [],
      hub_redis_version = 1, hub_flight = []\<rparr>"
    by (rule hub_play_run) code_simp
  then show ?thesis by (intro exI conjI, assumption) (simp_all add: new_bus_def)
qed

section \<open>Versions\<close>

definition consecutive :: "policy_event list \<Rightarrow> nat \<Rightarrow> bool" where
  "consecutive es ver \<longleftrightarrow> length es \<le> ver \<and> map pe_version es = map Some [ver + 1 - length es ..< ver + 1]"

lemma consecutive_Nil [simp]: "consecutive [] ver"
  by (simp add: consecutive_def)

lemma consecutive_snoc:
  "consecutive es ver \<Longrightarrow> pe_version e = Some (Suc ver) \<Longrightarrow> consecutive (es @ [e]) (Suc ver)"
  by (simp add: consecutive_def Suc_diff_le)

lemma local_run:
  "hub_run v es h \<Longrightarrow> Synced \<notin> set es \<Longrightarrow>
   \<not> hub_bridge h \<and> \<not> hub_listening h \<and> hub_channel h = [] \<and>
   (\<forall>q. consecutive (fanned_since q es) (bus_version (hub_bus h)))"
proof (induction rule: hub_run.induct)
  case hr_start
  then show ?case by (simp add: new_hub_def new_bus_def consecutive_def)
next
  case (hr_more es h e h')
  then have IH: "\<not> hub_bridge h" "\<not> hub_listening h" "hub_channel h = []"
      "\<And>q. consecutive (fanned_since q es) (bus_version (hub_bus h))" by auto
  from hr_more.hyps(2) show ?case
  proof (cases rule: hub_step.cases)
    case (hs_local x)
    then show ?thesis using IH
      by (auto simp: publish_local_def increment_version_def bus_publish_def intro: consecutive_snoc)
  next
    case (hs_open q b)
    then show ?thesis using IH by (auto simp: subscribe_def)
  next
    case (hs_deliver q x b)
    then show ?thesis using IH by (auto simp: queue_get_def split: option.splits list.splits)
  qed (use IH hr_more.prems in \<open>auto simp: redis_incr_def redis_publish_def unsubscribe_def shutdown_bridge_def Let_def\<close>)
qed

text \<open>
  With no bridge, the events a stream is given since it opened carry consecutive versions, the last
  of them the version of the bus: an agent that has taken them all is at the current version
  and has seen every change since it subscribed.
\<close>

theorem local_versions_consecutive:
  assumes "hub_run v es h" and "Synced \<notin> set es" and "queue_of q (hub_bus h) = Some xs"
  shows "map pe_version (delivered_since q es @ xs) =
    map Some [bus_version (hub_bus h) + 1 - length (delivered_since q es @ xs) ..< bus_version (hub_bus h) + 1]"
proof -
  have "fanned_since q es = delivered_since q es @ xs"
    using run_accounted [OF assms(1)] assms(3) by (simp add: accounted_def)
  moreover have "consecutive (fanned_since q es) (bus_version (hub_bus h))"
    using local_run [OF assms(1,2)] by blast
  ultimately show ?thesis unfolding consecutive_def by metis
qed

lemma step_version_mono: "hub_step h e h' \<Longrightarrow> bus_version (hub_bus h) \<le> bus_version (hub_bus h')"
proof (induction rule: hub_step.induct)
  case (hs_relay h m ms)
  then show ?case by (cases m) (simp_all add: catch_up_max bus_publish_def)
qed (auto simp: publish_local_def increment_version_def bus_publish_def redis_incr_def redis_publish_def
      subscribe_def unsubscribe_def queue_get_def init_sync_def start_listening_def shutdown_bridge_def
      catch_up_max Let_def split: option.splits list.splits)

lemma step_fanned_version:
  "hub_step h e h' \<Longrightarrow> x \<in> set (fanned e) \<Longrightarrow> event_version x \<le> bus_version (hub_bus h')"
proof (induction rule: hub_step.induct)
  case (hs_relay h m ms)
  then show ?case by (cases m) (auto simp: catch_up_max bus_publish_def)
qed (auto simp: publish_local_def increment_version_def bus_publish_def event_version_def)

text \<open>The bus is never behind an event it handed to a stream, so a heartbeat never reports an
  older version than the agent was given.\<close>

theorem bus_version_covers_events:
  assumes "hub_run v es h" and "e \<in> set (fanned_since q es)"
  shows "event_version e \<le> bus_version (hub_bus h)"
  using assms
proof (induction rule: hub_run.induct)
  case (hr_more es h x h')
  then show ?case
    using step_version_mono [OF hr_more.hyps(2)] step_fanned_version [OF hr_more.hyps(2)]
    by (fastforce split: if_splits)
qed simp

section \<open>The listener\<close>

text \<open>What Redis published, and what the listener relayed, since the listener subscribed.\<close>

fun published_since :: "hub_event list \<Rightarrow> policy_event list" where
  "published_since [] = []"
| "published_since (Listening # es) = []"
| "published_since (Publish e # es) = published_since es @ [e]"
| "published_since (_ # es) = published_since es"

fun relayed_since :: "hub_event list \<Rightarrow> policy_event list" where
  "relayed_since [] = []"
| "relayed_since (Listening # es) = []"
| "relayed_since (Relay (Message e) # es) = relayed_since es @ [e]"
| "relayed_since (_ # es) = relayed_since es"

definition channel_events :: "redis_message list \<Rightarrow> policy_event list" where
  "channel_events ms = concat (map (\<lambda>m. fanned (Relay m)) ms)"

lemma listener_run:
  "hub_run v es h \<Longrightarrow>
   (hub_listening h \<longrightarrow> hub_bridge h \<and> published_since es = relayed_since es @ channel_events (hub_channel h)) \<and>
   (\<not> hub_listening h \<longrightarrow> hub_channel h = [])"
proof (induction rule: hub_run.induct)
  case hr_start
  then show ?case by (simp add: new_hub_def)
next
  case (hr_more es h e h')
  from hr_more.hyps(2) show ?case
  proof (cases rule: hub_step.cases)
    case (hs_relay m ms)
    then show ?thesis using hr_more.IH by (cases m) (auto simp: channel_events_def)
  qed (use hr_more.IH in \<open>auto simp: redis_incr_def redis_publish_def init_sync_def start_listening_def
        shutdown_bridge_def channel_events_def Let_def\<close>)
qed

text \<open>
  While the listener is subscribed it loses, repeats and reorders nothing: what it relayed to the
  bus followed by what Redis still has for it is exactly what was published since it
  subscribed, whatever malformed messages came in between.
\<close>

theorem listener_relays_all:
  assumes "hub_run v es h" and "hub_listening h"
  shows "published_since es = relayed_since es @ channel_events (hub_channel h)"
  using listener_run [OF assms(1)] assms(2) by blast

section \<open>Witnesses\<close>

definition quiet_hub :: hub where
  "quiet_hub = \<lparr>hub_bus = \<lparr>bus_subs = [(0, [numbered added 1])], bus_next = 1, bus_version = 1\<rparr>,
     hub_bridge = False, hub_listening = False, hub_channel = [], hub_redis_version = 0, hub_flight = []\<rparr>"

lemma quiet_run: "hub_run 0 [Local (numbered added 1), Opened 0] quiet_hub"
  by (rule hub_play_run) code_simp

theorem stream_is_complete_witness:
  "fanned_since 0 [Local (numbered added 1), Opened 0] = [numbered added 1]"
  using stream_is_complete [OF quiet_run, of 0 "[numbered added 1]"] by (simp add: quiet_hub_def queue_of_def)

theorem local_versions_consecutive_witness:
  "map pe_version [numbered added 1] = map Some [1 ..< 2]"
  using local_versions_consecutive [OF quiet_run, of 0 "[numbered added 1]"]
  by (simp add: quiet_hub_def queue_of_def numeral_2_eq_2)

theorem listener_relays_all_witness:
  "published_since crossed = [numbered removed 2, numbered added 1]"
  using listener_relays_all [OF crossed_run] by (simp add: crossed_def channel_events_def)

end
