(* ===== verification/PolicyService.thy ===== *)
theory PolicyService
  imports Tables Json PolicyEvents "HOL-Library.List_Lexorder"
begin

text \<open>
  \<open>server/services/policy_service.py\<close> over the tables of \<open>server/models/policy.py\<close>: policies with
  their detection rules and exceptions, in tables that refer to a policy by its id. The
  conditions of a rule or an exception are part of its row, as no operation touches one alone.
  Ids are numbers handed out by a counter in the tables; their text is the decimal numeral.
\<close>

section \<open>The tables\<close>

datatype policy_status = ACTIVE | SUSPENDED | DRAFT

datatype pol_severity = CRITICAL | HIGH | MEDIUM | LOW | INFO

datatype condition_type = REGEX | KEYWORD | DATA_IDENTIFIER | FILE_TYPE | FINGERPRINT | IDENTITY

datatype message_part = P_ENVELOPE | P_SUBJECT | P_BODY | P_ATTACHMENT | P_GENERIC

datatype exc_scope = ENTIRE_MESSAGE | MATCHED_COMPONENT

fun policy_status_value :: "policy_status \<Rightarrow> string" where
  "policy_status_value ACTIVE = ''active''"
| "policy_status_value SUSPENDED = ''suspended''"
| "policy_status_value DRAFT = ''draft''"

fun pol_severity_value :: "pol_severity \<Rightarrow> string" where
  "pol_severity_value CRITICAL = ''critical''"
| "pol_severity_value HIGH = ''high''"
| "pol_severity_value MEDIUM = ''medium''"
| "pol_severity_value LOW = ''low''"
| "pol_severity_value INFO = ''info''"

fun condition_type_value :: "condition_type \<Rightarrow> string" where
  "condition_type_value REGEX = ''regex''"
| "condition_type_value KEYWORD = ''keyword''"
| "condition_type_value DATA_IDENTIFIER = ''data_identifier''"
| "condition_type_value FILE_TYPE = ''file_type''"
| "condition_type_value FINGERPRINT = ''fingerprint''"
| "condition_type_value IDENTITY = ''identity''"

fun message_part_value :: "message_part \<Rightarrow> string" where
  "message_part_value P_ENVELOPE = ''envelope''"
| "message_part_value P_SUBJECT = ''subject''"
| "message_part_value P_BODY = ''body''"
| "message_part_value P_ATTACHMENT = ''attachment''"
| "message_part_value P_GENERIC = ''generic''"

fun exc_scope_value :: "exc_scope \<Rightarrow> string" where
  "exc_scope_value ENTIRE_MESSAGE = ''entire_message''"
| "exc_scope_value MATCHED_COMPONENT = ''matched_component''"

record cond =
  cd_type :: condition_type
  cd_component :: message_part
  cd_config :: "(string \<times> json) list"
  cd_min :: nat

text \<open>A severity threshold as it is stored: a dictionary with these two keys.\<close>

record threshold =
  th_threshold :: nat
  th_severity :: string

record policy_row =
  po_id :: nat
  po_name :: string
  po_description :: "string option"
  po_status :: policy_status
  po_severity :: pol_severity
  po_is_template :: bool
  po_template_name :: "string option"
  po_thresholds :: "threshold list option"
  po_ttd :: string
  po_group :: "nat option"
  po_response :: "nat option"
  po_created :: int

record rule_row =
  ru_id :: nat
  ru_policy :: nat
  ru_name :: string
  ru_description :: "string option"
  ru_type :: string
  ru_conditions :: "cond list"

record exception_row =
  ex_id :: nat
  ex_policy :: nat
  ex_name :: string
  ex_description :: "string option"
  ex_scope :: exc_scope
  ex_type :: string
  ex_conditions :: "cond list"

text \<open>Response rules and their actions (\<open>server/models/response.py\<close>).\<close>

record action_row =
  ac_rule :: nat
  ac_type :: string
  ac_config :: "(string \<times> json) list option"
  ac_order :: int

record response_row =
  rs_id :: nat
  rs_name :: string
  rs_description :: "string option"

record policy_audit =
  pa_actor :: nat
  pa_action :: string
  pa_resource :: "string option"
  pa_detail :: "string option"
  pa_changes :: "(string \<times> json) list option"
  pa_ip :: string

record policy_tables =
  pt_policies :: "policy_row list"
  pt_rules :: "rule_row list"
  pt_exceptions :: "exception_row list"
  pt_groups :: "nat list"
  pt_responses :: "response_row list"
  pt_actions :: "action_row list"
  pt_audit :: "policy_audit list"
  pt_next :: nat

text \<open>The relationships of a policy: its rules and exceptions.\<close>

definition rules_of :: "nat \<Rightarrow> policy_tables \<Rightarrow> rule_row list" where
  "rules_of pid t = filter (\<lambda>r. ru_policy r = pid) (pt_rules t)"

definition exceptions_of :: "nat \<Rightarrow> policy_tables \<Rightarrow> exception_row list" where
  "exceptions_of pid t = filter (\<lambda>x. ex_policy x = pid) (pt_exceptions t)"

text \<open>The foreign keys of a policy must name rows that exist.\<close>

definition refers_to :: "nat option \<Rightarrow> nat list \<Rightarrow> bool" where
  "refers_to k ids \<longleftrightarrow> (case k of None \<Rightarrow> True | Some i \<Rightarrow> i \<in> set ids)"

definition policy_fk_ok :: "policy_row \<Rightarrow> policy_tables \<Rightarrow> bool" where
  "policy_fk_ok p t \<longleftrightarrow>
     refers_to (po_group p) (pt_groups t) \<and> refers_to (po_response p) (map rs_id (pt_responses t))"

section \<open>Reading\<close>

definition get_policy :: "nat \<Rightarrow> policy_tables \<Rightarrow> policy_row option" where
  "get_policy pid t = find (\<lambda>p. po_id p = pid \<and> \<not> po_is_template p) (pt_policies t)"

definition parse_status :: "string \<Rightarrow> policy_status res" where
  "parse_status s =
     (if s = ''active'' then Inr ACTIVE else if s = ''suspended'' then Inr SUSPENDED
      else if s = ''draft'' then Inr DRAFT
      else Inl (Exn ValueError (repr_str s @ '' is not a valid PolicyStatus'')))"

definition list_policies ::
  "nat \<Rightarrow> nat \<Rightarrow> string option \<Rightarrow> string option \<Rightarrow> policy_tables \<Rightarrow> (policy_row list \<times> nat) res" where
  "list_policies page page_size status_filter search t =
     (let base = filter (\<lambda>p. \<not> po_is_template p) (pt_policies t) in
      rbind
        (case status_filter of
           Some s \<Rightarrow> if s \<noteq> [] then rbind (parse_status s) (\<lambda>st. Inr (filter (\<lambda>p. po_status p = st) base))
                      else Inr base
         | None \<Rightarrow> Inr base)
        (\<lambda>base1.
          (let base2 = (case search of
                 Some q \<Rightarrow> if q \<noteq> [] then filter (\<lambda>p. ilike (search_pattern q) (po_name p)) base1 else base1
               | None \<Rightarrow> base1)
           in Inr (page_of page page_size (sort_key (\<lambda>p. - po_created p) base2), length base2))))"

definition get_template :: "string \<Rightarrow> policy_tables \<Rightarrow> policy_row option res" where
  "get_template template_name t =
     scalar_one_or_none
       (filter (\<lambda>p. po_is_template p \<and> po_template_name p = Some template_name) (pt_policies t))"

definition list_templates :: "policy_tables \<Rightarrow> policy_row list" where
  "list_templates t = sort_key po_name (filter po_is_template (pt_policies t))"

section \<open>Creating\<close>

text \<open>
  The data of a new policy. The thresholds may be JSON text, or a list whose elements are
  dictionaries or request models; either way a list of dictionaries is stored.
\<close>

datatype threshold_item = ThDict threshold | ThModel nat string

datatype threshold_input = ThText string | ThItems "threshold_item list"

record rule_data =
  rd_name :: string
  rd_description :: "string option"
  rd_type :: string
  rd_conditions :: "cond list"

record exception_data =
  xd_name :: string
  xd_description :: "string option"
  xd_scope :: exc_scope
  xd_type :: string
  xd_conditions :: "cond list"

record policy_data =
  pd_name :: string
  pd_description :: "string option"
  pd_severity :: pol_severity
  pd_thresholds :: "threshold_input option"
  pd_ttd :: string
  pd_group :: "nat option"
  pd_response :: "nat option"
  pd_rules :: "rule_data list"
  pd_exceptions :: "exception_data list"

fun stored_threshold :: "threshold_item \<Rightarrow> threshold" where
  "stored_threshold (ThDict d) = d"
| "stored_threshold (ThModel n s) = \<lparr>th_threshold = n, th_severity = s\<rparr>"

text \<open>\<open>loads\<close> reads JSON text as such a list, or raises.\<close>

fun normalize_thresholds ::
  "(string \<Rightarrow> threshold list res) \<Rightarrow> threshold_input option \<Rightarrow> threshold list option res" where
  "normalize_thresholds loads None = Inr None"
| "normalize_thresholds loads (Some (ThText s)) = rbind (loads s) (\<lambda>ts. Inr (Some ts))"
| "normalize_thresholds loads (Some (ThItems ts)) = Inr (Some (map stored_threshold ts))"

definition insert_rule :: "nat \<Rightarrow> rule_data \<Rightarrow> policy_tables \<Rightarrow> policy_tables" where
  "insert_rule pid d t =
     t\<lparr>pt_rules := pt_rules t @
         [\<lparr>ru_id = pt_next t, ru_policy = pid, ru_name = rd_name d, ru_description = rd_description d,
           ru_type = rd_type d, ru_conditions = rd_conditions d\<rparr>],
       pt_next := pt_next t + 1\<rparr>"

definition insert_exception :: "nat \<Rightarrow> exception_data \<Rightarrow> policy_tables \<Rightarrow> policy_tables" where
  "insert_exception pid d t =
     t\<lparr>pt_exceptions := pt_exceptions t @
         [\<lparr>ex_id = pt_next t, ex_policy = pid, ex_name = xd_name d, ex_description = xd_description d,
           ex_scope = xd_scope d, ex_type = xd_type d, ex_conditions = xd_conditions d\<rparr>],
       pt_next := pt_next t + 1\<rparr>"

definition new_policy :: "int \<Rightarrow> nat \<Rightarrow> threshold list option \<Rightarrow> policy_data \<Rightarrow> policy_row" where
  "new_policy now pid thresholds d =
     \<lparr>po_id = pid, po_name = pd_name d, po_description = pd_description d, po_status = DRAFT,
      po_severity = pd_severity d, po_is_template = False, po_template_name = None,
      po_thresholds = thresholds, po_ttd = pd_ttd d, po_group = pd_group d, po_response = pd_response d,
      po_created = now\<rparr>"

definition create_policy ::
  "(string \<Rightarrow> threshold list res) \<Rightarrow> int \<Rightarrow> policy_data \<Rightarrow> policy_tables
   \<Rightarrow> (policy_row option \<times> policy_tables) res" where
  "create_policy loads now d t =
     rbind (normalize_thresholds loads (pd_thresholds d)) (\<lambda>thresholds.
       (let p = new_policy now (pt_next t) thresholds d in
        if \<not> policy_fk_ok p t then Inl integrity_error
        else
          (let t1 = t\<lparr>pt_policies := pt_policies t @ [p], pt_next := pt_next t + 1\<rparr>;
               t2 = fold (insert_rule (po_id p)) (pd_rules d) t1;
               t3 = fold (insert_exception (po_id p)) (pd_exceptions d) t2
           in Inr (get_policy (po_id p) t3, t3))))"

section \<open>Changing\<close>

text \<open>
  One entry of the data of an update. A value \<open>None\<close> stands for a \<open>null\<close> in the request, which
  the loop skips.
\<close>

datatype policy_change =
    SetName "string option"
  | SetDescription "string option"
  | SetSeverity "pol_severity option"
  | SetGroup "nat option"
  | SetResponse "nat option"
  | SetThresholds "threshold_input option"
  | SetTtd "string option"

text \<open>The thresholds of the data are normalized in place, before the loop.\<close>

fun normalize_change :: "(string \<Rightarrow> threshold list res) \<Rightarrow> policy_change \<Rightarrow> policy_change res" where
  "normalize_change loads (SetThresholds ti) =
     rbind (normalize_thresholds loads ti)
       (\<lambda>ts. Inr (SetThresholds (map_option (\<lambda>xs. ThItems (map ThDict xs)) ts)))"
| "normalize_change loads c = Inr c"

text \<open>\<open>if value is not None: setattr(policy, key, value)\<close>; the thresholds are normal here.\<close>

fun set_field :: "policy_change \<Rightarrow> policy_row \<Rightarrow> policy_row" where
  "set_field (SetName (Some v)) p = p\<lparr>po_name := v\<rparr>"
| "set_field (SetDescription (Some v)) p = p\<lparr>po_description := Some v\<rparr>"
| "set_field (SetSeverity (Some v)) p = p\<lparr>po_severity := v\<rparr>"
| "set_field (SetGroup (Some v)) p = p\<lparr>po_group := Some v\<rparr>"
| "set_field (SetResponse (Some v)) p = p\<lparr>po_response := Some v\<rparr>"
| "set_field (SetThresholds (Some (ThItems ts))) p = p\<lparr>po_thresholds := Some (map stored_threshold ts)\<rparr>"
| "set_field (SetTtd (Some v)) p = p\<lparr>po_ttd := v\<rparr>"
| "set_field _ p = p"

definition replace_policy :: "policy_row \<Rightarrow> policy_tables \<Rightarrow> policy_tables" where
  "replace_policy p t = t\<lparr>pt_policies := map (\<lambda>q. if po_id q = po_id p then p else q) (pt_policies t)\<rparr>"

definition update_policy ::
  "(string \<Rightarrow> threshold list res) \<Rightarrow> policy_row \<Rightarrow> policy_change list \<Rightarrow> policy_tables
   \<Rightarrow> (policy_row option \<times> policy_change list \<times> policy_tables) res" where
  "update_policy loads p data t =
     rbind (map_res (normalize_change loads) data) (\<lambda>data1.
       (let p1 = fold set_field data1 p; t1 = replace_policy p1 t in
        if \<not> policy_fk_ok p1 t then Inl integrity_error
        else Inr (get_policy (po_id p) t1, data1, t1)))"

text \<open>The delete cascades to the rules and exceptions of the policy.\<close>

definition delete_policy :: "policy_row \<Rightarrow> policy_tables \<Rightarrow> policy_tables" where
  "delete_policy p t =
     t\<lparr>pt_policies := filter (\<lambda>q. po_id q \<noteq> po_id p) (pt_policies t),
       pt_rules := filter (\<lambda>r. ru_policy r \<noteq> po_id p) (pt_rules t),
       pt_exceptions := filter (\<lambda>x. ex_policy x \<noteq> po_id p) (pt_exceptions t)\<rparr>"

definition activate_policy :: "policy_row \<Rightarrow> policy_tables \<Rightarrow> policy_row option \<times> policy_tables" where
  "activate_policy p t =
     (let t1 = replace_policy (p\<lparr>po_status := ACTIVE\<rparr>) t in (get_policy (po_id p) t1, t1))"

definition suspend_policy :: "policy_row \<Rightarrow> policy_tables \<Rightarrow> policy_row option \<times> policy_tables" where
  "suspend_policy p t =
     (let t1 = replace_policy (p\<lparr>po_status := SUSPENDED\<rparr>) t in (get_policy (po_id p) t1, t1))"

section \<open>Templates\<close>

definition rule_copy :: "rule_row \<Rightarrow> rule_data" where
  "rule_copy r =
     \<lparr>rd_name = ru_name r, rd_description = ru_description r, rd_type = ru_type r, rd_conditions = ru_conditions r\<rparr>"

definition exception_copy :: "exception_row \<Rightarrow> exception_data" where
  "exception_copy x =
     \<lparr>xd_name = ex_name x, xd_description = ex_description x, xd_scope = ex_scope x, xd_type = ex_type x,
      xd_conditions = ex_conditions x\<rparr>"

text \<open>\<open>description or template.description\<close>: an empty text counts as none.\<close>

definition or_else :: "string option \<Rightarrow> string option \<Rightarrow> string option" where
  "or_else a b = (case a of Some v \<Rightarrow> if v \<noteq> [] then a else b | None \<Rightarrow> b)"

definition template_data :: "policy_row \<Rightarrow> string \<Rightarrow> string option \<Rightarrow> policy_tables \<Rightarrow> policy_data" where
  "template_data template nm description t =
     \<lparr>pd_name = nm, pd_description = or_else description (po_description template),
      pd_severity = po_severity template,
      pd_thresholds = map_option (\<lambda>ts. ThItems (map ThDict ts)) (po_thresholds template),
      pd_ttd = po_ttd template, pd_group = po_group template, pd_response = po_response template,
      pd_rules = map rule_copy (rules_of (po_id template) t),
      pd_exceptions = map exception_copy (exceptions_of (po_id template) t)\<rparr>"

definition create_from_template ::
  "(string \<Rightarrow> threshold list res) \<Rightarrow> int \<Rightarrow> policy_row \<Rightarrow> string \<Rightarrow> string option \<Rightarrow> policy_tables
   \<Rightarrow> (policy_row option \<times> policy_tables) res" where
  "create_from_template loads now template nm description t =
     create_policy loads now (template_data template nm description t) t"

section \<open>Rules and exceptions of a policy\<close>

definition add_rule :: "policy_row \<Rightarrow> rule_data \<Rightarrow> policy_tables \<Rightarrow> rule_row option \<times> policy_tables" where
  "add_rule p d t =
     (let t1 = insert_rule (po_id p) d t in (find (\<lambda>r. ru_id r = pt_next t) (pt_rules t1), t1))"

definition remove_rule :: "nat \<Rightarrow> policy_tables \<Rightarrow> bool \<times> policy_tables" where
  "remove_rule rid t =
     (case find (\<lambda>r. ru_id r = rid) (pt_rules t) of
        None \<Rightarrow> (False, t)
      | Some r \<Rightarrow> (True, t\<lparr>pt_rules := filter (\<lambda>r. ru_id r \<noteq> rid) (pt_rules t)\<rparr>))"

definition add_exception ::
  "policy_row \<Rightarrow> exception_data \<Rightarrow> policy_tables \<Rightarrow> exception_row option \<times> policy_tables" where
  "add_exception p d t =
     (let t1 = insert_exception (po_id p) d t
      in (find (\<lambda>x. ex_id x = pt_next t) (pt_exceptions t1), t1))"

definition remove_exception :: "nat \<Rightarrow> policy_tables \<Rightarrow> bool \<times> policy_tables" where
  "remove_exception xid t =
     (case find (\<lambda>x. ex_id x = xid) (pt_exceptions t) of
        None \<Rightarrow> (False, t)
      | Some x \<Rightarrow> (True, t\<lparr>pt_exceptions := filter (\<lambda>x. ex_id x \<noteq> xid) (pt_exceptions t)\<rparr>))"

definition policy_audit_entry ::
  "nat \<Rightarrow> string \<Rightarrow> string option \<Rightarrow> string option \<Rightarrow> (string \<times> json) list option \<Rightarrow> string
   \<Rightarrow> policy_tables \<Rightarrow> policy_tables" where
  "policy_audit_entry actor action resource detail changes ip t =
     t\<lparr>pt_audit := pt_audit t @
         [\<lparr>pa_actor = actor, pa_action = action, pa_resource = resource, pa_detail = detail,
           pa_changes = changes, pa_ip = ip\<rparr>]\<rparr>"

section \<open>Well-formed tables\<close>

text \<open>
  Ids are distinct and below the counter; every rule and exception belongs to a policy that
  exists; every policy names a group and a response rule that exist.
\<close>

definition policies_wf :: "policy_tables \<Rightarrow> bool" where
  "policies_wf t \<longleftrightarrow>
     distinct (map po_id (pt_policies t)) \<and>
     distinct (map ru_id (pt_rules t)) \<and>
     distinct (map ex_id (pt_exceptions t)) \<and>
     (\<forall>p \<in> set (pt_policies t). po_id p < pt_next t \<and> policy_fk_ok p t) \<and>
     (\<forall>r \<in> set (pt_rules t). ru_id r < pt_next t \<and> ru_policy r \<in> po_id ` set (pt_policies t)) \<and>
     (\<forall>x \<in> set (pt_exceptions t). ex_id x < pt_next t \<and> ex_policy x \<in> po_id ` set (pt_policies t))"

named_theorems wf_ops "operations that keep the tables well formed"

lemma insert_rule_frame [simp]:
  "pt_policies (insert_rule pid d t) = pt_policies t" "pt_exceptions (insert_rule pid d t) = pt_exceptions t"
  "pt_groups (insert_rule pid d t) = pt_groups t" "pt_responses (insert_rule pid d t) = pt_responses t"
  "pt_actions (insert_rule pid d t) = pt_actions t" "pt_audit (insert_rule pid d t) = pt_audit t"
  by (simp_all add: insert_rule_def)

lemma insert_exception_frame [simp]:
  "pt_policies (insert_exception pid d t) = pt_policies t" "pt_rules (insert_exception pid d t) = pt_rules t"
  "pt_groups (insert_exception pid d t) = pt_groups t" "pt_responses (insert_exception pid d t) = pt_responses t"
  "pt_actions (insert_exception pid d t) = pt_actions t" "pt_audit (insert_exception pid d t) = pt_audit t"
  by (simp_all add: insert_exception_def)

lemma fold_keeps: "(\<And>x u. f (g x u) = f u) \<Longrightarrow> f (fold g xs t) = f t"
  by (induction xs arbitrary: t) simp_all

lemmas fold_frames [simp] =
  fold_keeps [of pt_policies "insert_rule pid" for pid] fold_keeps [of pt_exceptions "insert_rule pid" for pid]
  fold_keeps [of pt_groups "insert_rule pid" for pid] fold_keeps [of pt_responses "insert_rule pid" for pid]
  fold_keeps [of pt_actions "insert_rule pid" for pid] fold_keeps [of pt_audit "insert_rule pid" for pid]
  fold_keeps [of pt_policies "insert_exception pid" for pid] fold_keeps [of pt_rules "insert_exception pid" for pid]
  fold_keeps [of pt_groups "insert_exception pid" for pid] fold_keeps [of pt_responses "insert_exception pid" for pid]
  fold_keeps [of pt_actions "insert_exception pid" for pid] fold_keeps [of pt_audit "insert_exception pid" for pid]

lemma fold_invariant: "P t \<Longrightarrow> (\<And>x u. P u \<Longrightarrow> P (g x u)) \<Longrightarrow> P (fold g xs t)"
  by (induction xs arbitrary: t) simp_all

lemma policy_fk_ok_cong:
  "pt_groups t' = pt_groups t \<Longrightarrow> pt_responses t' = pt_responses t \<Longrightarrow> policy_fk_ok p t' = policy_fk_ok p t"
  by (simp add: policy_fk_ok_def)

lemma wf_insert_rule [wf_ops]:
  "policies_wf t \<Longrightarrow> pid \<in> po_id ` set (pt_policies t) \<Longrightarrow> policies_wf (insert_rule pid d t)"
  unfolding policies_wf_def by (auto simp: insert_rule_def policy_fk_ok_def)

lemma wf_insert_exception [wf_ops]:
  "policies_wf t \<Longrightarrow> pid \<in> po_id ` set (pt_policies t) \<Longrightarrow> policies_wf (insert_exception pid d t)"
  unfolding policies_wf_def by (auto simp: insert_exception_def policy_fk_ok_def)

lemma wf_fold_rules:
  "policies_wf t \<Longrightarrow> pid \<in> po_id ` set (pt_policies t) \<Longrightarrow> policies_wf (fold (insert_rule pid) ds t)"
  by (rule fold_invariant [where P = "\<lambda>u. policies_wf u \<and> pid \<in> po_id ` set (pt_policies u)", THEN conjunct1])
    (simp_all add: wf_insert_rule)

lemma wf_fold_exceptions:
  "policies_wf t \<Longrightarrow> pid \<in> po_id ` set (pt_policies t) \<Longrightarrow> policies_wf (fold (insert_exception pid) ds t)"
  by (rule fold_invariant [where P = "\<lambda>u. policies_wf u \<and> pid \<in> po_id ` set (pt_policies u)", THEN conjunct1])
    (simp_all add: wf_insert_exception)

lemma wf_new_policy:
  "policies_wf t \<Longrightarrow> po_id p = pt_next t \<Longrightarrow> policy_fk_ok p t \<Longrightarrow>
   policies_wf (t\<lparr>pt_policies := pt_policies t @ [p], pt_next := pt_next t + 1\<rparr>)"
  unfolding policies_wf_def by (auto simp: policy_fk_ok_def less_Suc_eq)

lemma wf_create_policy [wf_ops]:
  assumes "policies_wf t" and "create_policy loads now d t = Inr (p, t')"
  shows "policies_wf t'"
proof -
  obtain th where th: "normalize_thresholds loads (pd_thresholds d) = Inr th"
      and fk: "policy_fk_ok (new_policy now (pt_next t) th d) t"
      and t': "t' = fold (insert_exception (pt_next t)) (pd_exceptions d) (fold (insert_rule (pt_next t)) (pd_rules d)
         (t\<lparr>pt_policies := pt_policies t @ [new_policy now (pt_next t) th d], pt_next := pt_next t + 1\<rparr>))"
    using assms(2) by (auto simp: create_policy_def rbind_Inr_iff Let_def new_policy_def split: if_splits)
  have id: "po_id (new_policy now (pt_next t) th d) = pt_next t" by (simp add: new_policy_def)
  show ?thesis unfolding t'
    by (intro wf_fold_exceptions wf_fold_rules wf_new_policy assms(1) fk id) (simp_all add: id)
qed

lemma map_replace_ids: "po_id q = po_id p \<Longrightarrow> map po_id (map (\<lambda>r. if po_id r = po_id p then q else r) ps) = map po_id ps"
  by (induction ps) auto

lemma wf_replace [wf_ops]:
  assumes "policies_wf t" "policy_fk_ok p t"
  shows "policies_wf (replace_policy p t)"
proof -
  let ?ps = "map (\<lambda>q. if po_id q = po_id p then p else q) (pt_policies t)"
  have ids: "map po_id ?ps = map po_id (pt_policies t)" by (rule map_replace_ids) simp
  have img: "po_id ` set ?ps = po_id ` set (pt_policies t)" using ids by (metis list.set_map)
  have "\<forall>q \<in> set ?ps. po_id q < pt_next t \<and> policy_fk_ok q t"
    using assms by (auto simp: policies_wf_def)
  then show ?thesis using assms ids img
    by (simp add: policies_wf_def replace_policy_def policy_fk_ok_def cong: map_cong)
qed

lemma get_policyD: "get_policy pid t = Some p \<Longrightarrow> p \<in> set (pt_policies t) \<and> po_id p = pid \<and> \<not> po_is_template p"
  by (auto simp: get_policy_def find_Some_iff)

lemma wf_fk: "policies_wf t \<Longrightarrow> p \<in> set (pt_policies t) \<Longrightarrow> policy_fk_ok p t"
  by (simp add: policies_wf_def)

lemma wf_update_policy [wf_ops]:
  "policies_wf t \<Longrightarrow> update_policy loads p data t = Inr (q, data1, t') \<Longrightarrow> policies_wf t'"
  by (auto simp: update_policy_def rbind_Inr_iff Let_def replace_policy_def policy_fk_ok_def split: if_splits
      intro: wf_replace [unfolded replace_policy_def policy_fk_ok_def])

lemma wf_activate [wf_ops]:
  "policies_wf t \<Longrightarrow> p \<in> set (pt_policies t) \<Longrightarrow> policies_wf (snd (activate_policy p t))"
  using wf_fk [of t p] by (auto simp: activate_policy_def Let_def policy_fk_ok_def intro!: wf_replace)

lemma wf_suspend [wf_ops]:
  "policies_wf t \<Longrightarrow> p \<in> set (pt_policies t) \<Longrightarrow> policies_wf (snd (suspend_policy p t))"
  using wf_fk [of t p] by (auto simp: suspend_policy_def Let_def policy_fk_ok_def intro!: wf_replace)

lemma wf_delete [wf_ops]: "policies_wf t \<Longrightarrow> policies_wf (delete_policy p t)"
  unfolding policies_wf_def delete_policy_def by (auto simp: policy_fk_ok_def intro: distinct_map_filter)

lemma wf_add_rule [wf_ops]:
  "policies_wf t \<Longrightarrow> p \<in> set (pt_policies t) \<Longrightarrow> policies_wf (snd (add_rule p d t))"
  by (simp add: add_rule_def Let_def wf_insert_rule)

lemma wf_add_exception [wf_ops]:
  "policies_wf t \<Longrightarrow> p \<in> set (pt_policies t) \<Longrightarrow> policies_wf (snd (add_exception p d t))"
  by (simp add: add_exception_def Let_def wf_insert_exception)

lemma wf_remove_rule [wf_ops]: "policies_wf t \<Longrightarrow> policies_wf (snd (remove_rule rid t))"
  unfolding policies_wf_def remove_rule_def
  by (auto simp: policy_fk_ok_def intro: distinct_map_filter split: option.split)

lemma wf_remove_exception [wf_ops]: "policies_wf t \<Longrightarrow> policies_wf (snd (remove_exception xid t))"
  unfolding policies_wf_def remove_exception_def
  by (auto simp: policy_fk_ok_def intro: distinct_map_filter split: option.split)

lemma wf_audit [wf_ops]: "policies_wf t \<Longrightarrow> policies_wf (policy_audit_entry actor action resource detail changes ip t)"
  by (simp add: policies_wf_def policy_audit_entry_def policy_fk_ok_def)

section \<open>Copying a template\<close>

lemma filter_fold_rules:
  "map rule_copy (filter (\<lambda>r. ru_policy r = k) (pt_rules (fold (insert_rule pid) ds t))) =
     map rule_copy (filter (\<lambda>r. ru_policy r = k) (pt_rules t)) @ (if k = pid then ds else [])"
  by (induction ds arbitrary: t) (auto simp: insert_rule_def rule_copy_def)

lemma filter_fold_exceptions:
  "map exception_copy (filter (\<lambda>x. ex_policy x = k) (pt_exceptions (fold (insert_exception pid) ds t))) =
     map exception_copy (filter (\<lambda>x. ex_policy x = k) (pt_exceptions t)) @ (if k = pid then ds else [])"
  by (induction ds arbitrary: t) (auto simp: insert_exception_def exception_copy_def)

lemma fresh_has_no_parts:
  "policies_wf t \<Longrightarrow> rules_of (pt_next t) t = []" "policies_wf t \<Longrightarrow> exceptions_of (pt_next t) t = []"
  by (force simp: policies_wf_def rules_of_def exceptions_of_def filter_empty_conv)+

lemma find_last_fresh:
  "policies_wf t \<Longrightarrow> po_id p = pt_next t \<Longrightarrow> \<not> po_is_template p \<Longrightarrow>
   find (\<lambda>q. po_id q = pt_next t \<and> \<not> po_is_template q) (pt_policies t @ [p]) = Some p"
proof -
  assume "policies_wf t" and p: "po_id p = pt_next t" "\<not> po_is_template p"
  then have "\<forall>q \<in> set (pt_policies t). po_id q \<noteq> pt_next t" by (auto simp: policies_wf_def)
  then have "find (\<lambda>q. po_id q = pt_next t \<and> \<not> po_is_template q) (xs @ [p]) = Some p"
    if "set xs \<subseteq> set (pt_policies t)" for xs
    using that p by (induction xs) auto
  then show ?thesis by simp
qed

lemma create_policy_ok:
  assumes "policies_wf t" and "normalize_thresholds loads (pd_thresholds d) = Inr th"
    and "policy_fk_ok (new_policy now (pt_next t) th d) t"
  shows "\<exists>t'. create_policy loads now d t = Inr (Some (new_policy now (pt_next t) th d), t') \<and>
    pt_policies t' = pt_policies t @ [new_policy now (pt_next t) th d] \<and>
    (\<forall>k. map rule_copy (rules_of k t') = map rule_copy (rules_of k t) @ (if k = pt_next t then pd_rules d else [])) \<and>
    (\<forall>k. map exception_copy (exceptions_of k t') =
      map exception_copy (exceptions_of k t) @ (if k = pt_next t then pd_exceptions d else []))"
  using assms(2,3) find_last_fresh [OF assms(1), of "new_policy now (pt_next t) th d"]
  by (simp add: create_policy_def Let_def new_policy_def get_policy_def rules_of_def exceptions_of_def
      filter_fold_rules filter_fold_exceptions)

lemma map_stored: "map stored_threshold (map ThDict ts) = ts"
  by (induction ts) auto

text \<open>
  A policy made from a template is a draft under the new name with the template's severity,
  thresholds, fallback, group and response rule, and with copies of all its rules and
  exceptions, conditions included; the template keeps its own.
\<close>

theorem template_copied:
  assumes "policies_wf t" and "template \<in> set (pt_policies t)"
  shows "\<exists>p t'. create_from_template loads now template nm description t = Inr (Some p, t') \<and>
    p = template\<lparr>po_id := pt_next t, po_name := nm, po_status := DRAFT, po_is_template := False,
          po_template_name := None, po_description := or_else description (po_description template),
          po_created := now\<rparr> \<and>
    pt_policies t' = pt_policies t @ [p] \<and>
    map rule_copy (rules_of (po_id p) t') = map rule_copy (rules_of (po_id template) t) \<and>
    map exception_copy (exceptions_of (po_id p) t') = map exception_copy (exceptions_of (po_id template) t) \<and>
    map rule_copy (rules_of (po_id template) t') = map rule_copy (rules_of (po_id template) t) \<and>
    map exception_copy (exceptions_of (po_id template) t') = map exception_copy (exceptions_of (po_id template) t)"
proof -
  let ?d = "template_data template nm description t"
  let ?p = "new_policy now (pt_next t) (po_thresholds template) ?d"
  have th: "normalize_thresholds loads (pd_thresholds ?d) = Inr (po_thresholds template)"
    by (cases "po_thresholds template") (simp_all add: template_data_def comp_def)
  have fk: "policy_fk_ok ?p t"
    using wf_fk [OF assms] by (simp add: policy_fk_ok_def new_policy_def template_data_def)
  have "po_id template \<noteq> pt_next t" using assms by (auto simp: policies_wf_def)
  then show ?thesis
    using create_policy_ok [OF assms(1) th fk] fresh_has_no_parts [OF assms(1)]
    unfolding create_from_template_def
    by (auto simp: new_policy_def template_data_def intro!: exI [of _ ?p])
qed

section \<open>Updates and deletions\<close>

text \<open>What an update does to the row: the last value that is not \<open>null\<close> of each field.\<close>

fun is_null :: "policy_change \<Rightarrow> bool" where
  "is_null (SetName v) = (v = None)"
| "is_null (SetDescription v) = (v = None)"
| "is_null (SetSeverity v) = (v = None)"
| "is_null (SetGroup v) = (v = None)"
| "is_null (SetResponse v) = (v = None)"
| "is_null (SetThresholds v) = (v = None)"
| "is_null (SetTtd v) = (v = None)"

lemma set_null: "is_null c \<Longrightarrow> set_field c p = p"
  by (cases c) auto

lemma normalize_null: "is_null c \<Longrightarrow> normalize_change loads c = Inr c"
  by (cases c) auto

lemma replace_same: "policies_wf t \<Longrightarrow> p \<in> set (pt_policies t) \<Longrightarrow> replace_policy p t = t"
proof -
  assume "policies_wf t" "p \<in> set (pt_policies t)"
  then have "q = p" if "q \<in> set (pt_policies t)" "po_id q = po_id p" for q
    using that by (auto simp: policies_wf_def distinct_map inj_on_def)
  then have "map (\<lambda>q. if po_id q = po_id p then p else q) (pt_policies t) = pt_policies t"
    by (intro map_idI) auto
  then show ?thesis by (simp add: replace_policy_def)
qed

text \<open>
  No update can clear a field: a request that sets fields to \<open>null\<close> is accepted and leaves the
  tables as they are.
\<close>

theorem null_update_changes_nothing:
  assumes "policies_wf t" and "get_policy pid t = Some p" and "\<forall>c \<in> set data. is_null c"
  shows "update_policy loads p data t = Inr (Some p, data, t)"
proof -
  have p: "p \<in> set (pt_policies t)" "po_id p = pid" using get_policyD [OF assms(2)] by auto
  have "map_res (normalize_change loads) data = Inr data"
    using assms(3) by (induction data) (auto simp: normalize_null)
  moreover have "fold set_field data p = p"
    using assms(3) by (induction data) (auto simp: set_null)
  ultimately show ?thesis
    using replace_same [OF assms(1) p(1)] wf_fk [OF assms(1) p(1)] assms(2) p(2)
    by (simp add: update_policy_def)
qed

lemma filter_other: "filter (\<lambda>x. f x = k) (filter (\<lambda>x. f x \<noteq> i) xs) = (if k = i then [] else filter (\<lambda>x. f x = k) xs)"
  by (induction xs) auto

lemma deleted_parts:
  "rules_of k (delete_policy p t) = (if k = po_id p then [] else rules_of k t)"
  "exceptions_of k (delete_policy p t) = (if k = po_id p then [] else exceptions_of k t)"
  by (simp_all add: rules_of_def exceptions_of_def delete_policy_def filter_other del: filter_filter)

section \<open>Witnesses\<close>

definition card_template :: policy_row where
  "card_template =
     \<lparr>po_id = 1, po_name = ''Cards'', po_description = None, po_status = DRAFT, po_severity = HIGH,
      po_is_template = True, po_template_name = Some ''pci'', po_thresholds = None, po_ttd = ''block'',
      po_group = None, po_response = None, po_created = 0\<rparr>"

definition card_rule :: rule_row where
  "card_rule = \<lparr>ru_id = 2, ru_policy = 1, ru_name = ''r'', ru_description = None, ru_type = ''detection'', ru_conditions = []\<rparr>"

definition template_tables :: policy_tables where
  "template_tables =
     \<lparr>pt_policies = [card_template, card_template\<lparr>po_id := 4, po_is_template := False\<rparr>], pt_rules = [card_rule], pt_exceptions = [],
      pt_groups = [], pt_responses = [], pt_actions = [], pt_audit = [], pt_next = 5\<rparr>"

lemma template_tables_wf: "policies_wf template_tables"
  by (simp add: policies_wf_def template_tables_def card_template_def card_rule_def policy_fk_ok_def refers_to_def)

theorem template_copied_witness:
  "\<exists>p t'. create_from_template (\<lambda>s. Inr []) 7 card_template ''Mine'' None template_tables = Inr (Some p, t') \<and>
     map rule_copy (rules_of (po_id p) t') = [rule_copy card_rule]"
proof -
  have "card_template \<in> set (pt_policies template_tables)" by (simp add: template_tables_def)
  from template_copied [OF template_tables_wf this, of "\<lambda>s. Inr []" 7 "''Mine''" None] show ?thesis
    by (auto simp: template_tables_def card_template_def card_rule_def rules_of_def)
qed

theorem null_update_changes_nothing_witness:
  "update_policy (\<lambda>s. Inr []) (card_template\<lparr>po_id := 4, po_is_template := False\<rparr>) [SetResponse None] template_tables =
     Inr (Some (card_template\<lparr>po_id := 4, po_is_template := False\<rparr>), [SetResponse None], template_tables)"
  by (rule null_update_changes_nothing [OF template_tables_wf, of 4])
    (simp_all add: get_policy_def template_tables_def card_template_def)

end
