(* ===== verification/AgentService.thy ===== *)
theory AgentService
  imports Discover PolicyService
begin

text \<open>
  \<open>server/services/agent_service.py\<close> over \<open>server/models/agent.py\<close> and the endpoints of
  \<open>server/api/agents.py\<close>: agents register and send heartbeats, report incidents and fetch the
  active policies. A registration is a query followed by one write, so that registrations
  that overlap can be composed from their parts.
\<close>

section \<open>Agents\<close>

datatype agent_status = ONLINE | OFFLINE | STALE | ERROR

record agent_row =
  ag_id :: nat
  ag_hostname :: string
  ag_os :: "string option"
  ag_version :: "string option"
  ag_driver :: "string option"
  ag_policy_version :: int
  ag_ip :: "string option"
  ag_status :: agent_status
  ag_heartbeat :: "string option"
  ag_group :: "nat option"
  ag_capabilities :: "(string \<times> bool) list option"

record agent_group =
  gr_id :: nat
  gr_name :: string
  gr_description :: "string option"

record agent_tables =
  at_agents :: "agent_row list"
  at_groups :: "agent_group list"
  at_next :: nat

record registration =
  rg_hostname :: string
  rg_os :: "string option"
  rg_version :: "string option"
  rg_driver :: "string option"
  rg_ip :: "string option"
  rg_capabilities :: "(string \<times> bool) list option"

text \<open>What a registration writes, decided by what its query saw.\<close>

datatype agent_write = UpdateAgent agent_row | InsertAgent agent_row

definition register_plan :: "string \<Rightarrow> nat \<Rightarrow> registration \<Rightarrow> agent_tables \<Rightarrow> agent_write res" where
  "register_plan now new_id rg t =
     rbind (scalar_one_or_none (filter (\<lambda>a. ag_hostname a = rg_hostname rg) (at_agents t))) (\<lambda>found.
       (case found of
          Some a \<Rightarrow>
            Inr (UpdateAgent (a\<lparr>ag_os := rg_os rg, ag_version := rg_version rg, ag_driver := rg_driver rg,
                   ag_ip := rg_ip rg, ag_capabilities := rg_capabilities rg, ag_status := ONLINE,
                   ag_heartbeat := Some now\<rparr>))
        | None \<Rightarrow>
            Inr (InsertAgent \<lparr>ag_id = new_id, ag_hostname = rg_hostname rg, ag_os = rg_os rg,
                   ag_version = rg_version rg, ag_driver = rg_driver rg, ag_policy_version = 0,
                   ag_ip = rg_ip rg, ag_status = ONLINE, ag_heartbeat = Some now, ag_group = None,
                   ag_capabilities = rg_capabilities rg\<rparr>)))"

definition replace_agent :: "agent_row \<Rightarrow> agent_tables \<Rightarrow> agent_tables" where
  "replace_agent a t = t\<lparr>at_agents := map (\<lambda>b. if ag_id b = ag_id a then a else b) (at_agents t)\<rparr>"

fun apply_write :: "agent_write \<Rightarrow> agent_tables \<Rightarrow> agent_row \<times> agent_tables" where
  "apply_write (UpdateAgent a) t = (a, replace_agent a t)"
| "apply_write (InsertAgent a) t = (a, t\<lparr>at_agents := at_agents t @ [a], at_next := max (at_next t) (ag_id a + 1)\<rparr>)"

definition register_agent :: "string \<Rightarrow> registration \<Rightarrow> agent_tables \<Rightarrow> (agent_row \<times> agent_tables) res" where
  "register_agent now rg t = rbind (register_plan now (at_next t) rg t) (\<lambda>w. Inr (apply_write w t))"

definition get_agent :: "nat \<Rightarrow> agent_tables \<Rightarrow> agent_row option" where
  "get_agent aid t = find (\<lambda>a. ag_id a = aid) (at_agents t)"

definition heartbeat :: "string \<Rightarrow> nat \<Rightarrow> int \<Rightarrow> agent_tables \<Rightarrow> agent_row option \<times> agent_tables" where
  "heartbeat now aid policy_version t =
     (case get_agent aid t of
        None \<Rightarrow> (None, t)
      | Some a \<Rightarrow>
          (let a1 = a\<lparr>ag_heartbeat := Some now, ag_status := ONLINE, ag_policy_version := policy_version\<rparr>
           in (Some a1, replace_agent a1 t)))"

definition get_active_policies :: "policy_tables \<Rightarrow> policy_row list" where
  "get_active_policies t = filter (\<lambda>p. po_status p = ACTIVE \<and> \<not> po_is_template p) (pt_policies t)"

section \<open>Incidents from reports\<close>

datatype channel = USB | NETWORK_SHARE | CLIPBOARD | BROWSER_UPLOAD | EMAIL | HTTP_UPLOAD | DISCOVER

definition PROTO_SEVERITY_MAP :: "(int \<times> pol_severity) list" where
  "PROTO_SEVERITY_MAP = [(1, INFO), (2, LOW), (3, MEDIUM), (4, HIGH), (5, CRITICAL)]"

definition PROTO_CHANNEL_MAP :: "(int \<times> channel) list" where
  "PROTO_CHANNEL_MAP =
     [(1, USB), (2, NETWORK_SHARE), (3, CLIPBOARD), (4, BROWSER_UPLOAD), (5, EMAIL), (6, HTTP_UPLOAD), (7, DISCOVER)]"

text \<open>The arguments of a report, and the row it becomes.\<close>

record report =
  re_agent :: string
  re_policy :: "string option"
  re_policy_name :: string
  re_severity :: int
  re_channel :: int
  re_source_type :: string
  re_file_path :: "string option"
  re_file_name :: "string option"
  re_file_size :: "int option"
  re_file_type :: "string option"
  re_user :: "string option"
  re_source_ip :: "string option"
  re_destination :: "string option"
  re_match_count :: int
  re_matches :: "json list"
  re_action :: string
  re_justification :: "string option"

record reported =
  rp_id :: nat
  rp_policy :: "nat option"
  rp_policy_name :: string
  rp_severity :: pol_severity
  rp_status :: string
  rp_channel :: channel
  rp_source_type :: string
  rp_file_path :: "string option"
  rp_file_name :: "string option"
  rp_file_size :: "int option"
  rp_file_type :: "string option"
  rp_user :: "string option"
  rp_source_ip :: "string option"
  rp_destination :: "string option"
  rp_match_count :: int
  rp_matched_content :: "json option"
  rp_action :: string
  rp_justification :: "string option"
  rp_agent :: "nat option"
  rp_created :: string

definition bad_uuid :: exn where
  "bad_uuid = Exn ValueError ''badly formed hexadecimal UUID string''"

text \<open>\<open>uuid.UUID(s) if s else None\<close>.\<close>

definition uuid_or_none :: "string option \<Rightarrow> nat option res" where
  "uuid_or_none v =
     (case wanted v of
        None \<Rightarrow> Inr None
      | Some s \<Rightarrow> (case parse_uuid s of Some n \<Rightarrow> Inr (Some n) | None \<Rightarrow> Inl bad_uuid))"

text \<open>
  \<open>create_incident_from_report\<close>; \<open>policies\<close> and \<open>agents\<close> are the ids the foreign keys may name.
\<close>

definition create_incident_from_report ::
  "string \<Rightarrow> nat \<Rightarrow> nat list \<Rightarrow> nat list \<Rightarrow> report \<Rightarrow> reported res" where
  "create_incident_from_report now new_id policies agents r =
     rbind (uuid_or_none (re_policy r)) (\<lambda>policy_id.
     rbind (uuid_or_none (Some (re_agent r))) (\<lambda>agent_id.
       if \<not> refers_to policy_id policies \<or> \<not> refers_to agent_id agents then Inl integrity_error
       else Inr \<lparr>rp_id = new_id, rp_policy = policy_id, rp_policy_name = re_policy_name r,
              rp_severity = dict_get PROTO_SEVERITY_MAP (re_severity r) MEDIUM, rp_status = ''new'',
              rp_channel = dict_get PROTO_CHANNEL_MAP (re_channel r) USB, rp_source_type = re_source_type r,
              rp_file_path = wanted (re_file_path r), rp_file_name = wanted (re_file_name r),
              rp_file_size = (case re_file_size r of Some n \<Rightarrow> if n > 0 then Some n else None | None \<Rightarrow> None),
              rp_file_type = wanted (re_file_type r), rp_user = wanted (re_user r),
              rp_source_ip = wanted (re_source_ip r), rp_destination = wanted (re_destination r),
              rp_match_count = re_match_count r,
              rp_matched_content =
                (if re_matches r \<noteq> [] then Some (JObj [(''matches'', JList (re_matches r))]) else None),
              rp_action = re_action r, rp_justification = wanted (re_justification r), rp_agent = agent_id,
              rp_created = now\<rparr>))"

section \<open>The endpoints\<close>

definition agent_stats :: "agent_tables \<Rightarrow> (string \<times> nat) list" where
  "agent_stats t =
     (let count = (\<lambda>st. length (filter (\<lambda>a. ag_status a = st) (at_agents t))) in
      [(''total'', length (at_agents t)), (''online'', count ONLINE), (''offline'', count OFFLINE),
       (''stale'', count STALE), (''error'', count ERROR)])"

definition agent_not_found :: http_error where
  "agent_not_found = HttpError 404 ''Agent not found''"

definition group_not_found :: http_error where
  "group_not_found = HttpError 404 ''Agent group not found''"

text \<open>Group names are unique; a violation is an error of the database.\<close>

definition create_group :: "string \<Rightarrow> string option \<Rightarrow> agent_tables \<Rightarrow> (http_error + agent_group) \<times> agent_tables" where
  "create_group nm description t =
     (if \<exists>g \<in> set (at_groups t). gr_name g = nm then (Inl internal_error, t)
      else (let g = \<lparr>gr_id = at_next t, gr_name = nm, gr_description = description\<rparr>
            in (Inr g, t\<lparr>at_groups := at_groups t @ [g], at_next := at_next t + 1\<rparr>)))"

definition update_group ::
  "nat \<Rightarrow> string \<Rightarrow> string option \<Rightarrow> agent_tables \<Rightarrow> (http_error + agent_group) \<times> agent_tables" where
  "update_group gid nm description t =
     (case find (\<lambda>g. gr_id g = gid) (at_groups t) of
        None \<Rightarrow> (Inl group_not_found, t)
      | Some g \<Rightarrow>
          if \<exists>h \<in> set (at_groups t). gr_id h \<noteq> gid \<and> gr_name h = nm then (Inl internal_error, t)
          else
            (let g1 = g\<lparr>gr_name := nm\<rparr>;
                 g2 = (case description of Some d \<Rightarrow> g1\<lparr>gr_description := Some d\<rparr> | None \<Rightarrow> g1)
             in (Inr g2, t\<lparr>at_groups := map (\<lambda>h. if gr_id h = gid then g2 else h) (at_groups t)\<rparr>)))"

text \<open>The relationship of the group sets its agents' reference to null.\<close>

definition delete_group :: "nat \<Rightarrow> agent_tables \<Rightarrow> (http_error + unit) \<times> agent_tables" where
  "delete_group gid t =
     (case find (\<lambda>g. gr_id g = gid) (at_groups t) of
        None \<Rightarrow> (Inl group_not_found, t)
      | Some g \<Rightarrow>
          (Inr (), t\<lparr>at_groups := filter (\<lambda>h. gr_id h \<noteq> gid) (at_groups t),
                     at_agents := map (\<lambda>a. if ag_group a = Some gid then a\<lparr>ag_group := None\<rparr> else a) (at_agents t)\<rparr>))"

text \<open>The body may have a key \<open>group_id\<close>, with a text or \<open>null\<close>.\<close>

definition update_agent ::
  "nat \<Rightarrow> string option option \<Rightarrow> agent_tables \<Rightarrow> (http_error + agent_row) \<times> agent_tables" where
  "update_agent aid body_group t =
     (case get_agent aid t of
        None \<Rightarrow> (Inl agent_not_found, t)
      | Some a \<Rightarrow>
          (case body_group of
             None \<Rightarrow> (Inr a, t)
           | Some v \<Rightarrow>
               (case uuid_or_none v of
                  Inl e \<Rightarrow> (Inl internal_error, t)
                | Inr gid \<Rightarrow>
                    if \<not> refers_to gid (map gr_id (at_groups t)) then (Inl internal_error, t)
                    else (let a1 = a\<lparr>ag_group := gid\<rparr> in (Inr a1, replace_agent a1 t)))))"

definition delete_agent :: "nat \<Rightarrow> agent_tables \<Rightarrow> (http_error + unit) \<times> agent_tables" where
  "delete_agent aid t =
     (case get_agent aid t of
        None \<Rightarrow> (Inl agent_not_found, t)
      | Some a \<Rightarrow> (Inr (), t\<lparr>at_agents := filter (\<lambda>b. ag_id b \<noteq> aid) (at_agents t)\<rparr>))"

definition agent_status_of :: "string \<Rightarrow> agent_status option" where
  "agent_status_of v =
     map_of [(''online'', ONLINE), (''offline'', OFFLINE), (''stale'', STALE), (''error'', ERROR),
             (''ONLINE'', ONLINE), (''OFFLINE'', OFFLINE), (''STALE'', STALE), (''ERROR'', ERROR)] v"

definition list_agents ::
  "nat \<Rightarrow> nat \<Rightarrow> string option \<Rightarrow> nat option \<Rightarrow> string option \<Rightarrow> agent_tables
   \<Rightarrow> (agent_row list \<times> nat \<times> nat) res" where
  "list_agents page page_size status_filter group_id search t =
     (let base = filter (\<lambda>a.
            (case wanted status_filter of None \<Rightarrow> True | Some v \<Rightarrow> agent_status_of v = Some (ag_status a)) \<and>
            (case group_id of None \<Rightarrow> True | Some g \<Rightarrow> ag_group a = Some g) \<and>
            (case wanted search of None \<Rightarrow> True | Some q \<Rightarrow> ilike (search_pattern q) (ag_hostname a))) (at_agents t)
      in if (case wanted status_filter of None \<Rightarrow> False | Some v \<Rightarrow> agent_status_of v = None) then Inl db_error
         else Inr (page_of page page_size (sort_key ag_hostname base), length base, pages_of (length base) page_size))"

section \<open>Properties\<close>

definition agents_wf :: "agent_tables \<Rightarrow> bool" where
  "agents_wf t \<longleftrightarrow> distinct (map ag_id (at_agents t)) \<and> distinct (map ag_hostname (at_agents t)) \<and>
     (\<forall>a \<in> set (at_agents t). ag_id a < at_next t)"

definition find_host :: "string \<Rightarrow> agent_tables \<Rightarrow> agent_row option" where
  "find_host h t = find (\<lambda>a. ag_hostname a = h) (at_agents t)"

lemma find_key_replace:
  "find (\<lambda>b. k b = v) (map (\<lambda>b. if ag_id b = ag_id a then a else b) xs) =
     (case find (\<lambda>b. k b = v) xs of
        Some b \<Rightarrow> if ag_id b = ag_id a then Some a else Some b
      | None \<Rightarrow> None)"
  if "\<forall>b \<in> set xs. ag_id b = ag_id a \<longrightarrow> k b = k a" for k :: "agent_row \<Rightarrow> 'k"
  using that by (induction xs) auto

lemma map_key_replace:
  "(\<forall>b \<in> set xs. ag_id b = ag_id a \<longrightarrow> k b = k a) \<Longrightarrow>
   map k (map (\<lambda>b. if ag_id b = ag_id a then a else b) xs) = map k xs"
  by (induction xs) auto

lemma same_id_same_agent:
  "agents_wf t \<Longrightarrow> a \<in> set (at_agents t) \<Longrightarrow> b \<in> set (at_agents t) \<Longrightarrow> ag_id b = ag_id a \<Longrightarrow> b = a"
  by (auto simp: agents_wf_def distinct_map inj_on_def)

lemma replace_agent_wf:
  assumes "agents_wf t" "old \<in> set (at_agents t)" "ag_id a = ag_id old" "ag_hostname a = ag_hostname old"
  shows "agents_wf (replace_agent a t)"
proof -
  have same: "\<forall>b \<in> set (at_agents t). ag_id b = ag_id a \<longrightarrow> b = old"
    using same_id_same_agent [OF assms(1,2)] assms(3) by simp
  then have "\<forall>b \<in> set (at_agents t). ag_id b = ag_id a \<longrightarrow> ag_hostname b = ag_hostname a" using assms(4) by simp
  then have "map ag_id (at_agents (replace_agent a t)) = map ag_id (at_agents t)"
    "map ag_hostname (at_agents (replace_agent a t)) = map ag_hostname (at_agents t)"
    using map_key_replace [of "at_agents t" a ag_id] map_key_replace [of "at_agents t" a ag_hostname]
    by (simp_all add: replace_agent_def del: map_map)
  then have "distinct (map ag_id (at_agents (replace_agent a t)))" "distinct (map ag_hostname (at_agents (replace_agent a t)))"
    using assms(1) by (simp_all only: agents_wf_def)
  moreover have "\<forall>b \<in> set (at_agents (replace_agent a t)). ag_id b < at_next t"
    using assms by (auto simp: agents_wf_def replace_agent_def)
  moreover have "at_next (replace_agent a t) = at_next t" by (simp add: replace_agent_def)
  ultimately show ?thesis by (simp only: agents_wf_def simp_thms)
qed

lemma find_host_replace:
  assumes "agents_wf t" "old \<in> set (at_agents t)" "ag_id a = ag_id old" "ag_hostname a = ag_hostname old"
  shows "find_host h (replace_agent a t) = (if h = ag_hostname old then Some a else find_host h t)"
proof -
  have same: "\<forall>b \<in> set (at_agents t). ag_id b = ag_id a \<longrightarrow> b = old"
    using same_id_same_agent [OF assms(1,2)] assms(3) by simp
  then have "\<forall>b \<in> set (at_agents t). ag_id b = ag_id a \<longrightarrow> ag_hostname b = ag_hostname a" using assms(4) by simp
  from find_key_replace [OF this, of h]
  have r: "find_host h (replace_agent a t) = (case find_host h t of
      Some b \<Rightarrow> if ag_id b = ag_id a then Some a else Some b | None \<Rightarrow> None)"
    by (simp add: find_host_def replace_agent_def)
  have o: "find_host (ag_hostname old) t = Some old"
  proof (cases "find_host (ag_hostname old) t")
    case None
    then show ?thesis using assms(2) by (auto simp: find_host_def find_None_iff)
  next
    case (Some b)
    then have "b \<in> set (at_agents t)" "ag_hostname b = ag_hostname old" by (auto simp: find_host_def find_Some_iff)
    then have "b = old" using assms(1,2) by (auto simp: agents_wf_def distinct_map inj_on_def)
    then show ?thesis using Some by simp
  qed
  show ?thesis
  proof (cases "h = ag_hostname old")
    case True
    then show ?thesis using r o assms(3) by simp
  next
    case False
    then have "find_host h t = Some b \<Longrightarrow> ag_id b \<noteq> ag_id a" for b
      using same by (auto simp: find_host_def find_Some_iff)
    then show ?thesis using r False by (auto split: option.split)
  qed
qed

lemma find_host_insert: "find_host h (t\<lparr>at_agents := at_agents t @ [a], at_next := n\<rparr>) =
  (case find_host h t of Some b \<Rightarrow> Some b | None \<Rightarrow> if ag_hostname a = h then Some a else None)"
proof -
  have "find (\<lambda>a. ag_hostname a = h) (xs @ [a]) =
     (case find (\<lambda>a. ag_hostname a = h) xs of Some b \<Rightarrow> Some b | None \<Rightarrow> if ag_hostname a = h then Some a else None)"
    for xs by (induction xs) auto
  then show ?thesis by (simp add: find_host_def)
qed

text \<open>
  A registration always succeeds on well-formed tables and keeps them well formed: the host's agent
  is online with the data of the request and a fresh heartbeat, under its old id, group and
  policy version if it was known and under a new id if not; no other host's agent changes.
\<close>

theorem registration_by_hostname:
  assumes "agents_wf t"
  shows "\<exists>a t'. register_agent now rg t = Inr (a, t') \<and> agents_wf t' \<and>
    ag_hostname a = rg_hostname rg \<and> ag_status a = ONLINE \<and> ag_heartbeat a = Some now \<and>
    ag_version a = rg_version rg \<and> ag_capabilities a = rg_capabilities rg \<and>
    (case find_host (rg_hostname rg) t of
       Some old \<Rightarrow> ag_id a = ag_id old \<and> ag_group a = ag_group old \<and> ag_policy_version a = ag_policy_version old
     | None \<Rightarrow> ag_id a = at_next t \<and> ag_policy_version a = 0) \<and>
    (\<forall>h. find_host h t' = (if h = rg_hostname rg then Some a else find_host h t))"
proof (cases "find_host (rg_hostname rg) t")
  case None
  let ?a = "\<lparr>ag_id = at_next t, ag_hostname = rg_hostname rg, ag_os = rg_os rg, ag_version = rg_version rg,
      ag_driver = rg_driver rg, ag_policy_version = 0, ag_ip = rg_ip rg, ag_status = ONLINE,
      ag_heartbeat = Some now, ag_group = None, ag_capabilities = rg_capabilities rg\<rparr>"
  let ?t = "t\<lparr>at_agents := at_agents t @ [?a], at_next := max (at_next t) (at_next t + 1)\<rparr>"
  have "register_agent now rg t = Inr (?a, ?t)"
    using None scalar_distinct [of ag_hostname "at_agents t" "rg_hostname rg"] assms
    by (simp add: register_agent_def register_plan_def find_host_def agents_wf_def)
  moreover have "agents_wf ?t"
    using assms None by (auto simp: agents_wf_def find_host_def find_None_iff less_Suc_eq)
  ultimately show ?thesis using None find_host_insert [where t = t and a = ?a]
    by (intro exI [of _ ?a] exI [of _ ?t]) (auto split: option.splits)
next
  case (Some old)
  let ?a = "old\<lparr>ag_os := rg_os rg, ag_version := rg_version rg, ag_driver := rg_driver rg, ag_ip := rg_ip rg,
      ag_capabilities := rg_capabilities rg, ag_status := ONLINE, ag_heartbeat := Some now\<rparr>"
  have old: "old \<in> set (at_agents t)" "ag_hostname old = rg_hostname rg"
    using Some by (auto simp: find_host_def find_Some_iff)
  have "register_agent now rg t = Inr (?a, replace_agent ?a t)"
    using Some scalar_distinct [of ag_hostname "at_agents t" "rg_hostname rg"] assms
    by (simp add: register_agent_def register_plan_def find_host_def agents_wf_def)
  moreover have "agents_wf (replace_agent ?a t)" by (rule replace_agent_wf [OF assms old(1)]) simp_all
  moreover have "find_host h (replace_agent ?a t) = (if h = rg_hostname rg then Some ?a else find_host h t)" for h
    using find_host_replace [OF assms old(1), of ?a h] old(2) by simp
  ultimately show ?thesis using Some old by (intro exI [of _ ?a] exI [of _ "replace_agent ?a t"]) simp
qed

text \<open>
  Two first registrations of a host that overlap, each querying before the other commits, lock the
  host out: both succeed and leave two agents of that name, and every later registration of
  the host raises.
\<close>

theorem overlapping_registrations_lock_out:
  assumes "find_host (rg_hostname r1) t = None" and "rg_hostname r2 = rg_hostname r1" and "i \<noteq> j"
  shows "\<exists>w1 w2. register_plan now1 i r1 t = Inr w1 \<and> register_plan now2 j r2 t = Inr w2 \<and>
    (let t' = snd (apply_write w2 (snd (apply_write w1 t))) in
       length (filter (\<lambda>a. ag_hostname a = rg_hostname r1) (at_agents t')) = 2 \<and>
       (\<forall>now r. rg_hostname r = rg_hostname r1 \<longrightarrow> register_agent now r t' = Inl multiple_rows))"
proof -
  have "filter (\<lambda>a. ag_hostname a = rg_hostname r1) (at_agents t) = []"
    using assms(1) by (auto simp: find_host_def find_None_iff filter_empty_conv)
  then show ?thesis using assms(2) by (simp add: register_plan_def register_agent_def Let_def)
qed

text \<open>
  A heartbeat of an unknown agent changes nothing; of a known one it changes that agent alone, which
  is then online at the time and policy version of the request.
\<close>

theorem heartbeat_spec:
  assumes "agents_wf t"
  shows "case get_agent aid t of
      None \<Rightarrow> heartbeat now aid pv t = (None, t)
    | Some old \<Rightarrow> \<exists>t'. heartbeat now aid pv t =
        (Some (old\<lparr>ag_heartbeat := Some now, ag_status := ONLINE, ag_policy_version := pv\<rparr>), t') \<and>
        agents_wf t' \<and> (\<forall>k. k \<noteq> aid \<longrightarrow> get_agent k t' = get_agent k t)"
proof (cases "get_agent aid t")
  case None
  then show ?thesis by (simp add: heartbeat_def)
next
  case (Some old)
  let ?a = "old\<lparr>ag_heartbeat := Some now, ag_status := ONLINE, ag_policy_version := pv\<rparr>"
  have old: "old \<in> set (at_agents t)" "ag_id old = aid" using Some by (auto simp: get_agent_def find_Some_iff)
  have "agents_wf (replace_agent ?a t)" by (rule replace_agent_wf [OF assms old(1)]) simp_all
  moreover have "get_agent k (replace_agent ?a t) = get_agent k t" if "k \<noteq> aid" for k
    using find_key_replace [of "at_agents t" ?a ag_id k] that old(2)
    by (auto simp: get_agent_def replace_agent_def dest: find_SomeD split: option.split)
  ultimately show ?thesis using Some by (auto simp: heartbeat_def Let_def)
qed

lemma stats_sum:
  "length xs = length (filter (\<lambda>a. ag_status a = ONLINE) xs) + length (filter (\<lambda>a. ag_status a = OFFLINE) xs) +
     length (filter (\<lambda>a. ag_status a = STALE) xs) + length (filter (\<lambda>a. ag_status a = ERROR) xs)"
proof (induction xs)
  case (Cons a xs)
  then show ?case by (cases "ag_status a") simp_all
qed simp

text \<open>The statistics add up: the total is the sum of the four states.\<close>

theorem stats_add_up:
  "dict_get (agent_stats t) ''total'' 0 =
     dict_get (agent_stats t) ''online'' 0 + dict_get (agent_stats t) ''offline'' 0 +
     dict_get (agent_stats t) ''stale'' 0 + dict_get (agent_stats t) ''error'' 0"
  using stats_sum [of "at_agents t"] by (simp add: agent_stats_def Let_def dict_get_def)

definition laptop :: registration where
  "laptop = \<lparr>rg_hostname = ''pc'', rg_os = None, rg_version = Some ''1.0'', rg_driver = None, rg_ip = None, rg_capabilities = None\<rparr>"

definition no_agents :: agent_tables where
  "no_agents = \<lparr>at_agents = [], at_groups = [], at_next = 1\<rparr>"

lemma no_agents_wf: "agents_wf no_agents"
  by (simp add: agents_wf_def no_agents_def)

theorem registration_by_hostname_witness:
  "\<exists>a t'. register_agent ''t0'' laptop no_agents = Inr (a, t') \<and> ag_id a = 1 \<and> agents_wf t'"
  using registration_by_hostname [OF no_agents_wf, of "''t0''" laptop]
  by (auto simp: find_host_def no_agents_def)

theorem overlapping_registrations_lock_out_witness:
  "\<exists>w1 w2. register_plan ''t0'' 1 laptop no_agents = Inr w1 \<and> register_plan ''t1'' 2 laptop no_agents = Inr w2 \<and>
     register_agent ''t2'' laptop (snd (apply_write w2 (snd (apply_write w1 no_agents)))) = Inl multiple_rows"
proof -
  have "find_host (rg_hostname laptop) no_agents = None" by (simp add: find_host_def no_agents_def)
  from overlapping_registrations_lock_out [OF this refl, of 1 2 "''t0''" "''t1''"] show ?thesis
    by (auto simp: Let_def)
qed

theorem heartbeat_spec_witness: "heartbeat ''t0'' 5 0 no_agents = (None, no_agents)"
  using heartbeat_spec [OF no_agents_wf, where aid = 5 and now = "''t0''" and pv = 0] by (simp add: get_agent_def no_agents_def)

end
