(* ===== verification/PolicyApi.thy ===== *)
theory PolicyApi
  imports PolicyService
begin

text \<open>
  The endpoints of \<open>server/api/policies.py\<close> that change policies and those of
  \<open>server/api/response_rules.py\<close>: a request works in a session, writes an audit entry, commits,
  and then publishes a policy event on the bus; an error closes the session with nothing
  committed and nothing published. The user was authorized before (\<open>Auth\<close>); the body was
  validated by its schema. A failure of Redis after the commit is not modelled.
\<close>

section \<open>The server\<close>

record policy_server =
  sv_tx :: "policy_tables tx"
  sv_hub :: hub

definition closed :: "policy_server \<Rightarrow> policy_server" where
  "closed s = s\<lparr>sv_tx := tx_close (sv_tx s)\<rparr>"

abbreviation work_tables :: "policy_server \<Rightarrow> policy_tables" where
  "work_tables s \<equiv> tx_work (sv_tx s)"

abbreviation durable_tables :: "policy_server \<Rightarrow> policy_tables" where
  "durable_tables s \<equiv> tx_durable (sv_tx s)"

text \<open>
  The end that all endpoints share: the audit entry, the commit, the event, and the session
  closed by the dependency that opened it.
\<close>

record caller =
  cl_user :: nat
  cl_ip :: string

definition audit ::
  "caller \<Rightarrow> string \<Rightarrow> nat \<Rightarrow> string \<Rightarrow> (string \<times> json) list option \<Rightarrow> policy_tables \<Rightarrow> policy_tables" where
  "audit c action pid detail changes t =
     policy_audit_entry (cl_user c) action (Some (nat_str pid)) (Some detail) changes (cl_ip c) t"

definition commit_and_publish :: "string \<Rightarrow> nat \<Rightarrow> policy_tables \<Rightarrow> policy_server \<Rightarrow> policy_server" where
  "commit_and_publish update_type pid t s =
     closed (s\<lparr>sv_tx := tx_commit ((sv_tx s)\<lparr>tx_work := t\<rparr>),
               sv_hub := publish_policy_event update_type (nat_str pid) (sv_hub s)\<rparr>)"

definition policy_not_found :: http_error where
  "policy_not_found = HttpError 404 ''Policy not found''"

text \<open>\<open>_policy_or_404\<close> on the result of \<open>get_policy\<close>.\<close>

definition with_policy ::
  "nat \<Rightarrow> (policy_row \<Rightarrow> policy_server \<Rightarrow> (http_error + 'a) \<times> policy_server) \<Rightarrow> policy_server
   \<Rightarrow> (http_error + 'a) \<times> policy_server" where
  "with_policy pid f s =
     (case get_policy pid (work_tables s) of None \<Rightarrow> (Inl policy_not_found, closed s) | Some p \<Rightarrow> f p s)"

definition quoted :: "string \<Rightarrow> string" where
  "quoted v = [CHR 0x27] @ v @ [CHR 0x27]"

section \<open>Policies\<close>

definition create_from_template_endpoint ::
  "(string \<Rightarrow> threshold list res) \<Rightarrow> int \<Rightarrow> caller \<Rightarrow> string \<Rightarrow> string \<Rightarrow> string option \<Rightarrow> policy_server
   \<Rightarrow> (http_error + policy_row) \<times> policy_server" where
  "create_from_template_endpoint loads now c template_name nm description s =
     (case get_template template_name (work_tables s) of
        Inl e \<Rightarrow> (Inl internal_error, closed s)
      | Inr None \<Rightarrow> (Inl (HttpError 404 (''Template '' @ quoted template_name @ '' not found'')), closed s)
      | Inr (Some template) \<Rightarrow>
          (case create_from_template loads now template nm description (work_tables s) of
             Inr (Some p, t) \<Rightarrow>
               (Inr p, commit_and_publish POLICY_ADD (po_id p)
                  (audit c ''policy.create_from_template'' (po_id p)
                     (''Created from template '' @ quoted template_name)
                     (Some [(''template_name'', JStr template_name), (''name'', JStr nm)]) t) s)
           | _ \<Rightarrow> (Inl internal_error, closed s)))"

definition create_policy_endpoint ::
  "(string \<Rightarrow> threshold list res) \<Rightarrow> int \<Rightarrow> caller \<Rightarrow> policy_data \<Rightarrow> policy_server
   \<Rightarrow> (http_error + policy_row) \<times> policy_server" where
  "create_policy_endpoint loads now c d s =
     (case create_policy loads now d (work_tables s) of
        Inr (Some p, t) \<Rightarrow>
          (Inr p, commit_and_publish POLICY_ADD (po_id p)
             (audit c ''policy.create'' (po_id p) (''Created policy '' @ quoted (pd_name d))
                (Some [(''name'', JStr (pd_name d))]) t) s)
      | _ \<Rightarrow> (Inl internal_error, closed s))"

text \<open>
  The changes of an audit entry: each field's value before and after, as \<open>_serialize_changes\<close>
  converts it.
\<close>

datatype column = CNone | CText string | CUuid nat | CEnum string | CThresholds "threshold list"

fun change_key :: "policy_change \<Rightarrow> string" where
  "change_key (SetName v) = ''name''"
| "change_key (SetDescription v) = ''description''"
| "change_key (SetSeverity v) = ''severity''"
| "change_key (SetGroup v) = ''group_id''"
| "change_key (SetResponse v) = ''response_rule_id''"
| "change_key (SetThresholds v) = ''severity_thresholds''"
| "change_key (SetTtd v) = ''ttd_fallback''"

definition opt_column :: "('a \<Rightarrow> column) \<Rightarrow> 'a option \<Rightarrow> column" where
  "opt_column f v = (case v of None \<Rightarrow> CNone | Some x \<Rightarrow> f x)"

fun old_value :: "policy_row \<Rightarrow> policy_change \<Rightarrow> column" where
  "old_value p (SetName v) = CText (po_name p)"
| "old_value p (SetDescription v) = opt_column CText (po_description p)"
| "old_value p (SetSeverity v) = CEnum (pol_severity_value (po_severity p))"
| "old_value p (SetGroup v) = opt_column CUuid (po_group p)"
| "old_value p (SetResponse v) = opt_column CUuid (po_response p)"
| "old_value p (SetThresholds v) = opt_column CThresholds (po_thresholds p)"
| "old_value p (SetTtd v) = CText (po_ttd p)"

fun new_value :: "policy_change \<Rightarrow> column" where
  "new_value (SetName v) = opt_column CText v"
| "new_value (SetDescription v) = opt_column CText v"
| "new_value (SetSeverity v) = opt_column (\<lambda>x. CEnum (pol_severity_value x)) v"
| "new_value (SetGroup v) = opt_column CUuid v"
| "new_value (SetResponse v) = opt_column CUuid v"
| "new_value (SetThresholds (Some (ThItems ts))) = CThresholds (map stored_threshold ts)"
| "new_value (SetThresholds (Some (ThText s))) = CText s"
| "new_value (SetThresholds None) = CNone"
| "new_value (SetTtd v) = opt_column CText v"

fun serialize_column :: "column \<Rightarrow> json" where
  "serialize_column CNone = JNull"
| "serialize_column (CText s) = JStr s"
| "serialize_column (CUuid n) = JStr (nat_str n)"
| "serialize_column (CEnum v) = JStr v"
| "serialize_column (CThresholds ts) =
     JList (map (\<lambda>th. JObj [(''threshold'', JInt (int (th_threshold th))), (''severity'', JStr (th_severity th))]) ts)"

definition serialize_changes :: "(string \<times> column) list \<Rightarrow> (string \<times> json) list" where
  "serialize_changes d = map (\<lambda>(k, v). (k, serialize_column v)) d"

definition update_policy_endpoint ::
  "(string \<Rightarrow> threshold list res) \<Rightarrow> caller \<Rightarrow> nat \<Rightarrow> policy_change list \<Rightarrow> policy_server
   \<Rightarrow> (http_error + policy_row) \<times> policy_server" where
  "update_policy_endpoint loads c pid update_data =
     with_policy pid (\<lambda>p s.
       if update_data = [] then (Inl (HttpError 400 ''No fields to update''), closed s)
       else
         (let old_values = map (\<lambda>u. (change_key u, old_value p u)) update_data in
          case update_policy loads p update_data (work_tables s) of
            Inr (Some p1, data1, t) \<Rightarrow>
              (Inr p1, commit_and_publish POLICY_MODIFY (po_id p1)
                 (audit c ''policy.update'' (po_id p1) (''Updated policy '' @ quoted (po_name p1))
                    (Some [(''old'', JObj (serialize_changes old_values)),
                           (''new'', JObj (serialize_changes (map (\<lambda>u. (change_key u, new_value u)) data1)))]) t) s)
          | _ \<Rightarrow> (Inl internal_error, closed s)))"

definition delete_policy_endpoint ::
  "caller \<Rightarrow> nat \<Rightarrow> policy_server \<Rightarrow> (http_error + unit) \<times> policy_server" where
  "delete_policy_endpoint c pid =
     with_policy pid (\<lambda>p s.
       (Inr (), commit_and_publish POLICY_REMOVE pid
          (audit c ''policy.delete'' pid (''Deleted policy '' @ quoted (po_name p)) None
             (delete_policy p (work_tables s))) s))"

definition activate_policy_endpoint ::
  "caller \<Rightarrow> nat \<Rightarrow> policy_server \<Rightarrow> (http_error + policy_row) \<times> policy_server" where
  "activate_policy_endpoint c pid =
     with_policy pid (\<lambda>p s.
       case activate_policy p (work_tables s) of
         (Some p1, t) \<Rightarrow>
           (Inr p1, commit_and_publish POLICY_MODIFY pid
              (audit c ''policy.activate'' pid (''Activated policy '' @ quoted (po_name p1))
                 (Some [(''old_status'', JStr (policy_status_value (po_status p))), (''new_status'', JStr ''active'')]) t) s)
       | (None, t) \<Rightarrow> (Inl internal_error, closed s))"

definition suspend_policy_endpoint ::
  "caller \<Rightarrow> nat \<Rightarrow> policy_server \<Rightarrow> (http_error + policy_row) \<times> policy_server" where
  "suspend_policy_endpoint c pid =
     with_policy pid (\<lambda>p s.
       case suspend_policy p (work_tables s) of
         (Some p1, t) \<Rightarrow>
           (Inr p1, commit_and_publish POLICY_MODIFY pid
              (audit c ''policy.suspend'' pid (''Suspended policy '' @ quoted (po_name p1))
                 (Some [(''old_status'', JStr (policy_status_value (po_status p))), (''new_status'', JStr ''suspended'')]) t) s)
       | (None, t) \<Rightarrow> (Inl internal_error, closed s))"

definition add_rule_endpoint ::
  "caller \<Rightarrow> nat \<Rightarrow> rule_data \<Rightarrow> policy_server \<Rightarrow> (http_error + rule_row) \<times> policy_server" where
  "add_rule_endpoint c pid d =
     with_policy pid (\<lambda>p s.
       case add_rule p d (work_tables s) of
         (Some r, t) \<Rightarrow>
           (Inr r, commit_and_publish POLICY_MODIFY pid
              (audit c ''policy.add_rule'' pid
                 (''Added rule '' @ quoted (rd_name d) @ '' to policy '' @ quoted (po_name p))
                 (Some [(''rule_name'', JStr (rd_name d))]) t) s)
       | (None, t) \<Rightarrow> (Inl internal_error, closed s))"

definition remove_rule_endpoint ::
  "caller \<Rightarrow> nat \<Rightarrow> nat \<Rightarrow> policy_server \<Rightarrow> (http_error + unit) \<times> policy_server" where
  "remove_rule_endpoint c pid rule_id =
     with_policy pid (\<lambda>p s.
       case remove_rule rule_id (work_tables s) of
         (True, t) \<Rightarrow>
           (Inr (), commit_and_publish POLICY_MODIFY pid
              (audit c ''policy.remove_rule'' pid
                 (''Removed rule '' @ nat_str rule_id @ '' from policy '' @ quoted (po_name p))
                 (Some [(''rule_id'', JStr (nat_str rule_id))]) t) s)
       | (False, t) \<Rightarrow> (Inl (HttpError 404 ''Rule not found''), closed s))"

definition add_exception_endpoint ::
  "caller \<Rightarrow> nat \<Rightarrow> exception_data \<Rightarrow> policy_server \<Rightarrow> (http_error + exception_row) \<times> policy_server" where
  "add_exception_endpoint c pid d =
     with_policy pid (\<lambda>p s.
       case add_exception p d (work_tables s) of
         (Some x, t) \<Rightarrow>
           (Inr x, commit_and_publish POLICY_MODIFY pid
              (audit c ''policy.add_exception'' pid
                 (''Added exception '' @ quoted (xd_name d) @ '' to policy '' @ quoted (po_name p))
                 (Some [(''exception_name'', JStr (xd_name d))]) t) s)
       | (None, t) \<Rightarrow> (Inl internal_error, closed s))"

definition remove_exception_endpoint ::
  "caller \<Rightarrow> nat \<Rightarrow> nat \<Rightarrow> policy_server \<Rightarrow> (http_error + unit) \<times> policy_server" where
  "remove_exception_endpoint c pid exception_id =
     with_policy pid (\<lambda>p s.
       case remove_exception exception_id (work_tables s) of
         (True, t) \<Rightarrow>
           (Inr (), commit_and_publish POLICY_MODIFY pid
              (audit c ''policy.remove_exception'' pid
                 (''Removed exception '' @ nat_str exception_id @ '' from policy '' @ quoted (po_name p))
                 (Some [(''exception_id'', JStr (nat_str exception_id))]) t) s)
       | (False, t) \<Rightarrow> (Inl (HttpError 404 ''Exception not found''), closed s))"

section \<open>Response rules\<close>

text \<open>These endpoints write no audit entry and publish no event.\<close>

record action_data =
  ad_type :: string
  ad_config :: "(string \<times> json) list option"
  ad_order :: int

record response_data =
  rp_name :: string
  rp_description :: "string option"
  rp_actions :: "action_data list"

definition new_action :: "nat \<Rightarrow> action_data \<Rightarrow> action_row" where
  "new_action rid a = \<lparr>ac_rule = rid, ac_type = ad_type a, ac_config = ad_config a, ac_order = ad_order a\<rparr>"

definition committed :: "policy_tables \<Rightarrow> policy_server \<Rightarrow> policy_server" where
  "committed t s = closed (s\<lparr>sv_tx := tx_commit ((sv_tx s)\<lparr>tx_work := t\<rparr>)\<rparr>)"

definition response_not_found :: http_error where
  "response_not_found = HttpError 404 ''Response rule not found''"

definition find_response :: "nat \<Rightarrow> policy_tables \<Rightarrow> response_row option" where
  "find_response rid t = find (\<lambda>r. rs_id r = rid) (pt_responses t)"

definition create_response_rule ::
  "response_data \<Rightarrow> policy_server \<Rightarrow> (http_error + response_row) \<times> policy_server" where
  "create_response_rule body s =
     (let t = work_tables s;
          r = \<lparr>rs_id = pt_next t, rs_name = rp_name body, rs_description = rp_description body\<rparr>;
          t1 = t\<lparr>pt_responses := pt_responses t @ [r], pt_next := pt_next t + 1,
                 pt_actions := pt_actions t @ map (new_action (rs_id r)) (rp_actions body)\<rparr>
      in (Inr r, committed t1 s))"

definition update_response_rule ::
  "nat \<Rightarrow> response_data \<Rightarrow> policy_server \<Rightarrow> (http_error + response_row) \<times> policy_server" where
  "update_response_rule rid body s =
     (let t = work_tables s in
      case find_response rid t of
        None \<Rightarrow> (Inl response_not_found, closed s)
      | Some r \<Rightarrow>
          (let r1 = r\<lparr>rs_name := rp_name body, rs_description := rp_description body\<rparr>;
               t1 = t\<lparr>pt_actions := filter (\<lambda>a. ac_rule a \<noteq> rid) (pt_actions t) @
                        map (new_action rid) (rp_actions body),
                      pt_responses := map (\<lambda>q. if rs_id q = rid then r1 else q) (pt_responses t)\<rparr>
           in (Inr r1, committed t1 s)))"

text \<open>A policy that names the rule makes the delete violate its foreign key.\<close>

definition delete_response_rule ::
  "nat \<Rightarrow> policy_server \<Rightarrow> (http_error + unit) \<times> policy_server" where
  "delete_response_rule rid s =
     (let t = work_tables s in
      case find_response rid t of
        None \<Rightarrow> (Inl response_not_found, closed s)
      | Some r \<Rightarrow>
          if \<exists>p \<in> set (pt_policies t). po_response p = Some rid then (Inl internal_error, closed s)
          else (Inr (), committed (t\<lparr>pt_responses := filter (\<lambda>q. rs_id q \<noteq> rid) (pt_responses t),
                                     pt_actions := filter (\<lambda>a. ac_rule a \<noteq> rid) (pt_actions t)\<rparr>) s))"

section \<open>Requests\<close>

datatype policy_request =
    CreatePolicy policy_data
  | FromTemplate string string "string option"
  | UpdatePolicy nat "policy_change list"
  | DeletePolicy nat
  | ActivatePolicy nat
  | SuspendPolicy nat
  | AddRule nat rule_data
  | RemoveRule nat nat
  | AddException nat exception_data
  | RemoveException nat nat

text \<open>The error of a request, if any, and the server after it.\<close>

definition answered :: "(http_error + 'a) \<times> policy_server \<Rightarrow> http_error option \<times> policy_server" where
  "answered r = (case r of (Inl e, s) \<Rightarrow> (Some e, s) | (Inr x, s) \<Rightarrow> (None, s))"

fun serve_policy ::
  "(string \<Rightarrow> threshold list res) \<Rightarrow> int \<Rightarrow> caller \<Rightarrow> policy_request \<Rightarrow> policy_server
   \<Rightarrow> http_error option \<times> policy_server" where
  "serve_policy loads now c (CreatePolicy d) s = answered (create_policy_endpoint loads now c d s)"
| "serve_policy loads now c (FromTemplate tn nm ds) s =
     answered (create_from_template_endpoint loads now c tn nm ds s)"
| "serve_policy loads now c (UpdatePolicy pid data) s = answered (update_policy_endpoint loads c pid data s)"
| "serve_policy loads now c (DeletePolicy pid) s = answered (delete_policy_endpoint c pid s)"
| "serve_policy loads now c (ActivatePolicy pid) s = answered (activate_policy_endpoint c pid s)"
| "serve_policy loads now c (SuspendPolicy pid) s = answered (suspend_policy_endpoint c pid s)"
| "serve_policy loads now c (AddRule pid d) s = answered (add_rule_endpoint c pid d s)"
| "serve_policy loads now c (RemoveRule pid rid) s = answered (remove_rule_endpoint c pid rid s)"
| "serve_policy loads now c (AddException pid d) s = answered (add_exception_endpoint c pid d s)"
| "serve_policy loads now c (RemoveException pid xid) s = answered (remove_exception_endpoint c pid xid s)"

text \<open>
  What a request may do: fail and change nothing, or commit tables that are still well formed
  with one more audit entry, by the caller, and publish one event.
\<close>

definition audited_by :: "caller \<Rightarrow> policy_tables \<Rightarrow> policy_tables \<Rightarrow> bool" where
  "audited_by c t t' \<longleftrightarrow>
     (\<exists>e. pt_audit t' = pt_audit t @ [e] \<and> pa_actor e = cl_user c \<and> pa_ip e = cl_ip c)"

definition clean_outcome :: "caller \<Rightarrow> policy_server \<Rightarrow> http_error option \<times> policy_server \<Rightarrow> bool" where
  "clean_outcome c s r \<longleftrightarrow>
     (case r of
        (Some e, s') \<Rightarrow> s' = closed s
      | (None, s') \<Rightarrow>
          (\<exists>ty pid t'. s' = commit_and_publish ty pid t' s \<and> audited_by c (work_tables s) t' \<and>
             (policies_wf (work_tables s) \<longrightarrow> policies_wf t')))"

lemma clean_fail: "clean_outcome c s (answered (Inl e, closed s))"
  by (simp add: clean_outcome_def answered_def)

lemma clean_commit:
  "pt_audit t = pt_audit (work_tables s) \<Longrightarrow> (policies_wf (work_tables s) \<Longrightarrow> policies_wf t) \<Longrightarrow>
   clean_outcome c s (answered (Inr x, commit_and_publish ty pid (audit c action k detail changes t) s))"
proof -
  assume t: "pt_audit t = pt_audit (work_tables s)" "policies_wf (work_tables s) \<Longrightarrow> policies_wf t"
  let ?t = "audit c action k detail changes t"
  have "audited_by c (work_tables s) ?t" using t(1) by (simp add: audited_by_def audit_def policy_audit_entry_def)
  moreover have "policies_wf (work_tables s) \<longrightarrow> policies_wf ?t" using t(2) by (simp add: audit_def wf_audit)
  ultimately show ?thesis unfolding clean_outcome_def answered_def by auto
qed

lemma clean_with_policy:
  "(\<And>p. p \<in> set (pt_policies (work_tables s)) \<Longrightarrow> clean_outcome c s (answered (f p s))) \<Longrightarrow>
   clean_outcome c s (answered (with_policy pid f s))"
  by (auto simp: with_policy_def clean_fail dest: get_policyD split: option.split)

lemmas clean_rules = clean_fail clean_commit clean_with_policy

lemma create_policy_audit: "create_policy loads now d t = Inr (p, t') \<Longrightarrow> pt_audit t' = pt_audit t"
  by (auto simp: create_policy_def rbind_Inr_iff Let_def split: if_splits)

lemma update_policy_audit: "update_policy loads p data t = Inr (q, d, t') \<Longrightarrow> pt_audit t' = pt_audit t"
  by (auto simp: update_policy_def rbind_Inr_iff Let_def replace_policy_def split: if_splits)

lemma edits_audit:
  "pt_audit (delete_policy p t) = pt_audit t"
  "activate_policy p t = (q, t1) \<Longrightarrow> pt_audit t1 = pt_audit t"
  "suspend_policy p t = (q, t1) \<Longrightarrow> pt_audit t1 = pt_audit t"
  "add_rule p d t = (r, t1) \<Longrightarrow> pt_audit t1 = pt_audit t"
  "add_exception p xd t = (x, t1) \<Longrightarrow> pt_audit t1 = pt_audit t"
  "remove_rule rid t = (b, t1) \<Longrightarrow> pt_audit t1 = pt_audit t"
  "remove_exception xid t = (b, t1) \<Longrightarrow> pt_audit t1 = pt_audit t"
  by (auto simp: delete_policy_def activate_policy_def suspend_policy_def add_rule_def add_exception_def
      remove_rule_def remove_exception_def replace_policy_def Let_def split: option.splits)

lemmas op_frames = create_policy_audit update_policy_audit edits_audit

lemma wf_pairs:
  "policies_wf t \<Longrightarrow> create_from_template loads now tm nm ds t = Inr (p, t') \<Longrightarrow> policies_wf t'"
  "policies_wf t \<Longrightarrow> p0 \<in> set (pt_policies t) \<Longrightarrow> activate_policy p0 t = (q, t1) \<Longrightarrow> policies_wf t1"
  "policies_wf t \<Longrightarrow> p0 \<in> set (pt_policies t) \<Longrightarrow> suspend_policy p0 t = (q, t1) \<Longrightarrow> policies_wf t1"
  "policies_wf t \<Longrightarrow> p0 \<in> set (pt_policies t) \<Longrightarrow> add_rule p0 d t = (r, t1) \<Longrightarrow> policies_wf t1"
  "policies_wf t \<Longrightarrow> p0 \<in> set (pt_policies t) \<Longrightarrow> add_exception p0 xd t = (x, t1) \<Longrightarrow> policies_wf t1"
  "policies_wf t \<Longrightarrow> remove_rule rid t = (b, t1) \<Longrightarrow> policies_wf t1"
  "policies_wf t \<Longrightarrow> remove_exception xid t = (b, t1) \<Longrightarrow> policies_wf t1"
  using wf_create_policy [of t] wf_activate [of t p0] wf_suspend [of t p0] wf_add_rule [of t p0 d]
    wf_add_exception [of t p0 xd] wf_remove_rule [of t rid] wf_remove_exception [of t xid]
  by (auto simp: create_from_template_def)

lemma from_template_audit:
  "create_from_template loads now tm nm ds t = Inr (p, t') \<Longrightarrow> pt_audit t' = pt_audit t"
  by (auto simp: create_from_template_def intro: create_policy_audit)

lemma serve_clean: "clean_outcome c s (serve_policy loads now c rq s)"
proof (cases rq)
  case (CreatePolicy d)
  then show ?thesis
    by (auto simp: create_policy_endpoint_def split: sum.split option.split
        intro!: clean_rules intro: op_frames wf_ops)
next
  case (FromTemplate tn nm ds)
  then show ?thesis
    by (auto simp: create_from_template_endpoint_def split: sum.split option.split
        intro!: clean_rules intro: from_template_audit wf_pairs)
next
  case (UpdatePolicy pid data)
  then show ?thesis
    by (auto simp: update_policy_endpoint_def Let_def split: sum.split option.split
        intro!: clean_rules intro: op_frames wf_ops)
next
  case (DeletePolicy pid)
  then show ?thesis
    by (auto simp: delete_policy_endpoint_def intro!: clean_rules intro: op_frames wf_ops)
qed (auto simp: activate_policy_endpoint_def suspend_policy_endpoint_def add_rule_endpoint_def
      remove_rule_endpoint_def add_exception_endpoint_def remove_exception_endpoint_def
      split: prod.split option.split bool.split intro!: clean_rules intro: op_frames wf_pairs)

section \<open>Properties of the endpoints\<close>

lemma closed_simps [simp]:
  "work_tables (closed s) = durable_tables s" "durable_tables (closed s) = durable_tables s" "sv_hub (closed s) = sv_hub s"
  by (simp_all add: closed_def)

lemma commit_simps [simp]:
  "durable_tables (commit_and_publish ty pid t s) = t" "work_tables (commit_and_publish ty pid t s) = t"
  "sv_hub (commit_and_publish ty pid t s) = publish_policy_event ty (nat_str pid) (sv_hub s)"
  by (simp_all add: commit_and_publish_def closed_def)


text \<open>Requests one after the other, each with its time and caller.\<close>

fun serve_policies ::
  "(string \<Rightarrow> threshold list res) \<Rightarrow> (int \<times> caller \<times> policy_request) list \<Rightarrow> policy_server \<Rightarrow> policy_server" where
  "serve_policies loads [] s = s"
| "serve_policies loads ((now, c, rq) # rqs) s = serve_policies loads rqs (snd (serve_policy loads now c rq s))"

definition idle :: "policy_server \<Rightarrow> bool" where
  "idle s \<longleftrightarrow> work_tables s = durable_tables s"

lemma serve_idle: "idle (snd (serve_policy loads now c rq s))"
  using serve_clean [of c s loads now rq]
  by (auto simp: clean_outcome_def idle_def split: prod.splits option.splits)

lemma serve_wf: "idle s \<Longrightarrow> policies_wf (durable_tables s) \<Longrightarrow> policies_wf (durable_tables (snd (serve_policy loads now c rq s)))"
  using serve_clean [of c s loads now rq]
  by (auto simp: clean_outcome_def idle_def split: prod.splits option.splits)

text \<open>
  C9: The durable tables stay well formed under any requests: ids are unique, no rule or exception is
  left without its policy, and no policy names a group or response rule that does not exist.
\<close>

theorem policy_tables_invariant:
  assumes "idle s" and "policies_wf (durable_tables s)"
  shows "policies_wf (durable_tables (serve_policies loads rqs s))"
  using assms
proof (induction rqs arbitrary: s)
  case (Cons rq rqs)
  obtain now c q where rq: "rq = (now, c, q)" by (cases rq)
  show ?case using Cons.IH [OF serve_idle serve_wf [OF Cons.prems]] by (simp add: rq)
qed simp

lemma publish_local_version:
  "\<not> hub_bridge h \<Longrightarrow> \<not> hub_bridge (publish_policy_event ty pid h) \<and>
   bus_version (hub_bus (publish_policy_event ty pid h)) = bus_version (hub_bus h) + 1"
  by (simp add: publish_policy_event_def publish_local_def increment_version_def bus_publish_def)

abbreviation server_version :: "policy_server \<Rightarrow> nat" where
  "server_version s \<equiv> bus_version (hub_bus (sv_hub s))"

definition tracks :: "policy_server \<Rightarrow> policy_server \<Rightarrow> bool" where
  "tracks s s' \<longleftrightarrow> \<not> hub_bridge (sv_hub s') \<and> idle s' \<and>
     server_version s \<le> server_version s' \<and>
     length (pt_audit (durable_tables s')) + server_version s = length (pt_audit (durable_tables s)) + server_version s' \<and>
     (server_version s' = server_version s \<longrightarrow> durable_tables s' = durable_tables s)"

lemma tracks_trans: "tracks s u \<Longrightarrow> tracks u v \<Longrightarrow> tracks s v"
  by (auto simp: tracks_def)

lemma serve_tracks:
  assumes "\<not> hub_bridge (sv_hub s)" and "idle s"
  shows "tracks s (snd (serve_policy loads now c rq s))"
proof -
  obtain r s' where eq: "serve_policy loads now c rq s = (r, s')" by (cases "serve_policy loads now c rq s")
  show ?thesis
  proof (cases r)
    case (Some e)
    then have "s' = closed s" using serve_clean [of c s loads now rq] eq by (simp add: clean_outcome_def)
    then show ?thesis using assms eq by (simp add: tracks_def idle_def)
  next
    case None
    then obtain ty pid t where s': "s' = commit_and_publish ty pid t s" and "audited_by c (work_tables s) t"
      using serve_clean [of c s loads now rq] eq by (auto simp: clean_outcome_def)
    then have "length (pt_audit t) = length (pt_audit (durable_tables s)) + 1"
      using assms(2) by (auto simp: audited_by_def idle_def)
    then show ?thesis using publish_local_version [OF assms(1)] eq s' by (simp add: tracks_def idle_def)
  qed
qed

text \<open>
  Without the bridge the version tracks the policies: it never goes back, it grows by one for each
  audit entry, and as long as it has not changed the durable policies, rules and exceptions
  are the same, so an agent whose version is current has what the server has.
\<close>

theorem version_tracks_policies:
  assumes "\<not> hub_bridge (sv_hub s)" and "idle s" and "s' = serve_policies loads rqs s"
  shows "server_version s \<le> server_version s' \<and>
    length (pt_audit (durable_tables s')) + server_version s = length (pt_audit (durable_tables s)) + server_version s' \<and>
    (server_version s' = server_version s \<longrightarrow> durable_tables s' = durable_tables s)"
proof -
  have "tracks s (serve_policies loads rqs s)" if "\<not> hub_bridge (sv_hub s)" "idle s" for s
    using that
  proof (induction rqs arbitrary: s)
    case Nil
    then show ?case by (simp add: tracks_def)
  next
    case (Cons rq rqs)
    obtain now c q where rq: "rq = (now, c, q)" by (cases rq)
    have t: "tracks s (snd (serve_policy loads now c q s))" by (rule serve_tracks [OF Cons.prems])
    then have "\<not> hub_bridge (sv_hub (snd (serve_policy loads now c q s)))" "idle (snd (serve_policy loads now c q s))"
      by (simp_all add: tracks_def)
    from tracks_trans [OF t Cons.IH [OF this]] show ?case by (simp add: rq)
  qed
  then show ?thesis using assms by (simp add: tracks_def)
qed

text \<open>
  The endpoint that removes a rule of a policy does not check whose rule it is: given the id of a
  rule of another policy it removes that one, records the removal under the policy of the
  request and publishes an event for that policy only.
\<close>

theorem remove_rule_of_other_policy:
  assumes "idle s" and "get_policy pid (durable_tables s) = Some p"
    and "r \<in> set (pt_rules (durable_tables s))" and "ru_policy r \<noteq> pid"
  shows "\<exists>s'. remove_rule_endpoint c pid (ru_id r) s = (Inr (), s') \<and>
    r \<notin> set (rules_of (ru_policy r) (durable_tables s')) \<and>
    rules_of pid (durable_tables s') = filter (\<lambda>q. ru_id q \<noteq> ru_id r) (rules_of pid (durable_tables s)) \<and>
    pa_resource (last (pt_audit (durable_tables s'))) = Some (nat_str pid) \<and>
    sv_hub s' = publish_policy_event POLICY_MODIFY (nat_str pid) (sv_hub s)"
proof -
  obtain q where q: "find (\<lambda>q. ru_id q = ru_id r) (pt_rules (durable_tables s)) = Some q"
    using assms(3) by (cases "find (\<lambda>q. ru_id q = ru_id r) (pt_rules (durable_tables s))") (auto simp: find_None_iff)
  let ?t = "(durable_tables s)\<lparr>pt_rules := filter (\<lambda>q. ru_id q \<noteq> ru_id r) (pt_rules (durable_tables s))\<rparr>"
  let ?s = "commit_and_publish POLICY_MODIFY pid
      (audit c ''policy.remove_rule'' pid
         (''Removed rule '' @ nat_str (ru_id r) @ '' from policy '' @ quoted (po_name p))
         (Some [(''rule_id'', JStr (nat_str (ru_id r)))]) ?t) s"
  have "remove_rule_endpoint c pid (ru_id r) s = (Inr (), ?s)"
    using assms(1,2) q by (simp add: remove_rule_endpoint_def with_policy_def remove_rule_def idle_def)
  moreover have "rules_of k (durable_tables ?s) = filter (\<lambda>q. ru_id q \<noteq> ru_id r) (rules_of k (durable_tables s))" for k
    by (simp add: audit_def policy_audit_entry_def rules_of_def filter_filter conj_commute)
  moreover have "pa_resource (last (pt_audit (durable_tables ?s))) = Some (nat_str pid)"
    by (simp add: audit_def policy_audit_entry_def)
  ultimately show ?thesis by (intro exI [of _ ?s]) simp
qed

text \<open>
  Response rules are part of what agents are sent, but no endpoint for them writes an audit entry or
  publishes an event: a change of a rule in use stays unknown to the agents until some policy changes.
\<close>

theorem response_rule_edit_is_silent:
  assumes "idle s" and "find_response rid (durable_tables s) = Some r"
  shows "\<exists>r1 s'. update_response_rule rid body s = (Inr r1, s') \<and> sv_hub s' = sv_hub s \<and>
    pt_audit (durable_tables s') = pt_audit (durable_tables s) \<and>
    filter (\<lambda>a. ac_rule a = rid) (pt_actions (durable_tables s')) = map (new_action rid) (rp_actions body)"
  using assms
  by (auto simp: update_response_rule_def Let_def idle_def committed_def new_action_def filter_empty_conv
      intro!: filter_True)

section \<open>Witnesses\<close>

definition plain_policy :: "nat \<Rightarrow> string \<Rightarrow> policy_row" where
  "plain_policy pid nm =
     \<lparr>po_id = pid, po_name = nm, po_description = None, po_status = ACTIVE, po_severity = HIGH,
      po_is_template = False, po_template_name = None, po_thresholds = None, po_ttd = ''log'', po_group = None,
      po_response = None, po_created = 0\<rparr>"

definition two_policies :: policy_tables where
  "two_policies =
     \<lparr>pt_policies = [plain_policy 1 ''a'', plain_policy 2 ''b''],
      pt_rules = [\<lparr>ru_id = 3, ru_policy = 2, ru_name = ''r'', ru_description = None, ru_type = ''detection'',
                   ru_conditions = []\<rparr>],
      pt_exceptions = [], pt_groups = [], pt_responses = [], pt_actions = [], pt_audit = [], pt_next = 4\<rparr>"

definition two_server :: policy_server where
  "two_server = \<lparr>sv_tx = tx_open two_policies, sv_hub = new_hub 0\<rparr>"

definition some_caller :: caller where
  "some_caller = \<lparr>cl_user = 9, cl_ip = ''10.0.0.1''\<rparr>"

definition no_loads :: "string \<Rightarrow> threshold list res" where
  "no_loads s = Inl (Exn ValueError ''JSON'')"

lemma two_server_ok:
  "idle two_server" "policies_wf (durable_tables two_server)" "\<not> hub_bridge (sv_hub two_server)"
  by (simp_all add: idle_def two_server_def policies_wf_def two_policies_def policy_fk_ok_def refers_to_def
      plain_policy_def new_hub_def)

theorem policy_tables_invariant_witness:
  "policies_wf (durable_tables (serve_policies no_loads [(0, some_caller, DeletePolicy 2)] two_server))"
  by (rule policy_tables_invariant [OF two_server_ok(1,2)])

theorem version_tracks_policies_witness:
  "server_version two_server \<le> server_version (serve_policies no_loads [(0, some_caller, DeletePolicy 2)] two_server)"
  using version_tracks_policies [OF two_server_ok(3,1) refl] by blast

theorem remove_rule_of_other_policy_witness:
  "\<exists>s'. remove_rule_endpoint some_caller 1 3 two_server = (Inr (), s') \<and> rules_of 2 (durable_tables s') = []"
proof -
  let ?r = "\<lparr>ru_id = 3, ru_policy = 2, ru_name = ''r'', ru_description = None, ru_type = ''detection'', ru_conditions = []\<rparr>"
  have g: "get_policy 1 (durable_tables two_server) = Some (plain_policy 1 ''a'')"
    and r: "?r \<in> set (pt_rules (durable_tables two_server))"
    by (simp_all add: two_server_def two_policies_def get_policy_def plain_policy_def)
  from remove_rule_of_other_policy [OF two_server_ok(1) g r, of some_caller]
  obtain s' where "remove_rule_endpoint some_caller 1 3 two_server = (Inr (), s')" by auto
  then show ?thesis
    by (auto simp: remove_rule_endpoint_def with_policy_def remove_rule_def two_server_def two_policies_def
        get_policy_def plain_policy_def rules_of_def audit_def policy_audit_entry_def)
qed

end
