(* ===== verification/SiemEmitter.thy ===== *)
theory SiemEmitter
  imports Reports Json
begin

text \<open>
  \<open>server/services/siem_emitter.py\<close>: incidents and agent states as events in the Elastic Common
  Schema, posted one by one to the SIEM. The network is the list of its future answers: a
  status code, or the exception of the client library. The ISO text of a time is a parameter.
\<close>

section \<open>Events\<close>

datatype dlp_event_type = POLICY_VIOLATION | FILE_BLOCKED | INCIDENT_CREATED | INCIDENT_UPDATED | AGENT_STATUS

fun dlp_event_type_value :: "dlp_event_type \<Rightarrow> string" where
  "dlp_event_type_value POLICY_VIOLATION = ''dlp:policy_violation''"
| "dlp_event_type_value FILE_BLOCKED = ''dlp:file_blocked''"
| "dlp_event_type_value INCIDENT_CREATED = ''dlp:incident_created''"
| "dlp_event_type_value INCIDENT_UPDATED = ''dlp:incident_updated''"
| "dlp_event_type_value AGENT_STATUS = ''dlp:agent_status''"

record siem_config =
  si_endpoint :: string
  si_api_key :: string
  si_enabled :: bool

definition ecs_severity :: "string \<Rightarrow> int" where
  "ecs_severity sev = dict_get [(''critical'', 4), (''high'', 3), (''medium'', 2), (''low'', 1), (''info'', 0)] sev 0"

definition observer :: json where
  "observer = JObj [(''vendor'', JStr ''AkesoDLP''), (''product'', JStr ''AkesoDLP''), (''type'', JStr ''dlp'')]"

definition build_ecs_event :: "(rat \<Rightarrow> string) \<Rightarrow> incident_record \<Rightarrow> dlp_event_type \<Rightarrow> (string \<times> json) list" where
  "build_ecs_event isoformat i event_type =
     [(''source_type'', JStr ''akeso_dlp''),
      (''event_type'', JStr (dlp_event_type_value event_type)),
      (''@timestamp'', JStr (isoformat (ir_created_at i))),
      (''event'', JObj
        [(''kind'', JStr ''alert''), (''category'', JList [JStr ''intrusion_detection'']),
         (''type'', JList [JStr ''info'']), (''action'', JStr (ir_action_taken i)),
         (''severity'', JInt (ecs_severity (ir_severity i))),
         (''outcome'', JStr (if ir_action_taken i = ''block'' then ''success'' else ''unknown'')),
         (''module'', JStr ''akeso_dlp''), (''dataset'', JStr ''dlp.incidents'')]),
      (''source'', JObj [(''type'', JStr (ir_source_type i))]),
      (''dlp'', JObj
        [(''policy'', JObj [(''name'', JStr (ir_policy_name i))]),
         (''classification'', JStr (ir_severity i)), (''channel'', JStr (ir_channel i)),
         (''action'', JStr (ir_action_taken i)), (''match_count'', JInt (ir_match_count i)),
         (''incident_id'', JStr (ir_id i))]),
      (''observer'', observer)] @
     (case ir_user i of Some u \<Rightarrow> if u \<noteq> [] then [(''user'', JObj [(''name'', JStr u)])] else [] | None \<Rightarrow> []) @
     (case ir_file_name i of Some f \<Rightarrow> if f \<noteq> [] then [(''file'', JObj [(''name'', JStr f)])] else [] | None \<Rightarrow> [])"

definition build_status_event :: "(rat \<Rightarrow> string) \<Rightarrow> rat \<Rightarrow> string \<Rightarrow> string \<Rightarrow> string \<Rightarrow> rat option \<Rightarrow> (string \<times> json) list" where
  "build_status_event isoformat now agent_id hostname status timestamp =
     [(''source_type'', JStr ''akeso_dlp''),
      (''event_type'', JStr (dlp_event_type_value AGENT_STATUS)),
      (''@timestamp'', JStr (isoformat (case timestamp of Some t \<Rightarrow> t | None \<Rightarrow> now))),
      (''event'', JObj
        [(''kind'', JStr ''event''), (''category'', JList [JStr ''host'']), (''type'', JList [JStr ''info'']),
         (''action'', JStr ''agent_heartbeat''), (''module'', JStr ''akeso_dlp''), (''dataset'', JStr ''dlp.agents'')]),
      (''agent'', JObj [(''id'', JStr agent_id), (''hostname'', JStr hostname)]),
      (''observer'', observer),
      (''dlp'', JObj [(''agent_status'', JStr status)])]"

section \<open>The emitter\<close>

record emitter =
  em_config :: siem_config
  em_client :: bool
  em_net :: "nat res list"
  em_posted :: "((string \<times> string) list \<times> (string \<times> json) list) list"

definition auth_headers :: "siem_config \<Rightarrow> (string \<times> string) list" where
  "auth_headers c =
     (''Content-Type'', ''application/json'') # (if si_api_key c \<noteq> [] then [(''X-API-Key'', si_api_key c)] else [])"

definition get_client :: "emitter \<Rightarrow> emitter" where
  "get_client m = (if em_client m then m else m\<lparr>em_client := True\<rparr>)"

text \<open>The next answer of the network; one that never comes is a time-out.\<close>

definition post :: "(string \<times> json) list \<Rightarrow> emitter \<Rightarrow> nat res \<times> emitter" where
  "post event m =
     (let m1 = m\<lparr>em_posted := em_posted m @ [(auth_headers (em_config m), event)], em_net := tl (em_net m)\<rparr>
      in (case em_net m of [] \<Rightarrow> Inl (Exn (OtherError ''ReadTimeout'') []) | a # as \<Rightarrow> a, m1))"

definition emit :: "(string \<times> json) list \<Rightarrow> emitter \<Rightarrow> bool \<times> emitter" where
  "emit event m =
     (if \<not> si_enabled (em_config m) then (True, m)
      else (case post event (get_client m) of
              (Inr st, m1) \<Rightarrow> (st \<in> {200, 201, 202}, m1)
            | (Inl e, m1) \<Rightarrow> (False, m1)))"

definition emit_incident :: "(rat \<Rightarrow> string) \<Rightarrow> incident_record \<Rightarrow> dlp_event_type \<Rightarrow> emitter \<Rightarrow> bool \<times> emitter" where
  "emit_incident isoformat i event_type m = emit (build_ecs_event isoformat i event_type) m"

definition batch_step ::
  "(rat \<Rightarrow> string) \<Rightarrow> dlp_event_type \<Rightarrow> incident_record \<Rightarrow> (nat \<times> nat) \<times> emitter \<Rightarrow> (nat \<times> nat) \<times> emitter" where
  "batch_step isoformat event_type i =
     (\<lambda>((sent, failed), m). case emit_incident isoformat i event_type m of
        (True, m1) \<Rightarrow> ((sent + 1, failed), m1) | (False, m1) \<Rightarrow> ((sent, failed + 1), m1))"

definition emit_batch ::
  "(rat \<Rightarrow> string) \<Rightarrow> incident_record list \<Rightarrow> dlp_event_type \<Rightarrow> emitter \<Rightarrow> (nat \<times> nat) \<times> emitter" where
  "emit_batch isoformat is event_type m = fold (batch_step isoformat event_type) is ((0, 0), m)"

definition close_emitter :: "emitter \<Rightarrow> emitter" where
  "close_emitter m = (if em_client m then m\<lparr>em_client := False\<rparr> else m)"

section \<open>Properties\<close>

definition accepted_by :: "nat res \<Rightarrow> bool" where
  "accepted_by a = (case a of Inr c \<Rightarrow> c \<in> {200, 201, 202} | Inl e \<Rightarrow> False)"

lemma emit_enabled:
  "si_enabled (em_config m) \<Longrightarrow> em_net m = a # as \<Longrightarrow>
   emit ev m = (accepted_by a, m\<lparr>em_client := True, em_net := as, em_posted := em_posted m @ [(auth_headers (em_config m), ev)]\<rparr>)"
  by (cases a) (auto simp: emit_def post_def get_client_def accepted_by_def Let_def)

lemma batch_enabled:
  "si_enabled (em_config m) \<Longrightarrow> em_net m = answers @ rest \<Longrightarrow> length answers = length is \<Longrightarrow>
   \<exists>m'. fold (batch_step fmt ty) is ((s, f), m) =
       ((s + length (filter accepted_by answers), f + length (filter (Not \<circ> accepted_by) answers)), m') \<and>
     em_net m' = rest \<and> em_config m' = em_config m \<and>
     em_posted m' = em_posted m @ map (\<lambda>i. (auth_headers (em_config m), build_ecs_event fmt i ty)) is"
proof (induction "is" arbitrary: m s f answers)
  case Nil
  then show ?case by simp
next
  case (Cons i "is")
  then obtain a as where a: "answers = a # as" by (cases answers) auto
  let ?m = "m\<lparr>em_client := True, em_net := as @ rest, em_posted := em_posted m @ [(auth_headers (em_config m), build_ecs_event fmt i ty)]\<rparr>"
  have e: "emit_incident fmt i ty m = (accepted_by a, ?m)"
    unfolding emit_incident_def by (rule emit_enabled) (use Cons.prems a in simp_all)
  show ?case
    using Cons.IH [of ?m as "s + (if accepted_by a then 1 else 0)" "f + (if accepted_by a then 0 else 1)"] Cons.prems a
    by (cases "accepted_by a") (simp_all add: batch_step_def e)
qed

lemma batch_disabled:
  "\<not> si_enabled (em_config m) \<Longrightarrow> fold (batch_step fmt ty) is ((s, f), m) = ((s + length is, f), m)"
  by (induction "is" arbitrary: s) (simp_all add: batch_step_def emit_incident_def emit_def)

text \<open>
  A batch posts every incident once, in order, with the same headers, and its two counts are the
  numbers of accepted and of refused or failed posts; with the emitter disabled nothing is
  posted and every incident counts as sent.
\<close>

theorem batch_counts:
  assumes "em_net m = answers @ rest" and "length answers = length is"
  shows "if si_enabled (em_config m)
    then \<exists>m'. emit_batch fmt is ty m =
        ((length (filter accepted_by answers), length is - length (filter accepted_by answers)), m') \<and>
      em_posted m' = em_posted m @ map (\<lambda>i. (auth_headers (em_config m), build_ecs_event fmt i ty)) is
    else emit_batch fmt is ty m = ((length is, 0), m)"
proof -
  have "length (filter (Not \<circ> accepted_by) answers) = length answers - length (filter accepted_by answers)"
    using sum_length_filter_compl [of accepted_by answers] by (simp add: comp_def)
  then show ?thesis
    using batch_enabled [of m answers rest "is" fmt ty 0 0] batch_disabled [of m fmt ty "is" 0 0] assms
    by (auto simp: emit_batch_def)
qed

definition blocked_copy :: incident_record where
  "blocked_copy =
     \<lparr>ir_id = ''1'', ir_policy_name = ''p'', ir_severity = ''high'', ir_status = ''new'', ir_channel = ''usb'',
      ir_source_type = ''endpoint'', ir_user = None, ir_file_name = None, ir_action_taken = ''block'', ir_match_count = 1,
      ir_created_at = 0\<rparr>"

definition failing_siem :: emitter where
  "failing_siem =
     \<lparr>em_config = \<lparr>si_endpoint = [], si_api_key = [], si_enabled = True\<rparr>, em_client = False,
      em_net = [Inr 202, Inr 503], em_posted = []\<rparr>"

theorem batch_counts_witness:
  "\<exists>m'. emit_batch (\<lambda>t. []) [blocked_copy, blocked_copy] FILE_BLOCKED failing_siem = ((1, 1), m')"
proof -
  have "em_net failing_siem = [Inr 202, Inr 503] @ []" "length [Inr 202 :: nat res, Inr 503] = length [blocked_copy, blocked_copy]"
    by (simp_all add: failing_siem_def)
  from batch_counts [OF this, of "\<lambda>t. []" FILE_BLOCKED] show ?thesis
    by (auto simp: failing_siem_def accepted_by_def)
qed

end
