(* ===== verification/GrpcServer.thy ===== *)
theory GrpcServer
  imports AgentService PolicyApi SiemEmitter DataIdentifier FileInspector
begin

text \<open>
  \<open>server/grpc_server.py\<close>: the service the endpoint agents call. It joins the agents, the
  policies, the event bus, the command queue, the scans, the file inspector and the detection
  engine. The state holds the durable tables; a handler that raises commits nothing and
  answers with the status \<open>INTERNAL\<close>. A text field of a message is empty when it is not set.
\<close>

section \<open>Enumerations of the protocol\<close>

definition SEVERITY_TO_PROTO :: "(string \<times> int) list" where
  "SEVERITY_TO_PROTO = [(''info'', 1), (''low'', 2), (''medium'', 3), (''high'', 4), (''critical'', 5)]"


definition UPDATE_TYPE_TO_PROTO :: "(string \<times> int) list" where
  "UPDATE_TYPE_TO_PROTO =
     [(''POLICY_ADD'', 1), (''POLICY_MODIFY'', 2), (''POLICY_REMOVE'', 3), (''POLICY_FULL_SYNC'', 4)]"


datatype verdict = TTD_ALLOW | TTD_BLOCK | TTD_LOG

section \<open>The state\<close>

record grpc_server =
  gs_agents :: agent_tables
  gs_policies :: policy_tables
  gs_scans :: scan_tables
  gs_incidents :: "reported list"
  gs_hub :: hub
  gs_queue :: command_queue
  gs_siem :: "emitter option"

datatype grpc_status = OK | INVALID_ARGUMENT string | NOT_FOUND string | INTERNAL string

section \<open>Registration and heartbeat\<close>

record capabilities =
  cap_usb :: bool
  cap_network_share :: bool
  cap_clipboard :: bool
  cap_browser :: bool
  cap_discover :: bool

record register_request =
  rr_hostname :: string
  rr_os :: string
  rr_version :: string
  rr_driver :: string
  rr_ip :: string
  rr_capabilities :: "capabilities option"

record register_response =
  rsp_agent_id :: string
  rsp_success :: bool
  rsp_message :: string
  rsp_interval :: int

definition capability_dict :: "capabilities \<Rightarrow> (string \<times> bool) list" where
  "capability_dict c =
     [(''usb_monitor'', cap_usb c), (''network_share_monitor'', cap_network_share c),
      (''clipboard_monitor'', cap_clipboard c), (''browser_monitor'', cap_browser c), (''discover'', cap_discover c)]"

definition Register ::
  "string \<Rightarrow> register_request \<Rightarrow> grpc_server \<Rightarrow> (grpc_status \<times> register_response) \<times> grpc_server" where
  "Register now rq s =
     (let rg = \<lparr>rg_hostname = rr_hostname rq, rg_os = wanted (Some (rr_os rq)), rg_version = wanted (Some (rr_version rq)),
                rg_driver = wanted (Some (rr_driver rq)), rg_ip = wanted (Some (rr_ip rq)),
                rg_capabilities = map_option capability_dict (rr_capabilities rq)\<rparr>
      in case register_agent now rg (gs_agents s) of
           Inr (a, t) \<Rightarrow>
             ((OK, \<lparr>rsp_agent_id = nat_str (ag_id a), rsp_success = True,
                    rsp_message = ''Agent registered successfully'', rsp_interval = 60\<rparr>), s\<lparr>gs_agents := t\<rparr>)
         | Inl e \<Rightarrow>
             ((INTERNAL (exn_str e), \<lparr>rsp_agent_id = [], rsp_success = False, rsp_message = exn_str e, rsp_interval = 0\<rparr>), s))"




section \<open>Policies\<close>

record condition_def =
  cdf_type :: string
  cdf_component :: string
  cdf_config :: string
  cdf_min :: nat

record rule_def =
  rdf_id :: string
  rdf_name :: string
  rdf_type :: string
  rdf_conditions :: "condition_def list"

record exception_def =
  xdf_id :: string
  xdf_name :: string
  xdf_scope :: string
  xdf_type :: string
  xdf_conditions :: "condition_def list"

record action_def =
  adf_type :: string
  adf_config :: string
  adf_order :: int

record response_def =
  sdf_id :: string
  sdf_name :: string
  sdf_actions :: "action_def list"

record policy_def =
  pdf_id :: string
  pdf_name :: string
  pdf_description :: string
  pdf_severity :: int
  pdf_status :: string
  pdf_ttd :: string
  pdf_thresholds :: "(nat \<times> int) list"
  pdf_rules :: "rule_def list"
  pdf_exceptions :: "exception_def list"
  pdf_response :: "response_def option"

definition condition_to_proto :: "cond \<Rightarrow> condition_def" where
  "condition_to_proto c =
     \<lparr>cdf_type = condition_type_value (cd_type c), cdf_component = message_part_value (cd_component c),
      cdf_config = dumps (JObj (cd_config c)), cdf_min = cd_min c\<rparr>"

definition rule_to_proto :: "rule_row \<Rightarrow> rule_def" where
  "rule_to_proto r =
     \<lparr>rdf_id = nat_str (ru_id r), rdf_name = ru_name r, rdf_type = ru_type r,
      rdf_conditions = map condition_to_proto (ru_conditions r)\<rparr>"

definition exception_to_proto :: "exception_row \<Rightarrow> exception_def" where
  "exception_to_proto x =
     \<lparr>xdf_id = nat_str (ex_id x), xdf_name = ex_name x, xdf_scope = exc_scope_value (ex_scope x),
      xdf_type = ex_type x, xdf_conditions = map condition_to_proto (ex_conditions x)\<rparr>"

definition action_to_proto :: "action_row \<Rightarrow> action_def" where
  "action_to_proto a =
     \<lparr>adf_type = ac_type a,
      adf_config = (case ac_config a of Some (kv # kvs) \<Rightarrow> dumps (JObj (kv # kvs)) | _ \<Rightarrow> ''{}''),
      adf_order = ac_order a\<rparr>"

text \<open>
  The relationship \<open>policy.response_rule\<close>. A query that asks for it loads it; otherwise the access
  has to query the database, which the asynchronous session refuses with an exception, unless
  the foreign key is null.
\<close>

definition missing_greenlet :: exn where
  "missing_greenlet = Exn (OtherError ''MissingGreenlet'') ''greenlet_spawn has not been called''"

definition response_rule_of :: "bool \<Rightarrow> policy_row \<Rightarrow> policy_tables \<Rightarrow> response_row option res" where
  "response_rule_of loaded p t =
     (case po_response p of
        None \<Rightarrow> Inr None
      | Some rid \<Rightarrow> if loaded then Inr (find_response rid t) else Inl missing_greenlet)"

definition response_to_proto :: "policy_tables \<Rightarrow> response_row \<Rightarrow> response_def" where
  "response_to_proto t r =
     \<lparr>sdf_id = nat_str (rs_id r), sdf_name = rs_name r,
      sdf_actions = map action_to_proto (filter (\<lambda>a. ac_rule a = rs_id r) (pt_actions t))\<rparr>"

definition build_policy_definition :: "bool \<Rightarrow> policy_tables \<Rightarrow> policy_row \<Rightarrow> policy_def res" where
  "build_policy_definition loaded t p =
     rbind (response_rule_of loaded p t) (\<lambda>rr.
       Inr \<lparr>pdf_id = nat_str (po_id p), pdf_name = po_name p,
            pdf_description = (case po_description p of Some d \<Rightarrow> d | None \<Rightarrow> []),
            pdf_severity = dict_get SEVERITY_TO_PROTO (pol_severity_value (po_severity p)) 3,
            pdf_status = policy_status_value (po_status p), pdf_ttd = po_ttd p,
            pdf_thresholds =
              (case po_thresholds p of
                 None \<Rightarrow> []
               | Some ts \<Rightarrow> map (\<lambda>th. (th_threshold th, dict_get SEVERITY_TO_PROTO (th_severity th) 3)) ts),
            pdf_rules = map rule_to_proto (rules_of (po_id p) t),
            pdf_exceptions = map exception_to_proto (exceptions_of (po_id p) t),
            pdf_response = map_option (response_to_proto t) rr\<rparr>)"

text \<open>
  \<open>GetPolicies\<close> suspends while the database answers and reads the version of the bus afterwards:
  the two parts, and the handler with nothing in between.
\<close>

definition read_active_policies :: "grpc_server \<Rightarrow> policy_def list res" where
  "read_active_policies s =
     map_res (build_policy_definition True (gs_policies s)) (get_active_policies (gs_policies s))"

definition policies_reply :: "policy_def list res \<Rightarrow> grpc_server \<Rightarrow> grpc_status \<times> nat \<times> policy_def list" where
  "policies_reply defs s =
     (case defs of
        Inr ds \<Rightarrow> (OK, bus_version (hub_bus (gs_hub s)), ds)
      | Inl e \<Rightarrow> (INTERNAL (exn_str e), 0, []))"

definition GetPolicies :: "grpc_server \<Rightarrow> grpc_status \<times> nat \<times> policy_def list" where
  "GetPolicies s = policies_reply (read_active_policies s) s"

section \<open>The stream of policy updates\<close>

record policy_update =
  pu_type :: int
  pu_version :: nat
  pu_policy_id :: string
  pu_policy :: "policy_def option"

text \<open>The synchronisation at the start, for an agent that is behind.\<close>

definition full_sync :: "int \<Rightarrow> grpc_server \<Rightarrow> policy_update list res" where
  "full_sync current_version s =
     (let current_ver = bus_version (hub_bus (gs_hub s)) in
      if current_version < int current_ver then
        map_res (\<lambda>p. rbind (build_policy_definition True (gs_policies s) p) (\<lambda>d.
            Inr \<lparr>pu_type = dict_get UPDATE_TYPE_TO_PROTO POLICY_FULL_SYNC 0, pu_version = current_ver,
                 pu_policy_id = nat_str (po_id p), pu_policy = Some d\<rparr>))
          (get_active_policies (gs_policies s))
      else Inr [])"

text \<open>The policy an event names, as \<open>policy_service.get_policy\<close> loads it, without its response rule.\<close>

definition event_policy :: "policy_event \<Rightarrow> policy_tables \<Rightarrow> policy_def option res" where
  "event_policy e t =
     (case parse_uuid (pe_policy e) of
        None \<Rightarrow> Inl bad_uuid
      | Some pid \<Rightarrow>
          (case get_policy pid t of
             None \<Rightarrow> Inr None
           | Some p \<Rightarrow> rbind (build_policy_definition False t p) (\<lambda>d. Inr (Some d))))"

definition update_of_event :: "policy_event \<Rightarrow> policy_tables \<Rightarrow> policy_update" where
  "update_of_event e t =
     \<lparr>pu_type = dict_get UPDATE_TYPE_TO_PROTO (pe_type e) 0, pu_version = event_version e,
      pu_policy_id = pe_policy e,
      pu_policy =
        (if pe_type e \<in> {POLICY_ADD, POLICY_MODIFY} then
           (case event_policy e t of Inr d \<Rightarrow> d | Inl exc \<Rightarrow> None)
         else None)\<rparr>"

definition open_stream :: "int \<Rightarrow> grpc_server \<Rightarrow> (nat \<times> policy_update list res) \<times> grpc_server" where
  "open_stream current_version s =
     (let (q, b) = subscribe (hub_bus (gs_hub s));
          s1 = s\<lparr>gs_hub := (gs_hub s)\<lparr>hub_bus := b\<rparr>\<rparr>
      in ((q, full_sync current_version s1), s1))"

text \<open>One round of the loop: an update, unless the queue stays empty for the time-out.\<close>

definition stream_next :: "nat \<Rightarrow> grpc_server \<Rightarrow> policy_update option \<times> grpc_server" where
  "stream_next q s =
     (case queue_get q (hub_bus (gs_hub s)) of
        None \<Rightarrow> (None, s)
      | Some (e, b) \<Rightarrow> (Some (update_of_event e (gs_policies s)), s\<lparr>gs_hub := (gs_hub s)\<lparr>hub_bus := b\<rparr>\<rparr>))"

definition close_stream :: "nat \<Rightarrow> grpc_server \<Rightarrow> grpc_server" where
  "close_stream q s = s\<lparr>gs_hub := (gs_hub s)\<lparr>hub_bus := unsubscribe q (hub_bus (gs_hub s))\<rparr>\<rparr>"

section \<open>Incident reports\<close>

record match_detail =
  md_identifier :: string
  md_pattern :: string
  md_values :: "string list"
  md_count :: int
  md_component :: string


definition or_text :: "string \<Rightarrow> string \<Rightarrow> string" where
  "or_text v d = (if v \<noteq> [] then v else d)"






section \<open>Two-tier detection\<close>

definition default_identifiers :: "data_identifier_config list" where
  "default_identifiers =
     [\<lparr>di_name = ''Credit Card Number'',
       di_patterns = [regex_text ''!b(?:4[0-9]{12}(?:[0-9]{3})?|5[1-5][0-9]{14}|3[47][0-9]{13}|6(?:011|5[0-9]{2})[0-9]{12})!b''],
       di_validator = Some ''luhn'', di_description = [], di_confidence = 95 / 100, di_examples = []\<rparr>,
      \<lparr>di_name = ''US SSN'', di_patterns = [regex_text ''!b!d{3}-!d{2}-!d{4}!b''],
       di_validator = Some ''ssn_area'', di_description = [], di_confidence = 9 / 10, di_examples = []\<rparr>,
      \<lparr>di_name = ''Email Address'',
       di_patterns = [regex_text ''!b[A-Za-z0-9._%+-]+@[A-Za-z0-9.-]+!.[A-Za-z]{2,63}!b''],
       di_validator = Some ''email_domain'', di_description = [], di_confidence = 85 / 100, di_examples = []\<rparr>]"

definition build_default_engine :: "re2_lib \<Rightarrow> engine res" where
  "build_default_engine lib =
     rbind (DataIdentifierAnalyzer lib ''built_in_data_identifiers'' default_identifiers None []) (register [])"

record detect_request =
  dq_request_id :: string
  dq_content :: bytes
  dq_file_name :: string
  dq_excerpt :: bytes
  dq_timeout :: int
  dq_fallback :: string

record detect_response =
  dr_request_id :: string
  dr_verdict :: verdict
  dr_severity :: int
  dr_count :: nat
  dr_message :: string

definition verdict_response :: "detect_request \<Rightarrow> verdict \<Rightarrow> string \<Rightarrow> detect_response" where
  "verdict_response rq v m =
     \<lparr>dr_request_id = dq_request_id rq, dr_verdict = v, dr_severity = 0, dr_count = 0, dr_message = m\<rparr>"

text \<open>
  The message to scan: from the file, or its text if the inspector raises, or from the excerpt;
  \<open>None\<close> when the request has neither.
\<close>

definition detect_message :: "inspect_lib \<Rightarrow> nat \<Rightarrow> detect_request \<Rightarrow> parsed_message option res" where
  "detect_message ilib fuel rq =
     (if dq_content rq \<noteq> [] then
        (case inspect ilib fuel (dq_content rq) (or_text (dq_file_name rq) ''unknown'') [] of
           Inr msg \<Rightarrow> Inr (Some msg)
         | Inl e \<Rightarrow>
             (case decode_replace ilib ''utf-8'' (dq_content rq) of
                Inr text \<Rightarrow> Inr (Some (add_component (new_message ilib []) BODY text []))
              | Inl e2 \<Rightarrow> Inr (Some (new_message ilib []))))
      else if dq_excerpt rq \<noteq> [] then
        rbind (decode_replace ilib ''utf-8'' (dq_excerpt rq)) (\<lambda>text.
          Inr (Some (add_component (new_message ilib []) BODY text [])))
      else Inr None)"

text \<open>The details of a match; a \<open>pattern\<close> that is not text is refused by the message class.\<close>

definition match_detail_of :: "match \<Rightarrow> match_detail res" where
  "match_detail_of m =
     (case dict_get (match_meta m) ''identifier'' (PyStr []) of
        PyStr pat \<Rightarrow>
          Inr \<lparr>md_identifier = rule_name m, md_pattern = pat, md_values = [matched_text m], md_count = 1,
               md_component = component_type_value (comp_type (match_component m))\<rparr>
      | _ \<Rightarrow> Inl (Exn TypeError ''bad argument type for built-in operation''))"

definition fallback_verdict :: "string \<Rightarrow> verdict" where
  "fallback_verdict fb = dict_get [(''allow'', TTD_ALLOW), (''block'', TTD_BLOCK), (''log'', TTD_LOG)] fb TTD_LOG"

text \<open>The body of the handler; \<open>timed_out\<close> says whether the detection exceeds the time-out.\<close>

definition detect_content_body ::
  "re2_lib \<Rightarrow> inspect_lib \<Rightarrow> nat \<Rightarrow> bool \<Rightarrow> detect_request \<Rightarrow> detect_response res" where
  "detect_content_body rlib ilib fuel timed_out rq =
     (let timeout = (if dq_timeout rq \<noteq> 0 then dq_timeout rq else 30);
          fallback = or_text (dq_fallback rq) ''log''
      in rbind (detect_message ilib fuel rq) (\<lambda>message.
           (case message of
              None \<Rightarrow> Inr (verdict_response rq TTD_ALLOW ''No content provided'')
            | Some msg \<Rightarrow>
                rbind (build_default_engine rlib) (\<lambda>engine.
                  if timed_out then
                    Inr (verdict_response rq (fallback_verdict fallback)
                           (''Detection timed out after '' @ int_str timeout @ ''s, fallback: '' @ fallback))
                  else
                    (let result = detect engine msg in
                     rbind (map_res match_detail_of (matches result)) (\<lambda>match_details.
                       Inr \<lparr>dr_request_id = dq_request_id rq,
                            dr_verdict = (if has_matches result then TTD_BLOCK else TTD_ALLOW),
                            dr_severity = (if has_matches result then 3 else 0),
                            dr_count = match_count result, dr_message = ''Detection complete''\<rparr>))))))"

definition DetectContent ::
  "re2_lib \<Rightarrow> inspect_lib \<Rightarrow> nat \<Rightarrow> bool \<Rightarrow> detect_request \<Rightarrow> grpc_status \<times> detect_response" where
  "DetectContent rlib ilib fuel timed_out rq =
     (case detect_content_body rlib ilib fuel timed_out rq of
        Inr r \<Rightarrow> (OK, r)
      | Inl e \<Rightarrow> (INTERNAL (exn_str e), verdict_response rq TTD_LOG (exn_str e)))"

section \<open>Scans\<close>

record scan_def =
  sdf_scan_id :: string
  sdf_scan_name :: string
  sdf_path :: string
  sdf_recursive :: bool
  sdf_extensions :: "string list"
  sdf_exclusions :: "string list"

definition list_or_empty :: "string list option \<Rightarrow> string list" where
  "list_or_empty v = (case v of Some xs \<Rightarrow> xs | None \<Rightarrow> [])"

definition scan_to_proto :: "scan \<Rightarrow> scan_def" where
  "scan_to_proto sc =
     \<lparr>sdf_scan_id = nat_str (sc_id sc), sdf_scan_name = sc_name sc, sdf_path = sc_path sc,
      sdf_recursive = sc_recursive sc, sdf_extensions = list_or_empty (sc_extensions sc),
      sdf_exclusions = list_or_empty (sc_exclusions sc)\<rparr>"

text \<open>The loop that keeps the first scan of each id.\<close>

fun first_of_each :: "string set \<Rightarrow> scan list \<Rightarrow> scan list" where
  "first_of_each seen [] = []"
| "first_of_each seen (sc # scs) =
     (if nat_str (sc_id sc) \<in> seen then first_of_each seen scs
      else sc # first_of_each (insert (nat_str (sc_id sc)) seen) scs)"

definition GetDiscoverScans :: "string \<Rightarrow> grpc_server \<Rightarrow> grpc_status \<times> scan_def list" where
  "GetDiscoverScans agent_id s =
     (case rbind (list_discovers 1 25 (Some ''running'') (Some agent_id) None (gs_scans s)) (\<lambda>(scans, n).
           rbind (list_discovers 1 25 (Some ''running'') None None (gs_scans s)) (\<lambda>(unassigned, k).
             Inr (map scan_to_proto (first_of_each {} (scans @ unassigned))))) of
        Inr ds \<Rightarrow> (OK, ds)
      | Inl e \<Rightarrow> (INTERNAL (exn_str e), []))"

record finding =
  fi_path :: string
  fi_name :: string
  fi_size :: int
  fi_owner :: string
  fi_policy :: string
  fi_severity :: int
  fi_count :: int
  fi_action :: string

text \<open>The name of a number of the enumeration; one that has none raises.\<close>

definition severity_name :: "int \<Rightarrow> string res" where
  "severity_name n =
     (case map_of [(0, ''SEVERITY_UNSPECIFIED''), (1, ''SEVERITY_INFO''), (2, ''SEVERITY_LOW''), (3, ''SEVERITY_MEDIUM''),
             (4, ''SEVERITY_HIGH''), (5, ''SEVERITY_CRITICAL'')] n of
        Some v \<Rightarrow> Inr v
      | None \<Rightarrow> Inl (Exn ValueError (''Enum Severity has no name defined for value '' @ int_str n)))"

definition finding_to_json :: "finding \<Rightarrow> json res" where
  "finding_to_json f =
     rbind (severity_name (fi_severity f)) (\<lambda>sev.
       Inr (JObj [(''file_path'', JStr (fi_path f)), (''file_name'', JStr (fi_name f)), (''file_size'', JInt (fi_size f)),
                  (''file_owner'', JStr (fi_owner f)), (''policy_name'', JStr (fi_policy f)), (''severity'', JStr sev),
                  (''match_count'', JInt (fi_count f)), (''action_taken'', JStr (fi_action f))]))"

record results_request =
  rs_agent_id :: string
  rs_discover_id :: string
  rs_examined :: int
  rs_scanned :: int
  rs_violations :: int
  rs_quarantined :: int
  rs_duration :: int
  rs_findings :: "finding list"

definition assign_agent :: "string \<Rightarrow> scan \<Rightarrow> nat list \<Rightarrow> scan res" where
  "assign_agent agent_id sc agents =
     (if sc_agent sc \<noteq> None then Inr sc
      else (case parse_uuid agent_id of
              None \<Rightarrow> Inl db_error
            | Some a \<Rightarrow> if a \<in> set agents then Inr (sc\<lparr>sc_agent := Some a\<rparr>) else Inl integrity_error))"

definition ReportDiscoverResults ::
  "int \<Rightarrow> results_request \<Rightarrow> grpc_server \<Rightarrow> (grpc_status \<times> bool \<times> string) \<times> grpc_server" where
  "ReportDiscoverResults now rq s =
     (case parse_uuid (rs_discover_id rq) of
        None \<Rightarrow> ((INTERNAL (exn_str bad_uuid), False, exn_str bad_uuid), s)
      | Some did \<Rightarrow>
          (case get_discover did (gs_scans s) of
             None \<Rightarrow> ((NOT_FOUND ''Discover scan not found'', False, ''Scan not found''), s)
           | Some sc \<Rightarrow>
               (case rbind (map_res finding_to_json (rs_findings rq)) (\<lambda>fs.
                     rbind (assign_agent (rs_agent_id rq) sc (map ag_id (at_agents (gs_agents s)))) (\<lambda>sc1.
                       Inr (complete_discover now sc1
                         \<lparr>sr_examined = rs_examined rq, sr_scanned = rs_scanned rq, sr_violations = rs_violations rq,
                          sr_quarantined = rs_quarantined rq, sr_duration = Some (rs_duration rq),
                          sr_findings = Some (JList fs)\<rparr> (gs_scans s)))) of
                  Inl e \<Rightarrow> ((INTERNAL (exn_str e), False, exn_str e), s)
                | Inr (sc2, t) \<Rightarrow>
                    ((OK, True, ''Results recorded: '' @ int_str (rs_violations rq) @ '' violations''),
                     s\<lparr>gs_scans := t\<rparr>))))"

section \<open>Heartbeats\<close>


section \<open>Policies on the wire\<close>

lemma build_loaded: "\<exists>d. build_policy_definition True t p = Inr d"
  by (cases "po_response p") (simp_all add: build_policy_definition_def response_rule_of_def)

lemma build_unloaded:
  "build_policy_definition False t p =
     (if po_response p = None then build_policy_definition True t p else Inl missing_greenlet)"
  by (cases "po_response p") (simp_all add: build_policy_definition_def response_rule_of_def)

text \<open>
  The answer to \<open>GetPolicies\<close> always succeeds, with the version of the bus and one definition for
  every active policy that is no template, each with all its rules and exceptions.
\<close>

theorem get_policies_complete:
  "\<exists>ds. GetPolicies s = (OK, bus_version (hub_bus (gs_hub s)), ds) \<and>
     list_all2 (\<lambda>p d. build_policy_definition True (gs_policies s) p = Inr d \<and> pdf_id d = nat_str (po_id p) \<and>
         pdf_rules d = map rule_to_proto (rules_of (po_id p) (gs_policies s)) \<and>
         pdf_exceptions d = map exception_to_proto (exceptions_of (po_id p) (gs_policies s)))
       (get_active_policies (gs_policies s)) ds"
proof -
  let ?t = "gs_policies s"
  obtain ds where ds: "map_res (build_policy_definition True ?t) (get_active_policies ?t) = Inr ds"
    using map_res_total [of _ "build_policy_definition True ?t"] build_loaded by blast
  have "pdf_id d = nat_str (po_id p) \<and> pdf_rules d = map rule_to_proto (rules_of (po_id p) ?t) \<and>
      pdf_exceptions d = map exception_to_proto (exceptions_of (po_id p) ?t)"
    if "build_policy_definition True ?t p = Inr d" for p d
    using that by (auto simp: build_policy_definition_def rbind_Inr_iff)
  then have "list_all2 (\<lambda>p d. build_policy_definition True ?t p = Inr d \<and> pdf_id d = nat_str (po_id p) \<and>
      pdf_rules d = map rule_to_proto (rules_of (po_id p) ?t) \<and>
      pdf_exceptions d = map exception_to_proto (exceptions_of (po_id p) ?t)) (get_active_policies ?t) ds"
    using ds unfolding map_res_Inr by (auto elim: list_all2_mono)
  then show ?thesis using ds
    by (auto simp: GetPolicies_def read_active_policies_def policies_reply_def)
qed

text \<open>
  An update of the stream for an added or changed policy carries the same definition \<open>GetPolicies\<close>
  would give, unless the policy has a response rule: then it carries none.
\<close>

theorem stream_update_spec:
  assumes "pe_type e \<in> {POLICY_ADD, POLICY_MODIFY}" and "pe_policy e = nat_str pid" and "get_policy pid t = Some p"
  shows "pu_version (update_of_event e t) = event_version e \<and> pu_policy_id (update_of_event e t) = nat_str pid \<and>
    (case pu_policy (update_of_event e t) of
       Some d \<Rightarrow> po_response p = None \<and> build_policy_definition True t p = Inr d
     | None \<Rightarrow> po_response p \<noteq> None)"
proof -
  obtain d where d: "build_policy_definition True t p = Inr d" using build_loaded by blast
  show ?thesis
    using assms d by (cases "po_response p") (simp_all add: update_of_event_def event_policy_def build_unloaded)
qed

text \<open>
  A stream that opens at a version that is behind gets one full-synchronisation update for each active
  policy, with the current version, and a subscription that starts before the version is
  read; a current agent gets none. Nothing tells an agent that is behind which of its policies
  are gone, and when no policy is active it is told nothing at all.
\<close>

theorem full_sync_spec:
  assumes "bus_wf (hub_bus (gs_hub s))"
  shows "\<exists>q us s'. open_stream v s = ((q, Inr us), s') \<and>
    queue_of q (hub_bus (gs_hub s')) = Some [] \<and> gs_policies s' = gs_policies s \<and>
    map pu_policy_id us = (if v < int (bus_version (hub_bus (gs_hub s)))
      then map (\<lambda>p. nat_str (po_id p)) (get_active_policies (gs_policies s)) else []) \<and>
    (\<forall>u \<in> set us. pu_version u = bus_version (hub_bus (gs_hub s)) \<and> pu_policy u \<noteq> None)"
proof -
  obtain q b where sub: "subscribe (hub_bus (gs_hub s)) = (q, b)" by (cases "subscribe (hub_bus (gs_hub s))")
  let ?s = "s\<lparr>gs_hub := (gs_hub s)\<lparr>hub_bus := b\<rparr>\<rparr>"
  let ?v = "bus_version (hub_bus (gs_hub s))"
  let ?f = "\<lambda>p. rbind (build_policy_definition True (gs_policies s) p) (\<lambda>d.
      Inr \<lparr>pu_type = dict_get UPDATE_TYPE_TO_PROTO POLICY_FULL_SYNC 0, pu_version = ?v,
           pu_policy_id = nat_str (po_id p), pu_policy = Some d\<rparr>)"
  have v: "bus_version b = ?v" using sub by (auto simp: subscribe_def)
  have q: "queue_of q b = Some []" using queue_of_subscribe [OF sub assms, of q] by simp
  obtain us where us: "map_res ?f (get_active_policies (gs_policies s)) = Inr us"
  proof -
    have "\<exists>y. ?f p = Inr y" for p using build_loaded [of "gs_policies s" p] by auto
    from map_res_total [of _ ?f, OF this] show ?thesis using that by blast
  qed
  have "map pu_policy_id us = map (\<lambda>p. nat_str (po_id p)) ps \<and>
      (\<forall>u \<in> set us. pu_version u = ?v \<and> pu_policy u \<noteq> None)" if "map_res ?f ps = Inr us" for ps us
    using that
  proof (induction ps arbitrary: us)
    case (Cons p ps)
    then show ?case by (auto simp: rbind_Inr_iff split: sum.splits)
  qed simp
  with us show ?thesis
    using sub v q by (auto simp: open_stream_def full_sync_def Let_def)
qed

text \<open>
  C5: The version in the answer to \<open>GetPolicies\<close> may be newer than its policies: when a policy is
  suspended after the query and before the version is read, the agent gets the policy as
  active together with the version of its suspension, and no heartbeat will tell it.
\<close>

definition two_grpc :: grpc_server where
  "two_grpc =
     \<lparr>gs_agents = no_agents, gs_policies = two_policies, gs_scans = \<lparr>st_scans = [], st_next = 0\<rparr>, gs_incidents = [],
      gs_hub = new_hub 0, gs_queue = [], gs_siem = None\<rparr>"

theorem get_policies_may_be_stale:
  "\<exists>srv' s'. suspend_policy_endpoint some_caller 2 \<lparr>sv_tx = tx_open (gs_policies two_grpc), sv_hub = gs_hub two_grpc\<rparr>
      = (Inr (plain_policy 2 ''b''\<lparr>po_status := SUSPENDED\<rparr>), srv') \<and>
     s' = two_grpc\<lparr>gs_policies := durable_tables srv', gs_hub := sv_hub srv'\<rparr> \<and>
     (\<exists>ds. policies_reply (read_active_policies two_grpc) s' = (OK, bus_version (hub_bus (gs_hub s')), ds) \<and>
        nat_str 2 \<in> pdf_id ` set ds \<and> map po_id (get_active_policies (gs_policies s')) = [1])"
proof -
  let ?srv = "\<lparr>sv_tx = tx_open two_policies, sv_hub = new_hub 0\<rparr>"
  obtain srv' where e: "suspend_policy_endpoint some_caller 2 ?srv = (Inr (plain_policy 2 ''b''\<lparr>po_status := SUSPENDED\<rparr>), srv')"
    and d: "pt_policies (durable_tables srv') = [plain_policy 1 ''a'', plain_policy 2 ''b''\<lparr>po_status := SUSPENDED\<rparr>]"
    by (simp add: suspend_policy_endpoint_def with_policy_def suspend_policy_def two_policies_def get_policy_def
        plain_policy_def replace_policy_def audit_def policy_audit_entry_def Let_def)
  obtain ds where ds: "read_active_policies two_grpc = Inr ds" "nat_str 2 \<in> pdf_id ` set ds"
    by (simp add: read_active_policies_def two_grpc_def two_policies_def get_active_policies_def plain_policy_def
        build_policy_definition_def response_rule_of_def)
  show ?thesis
    using e d ds by (intro exI [of _ srv'] exI conjI refl)
      (auto simp: two_grpc_def policies_reply_def get_active_policies_def plain_policy_def)
qed

section \<open>Reports\<close>



lemma severity_roundtrip:
  "dict_get PROTO_SEVERITY_MAP (dict_get SEVERITY_TO_PROTO (pol_severity_value sev) 3) MEDIUM = sev"
  by (cases sev) (simp_all add: SEVERITY_TO_PROTO_def PROTO_SEVERITY_MAP_def dict_get_def)




section \<open>Detection\<close>

lemma default_engine:
  assumes "\<forall>p. re2_compile lib p = None"
  shows "\<exists>a. build_default_engine lib = Inr [a] \<and>
    DataIdentifierAnalyzer lib ''built_in_data_identifiers'' default_identifiers None [] = Inr a"
proof -
  have "\<exists>loaded. load_identifiers lib (dict_update VALIDATORS []) default_identifiers = Inr loaded"
    using assms
    by (simp add: default_identifiers_def wants_validator_def dict_update_def VALIDATORS_def)
  then show ?thesis by (auto simp: DataIdentifierAnalyzer_def build_default_engine_def register_def)
qed

lemma identifier_details:
  "m \<in> set (accepted_hits lib name ident vfn c p) \<Longrightarrow> \<exists>d. match_detail_of m = Inr d"
  by (auto simp: accepted_hits_def identifier_match_def match_detail_of_def dict_get_def)

text \<open>
  The verdict on content, when the built-in patterns compile: on a time-out it is the fallback of the
  request; otherwise the content is blocked exactly when the built-in analyzer reports a
  match, always with medium severity, and allowed when it reports none or raises.
\<close>

theorem detection_verdict:
  assumes "detect_message ilib fuel rq = Inr (Some msg)" and "\<forall>p. re2_compile rlib p = None"
    and "DataIdentifierAnalyzer rlib ''built_in_data_identifiers'' default_identifiers None [] = Inr a"
  shows "\<exists>r. DetectContent rlib ilib fuel timed_out rq = (OK, r) \<and> dr_request_id r = dq_request_id rq \<and>
    dr_verdict r =
      (if timed_out then fallback_verdict (or_text (dq_fallback rq) ''log'')
       else case an_analyze a msg of
              Inr (m # ms) \<Rightarrow> TTD_BLOCK
            | _ \<Rightarrow> TTD_ALLOW) \<and>
    dr_severity r = (if dr_verdict r = TTD_BLOCK \<and> \<not> timed_out then 3 else 0)"
proof -
  have eng: "build_default_engine rlib = Inr [a]" using default_engine [OF assms(2)] assms(3) by auto
  show ?thesis
  proof (cases "an_analyze a msg")
    case (Inl e)
    then have "matches (detect [a] msg) = []" by (simp add: detect_def detect_step_def)
    then show ?thesis using Inl assms(1) eng
      by (simp add: DetectContent_def detect_content_body_def Let_def has_matches_def match_count_def verdict_response_def)
  next
    case (Inr ms)
    then have ms: "matches (detect [a] msg) = ms" by (simp add: detect_def detect_step_def)
    have "di_analyze rlib ''built_in_data_identifiers'' VALIDATORS
        (map (\<lambda>i. (i, di_patterns i)) default_identifiers) None msg = Inr ms"
      using Inr DataIdentifierAnalyzer_Inr [OF assms(3)] by (simp add: di_object_def dict_update_def)
    from di_analyze_eq [OF this] have "\<exists>d. match_detail_of m = Inr d" if "m \<in> set ms" for m
      using that by (auto dest!: identifier_details)
    then obtain ds where "map_res match_detail_of ms = Inr ds" using map_res_total by blast
    then show ?thesis using Inr ms assms(1) eng
      by (cases ms) (simp_all add: DetectContent_def detect_content_body_def Let_def has_matches_def match_count_def
          verdict_response_def)
  qed
qed

section \<open>Scans\<close>

lemma first_of_each_set:
  "sc \<in> set scs \<Longrightarrow> nat_str (sc_id sc) \<notin> seen \<Longrightarrow> \<exists>sc' \<in> set (first_of_each seen scs). sc_id sc' = sc_id sc"
proof (induction scs arbitrary: seen)
  case (Cons x scs)
  show ?case
  proof (cases "sc_id x = sc_id sc")
    case True
    then show ?thesis using Cons.prems(2) by simp
  next
    case False
    then have ne: "nat_str (sc_id x) \<noteq> nat_str (sc_id sc)" by (metis option.inject parse_uuid_str)
    then have "sc \<in> set scs" using Cons.prems(1) False by auto
    then show ?thesis using Cons.IH [of seen] Cons.IH [of "insert (nat_str (sc_id x)) seen"] Cons.prems(2) ne
      by (auto split: if_splits)
  qed
qed simp

text \<open>
  An agent that asks for its scans is given the scans of every agent: each of the 25 newest running
  scans is in the answer, whoever it is assigned to.
\<close>

theorem running_scans_go_to_every_agent:
  assumes "parse_uuid agent_id = Some a"
    and "sc \<in> set (take 25 (sort_key (\<lambda>x. - sc_created x) (filter (\<lambda>x. sc_status x = RUNNING) (st_scans (gs_scans s)))))"
  shows "\<exists>ds. GetDiscoverScans agent_id s = (OK, ds) \<and> nat_str (sc_id sc) \<in> sdf_scan_id ` set ds"
proof -
  have ne: "agent_id \<noteq> []" using assms(1) by (auto simp: parse_uuid_def)
  have run: "discover_status_of ''running'' = Some RUNNING" by (simp add: discover_status_of_def)
  have f: "filter (\<lambda>x. RUNNING = sc_status x) xs = filter (\<lambda>x. sc_status x = RUNNING) xs" for xs
    by (rule filter_cong) auto
  obtain mine k where mine: "list_discovers 1 25 (Some ''running'') (Some agent_id) None (gs_scans s) = Inr (mine, k)"
    using assms(1) ne run by (simp add: list_discovers_def wanted_def Let_def)
  let ?all = "take 25 (sort_key (\<lambda>x. - sc_created x) (filter (\<lambda>x. sc_status x = RUNNING) (st_scans (gs_scans s))))"
  obtain n where all: "list_discovers 1 25 (Some ''running'') None None (gs_scans s) = Inr (?all, n)"
    using run by (simp add: list_discovers_def wanted_def page_of_def Let_def f)
  obtain sc' where sc': "sc' \<in> set (first_of_each {} (mine @ ?all))" "sc_id sc' = sc_id sc"
    using first_of_each_set [of sc "mine @ ?all" "{}"] assms(2) by auto
  have g: "GetDiscoverScans agent_id s = (OK, map scan_to_proto (first_of_each {} (mine @ ?all)))"
    unfolding GetDiscoverScans_def mine all by simp
  have "nat_str (sc_id sc) = sdf_scan_id (scan_to_proto sc')" using sc'(2) by (simp add: scan_to_proto_def)
  moreover have "scan_to_proto sc' \<in> set (map scan_to_proto (first_of_each {} (mine @ ?all)))"
    unfolding set_map by (rule imageI) (rule sc'(1))
  ultimately have "nat_str (sc_id sc) \<in> sdf_scan_id ` set (map scan_to_proto (first_of_each {} (mine @ ?all)))"
    by (rule image_eqI)
  with g show ?thesis by (intro exI conjI)
qed

section \<open>Witnesses\<close>

definition modified :: policy_event where
  "modified = \<lparr>pe_type = POLICY_MODIFY, pe_policy = nat_str 1, pe_version = Some 1\<rparr>"

theorem stream_update_spec_witness:
  "pu_version (update_of_event modified two_policies) = 1 \<and> pu_policy (update_of_event modified two_policies) \<noteq> None"
proof -
  have "pe_type modified \<in> {POLICY_ADD, POLICY_MODIFY}" "pe_policy modified = nat_str 1"
      "get_policy 1 two_policies = Some (plain_policy 1 ''a'')"
    by (simp_all add: modified_def two_policies_def get_policy_def plain_policy_def)
  from stream_update_spec [OF this] show ?thesis
    by (auto simp: modified_def event_version_def plain_policy_def split: option.splits)
qed

theorem full_sync_spec_witness:
  "\<exists>q us s'. open_stream 0 two_grpc = ((q, Inr us), s') \<and> us = []"
proof -
  have "bus_wf (hub_bus (gs_hub two_grpc))" "bus_version (hub_bus (gs_hub two_grpc)) = 0"
    by (simp add: two_grpc_def new_hub_def bus_wf_new, simp add: two_grpc_def new_hub_def new_bus_def)
  with full_sync_spec [of two_grpc 0] show ?thesis by auto
qed



definition open_re2 :: re2_lib where
  "open_re2 = \<lparr>re2_compile = (\<lambda>p. None), re2_finditer = (\<lambda>p t. if CHR ''@'' \<in> set p \<or> t = [] then [] else [(0, length t)])\<rparr>"

definition card_request :: detect_request where
  "card_request =
     \<lparr>dq_request_id = ''r'', dq_content = [], dq_file_name = [], dq_excerpt = map (\<lambda>c. of_nat (code c)) ''4111111111111111'',
      dq_timeout = 0, dq_fallback = []\<rparr>"

theorem detection_verdict_witness:
  "\<exists>r. DetectContent open_re2 plain_lib 1 True card_request = (OK, r) \<and> dr_verdict r = TTD_LOG"
proof -
  have c: "\<forall>p. re2_compile open_re2 p = None" by (simp add: open_re2_def)
  obtain msg where m: "detect_message plain_lib 1 card_request = Inr (Some msg)"
    by (simp add: detect_message_def card_request_def plain_lib_def)
  obtain a where "DataIdentifierAnalyzer open_re2 ''built_in_data_identifiers'' default_identifiers None [] = Inr a"
    using default_engine [OF c] by blast
  from detection_verdict [OF m c this, of True] show ?thesis
    by (auto simp: card_request_def or_text_def fallback_verdict_def dict_get_def)
qed

definition other_scan :: scan where
  "other_scan =
     \<lparr>sc_id = 3, sc_name = ''s'', sc_agent = Some 8, sc_status = RUNNING, sc_path = ''/home'', sc_recursive = True,
      sc_extensions = None, sc_exclusions = None, sc_started = Some 0, sc_completed = None, sc_examined = 0,
      sc_scanned = 0, sc_violations = 0, sc_quarantined = 0, sc_duration = None, sc_findings = None, sc_created = 0\<rparr>"

theorem running_scans_go_to_every_agent_witness:
  "\<exists>ds. GetDiscoverScans (nat_str 7) (two_grpc\<lparr>gs_scans := \<lparr>st_scans = [other_scan], st_next = 4\<rparr>\<rparr>) = (OK, ds) \<and>
     nat_str 3 \<in> sdf_scan_id ` set ds \<and> sc_agent other_scan = Some 8"
  using running_scans_go_to_every_agent [OF parse_uuid_str [of 7],
      of other_scan "two_grpc\<lparr>gs_scans := \<lparr>st_scans = [other_scan], st_next = 4\<rparr>\<rparr>"]
  by (simp add: other_scan_def)

end
