(* ===== verification/SyslogExporter.thy ===== *)
theory SyslogExporter
  imports Reports
begin

text \<open>
  \<open>server/services/syslog_exporter.py\<close>: incidents as CEF messages over UDP, TCP or TLS, with one
  socket that is opened when it is needed and closed after an error. The network is the list
  of the outcomes of the calls that reach it (connecting a stream socket, sending): an
  exception or success.
\<close>

section \<open>CEF\<close>

definition CEF_SEVERITY :: "(string \<times> int) list" where
  "CEF_SEVERITY = [(''critical'', 10), (''high'', 8), (''medium'', 5), (''low'', 3), (''info'', 1)]"

definition CEF_SIG_IDS :: "(string \<times> int) list" where
  "CEF_SIG_IDS = [(''block'', 100), (''notify'', 200), (''log'', 300), (''quarantine'', 400), (''user_cancel'', 500)]"

text \<open>\<open>value.replace(old, new)\<close> for an old text of one character.\<close>

definition replace_char :: "char \<Rightarrow> string \<Rightarrow> string \<Rightarrow> string" where
  "replace_char c new s = concat (map (\<lambda>d. if d = c then new else [d]) s)"

definition backslash :: char where "backslash = CHR 0x5C"

definition cef_escape :: "string \<Rightarrow> string" where
  "cef_escape v =
     replace_char (CHR 0x0D) [backslash, CHR ''r'']
       (replace_char (CHR 0x0A) [backslash, CHR ''n'']
         (replace_char (CHR ''='') [backslash, CHR ''='']
           (replace_char (CHR ''|'') [backslash, CHR ''|'']
             (replace_char backslash [backslash, backslash] v))))"

text \<open>The creation time in milliseconds, truncated.\<close>

definition truncate_rat :: "rat \<Rightarrow> int" where
  "truncate_rat x = (if x < 0 then - \<lfloor>- x\<rfloor> else \<lfloor>x\<rfloor>)"

definition cef_extensions :: "incident_record \<Rightarrow> (string \<times> string) list" where
  "cef_extensions i =
     [(''act'', ir_action_taken i), (''cat'', ir_channel i), (''cs1'', ir_policy_name i), (''cs1Label'', ''PolicyName''),
      (''cs2'', ir_source_type i), (''cs2Label'', ''SourceType''), (''cn1'', int_str (ir_match_count i)),
      (''cn1Label'', ''MatchCount''), (''sev'', ir_severity i), (''outcome'', ir_status i)] @
     (case ir_user i of Some u \<Rightarrow> if u \<noteq> [] then [(''suser'', u)] else [] | None \<Rightarrow> []) @
     (case ir_file_name i of Some f \<Rightarrow> if f \<noteq> [] then [(''fname'', f)] else [] | None \<Rightarrow> []) @
     [(''rt'', int_str (truncate_rat (ir_created_at i * 1000)))]"

definition extension_text :: "(string \<times> string) list \<Rightarrow> string" where
  "extension_text kvs = join '' '' (map (\<lambda>(k, v). k @ ''='' @ cef_escape v) kvs)"

definition cef_name :: "incident_record \<Rightarrow> string" where
  "cef_name i = ''DLP '' @ ir_action_taken i @ '': '' @ ir_policy_name i"

definition format_cef :: "incident_record \<Rightarrow> string" where
  "format_cef i =
     (let sig_id = dict_get CEF_SIG_IDS (ir_action_taken i) 999;
          severity = dict_get CEF_SEVERITY (ir_severity i) 1
      in ''CEF:0|AkesoDLP|DLP|1.0|'' @ int_str sig_id @ ''|'' @ cef_escape (cef_name i) @ ''|'' @
         int_str severity @ ''|'' @ extension_text (cef_extensions i))"

definition severity_scale :: "string list" where
  "severity_scale = [''info'', ''low'', ''medium'', ''high'', ''critical'']"

fun index_of :: "'a \<Rightarrow> 'a list \<Rightarrow> nat option" where
  "index_of x [] = None"
| "index_of x (y # ys) = (if x = y then Some 0 else map_option Suc (index_of x ys))"

definition severity_passes_filter :: "string \<Rightarrow> string \<Rightarrow> bool" where
  "severity_passes_filter severity min_severity =
     (case (index_of severity severity_scale, index_of min_severity severity_scale) of
        (Some a, Some b) \<Rightarrow> a \<ge> b
      | _ \<Rightarrow> True)"

section \<open>The exporter\<close>

datatype transport = UDP | TCP | TLS

fun transport_value :: "transport \<Rightarrow> string" where
  "transport_value UDP = ''udp''"
| "transport_value TCP = ''tcp''"
| "transport_value TLS = ''tls''"

record syslog_config =
  sy_host :: string
  sy_port :: nat
  sy_transport :: transport
  sy_min_severity :: string
  sy_facility :: int

text \<open>
  The attribute \<open>_socket\<close>: none, a stream socket whose \<open>connect\<close> failed, or one to send on. What
  was sent are the bytes handed to the operating system, one entry for each successful send.
\<close>

datatype sock = NoSocket | Unconnected | Ready

record exporter =
  ex_config :: syslog_config
  ex_socket :: sock
  ex_net :: "exn option list"
  ex_sent :: "bytes list"

text \<open>The next outcome of the network; when there is none the call times out.\<close>

definition net_call :: "exporter \<Rightarrow> exn option \<times> exporter" where
  "net_call x =
     (case ex_net x of [] \<Rightarrow> Some (Exn (OtherError ''TimeoutError'') ''timed out'') | r # rs \<Rightarrow> r,
      x\<lparr>ex_net := tl (ex_net x)\<rparr>)"

definition ensure_connection :: "exporter proc" where
  "ensure_connection x =
     (if ex_socket x \<noteq> NoSocket then (None, x)
      else if sy_transport (ex_config x) = UDP then (None, x\<lparr>ex_socket := Ready\<rparr>)
      else (case net_call (x\<lparr>ex_socket := Unconnected\<rparr>) of
              (None, x1) \<Rightarrow> (None, x1\<lparr>ex_socket := Ready\<rparr>)
            | (Some e, x1) \<Rightarrow> (Some e, x1)))"

definition frame :: "transport \<Rightarrow> string \<Rightarrow> bytes" where
  "frame tr message =
     (if tr = UDP then utf8 message
      else utf8 (nat_str (length (utf8 message)) @ '' '') @ utf8 message)"

definition not_connected :: exn where
  "not_connected = Exn (OtherError ''OSError'') ''Transport endpoint is not connected''"

definition send_message :: "string \<Rightarrow> exporter proc" where
  "send_message message x =
     (case ex_socket x of
        NoSocket \<Rightarrow> (Some (Exn RuntimeError ''Syslog socket not connected - call _connect() first''), x)
      | Unconnected \<Rightarrow> (Some not_connected, x)
      | Ready \<Rightarrow>
          (case net_call x of
             (None, x1) \<Rightarrow> (None, x1\<lparr>ex_sent := ex_sent x1 @ [frame (sy_transport (ex_config x)) message]\<rparr>)
           | (Some e, x1) \<Rightarrow> (Some e, x1)))"

definition close_socket :: "exporter \<Rightarrow> exporter" where
  "close_socket x = x\<lparr>ex_socket := NoSocket\<rparr>"

definition syslog_message :: "syslog_config \<Rightarrow> incident_record \<Rightarrow> string" where
  "syslog_message c i =
     (let syslog_severity = max 0 (min 7 (7 - dict_get CEF_SEVERITY (ir_severity i) 1));
          priority = sy_facility c * 8 + syslog_severity
      in ''<'' @ int_str priority @ ''>'' @ format_cef i)"

definition send :: "incident_record \<Rightarrow> exporter \<Rightarrow> bool \<times> exporter" where
  "send i x =
     (if \<not> severity_passes_filter (ir_severity i) (sy_min_severity (ex_config x)) then (True, x)
      else (case seq_proc ensure_connection (send_message (syslog_message (ex_config x) i)) x of
              (None, x1) \<Rightarrow> (True, x1)
            | (Some e, x1) \<Rightarrow> (False, close_socket x1)))"

definition send_step :: "incident_record \<Rightarrow> (nat \<times> nat) \<times> exporter \<Rightarrow> (nat \<times> nat) \<times> exporter" where
  "send_step i =
     (\<lambda>((sent, failed), x). case send i x of
        (True, x1) \<Rightarrow> ((sent + 1, failed), x1) | (False, x1) \<Rightarrow> ((sent, failed + 1), x1))"

definition send_batch :: "incident_record list \<Rightarrow> exporter \<Rightarrow> (nat \<times> nat) \<times> exporter" where
  "send_batch is x = fold send_step is ((0, 0), x)"

definition test_connection :: "exporter \<Rightarrow> (bool \<times> string) \<times> exporter" where
  "test_connection x =
     (let c = ex_config x;
          test_msg = ''<'' @ int_str (sy_facility c * 8 + 6) @ ''>CEF:0|AkesoDLP|DLP|1.0|0|Connection Test|0|msg=test''
      in (case seq_proc ensure_connection (send_message test_msg) x of
            (None, x1) \<Rightarrow>
              ((True, ''Successfully connected to '' @ sy_host c @ '':'' @ nat_str (sy_port c) @ '' via '' @
                 transport_value (sy_transport c)), close_socket x1)
          | (Some e, x1) \<Rightarrow> ((False, ''Connection failed: '' @ exn_str e), x1)))"

section \<open>Escaping\<close>

definition esc :: "char \<Rightarrow> string" where
  "esc c =
     (if c = backslash then [backslash, backslash] else if c = CHR ''|'' then [backslash, CHR ''|'']
      else if c = CHR ''='' then [backslash, CHR ''='']
      else if c = CHR 0x0A then [backslash, CHR ''n''] else if c = CHR 0x0D then [backslash, CHR ''r''] else [c])"

lemma replace_char_append [simp]: "replace_char c new (s @ t) = replace_char c new s @ replace_char c new t"
  by (simp add: replace_char_def)

lemma replace_char_Cons [simp]:
  "replace_char c new (d # s) = (if d = c then new else [d]) @ replace_char c new s"
  "replace_char c new [] = []"
  by (simp_all add: replace_char_def)

text \<open>The five replacements work as one substitution of characters.\<close>

lemma cef_escape_chars: "cef_escape v = concat (map esc v)"
  by (induction v) (auto simp: cef_escape_def esc_def backslash_def)

lemma cef_escape_simps [simp]: "cef_escape [] = []" "cef_escape (c # v) = esc c @ cef_escape v"
  by (simp_all add: cef_escape_chars)

fun cef_unescape :: "string \<Rightarrow> string" where
  "cef_unescape [] = []"
| "cef_unescape (c # cs) =
     (if c \<noteq> backslash then c # cef_unescape cs
      else (case cs of
              [] \<Rightarrow> [c]
            | d # ds \<Rightarrow>
                (if d = CHR ''n'' then CHR 0x0A else if d = CHR ''r'' then CHR 0x0D else d) # cef_unescape ds))"

lemma unescape_escape: "cef_unescape (cef_escape v) = v"
  by (induction v) (auto simp: esc_def backslash_def)

text \<open>The fields of a message: the pieces between bars that no backslash precedes.\<close>

definition glue :: "string \<Rightarrow> string list \<Rightarrow> string list" where
  "glue s fs = (case fs of [] \<Rightarrow> [s] | f # gs \<Rightarrow> (s @ f) # gs)"

fun split_bar :: "string \<Rightarrow> string list" where
  "split_bar [] = [[]]"
| "split_bar (c # cs) =
     (if c = CHR ''|'' then [] # split_bar cs
      else if c = backslash then (case cs of [] \<Rightarrow> [[c]] | d # ds \<Rightarrow> glue [c, d] (split_bar ds))
      else glue [c] (split_bar cs))"

text \<open>A text that cannot break a field: whatever follows, it is a prefix of one field.\<close>

definition barless :: "string \<Rightarrow> bool" where
  "barless s \<longleftrightarrow> (\<forall>rest. split_bar (s @ rest) = glue s (split_bar rest))"

named_theorems barless_intros "texts that cannot break a field"

lemma glue_simps [simp]: "glue s (f # fs) = (s @ f) # fs" "glue s (glue t fs) = glue (s @ t) fs" "glue [] (f # fs) = f # fs"
  by (simp_all add: glue_def split: list.split)

lemma split_bar_nonempty: "\<exists>f fs. split_bar s = f # fs"
  by (induction s rule: split_bar.induct) (auto simp: glue_def split: list.splits)

lemma barless_Nil [barless_intros]: "barless []"
  unfolding barless_def
proof
  fix rest
  obtain f fs where "split_bar rest = f # fs" using split_bar_nonempty by blast
  then show "split_bar ([] @ rest) = glue [] (split_bar rest)" by simp
qed

lemma barless_append [barless_intros]: "barless s \<Longrightarrow> barless t \<Longrightarrow> barless (s @ t)"
  by (simp add: barless_def)

lemma barless_char: "c \<noteq> CHR ''|'' \<Longrightarrow> c \<noteq> backslash \<Longrightarrow> barless [c]"
  by (simp add: barless_def)

lemma barless_plain [barless_intros]: "CHR ''|'' \<notin> set s \<Longrightarrow> backslash \<notin> set s \<Longrightarrow> barless s"
proof (induction s)
  case (Cons c s)
  then show ?case using barless_append [OF barless_char [of c], of s] by auto
qed (rule barless_Nil)

lemma barless_esc: "barless (esc c)"
  by (simp add: esc_def barless_def backslash_def)

lemma barless_escape [barless_intros]: "barless (cef_escape v)"
  by (induction v) (auto intro: barless_intros barless_esc)

lemma split_field: "barless s \<Longrightarrow> split_bar (s @ CHR ''|'' # rest) = s # split_bar rest"
  by (simp add: barless_def)

lemma split_last: "barless s \<Longrightarrow> split_bar s = [s]"
  unfolding barless_def by (drule spec [of _ "[]"]) simp

lemma decimal_plain: "is_decimal c \<Longrightarrow> c \<noteq> CHR ''|'' \<and> c \<noteq> backslash \<and> c \<noteq> CHR 0x0A \<and> c \<noteq> CHR 0x0D"
  by (auto simp: is_decimal_def code_def backslash_def)

lemma int_str_chars: "c \<in> set (int_str n) \<Longrightarrow> c = CHR ''-'' \<or> is_decimal c"
  by (auto simp: int_str_def nat_str_decimal split: if_splits)

lemma barless_int [barless_intros]: "barless (int_str n)"
  by (rule barless_plain) (auto dest!: int_str_chars dest: decimal_plain simp: backslash_def)

lemma barless_join [barless_intros]: "(\<And>s. s \<in> set ss \<Longrightarrow> barless s) \<Longrightarrow> barless sep \<Longrightarrow> barless (join sep ss)"
  by (induction sep ss rule: join.induct) (auto intro: barless_intros)

lemma extension_keys: "(k, v) \<in> set (cef_extensions i) \<Longrightarrow> CHR ''|'' \<notin> set k \<and> backslash \<notin> set k \<and> CHR 0x0A \<notin> set k \<and> CHR 0x0D \<notin> set k"
  by (auto simp: cef_extensions_def backslash_def split: option.splits if_splits)

lemma barless_extensions: "barless (extension_text (cef_extensions i))"
  unfolding extension_text_def
proof (rule barless_join)
  fix s assume "s \<in> set (map (\<lambda>(k, v). k @ ''='' @ cef_escape v) (cef_extensions i))"
  then obtain k v where s: "s = k @ ''='' @ cef_escape v" and kv: "(k, v) \<in> set (cef_extensions i)" by auto
  show "barless s"
    unfolding s
    by (intro barless_append barless_escape barless_plain) (use extension_keys [OF kv] in \<open>simp_all add: backslash_def\<close>)
qed (rule barless_plain; simp add: backslash_def)

lemma escape_one_line: "c \<in> set (cef_escape v) \<Longrightarrow> c \<noteq> CHR 0x0A \<and> c \<noteq> CHR 0x0D"
  by (induction v) (auto simp: esc_def backslash_def split: if_splits)

lemma join_chars: "c \<in> set (join sep ss) \<Longrightarrow> c \<in> set sep \<or> (\<exists>s \<in> set ss. c \<in> set s)"
  by (induction sep ss rule: join.induct) auto

lemma extensions_one_line: "c \<in> set (extension_text (cef_extensions i)) \<Longrightarrow> c \<noteq> CHR 0x0A \<and> c \<noteq> CHR 0x0D"
  unfolding extension_text_def
  by (drule join_chars) (auto dest: extension_keys escape_one_line)

text \<open>
  C21: Whatever the policy, user and file names contain, a message is one line with exactly eight fields,
  and the sixth is the text of the action and the policy again once it is unescaped: an
  incident cannot forge a field or a second message.
\<close>

theorem cef_is_injection_free:
  "\<exists>sig sev ext. split_bar (format_cef i) =
     [''CEF:0'', ''AkesoDLP'', ''DLP'', ''1.0'', sig, cef_escape (cef_name i), sev, ext] \<and>
   cef_unescape (cef_escape (cef_name i)) = cef_name i \<and>
   CHR 0x0A \<notin> set (format_cef i) \<and> CHR 0x0D \<notin> set (format_cef i)"
proof -
  let ?sig = "int_str (dict_get CEF_SIG_IDS (ir_action_taken i) 999)"
  let ?sev = "int_str (dict_get CEF_SEVERITY (ir_severity i) 1)"
  let ?ext = "extension_text (cef_extensions i)"
  have f: "format_cef i = ''CEF:0'' @ CHR ''|'' # ''AkesoDLP'' @ CHR ''|'' # ''DLP'' @ CHR ''|'' # ''1.0'' @ CHR ''|'' #
      ?sig @ CHR ''|'' # cef_escape (cef_name i) @ CHR ''|'' # ?sev @ CHR ''|'' # ?ext"
    by (simp add: format_cef_def Let_def)
  have lit: "barless ''CEF:0''" "barless ''AkesoDLP''" "barless ''DLP''" "barless ''1.0''"
    by (rule barless_plain; simp add: backslash_def)+
  have "split_bar (format_cef i) =
      [''CEF:0'', ''AkesoDLP'', ''DLP'', ''1.0'', ?sig, cef_escape (cef_name i), ?sev, ?ext]"
    unfolding f by (simp only: split_field lit barless_int barless_escape split_last [OF barless_extensions])
  moreover have "c \<noteq> CHR 0x0A \<and> c \<noteq> CHR 0x0D" if "c \<in> set (format_cef i)" for c
    using that unfolding f
    by (auto dest!: int_str_chars dest: decimal_plain escape_one_line extensions_one_line)
  ultimately show ?thesis using unescape_escape by blast
qed

section \<open>Sending\<close>

text \<open>Between calls the exporter has no socket or one that is ready, and this is kept.\<close>

definition settled :: "exporter \<Rightarrow> bool" where
  "settled x \<longleftrightarrow> ex_socket x \<noteq> Unconnected"

lemma deliver_ok:
  "seq_proc ensure_connection (send_message m) x = (None, x1) \<Longrightarrow> ex_socket x \<noteq> Unconnected \<Longrightarrow>
   ex_socket x1 = Ready \<and> ex_sent x1 = ex_sent x @ [frame (sy_transport (ex_config x)) m] \<and> ex_config x1 = ex_config x"
  by (cases "ex_socket x")
    (auto simp: seq_proc_def ensure_connection_def send_message_def net_call_def
      split: if_splits prod.splits option.splits list.splits sock.splits)

lemma deliver_failed:
  "seq_proc ensure_connection (send_message m) x = (Some e, x1) \<Longrightarrow> ex_sent x1 = ex_sent x \<and> ex_config x1 = ex_config x"
  by (cases "ex_socket x")
    (auto simp: seq_proc_def ensure_connection_def send_message_def net_call_def
      split: if_splits prod.splits option.splits list.splits sock.splits)

text \<open>
  On an exporter in order, an incident below the minimum severity is reported as sent and nothing
  happens; otherwise success means that its frame was sent, once, on a socket that stays
  open, and failure that nothing was sent and the socket is closed. Either way the exporter
  is in order again.
\<close>

theorem send_spec:
  assumes "settled x"
  shows "case send i x of (ok, x1) \<Rightarrow> settled x1 \<and> ex_config x1 = ex_config x \<and>
    (if \<not> severity_passes_filter (ir_severity i) (sy_min_severity (ex_config x)) then ok \<and> x1 = x
     else if ok then ex_socket x1 = Ready \<and>
       ex_sent x1 = ex_sent x @ [frame (sy_transport (ex_config x)) (syslog_message (ex_config x) i)]
     else ex_socket x1 = NoSocket \<and> ex_sent x1 = ex_sent x)"
proof -
  let ?d = "seq_proc ensure_connection (send_message (syslog_message (ex_config x) i)) x"
  obtain r x1 where d: "?d = (r, x1)" by (cases ?d)
  show ?thesis
  proof (cases r)
    case None
    then show ?thesis using deliver_ok [of _ x x1] d assms by (auto simp: send_def settled_def)
  next
    case (Some e)
    then show ?thesis using deliver_failed [of _ x e x1] d assms by (auto simp: send_def settled_def close_socket_def)
  qed
qed

lemma batch_count:
  "fold send_step is ((s, f), x) = ((s', f'), x') \<Longrightarrow> s' + f' = s + f + length is"
proof (induction "is" arbitrary: s f x)
  case (Cons i "is")
  obtain ok x1 where "send i x = (ok, x1)" by (cases "send i x")
  then show ?case using Cons.IH [of "if ok then s + 1 else s" "if ok then f else f + 1" x1] Cons.prems
    by (cases ok) (simp_all add: send_step_def)
qed simp

text \<open>
  After a connection test that fails to connect, the exporter is left with the socket that is not
  connected, and the next incident is lost whatever the network does.
\<close>

theorem failed_test_loses_next:
  assumes "ex_socket x = NoSocket" and "sy_transport (ex_config x) \<noteq> UDP" and "ex_net x = Some e # net"
    and "severity_passes_filter (ir_severity i) (sy_min_severity (ex_config x))"
  shows "fst (fst (test_connection x)) = False \<and> fst (send i (snd (test_connection x))) = False \<and>
    ex_net (snd (send i (snd (test_connection x)))) = net"
  using assms
  by (simp add: test_connection_def Let_def seq_proc_def ensure_connection_def net_call_def send_def
      send_message_def close_socket_def)

section \<open>Framing\<close>

text \<open>How a receiver reads a frame of the stream: the decimal length, a space, that many bytes.\<close>

definition unframe :: "bytes \<Rightarrow> bytes \<times> bytes" where
  "unframe bs =
     (let ds = takeWhile (\<lambda>b. b \<noteq> 0x20) bs;
          n = nat (horner 0 (map (\<lambda>b. uint b - 48) ds));
          rest = drop (length ds + 1) bs
      in (take n rest, drop n rest))"

lemma utf8_digit: "is_decimal c \<Longrightarrow> utf8_char c = [of_nat (code c)] \<and> of_nat (code c) \<noteq> (0x20 :: 8 word) \<and>
    uint (of_nat (code c) :: 8 word) - 48 = digit_val c"
proof -
  assume c: "is_decimal c"
  then have b: "48 \<le> code c" "code c \<le> 57" by (simp_all add: is_decimal_def)
  then have u: "unat (of_nat (code c) :: 8 word) = code c" by (simp add: unat_of_nat)
  then have "uint (of_nat (code c) :: 8 word) = int (code c)" by (simp add: uint_nat)
  moreover have "of_nat (code c) \<noteq> (0x20 :: 8 word)"
  proof
    assume "of_nat (code c) = (0x20 :: 8 word)"
    then have "unat (of_nat (code c) :: 8 word) = unat (0x20 :: 8 word)" by simp
    then show False using u b by simp
  qed
  ultimately show ?thesis using b by (simp add: utf8_char_def digit_val_def)
qed

lemma utf8_decimal:
  "(\<And>c. c \<in> set s \<Longrightarrow> is_decimal c) \<Longrightarrow>
   utf8 s = map (\<lambda>c. of_nat (code c)) s"
  using utf8_digit by (induction s) (auto simp: utf8_def)

lemma utf8_append: "utf8 (s @ t) = utf8 s @ utf8 t"
  by (simp add: utf8_def)

lemma utf8_space: "utf8 '' '' = [0x20]"
  by (simp add: utf8_def utf8_char_def code_def)

text \<open>
  The framing of the stream transports is unambiguous: a receiver that reads a length and that many
  bytes gets the message back and is left at the next frame, whatever bytes the message has.
\<close>

theorem frame_roundtrip:
  assumes "tr \<noteq> UDP"
  shows "unframe (frame tr message @ rest) = (utf8 message, rest)"
proof -
  let ?n = "length (utf8 message)"
  let ?ds = "map (\<lambda>c. of_nat (code c)) (nat_str ?n) :: bytes"
  have dec: "is_decimal c" if "c \<in> set (nat_str ?n)" for c using that by (rule nat_str_decimal)
  have f: "frame tr message @ rest = ?ds @ 0x20 # utf8 message @ rest"
    using assms by (simp add: frame_def utf8_append utf8_space utf8_decimal [OF dec])
  have tw: "takeWhile (\<lambda>b. b \<noteq> 0x20) (?ds @ 0x20 # utf8 message @ rest) = ?ds"
    using utf8_digit dec by (subst takeWhile_append2) auto
  have "map (\<lambda>b. uint b - 48) ?ds = map digit_val (nat_str ?n)"
    using utf8_digit dec by simp
  then have "nat (horner 0 (map (\<lambda>b. uint b - 48) ?ds)) = ?n" by (simp only: horner_nat_str nat_int)
  then show ?thesis unfolding unframe_def f Let_def tw by simp
qed

definition tcp_exporter :: "exn option list \<Rightarrow> exporter" where
  "tcp_exporter net =
     \<lparr>ex_config = \<lparr>sy_host = ''siem'', sy_port = 601, sy_transport = TCP, sy_min_severity = ''info'', sy_facility = 13\<rparr>,
      ex_socket = NoSocket, ex_net = net, ex_sent = []\<rparr>"

definition high_incident :: incident_record where
  "high_incident =
     \<lparr>ir_id = ''1'', ir_policy_name = ''p'', ir_severity = ''high'', ir_status = ''new'', ir_channel = ''usb'',
      ir_source_type = ''endpoint'', ir_user = None, ir_file_name = None, ir_action_taken = ''block'', ir_match_count = 1,
      ir_created_at = 0\<rparr>"

lemma high_passes: "severity_passes_filter ''high'' ''info''"
  by (simp add: severity_passes_filter_def severity_scale_def)

theorem send_spec_witness:
  "settled (snd (send high_incident (tcp_exporter [None, None])))"
  using send_spec [of "tcp_exporter [None, None]" high_incident]
  by (auto simp: settled_def tcp_exporter_def split: prod.splits)

theorem failed_test_loses_next_witness:
  "fst (send high_incident (snd (test_connection (tcp_exporter [Some not_connected, None, None])))) = False"
  using failed_test_loses_next [of "tcp_exporter [Some not_connected, None, None]" not_connected "[None, None]" high_incident]
  by (simp add: tcp_exporter_def high_incident_def high_passes)

theorem frame_roundtrip_witness: "unframe (frame TCP ''abc'' @ [1]) = (utf8 ''abc'', [1])"
  by (rule frame_roundtrip) simp

end
