(* ===== verification/Auth.thy ===== *)
theory Auth
  imports Complex_Main Tables Json
begin

text \<open>
  Who may do what: \<open>server/services/auth_service.py\<close>, \<open>server/services/mfa_service.py\<close>, the tables
  of \<open>server/models/auth.py\<close> and the dependencies of \<open>server/api/dependencies.py\<close>: passwords,
  tokens, sessions, permissions and the login rate limit. The libraries behind them (bcrypt,
  the JWT library, SHA-256, TOTP) are the fields of \<open>auth_lib\<close>; the clock, random tokens
  and salts are arguments.
\<close>

section \<open>Libraries and settings\<close>

type_synonym claims = "(string \<times> json) list"

record auth_lib =
  al_hashpw :: "string \<Rightarrow> string \<Rightarrow> string res"
  al_checkpw :: "string \<Rightarrow> string \<Rightarrow> bool res"
  al_jwt_encode :: "claims \<Rightarrow> string"
  al_jwt_decode :: "int \<Rightarrow> string \<Rightarrow> claims res"
  al_sha256 :: "string \<Rightarrow> string"
  al_totp :: "string \<Rightarrow> int \<Rightarrow> string \<Rightarrow> bool res"
  al_totp_uri :: "string \<Rightarrow> string \<Rightarrow> string \<Rightarrow> string"

record auth_settings =
  access_token_expire_minutes :: int
  refresh_token_expire_days :: int
  login_rate_limit :: int
  login_rate_window_seconds :: int

definition default_auth_settings :: auth_settings where
  "default_auth_settings = \<lparr>access_token_expire_minutes = 15, refresh_token_expire_days = 7,
     login_rate_limit = 5, login_rate_window_seconds = 30\<rparr>"

section \<open>Tables\<close>

record role_row =
  rl_id :: nat
  rl_name :: string
  rl_description :: "string option"

record user_row =
  us_id :: nat
  us_username :: string
  us_email :: string
  us_password_hash :: string
  us_full_name :: "string option"
  us_active :: bool
  us_mfa_enabled :: bool
  us_mfa_secret :: "string option"
  us_role :: nat

record session_row =
  se_id :: nat
  se_user :: nat
  se_hash :: string
  se_expires :: int
  se_revoked :: bool

record auth_tables =
  au_roles :: "role_row list"
  au_users :: "user_row list"
  au_sessions :: "session_row list"
  au_next :: nat

section \<open>Passwords, tokens and codes\<close>

definition hash_password :: "auth_lib \<Rightarrow> string \<Rightarrow> string \<Rightarrow> string res" where
  "hash_password lib salt password = al_hashpw lib salt password"

definition verify_password :: "auth_lib \<Rightarrow> string \<Rightarrow> string \<Rightarrow> bool res" where
  "verify_password lib password hashed = al_checkpw lib password hashed"

text \<open>\<open>expires_delta or timedelta(minutes=...)\<close>, in seconds: a zero delta counts as missing.\<close>

definition create_access_token ::
  "auth_lib \<Rightarrow> auth_settings \<Rightarrow> int \<Rightarrow> nat \<Rightarrow> string \<Rightarrow> string \<Rightarrow> int option \<Rightarrow> string" where
  "create_access_token lib st now user_id username role_name expires_delta =
     (let delta = (case expires_delta of
                     Some d \<Rightarrow> if d \<noteq> 0 then d else access_token_expire_minutes st * 60
                   | None \<Rightarrow> access_token_expire_minutes st * 60)
      in al_jwt_encode lib
           [(''sub'', JStr (nat_str user_id)), (''username'', JStr username), (''role'', JStr role_name),
            (''exp'', JInt (now + delta)), (''iat'', JInt now), (''type'', JStr ''access'')])"

definition create_mfa_challenge_token :: "auth_lib \<Rightarrow> int \<Rightarrow> nat \<Rightarrow> string" where
  "create_mfa_challenge_token lib now user_id =
     al_jwt_encode lib
       [(''sub'', JStr (nat_str user_id)), (''exp'', JInt (now + 5 * 60)), (''type'', JStr ''mfa_challenge'')]"

definition decode_token :: "auth_lib \<Rightarrow> int \<Rightarrow> string \<Rightarrow> claims res" where
  "decode_token lib now token = al_jwt_decode lib now token"

definition is_jwt_error :: "exn \<Rightarrow> bool" where
  "is_jwt_error e \<longleftrightarrow> exn_cls e = OtherError ''JWTError''"

definition hash_refresh_token :: "auth_lib \<Rightarrow> string \<Rightarrow> string" where
  "hash_refresh_token lib token = al_sha256 lib token"

definition verify_totp :: "auth_lib \<Rightarrow> int \<Rightarrow> string \<Rightarrow> string \<Rightarrow> bool res" where
  "verify_totp lib now secret cd = al_totp lib secret now cd"

definition get_provisioning_uri :: "auth_lib \<Rightarrow> string \<Rightarrow> string \<Rightarrow> string \<Rightarrow> string" where
  "get_provisioning_uri lib secret username issuer = al_totp_uri lib secret username issuer"

section \<open>Users and sessions\<close>

definition get_user_by_username :: "string \<Rightarrow> auth_tables \<Rightarrow> user_row option res" where
  "get_user_by_username username t = scalar_one_or_none (filter (\<lambda>u. us_username u = username) (au_users t))"

definition get_user_by_id :: "nat \<Rightarrow> auth_tables \<Rightarrow> user_row option" where
  "get_user_by_id uid t = find (\<lambda>u. us_id u = uid) (au_users t)"

definition role_of :: "user_row \<Rightarrow> auth_tables \<Rightarrow> role_row option" where
  "role_of u t = find (\<lambda>r. rl_id r = us_role u) (au_roles t)"

text \<open>A session is added and committed; the hash is unique and the user must exist.\<close>

definition create_session ::
  "auth_lib \<Rightarrow> auth_settings \<Rightarrow> int \<Rightarrow> nat \<Rightarrow> string \<Rightarrow> auth_tables \<Rightarrow> auth_tables res" where
  "create_session lib st now user_id refresh_token t =
     (let se = \<lparr>se_id = au_next t, se_user = user_id, se_hash = hash_refresh_token lib refresh_token,
                se_expires = now + refresh_token_expire_days st * 86400, se_revoked = False\<rparr>
      in if se_hash se \<in> se_hash ` set (au_sessions t) \<or> user_id \<notin> us_id ` set (au_users t)
         then Inl integrity_error
         else Inr (t\<lparr>au_sessions := au_sessions t @ [se], au_next := au_next t + 1\<rparr>))"

definition get_session_by_token :: "auth_lib \<Rightarrow> int \<Rightarrow> string \<Rightarrow> auth_tables \<Rightarrow> session_row option res" where
  "get_session_by_token lib now refresh_token t =
     scalar_one_or_none
       (filter (\<lambda>se. se_hash se = hash_refresh_token lib refresh_token \<and> \<not> se_revoked se \<and> now < se_expires se)
          (au_sessions t))"

definition revoke_session :: "session_row \<Rightarrow> auth_tables \<Rightarrow> auth_tables" where
  "revoke_session se t =
     t\<lparr>au_sessions := map (\<lambda>q. if se_id q = se_id se then q\<lparr>se_revoked := True\<rparr> else q) (au_sessions t)\<rparr>"

section \<open>Permissions\<close>

definition ROLE_PERMISSIONS :: "(string \<times> string list) list" where
  "ROLE_PERMISSIONS =
     [(''Admin'', [''users:read'', ''users:write'', ''policies:read'', ''policies:write'', ''incidents:read'',
        ''incidents:write'', ''discovers:read'', ''discovers:write'', ''detection:run'', ''system:admin'']),
      (''Analyst'', [''incidents:read'', ''incidents:write'', ''policies:read'', ''discovers:read'', ''detection:run'']),
      (''Remediator'', [''incidents:read'', ''incidents:write''])]"

definition has_permission :: "string \<Rightarrow> string \<Rightarrow> bool" where
  "has_permission role_name permission \<longleftrightarrow> permission \<in> set (dict_get ROLE_PERMISSIONS role_name [])"

text \<open>The user a token names; \<open>username\<close> and \<open>role\<close> are taken from the claims as they are.\<close>

record current_user =
  cu_id :: nat
  cu_username :: json
  cu_role :: json

definition subject_of :: "claims \<Rightarrow> nat option" where
  "subject_of payload = (case map_of payload ''sub'' of Some (JStr v) \<Rightarrow> parse_uuid v | _ \<Rightarrow> None)"

definition get_current_user :: "auth_lib \<Rightarrow> int \<Rightarrow> string option \<Rightarrow> http_error + current_user" where
  "get_current_user lib now credentials =
     (case credentials of
        None \<Rightarrow> Inl (HttpError 401 ''Not authenticated'')
      | Some token \<Rightarrow>
          (case decode_token lib now token of
             Inl e \<Rightarrow> Inl (if is_jwt_error e then HttpError 401 ''Invalid or expired token'' else internal_error)
           | Inr payload \<Rightarrow>
               if map_of payload ''type'' \<noteq> Some (JStr ''access'') then Inl (HttpError 401 ''Invalid token type'')
               else (case (subject_of payload, map_of payload ''username'', map_of payload ''role'') of
                       (Some uid, Some username, Some role) \<Rightarrow>
                         Inr \<lparr>cu_id = uid, cu_username = username, cu_role = role\<rparr>
                     | _ \<Rightarrow> Inl internal_error)))"

text \<open>A role that is no text has no permissions; one that cannot be a dictionary key raises.\<close>

definition RequirePermission ::
  "string \<Rightarrow> auth_lib \<Rightarrow> int \<Rightarrow> string option \<Rightarrow> http_error + current_user" where
  "RequirePermission permission lib now credentials =
     (case get_current_user lib now credentials of
        Inl e \<Rightarrow> Inl e
      | Inr user \<Rightarrow>
          (case cu_role user of
             JList xs \<Rightarrow> Inl internal_error
           | JObj kvs \<Rightarrow> Inl internal_error
           | JStr role \<Rightarrow>
               if has_permission role permission then Inr user
               else Inl (HttpError 403 (''Permission denied: requires '' @ [CHR 0x27] @ permission @ [CHR 0x27]))
           | _ \<Rightarrow> Inl (HttpError 403 (''Permission denied: requires '' @ [CHR 0x27] @ permission @ [CHR 0x27]))))"

section \<open>The login rate limit\<close>

type_synonym rate_buckets = "(string \<times> rat list) list"

definition prune :: "int \<Rightarrow> rat \<Rightarrow> rat list \<Rightarrow> rat list" where
  "prune window now attempts = filter (\<lambda>t. now - t < rat_of_int window) attempts"

definition limiter_check ::
  "auth_settings \<Rightarrow> rat \<Rightarrow> string \<Rightarrow> rate_buckets \<Rightarrow> http_error option \<times> rate_buckets" where
  "limiter_check st now key b =
     (let attempts = prune (login_rate_window_seconds st) now (dict_get b key [])
      in (if int (length attempts) \<ge> login_rate_limit st
          then Some (HttpError 429 ''Too many login attempts. Try again later.'') else None,
          dict_set b key attempts))"

definition limiter_record :: "rat \<Rightarrow> string \<Rightarrow> rate_buckets \<Rightarrow> rate_buckets" where
  "limiter_record now key b = dict_set b key (dict_get b key [] @ [now])"

definition limiter_reset :: "string \<Rightarrow> rate_buckets \<Rightarrow> rate_buckets" where
  "limiter_reset key b = dict_del b key"

record http_request =
  rq_forwarded :: "string option"
  rq_client :: "string option"

definition get_client_ip :: "http_request \<Rightarrow> string" where
  "get_client_ip request =
     (case rq_forwarded request of
        Some (c # cs) \<Rightarrow> strip (hd (split_on (CHR '','') (c # cs)))
      | _ \<Rightarrow> (case rq_client request of Some host \<Rightarrow> host | None \<Rightarrow> ''unknown''))"

section \<open>The bound on guesses\<close>

text \<open>
  What logins from one address do to the limiter: a guess is checked at one time and recorded
  at another, unless it is refused; a login that needs a code is checked only; a success clears
  the address. The second component collects the times of the guesses recorded for \<open>k\<close>.
\<close>

datatype limiter_event = Guess string rat rat | Probe string rat | Cleared string


fun limiter_step ::
  "auth_settings \<Rightarrow> string \<Rightarrow> limiter_event \<Rightarrow> rate_buckets \<times> rat list \<Rightarrow> rate_buckets \<times> rat list" where
  "limiter_step st k (Guess key t1 t2) (b, g) =
     (case limiter_check st t1 key b of
        (Some e, b1) \<Rightarrow> (b1, g)
      | (None, b1) \<Rightarrow> (limiter_record t2 key b1, if key = k then g @ [t2] else g))"
| "limiter_step st k (Probe key t) (b, g) = (snd (limiter_check st t key b), g)"
| "limiter_step st k (Cleared key) (b, g) = (limiter_reset key b, g)"

definition guesses :: "auth_settings \<Rightarrow> string \<Rightarrow> limiter_event list \<Rightarrow> rate_buckets \<Rightarrow> rat list" where
  "guesses st k es b = snd (fold (limiter_step st k) es (b, []))"

lemma dict_get_del: "dict_get (dict_del b key) k d = (if k = key then d else dict_get b k d)"
proof -
  have "map_of (dict_del b key) k = (if k = key then None else map_of b k)"
    unfolding dict_del_def by (induction b) auto
  then show ?thesis by (simp add: dict_get_def)
qed



lemma limiter_check_passes:
  "fst (limiter_check st now key b) = None \<longleftrightarrow>
     int (length (prune (login_rate_window_seconds st) now (dict_get b key []))) < login_rate_limit st"
  by (simp add: limiter_check_def Let_def)








text \<open>A success from the same address clears its record, so successes buy any number of guesses.\<close>

lemma successes_buy_guesses:
  assumes "0 < login_rate_limit st" and "dict_get b k [] = []"
  shows "guesses st k (concat (replicate n [Guess k t t, Cleared k])) b = replicate n t"
proof -
  have "\<exists>b'. fold (limiter_step st k) (concat (replicate n [Guess k t t, Cleared k])) (b, g) = (b', g @ replicate n t)"
    for g
    using assms(2)
  proof (induction n arbitrary: b g)
    case (Suc n)
    have "fst (limiter_check st t k b) = None" using assms(1) Suc.prems by (simp add: limiter_check_passes prune_def)
    then obtain b1 where c: "limiter_check st t k b = (None, b1)" by (metis prod.collapse)
    have "dict_get (limiter_reset k (limiter_record t k b1)) k [] = []"
      by (simp add: limiter_reset_def dict_get_del)
    from Suc.IH [OF this, of "g @ [t]"] show ?case using c by simp
  qed simp
  from this [of "[]"] show ?thesis unfolding guesses_def by auto
qed


section \<open>Tokens and roles\<close>

text \<open>
  What the code relies on of the JWT library: a signed token whose claims are texts and numbers
  decodes to them up to its expiry time and is refused with a \<open>JWTError\<close> afterwards.
\<close>

fun flat_claim :: "string \<times> json \<Rightarrow> bool" where
  "flat_claim (k, JStr v) = True"
| "flat_claim (k, JInt v) = True"
| "flat_claim _ = False"

definition jwt_ok :: "auth_lib \<Rightarrow> bool" where
  "jwt_ok lib \<longleftrightarrow> (\<forall>p e now. list_all flat_claim p \<and> map_of p ''exp'' = Some (JInt e) \<longrightarrow>
     (now \<le> e \<longrightarrow> al_jwt_decode lib now (al_jwt_encode lib p) = Inr p) \<and>
     (e < now \<longrightarrow> (\<exists>x. al_jwt_decode lib now (al_jwt_encode lib p) = Inl x \<and> is_jwt_error x)))"

lemma jwt_ok_valid:
  "jwt_ok lib \<Longrightarrow> list_all flat_claim p \<Longrightarrow> map_of p ''exp'' = Some (JInt e) \<Longrightarrow> now \<le> e \<Longrightarrow>
   al_jwt_decode lib now (al_jwt_encode lib p) = Inr p"
  by (simp add: jwt_ok_def)

lemma jwt_ok_expired:
  "jwt_ok lib \<Longrightarrow> list_all flat_claim p \<Longrightarrow> map_of p ''exp'' = Some (JInt e) \<Longrightarrow> e < now \<Longrightarrow>
   \<exists>x. al_jwt_decode lib now (al_jwt_encode lib p) = Inl x \<and> is_jwt_error x"
  unfolding jwt_ok_def by blast

lemma access_token_accepted:
  assumes "jwt_ok lib" and "now \<le> t0 + access_token_expire_minutes st * 60"
  shows "get_current_user lib now (Some (create_access_token lib st t0 uid username role None)) =
    Inr \<lparr>cu_id = uid, cu_username = JStr username, cu_role = JStr role\<rparr>"
proof -
  let ?p = "[(''sub'', JStr (nat_str uid)), (''username'', JStr username), (''role'', JStr role),
      (''exp'', JInt (t0 + access_token_expire_minutes st * 60)), (''iat'', JInt t0), (''type'', JStr ''access'')]"
  have "list_all flat_claim ?p" "map_of ?p ''exp'' = Some (JInt (t0 + access_token_expire_minutes st * 60))"
    by simp_all
  from jwt_ok_valid [OF assms(1) this assms(2)] show ?thesis
    by (simp add: get_current_user_def create_access_token_def decode_token_def subject_of_def)
qed

text \<open>
  An access token names its user, with the name and role it was issued for, exactly until
  its lifetime is over; a challenge token of the second factor never does.
\<close>

theorem access_token_identity:
  assumes "jwt_ok lib" and "0 < access_token_expire_minutes st"
  shows "get_current_user lib now (Some (create_access_token lib st t0 uid username role None)) =
      (if now \<le> t0 + access_token_expire_minutes st * 60
       then Inr \<lparr>cu_id = uid, cu_username = JStr username, cu_role = JStr role\<rparr>
       else Inl (HttpError 401 ''Invalid or expired token'')) \<and>
    (\<exists>detail. get_current_user lib now (Some (create_mfa_challenge_token lib t0 uid)) = Inl (HttpError 401 detail))"
proof
  let ?p = "[(''sub'', JStr (nat_str uid)), (''username'', JStr username), (''role'', JStr role),
      (''exp'', JInt (t0 + access_token_expire_minutes st * 60)), (''iat'', JInt t0), (''type'', JStr ''access'')]"
  have flat: "list_all flat_claim ?p" by simp
  have p: "map_of ?p ''exp'' = Some (JInt (t0 + access_token_expire_minutes st * 60))" by simp
  show "get_current_user lib now (Some (create_access_token lib st t0 uid username role None)) =
      (if now \<le> t0 + access_token_expire_minutes st * 60
       then Inr \<lparr>cu_id = uid, cu_username = JStr username, cu_role = JStr role\<rparr>
       else Inl (HttpError 401 ''Invalid or expired token''))"
  proof (cases "now \<le> t0 + access_token_expire_minutes st * 60")
    case True
    then show ?thesis using access_token_accepted [OF assms(1)] by simp
  next
    case False
    with jwt_ok_expired [OF assms(1) flat p, of now] show ?thesis
      by (auto simp: get_current_user_def create_access_token_def decode_token_def)
  qed
next
  let ?p = "[(''sub'', JStr (nat_str uid)), (''exp'', JInt (t0 + 5 * 60)), (''type'', JStr ''mfa_challenge'')]"
  have flat: "list_all flat_claim ?p" by simp
  have p: "map_of ?p ''exp'' = Some (JInt (t0 + 5 * 60))" by simp
  show "\<exists>detail. get_current_user lib now (Some (create_mfa_challenge_token lib t0 uid)) = Inl (HttpError 401 detail)"
  proof (cases "now \<le> t0 + 5 * 60")
    case True
    with jwt_ok_valid [OF assms(1) flat p] show ?thesis
      by (simp add: get_current_user_def create_mfa_challenge_token_def decode_token_def)
  next
    case False
    with jwt_ok_expired [OF assms(1) flat p, of now] show ?thesis
      by (auto simp: get_current_user_def create_mfa_challenge_token_def decode_token_def)
  qed
qed

text \<open>Each role has the permissions of the one below it; a role that is not listed has none.\<close>

lemma role_permissions:
  "has_permission ''Remediator'' p \<Longrightarrow> has_permission ''Analyst'' p"
  "has_permission ''Analyst'' p \<Longrightarrow> has_permission ''Admin'' p"
  "has_permission r p \<Longrightarrow> r \<in> {''Admin'', ''Analyst'', ''Remediator''}"
  by (auto simp: has_permission_def ROLE_PERMISSIONS_def dict_get_def split: if_splits)

lemma write_permissions:
  "has_permission r ''policies:write'' \<longleftrightarrow> r = ''Admin''"
  "has_permission r ''users:write'' \<longleftrightarrow> r = ''Admin''"
  "has_permission r ''discovers:write'' \<longleftrightarrow> r = ''Admin''"
  "has_permission r ''system:admin'' \<longleftrightarrow> r = ''Admin''"
  "has_permission r ''incidents:write'' \<longleftrightarrow> r \<in> {''Admin'', ''Analyst'', ''Remediator''}"
  by (auto simp: has_permission_def ROLE_PERMISSIONS_def dict_get_def split: if_splits)

lemma RequirePermission_Inr:
  "RequirePermission p lib now c = Inr u \<longleftrightarrow>
     get_current_user lib now c = Inr u \<and> (\<exists>r. cu_role u = JStr r \<and> has_permission r p)"
  by (auto simp: RequirePermission_def split: sum.splits json.splits)

text \<open>A client that sets the forwarding header chooses the address it is counted under.\<close>

lemma forwarded_address:
  assumes "CHR '','' \<notin> set h" and "strip h = h" and "h \<noteq> []"
  shows "get_client_ip \<lparr>rq_forwarded = Some h, rq_client = host\<rparr> = h"
  using assms split_on_free [of "CHR '',''" h] by (cases h) (auto simp: get_client_ip_def)

lemma fresh_address: "\<exists>h. h \<notin> set ks \<and> CHR '','' \<notin> set h \<and> strip h = h \<and> h \<noteq> []"
proof -
  define n where "n = Suc (sum_list (map length ks))"
  have "length k < n" if "k \<in> set ks" for k
    using member_le_sum_list [of "length k" "map length ks"] that by (simp add: n_def less_Suc_eq_le)
  then have "replicate n (CHR ''1'') \<notin> set ks" by fastforce
  moreover have "strip (replicate n (CHR ''1'')) = replicate n (CHR ''1'')" by (rule strip_decimal) (auto simp: n_def is_decimal_def code_def)
  ultimately show ?thesis by (intro exI [of _ "replicate n (CHR ''1'')"]) (simp add: n_def)
qed

lemma address_always_passes:
  assumes "0 < login_rate_limit st"
  shows "\<exists>h. \<forall>host. fst (limiter_check st now (get_client_ip \<lparr>rq_forwarded = Some h, rq_client = host\<rparr>) b) = None"
proof -
  obtain h where h: "h \<notin> set (map fst b)" "CHR '','' \<notin> set h" "strip h = h" "h \<noteq> []"
    using fresh_address [of "map fst b"] by blast
  have "map_of b h = None" using h(1) by (simp add: map_of_eq_None_iff)
  then show ?thesis using assms forwarded_address [OF h(2-4)]
    by (intro exI [of _ h]) (simp add: limiter_check_passes dict_get_def prune_def)
qed

section \<open>A library that keeps the promises\<close>

text \<open>Claims written as texts with their length in front, and read back; no secrecy is modelled.\<close>

fun unary :: "string \<Rightarrow> nat \<times> string" where
  "unary [] = (0, [])"
| "unary (c # cs) = (if c = CHR ''1'' then (let (n, r) = unary cs in (Suc n, r)) else (0, cs))"

definition put_nat :: "nat \<Rightarrow> string" where
  "put_nat n = replicate n (CHR ''1'') @ ''0''"

definition put_str :: "string \<Rightarrow> string" where
  "put_str v = put_nat (length v) @ v"

definition get_str :: "string \<Rightarrow> string \<times> string" where
  "get_str v = (let (n, r) = unary v in (take n r, drop n r))"

fun put_claims :: "claims \<Rightarrow> string" where
  "put_claims [] = []"
| "put_claims ((k, v) # p) =
     put_str k @
     (case v of
        JStr t \<Rightarrow> ''s'' @ put_str t
      | JInt i \<Rightarrow> (if i < 0 then ''-'' @ put_nat (nat (- i)) else ''+'' @ put_nat (nat i))
      | _ \<Rightarrow> ''n'') @ put_claims p"

fun get_claims :: "nat \<Rightarrow> string \<Rightarrow> claims" where
  "get_claims 0 v = []"
| "get_claims (Suc n) v =
     (case get_str v of
        (k, CHR ''s'' # r) \<Rightarrow> (case get_str r of (t, r1) \<Rightarrow> (k, JStr t) # get_claims n r1)
      | (k, CHR ''-'' # r) \<Rightarrow> (case unary r of (i, r1) \<Rightarrow> (k, JInt (- int i)) # get_claims n r1)
      | (k, CHR ''+'' # r) \<Rightarrow> (case unary r of (i, r1) \<Rightarrow> (k, JInt (int i)) # get_claims n r1)
      | (k, CHR ''n'' # r) \<Rightarrow> (k, JNull) # get_claims n r
      | _ \<Rightarrow> [])"

definition plain_jwt_decode :: "int \<Rightarrow> string \<Rightarrow> claims res" where
  "plain_jwt_decode now token =
     (let p = get_claims (length token) token
      in if put_claims p \<noteq> token then Inl (Exn (OtherError ''JWTError'') ''Signature verification failed.'')
         else case map_of p ''exp'' of
                Some (JInt e) \<Rightarrow> if e < now then Inl (Exn (OtherError ''JWTError'') ''Signature has expired.'') else Inr p
              | _ \<Rightarrow> Inr p)"

definition plain_auth :: auth_lib where
  "plain_auth = \<lparr>al_hashpw = (\<lambda>salt pw. Inr (salt @ pw)), al_checkpw = (\<lambda>pw h. Inr (h = ''$'' @ pw)),
     al_jwt_encode = put_claims, al_jwt_decode = plain_jwt_decode, al_sha256 = (\<lambda>v. v),
     al_totp = (\<lambda>secret now cd. Inr (cd = secret)), al_totp_uri = (\<lambda>secret name issuer. secret)\<rparr>"

lemma unary_put [simp]: "unary (put_nat n @ r) = (n, r)"
  by (induction n) (simp_all add: put_nat_def)

lemma get_put_str [simp]: "get_str (put_str v @ r) = (v, r)"
  by (simp add: get_str_def put_str_def)

lemma get_put_claims: "list_all flat_claim p \<Longrightarrow> length p \<le> n \<Longrightarrow> get_claims n (put_claims p) = p"
proof (induction p arbitrary: n)
  case Nil
  show ?case by (cases n) (simp_all add: get_str_def)
next
  case (Cons kv p)
  then obtain k v n' where "kv = (k, v)" "n = Suc n'" by (cases kv, cases n) auto
  then show ?case using Cons by (cases v) auto
qed

lemma length_put_claims: "length p \<le> length (put_claims p)"
  by (induction p rule: put_claims.induct) (auto simp: put_str_def put_nat_def)

lemma plain_auth_ok: "jwt_ok plain_auth"
  unfolding jwt_ok_def
  by (auto simp: plain_auth_def plain_jwt_decode_def get_put_claims length_put_claims Let_def is_jwt_error_def)

lemma access_token_identity_witness:
  "get_current_user plain_auth 1600
     (Some (create_access_token plain_auth default_auth_settings 1000 7 ''ann'' ''Analyst'' None)) =
   Inr \<lparr>cu_id = 7, cu_username = JStr ''ann'', cu_role = JStr ''Analyst''\<rparr>"
  using access_token_identity [OF plain_auth_ok, of default_auth_settings 1600 1000 7 "''ann''" "''Analyst''"]
  by (simp add: default_auth_settings_def)

end
