(* ===== verification/Accounts.thy ===== *)
theory Accounts
  imports Auth
begin

text \<open>
  The endpoints of \<open>server/api/auth.py\<close> (login, second factor, refresh, logout, password) and of
  \<open>server/api/users.py\<close>. A request is one step on the tables and on the login rate limit; what it
  reads of the clock and of the random generator is its \<open>moment\<close>. Every endpoint commits right
  after its change, so the tables are those of the database; the bodies were validated by
  their schemas.
\<close>

record auth_server =
  as_tables :: auth_tables
  as_buckets :: rate_buckets

record moment =
  mo_check :: rat
  mo_record :: rat
  mo_wall :: int
  mo_fresh :: string
  mo_salt :: string
  mo_secret :: string

text \<open>The answer of a login: the access token, or the challenge of the second factor; and the refresh cookie.\<close>

record login_response =
  lr_access :: string
  lr_mfa_required :: bool
  lr_challenge :: "string option"
  lr_cookie :: "string option"

section \<open>Login\<close>

definition issue_tokens ::
  "auth_lib \<Rightarrow> auth_settings \<Rightarrow> moment \<Rightarrow> user_row \<Rightarrow> auth_server \<Rightarrow> (http_error + login_response) \<times> auth_server" where
  "issue_tokens lib st m user s =
     (case role_of user (as_tables s) of
        None \<Rightarrow> (Inl internal_error, s)
      | Some role \<Rightarrow>
          (case create_session lib st (mo_wall m) (us_id user) (mo_fresh m) (as_tables s) of
             Inl e \<Rightarrow> (Inl internal_error, s)
           | Inr t \<Rightarrow>
               (Inr \<lparr>lr_access = create_access_token lib st (mo_wall m) (us_id user) (us_username user) (rl_name role) None,
                     lr_mfa_required = False, lr_challenge = None, lr_cookie = Some (mo_fresh m)\<rparr>,
                s\<lparr>as_tables := t\<rparr>)))"

definition login_refused ::
  "moment \<Rightarrow> string \<Rightarrow> auth_server \<Rightarrow> (http_error + login_response) \<times> auth_server" where
  "login_refused m client_ip s =
     (Inl (HttpError 401 ''Invalid username or password''),
      s\<lparr>as_buckets := limiter_record (mo_record m) client_ip (as_buckets s)\<rparr>)"

definition login ::
  "auth_lib \<Rightarrow> auth_settings \<Rightarrow> moment \<Rightarrow> http_request \<Rightarrow> string \<Rightarrow> string \<Rightarrow> auth_server
   \<Rightarrow> (http_error + login_response) \<times> auth_server" where
  "login lib st m request username password s =
     (let client_ip = get_client_ip request;
          (refused, b) = limiter_check st (mo_check m) client_ip (as_buckets s);
          s1 = s\<lparr>as_buckets := b\<rparr>
      in case refused of
           Some e \<Rightarrow> (Inl e, s1)
         | None \<Rightarrow>
             (case get_user_by_username username (as_tables s1) of
                Inl e \<Rightarrow> (Inl internal_error, s1)
              | Inr None \<Rightarrow> login_refused m client_ip s1
              | Inr (Some user) \<Rightarrow>
                  (case verify_password lib password (us_password_hash user) of
                     Inl e \<Rightarrow> (Inl internal_error, s1)
                   | Inr False \<Rightarrow> login_refused m client_ip s1
                   | Inr True \<Rightarrow>
                       if \<not> us_active user then (Inl (HttpError 403 ''Account is disabled''), s1)
                       else if us_mfa_enabled user then
                         (Inr \<lparr>lr_access = [], lr_mfa_required = True,
                               lr_challenge = Some (create_mfa_challenge_token lib (mo_wall m) (us_id user)),
                               lr_cookie = None\<rparr>, s1)
                       else issue_tokens lib st m user
                              (s1\<lparr>as_buckets := limiter_reset client_ip (as_buckets s1)\<rparr>))))"

definition mfa_verify ::
  "auth_lib \<Rightarrow> auth_settings \<Rightarrow> moment \<Rightarrow> string \<Rightarrow> string \<Rightarrow> auth_server
   \<Rightarrow> (http_error + login_response) \<times> auth_server" where
  "mfa_verify lib st m challenge totp_code s =
     (case decode_token lib (mo_wall m) challenge of
        Inl e \<Rightarrow> (Inl (HttpError 401 ''Invalid or expired MFA challenge token''), s)
      | Inr payload \<Rightarrow>
          if map_of payload ''type'' \<noteq> Some (JStr ''mfa_challenge'') then (Inl (HttpError 401 ''Invalid token type''), s)
          else
            (case subject_of payload of
               None \<Rightarrow> (Inl internal_error, s)
             | Some uid \<Rightarrow>
                 (case get_user_by_id uid (as_tables s) of
                    None \<Rightarrow> (Inl (HttpError 401 ''MFA not configured for this user''), s)
                  | Some user \<Rightarrow>
                      (case us_mfa_secret user of
                         Some (c # cs) \<Rightarrow>
                           if \<not> us_mfa_enabled user
                           then (Inl (HttpError 401 ''MFA not configured for this user''), s)
                           else
                             (case verify_totp lib (mo_wall m) (c # cs) totp_code of
                                Inl e \<Rightarrow> (Inl internal_error, s)
                              | Inr ok \<Rightarrow>
                                  if \<not> ok then (Inl (HttpError 401 ''Invalid TOTP code''), s)
                                  else issue_tokens lib st m user s)
                       | _ \<Rightarrow> (Inl (HttpError 401 ''MFA not configured for this user''), s)))))"

section \<open>Refresh and logout\<close>

text \<open>What follows once the session of the cookie was found; the revocation is committed first.\<close>

definition rotate_session ::
  "auth_lib \<Rightarrow> auth_settings \<Rightarrow> moment \<Rightarrow> session_row \<Rightarrow> auth_server \<Rightarrow> (http_error + login_response) \<times> auth_server" where
  "rotate_session lib st m se s =
     (let s1 = s\<lparr>as_tables := revoke_session se (as_tables s)\<rparr>
      in case get_user_by_id (se_user se) (as_tables s1) of
           None \<Rightarrow> (Inl internal_error, s1)
         | Some user \<Rightarrow>
             (case create_session lib st (mo_wall m) (us_id user) (mo_fresh m) (as_tables s1) of
                Inl e \<Rightarrow> (Inl internal_error, s1)
              | Inr t \<Rightarrow>
                  (case role_of user t of
                     None \<Rightarrow> (Inl internal_error, s1\<lparr>as_tables := t\<rparr>)
                   | Some role \<Rightarrow>
                       (Inr \<lparr>lr_access =
                               create_access_token lib st (mo_wall m) (us_id user) (us_username user) (rl_name role) None,
                             lr_mfa_required = False, lr_challenge = None, lr_cookie = Some (mo_fresh m)\<rparr>,
                        s1\<lparr>as_tables := t\<rparr>))))"

definition refresh_token ::
  "auth_lib \<Rightarrow> auth_settings \<Rightarrow> moment \<Rightarrow> string option \<Rightarrow> auth_server
   \<Rightarrow> (http_error + login_response) \<times> auth_server" where
  "refresh_token lib st m cookie s =
     (case cookie of
        Some (c # cs) \<Rightarrow>
          (case get_session_by_token lib (mo_wall m) (c # cs) (as_tables s) of
             Inl e \<Rightarrow> (Inl internal_error, s)
           | Inr None \<Rightarrow> (Inl (HttpError 401 ''Invalid or expired refresh token''), s)
           | Inr (Some se) \<Rightarrow> rotate_session lib st m se s)
      | _ \<Rightarrow> (Inl (HttpError 401 ''No refresh token provided''), s))"

definition logout ::
  "auth_lib \<Rightarrow> moment \<Rightarrow> string option \<Rightarrow> auth_server \<Rightarrow> (http_error + unit) \<times> auth_server" where
  "logout lib m cookie s =
     (case cookie of
        Some (c # cs) \<Rightarrow>
          (case get_session_by_token lib (mo_wall m) (c # cs) (as_tables s) of
             Inl e \<Rightarrow> (Inl internal_error, s)
           | Inr None \<Rightarrow> (Inr (), s)
           | Inr (Some se) \<Rightarrow> (Inr (), s\<lparr>as_tables := revoke_session se (as_tables s)\<rparr>))
      | _ \<Rightarrow> (Inr (), s))"

section \<open>The account of the caller\<close>

definition replace_user :: "user_row \<Rightarrow> auth_tables \<Rightarrow> auth_tables" where
  "replace_user u t = t\<lparr>au_users := map (\<lambda>q. if us_id q = us_id u then u else q) (au_users t)\<rparr>"

text \<open>The two lookups every such endpoint starts with: the caller, and the caller's row.\<close>

definition with_account ::
  "auth_lib \<Rightarrow> moment \<Rightarrow> string option \<Rightarrow> (user_row \<Rightarrow> auth_server \<Rightarrow> (http_error + 'a) \<times> auth_server) \<Rightarrow> auth_server
   \<Rightarrow> (http_error + 'a) \<times> auth_server" where
  "with_account lib m credentials f s =
     (case get_current_user lib (mo_wall m) credentials of
        Inl e \<Rightarrow> (Inl e, s)
      | Inr user \<Rightarrow>
          (case get_user_by_id (cu_id user) (as_tables s) of
             None \<Rightarrow> (Inl (HttpError 404 ''User not found''), s)
           | Some db_user \<Rightarrow> f db_user s))"

definition store_user :: "user_row \<Rightarrow> auth_server \<Rightarrow> auth_server" where
  "store_user u s = s\<lparr>as_tables := replace_user u (as_tables s)\<rparr>"

definition get_me :: "auth_lib \<Rightarrow> moment \<Rightarrow> string option \<Rightarrow> auth_server \<Rightarrow> (http_error + user_row \<times> role_row) \<times> auth_server" where
  "get_me lib m credentials =
     with_account lib m credentials (\<lambda>db_user s.
       case role_of db_user (as_tables s) of
         None \<Rightarrow> (Inl internal_error, s)
       | Some role \<Rightarrow> (Inr (db_user, role), s))"

definition mfa_enroll ::
  "auth_lib \<Rightarrow> moment \<Rightarrow> string option \<Rightarrow> auth_server \<Rightarrow> (http_error + string \<times> string) \<times> auth_server" where
  "mfa_enroll lib m credentials =
     with_account lib m credentials (\<lambda>db_user s.
       if us_mfa_enabled db_user then (Inl (HttpError 400 ''MFA is already enabled''), s)
       else (Inr (mo_secret m, get_provisioning_uri lib (mo_secret m) (us_username db_user) ''AkesoDLP''),
             store_user (db_user\<lparr>us_mfa_secret := Some (mo_secret m)\<rparr>) s))"

definition mfa_enroll_verify ::
  "auth_lib \<Rightarrow> moment \<Rightarrow> string option \<Rightarrow> string \<Rightarrow> auth_server \<Rightarrow> (http_error + unit) \<times> auth_server" where
  "mfa_enroll_verify lib m credentials totp_code =
     with_account lib m credentials (\<lambda>db_user s.
       if us_mfa_enabled db_user then (Inl (HttpError 400 ''MFA is already enabled''), s)
       else (case us_mfa_secret db_user of
               Some (c # cs) \<Rightarrow>
                 (case verify_totp lib (mo_wall m) (c # cs) totp_code of
                    Inl e \<Rightarrow> (Inl internal_error, s)
                  | Inr ok \<Rightarrow>
                      if \<not> ok then (Inl (HttpError 400 ''Invalid TOTP code''), s)
                      else (Inr (), store_user (db_user\<lparr>us_mfa_enabled := True\<rparr>) s))
             | _ \<Rightarrow> (Inl (HttpError 400 ''MFA enrollment not started''), s)))"

definition mfa_disable ::
  "auth_lib \<Rightarrow> moment \<Rightarrow> string option \<Rightarrow> string \<Rightarrow> auth_server \<Rightarrow> (http_error + unit) \<times> auth_server" where
  "mfa_disable lib m credentials password =
     with_account lib m credentials (\<lambda>db_user s.
       if \<not> us_mfa_enabled db_user then (Inl (HttpError 400 ''MFA is not enabled''), s)
       else (case verify_password lib password (us_password_hash db_user) of
               Inl e \<Rightarrow> (Inl internal_error, s)
             | Inr ok \<Rightarrow>
                 if \<not> ok then (Inl (HttpError 401 ''Invalid password''), s)
                 else (Inr (), store_user (db_user\<lparr>us_mfa_enabled := False, us_mfa_secret := None\<rparr>) s)))"

definition change_password ::
  "auth_lib \<Rightarrow> moment \<Rightarrow> string option \<Rightarrow> string \<Rightarrow> string \<Rightarrow> auth_server \<Rightarrow> (http_error + unit) \<times> auth_server" where
  "change_password lib m credentials current_password new_password =
     with_account lib m credentials (\<lambda>db_user s.
       case verify_password lib current_password (us_password_hash db_user) of
         Inl e \<Rightarrow> (Inl internal_error, s)
       | Inr ok \<Rightarrow>
           if \<not> ok then (Inl (HttpError 401 ''Current password is incorrect''), s)
           else (case hash_password lib (mo_salt m) new_password of
                   Inl e \<Rightarrow> (Inl internal_error, s)
                 | Inr h \<Rightarrow> (Inr (), store_user (db_user\<lparr>us_password_hash := h\<rparr>) s)))"

section \<open>Managing users\<close>

record user_data =
  ud_username :: string
  ud_email :: string
  ud_password :: string
  ud_full_name :: "string option"
  ud_role :: nat

definition create_user ::
  "auth_lib \<Rightarrow> moment \<Rightarrow> string option \<Rightarrow> user_data \<Rightarrow> auth_server \<Rightarrow> (http_error + user_row) \<times> auth_server" where
  "create_user lib m credentials d s =
     (case RequirePermission ''users:write'' lib (mo_wall m) credentials of
        Inl e \<Rightarrow> (Inl e, s)
      | Inr user \<Rightarrow>
          (case get_user_by_username (ud_username d) (as_tables s) of
             Inl e \<Rightarrow> (Inl internal_error, s)
           | Inr (Some existing) \<Rightarrow>
               (Inl (HttpError 409 (''Username '' @ [CHR 0x27] @ ud_username d @ [CHR 0x27] @ '' already exists'')), s)
           | Inr None \<Rightarrow>
               if ud_role d \<notin> rl_id ` set (au_roles (as_tables s)) then (Inl (HttpError 400 ''Role not found''), s)
               else
                 (case hash_password lib (mo_salt m) (ud_password d) of
                    Inl e \<Rightarrow> (Inl internal_error, s)
                  | Inr h \<Rightarrow>
                      (let t = as_tables s;
                           u = \<lparr>us_id = au_next t, us_username = ud_username d, us_email = ud_email d,
                                us_password_hash = h, us_full_name = ud_full_name d, us_active = True,
                                us_mfa_enabled = False, us_mfa_secret = None, us_role = ud_role d\<rparr>
                       in if ud_email d \<in> us_email ` set (au_users t) then (Inl internal_error, s)
                          else (Inr u, s\<lparr>as_tables := t\<lparr>au_users := au_users t @ [u], au_next := au_next t + 1\<rparr>\<rparr>)))))"

text \<open>
  The fields a body of PUT sets, \<open>None\<close> for null. The commit refuses a null in a column that
  takes none, an email of another user and a role that does not exist.
\<close>

datatype user_change =
    ChangeEmail "string option"
  | ChangeFullName "string option"
  | ChangeActive "bool option"
  | ChangeRole "nat option"

fun set_user_field :: "user_change \<Rightarrow> user_row \<Rightarrow> user_row option" where
  "set_user_field (ChangeEmail v) u = (case v of Some e \<Rightarrow> Some (u\<lparr>us_email := e\<rparr>) | None \<Rightarrow> None)"
| "set_user_field (ChangeFullName v) u = Some (u\<lparr>us_full_name := v\<rparr>)"
| "set_user_field (ChangeActive v) u = (case v of Some a \<Rightarrow> Some (u\<lparr>us_active := a\<rparr>) | None \<Rightarrow> None)"
| "set_user_field (ChangeRole v) u = (case v of Some r \<Rightarrow> Some (u\<lparr>us_role := r\<rparr>) | None \<Rightarrow> None)"

fun set_user_fields :: "user_change list \<Rightarrow> user_row \<Rightarrow> user_row option" where
  "set_user_fields [] u = Some u"
| "set_user_fields (c # cs) u = (case set_user_field c u of None \<Rightarrow> None | Some u' \<Rightarrow> set_user_fields cs u')"

definition update_user ::
  "auth_lib \<Rightarrow> moment \<Rightarrow> string option \<Rightarrow> nat \<Rightarrow> user_change list \<Rightarrow> auth_server
   \<Rightarrow> (http_error + user_row) \<times> auth_server" where
  "update_user lib m credentials uid update_data s =
     (case RequirePermission ''users:write'' lib (mo_wall m) credentials of
        Inl e \<Rightarrow> (Inl e, s)
      | Inr user \<Rightarrow>
          (case get_user_by_id uid (as_tables s) of
             None \<Rightarrow> (Inl (HttpError 404 ''User not found''), s)
           | Some u \<Rightarrow>
               (case set_user_fields update_data u of
                  None \<Rightarrow> (Inl internal_error, s)
                | Some u' \<Rightarrow>
                    if us_role u' \<notin> rl_id ` set (au_roles (as_tables s)) \<or>
                       us_email u' \<in> us_email ` {q \<in> set (au_users (as_tables s)). us_id q \<noteq> uid}
                    then (Inl internal_error, s)
                    else (Inr u', store_user u' s))))"

section \<open>Requests\<close>

datatype auth_request =
    LoginRequest http_request string string
  | MfaVerifyRequest string string
  | RefreshRequest "string option"
  | LogoutRequest "string option"
  | EnrollRequest "string option"
  | EnrollVerifyRequest "string option" string
  | DisableRequest "string option" string
  | PasswordRequest "string option" string string
  | CreateUserRequest "string option" user_data
  | UpdateUserRequest "string option" nat "user_change list"

fun serve_auth :: "auth_lib \<Rightarrow> auth_settings \<Rightarrow> moment \<Rightarrow> auth_request \<Rightarrow> auth_server \<Rightarrow> auth_server" where
  "serve_auth lib st m (LoginRequest rq username password) s = snd (login lib st m rq username password s)"
| "serve_auth lib st m (MfaVerifyRequest challenge cd) s = snd (mfa_verify lib st m challenge cd s)"
| "serve_auth lib st m (RefreshRequest cookie) s = snd (refresh_token lib st m cookie s)"
| "serve_auth lib st m (LogoutRequest cookie) s = snd (logout lib m cookie s)"
| "serve_auth lib st m (EnrollRequest c) s = snd (mfa_enroll lib m c s)"
| "serve_auth lib st m (EnrollVerifyRequest c cd) s = snd (mfa_enroll_verify lib m c cd s)"
| "serve_auth lib st m (DisableRequest c password) s = snd (mfa_disable lib m c password s)"
| "serve_auth lib st m (PasswordRequest c old new) s = snd (change_password lib m c old new s)"
| "serve_auth lib st m (CreateUserRequest c d) s = snd (create_user lib m c d s)"
| "serve_auth lib st m (UpdateUserRequest c uid cs) s = snd (update_user lib m c uid cs s)"

fun serve_auths :: "auth_lib \<Rightarrow> auth_settings \<Rightarrow> (moment \<times> auth_request) list \<Rightarrow> auth_server \<Rightarrow> auth_server" where
  "serve_auths lib st [] s = s"
| "serve_auths lib st ((m, rq) # rqs) s = serve_auths lib st rqs (serve_auth lib st m rq s)"

section \<open>The tables stay consistent\<close>

definition auth_wf :: "auth_tables \<Rightarrow> bool" where
  "auth_wf t \<longleftrightarrow>
     distinct (map us_id (au_users t)) \<and> distinct (map us_username (au_users t)) \<and>
     distinct (map us_email (au_users t)) \<and>
     us_role ` set (au_users t) \<subseteq> rl_id ` set (au_roles t) \<and>
     distinct (map se_id (au_sessions t)) \<and> distinct (map se_hash (au_sessions t)) \<and>
     se_user ` set (au_sessions t) \<subseteq> us_id ` set (au_users t) \<and>
     us_id ` set (au_users t) \<subseteq> {..<au_next t} \<and> se_id ` set (au_sessions t) \<subseteq> {..<au_next t}"

lemma auth_wf_users:
  "auth_wf t \<Longrightarrow> get_user_by_username n t = Inr (find (\<lambda>u. us_username u = n) (au_users t))"
  unfolding get_user_by_username_def auth_wf_def by (intro scalar_distinct) blast

lemma get_user_by_idD: "get_user_by_id uid t = Some u \<Longrightarrow> u \<in> set (au_users t) \<and> us_id u = uid"
  unfolding get_user_by_id_def by (drule find_SomeD)

lemma scalar_filter_find:
  assumes "distinct (map k xs)" and "\<And>x. Q x \<Longrightarrow> k x = v"
  shows "\<exists>r. scalar_one_or_none (filter Q xs) = Inr r"
proof -
  have "length (filter Q xs) \<le> length (filter (\<lambda>x. k x = v) xs)"
    using assms(2) by (induction xs) auto
  moreover have "length (filter (\<lambda>x. k x = v) xs) \<le> 1"
    using assms(1) by (induction xs) (auto simp: filter_empty_conv image_iff)
  ultimately have "length (filter Q xs) \<le> 1" by linarith
  then show ?thesis by (cases "filter Q xs" rule: scalar_one_or_none.cases) auto
qed

lemma session_lookup:
  assumes "auth_wf t"
  shows "\<exists>r. get_session_by_token lib now tok t = Inr r"
  unfolding get_session_by_token_def
  by (rule scalar_filter_find [where k = se_hash and v = "hash_refresh_token lib tok"])
     (use assms in \<open>auto simp: auth_wf_def\<close>)

lemma scalar_SomeD: "scalar_one_or_none xs = Inr (Some x) \<Longrightarrow> xs = [x]"
  by (cases xs rule: scalar_one_or_none.cases) auto

lemma scalar_NoneD: "scalar_one_or_none xs = Inr None \<Longrightarrow> xs = []"
  by (cases xs rule: scalar_one_or_none.cases) auto

lemma session_lookupD:
  assumes "get_session_by_token lib now tok t = Inr (Some se)"
  shows "se \<in> set (au_sessions t) \<and> se_hash se = hash_refresh_token lib tok \<and> \<not> se_revoked se \<and> now < se_expires se"
proof -
  have "se \<in> set [se]" by simp
  then show ?thesis
    using scalar_SomeD [OF assms [unfolded get_session_by_token_def]]
    by (metis (mono_tags, lifting) mem_Collect_eq set_filter)
qed

lemma create_sessionD:
  "create_session lib st now uid tok t = Inr t' \<Longrightarrow>
     t' = t\<lparr>au_sessions := au_sessions t @ [\<lparr>se_id = au_next t, se_user = uid, se_hash = hash_refresh_token lib tok,
            se_expires = now + refresh_token_expire_days st * 86400, se_revoked = False\<rparr>], au_next := au_next t + 1\<rparr> \<and>
     hash_refresh_token lib tok \<notin> se_hash ` set (au_sessions t) \<and> uid \<in> us_id ` set (au_users t)"
  by (auto simp: create_session_def Let_def split: if_splits)

lemma wf_create_session:
  assumes "auth_wf t" and "create_session lib st now uid tok t = Inr t'"
  shows "auth_wf t'"
  using assms(1) create_sessionD [OF assms(2)] unfolding auth_wf_def
  by (auto simp: less_Suc_eq)

lemma revoke_simps:
  "au_users (revoke_session se t) = au_users t" "au_roles (revoke_session se t) = au_roles t"
  "au_next (revoke_session se t) = au_next t"
  "map se_id (au_sessions (revoke_session se t)) = map se_id (au_sessions t)"
  "map se_hash (au_sessions (revoke_session se t)) = map se_hash (au_sessions t)"
  "map se_user (au_sessions (revoke_session se t)) = map se_user (au_sessions t)"
  by (simp_all add: revoke_session_def if_distrib comp_def cong: if_cong)

lemma auth_wf_cong:
  assumes "au_roles t' = au_roles t" and "au_next t' = au_next t"
    and "map us_id (au_users t') = map us_id (au_users t)"
    and "map us_username (au_users t') = map us_username (au_users t)"
    and "map us_email (au_users t') = map us_email (au_users t)"
    and "map us_role (au_users t') = map us_role (au_users t)"
    and "map se_id (au_sessions t') = map se_id (au_sessions t)"
    and "map se_hash (au_sessions t') = map se_hash (au_sessions t)"
    and "map se_user (au_sessions t') = map se_user (au_sessions t)"
  shows "auth_wf t' \<longleftrightarrow> auth_wf t"
  unfolding auth_wf_def set_map [symmetric] assms by (rule refl)

lemma wf_revoke [simp]: "auth_wf (revoke_session se t) \<longleftrightarrow> auth_wf t"
  by (rule auth_wf_cong) (simp_all add: revoke_simps)

text \<open>Replacing the row of a user by one with the same name, for a column that does not change.\<close>

lemma map_replace_user:
  assumes "distinct (map us_id us)" and "u \<in> set us" and "us_id u' = us_id u" and "k u' = k u"
  shows "map k (map (\<lambda>q. if us_id q = us_id u' then u' else q) us) = map k us"
proof -
  have "q = u" if "q \<in> set us" "us_id q = us_id u" for q
    using that assms(1,2) by (meson distinct_map inj_onD)
  then show ?thesis using assms(3,4) by (auto simp: comp_def)
qed

lemma replace_user_simps:
  "au_roles (replace_user u t) = au_roles t" "au_next (replace_user u t) = au_next t"
  "au_sessions (replace_user u t) = au_sessions t"
  "au_users (replace_user u t) = map (\<lambda>q. if us_id q = us_id u then u else q) (au_users t)"
  by (simp_all add: replace_user_def)

lemma set_user_fields_frame:
  "set_user_fields cs u = Some u' \<Longrightarrow>
     us_id u' = us_id u \<and> us_username u' = us_username u \<and> us_password_hash u' = us_password_hash u \<and>
     us_mfa_enabled u' = us_mfa_enabled u \<and> us_mfa_secret u' = us_mfa_secret u"
proof (induction cs arbitrary: u)
  case (Cons c cs)
  then obtain u1 where "set_user_field c u = Some u1" "set_user_fields cs u1 = Some u'" by (auto split: option.splits)
  with Cons.IH [of u1] show ?case by (cases c) (auto split: option.splits)
qed simp

lemma distinct_replaced:
  assumes "distinct (map us_id us)" and "distinct (map k us)" and "u \<in> set us" and "us_id u' = us_id u"
    and "k u' \<notin> k ` {q \<in> set us. us_id q \<noteq> us_id u}"
  shows "distinct (map k (map (\<lambda>q. if us_id q = us_id u' then u' else q) us))"
  using assms
proof (induction us)
  case (Cons q us)
  show ?case
  proof (cases "q = u")
    case True
    have same: "map (\<lambda>x. if us_id x = us_id u' then u' else x) us = us"
      using Cons.prems(1,4) True by (intro map_idI) (auto simp: image_iff)
    have "us_id x \<noteq> us_id u" if "x \<in> set us" for x using Cons.prems(1) True that by (auto simp: image_iff)
    then have "set us \<subseteq> {x \<in> set (q # us). us_id x \<noteq> us_id u}" by auto
    then have "k u' \<notin> k ` set us" using Cons.prems(5) by (meson image_mono subsetD)
    then show ?thesis using same True Cons.prems(2,4) by simp
  next
    case False
    then have u: "u \<in> set us" "us_id q \<noteq> us_id u" using Cons.prems(1,3) by auto
    have "distinct (map k (map (\<lambda>x. if us_id x = us_id u' then u' else x) us))"
      using Cons.IH u(1) Cons.prems(1,2,4,5) by auto
    moreover have "k q \<noteq> k u'" using Cons.prems(5) u by (metis (mono_tags, lifting) imageI list.set_intros(1) mem_Collect_eq)
    then have "k q \<notin> set (map k (map (\<lambda>x. if us_id x = us_id u' then u' else x) us))"
      using Cons.prems(2) by (auto split: if_splits)
    ultimately show ?thesis using u Cons.prems(4) by simp
  qed
qed simp

lemma wf_update_user:
  assumes "auth_wf t" and "u \<in> set (au_users t)" and "us_id u' = us_id u" and "us_username u' = us_username u"
    and "us_role u' \<in> rl_id ` set (au_roles t)"
    and "us_email u' \<notin> us_email ` {q \<in> set (au_users t). us_id q \<noteq> us_id u}"
  shows "auth_wf (replace_user u' t)"
proof -
  have d: "distinct (map us_id (au_users t))" using assms(1) by (simp add: auth_wf_def)
  note m = map_replace_user [OF d assms(2,3)]
  have ids: "us_id ` set (au_users (replace_user u' t)) = us_id ` set (au_users t)"
    using arg_cong [OF m [OF assms(3)], of set] by (simp only: replace_user_simps set_map)
  have "distinct (map us_email (au_users (replace_user u' t)))"
    unfolding replace_user_simps using distinct_replaced [OF d _ assms(2,3,6)] assms(1) by (simp add: auth_wf_def)
  moreover have "us_role ` set (au_users (replace_user u' t)) \<subseteq> rl_id ` set (au_roles t)"
    using assms(1,5) by (auto simp: replace_user_simps auth_wf_def)
  moreover have "distinct (map us_id (au_users (replace_user u' t)))"
    "distinct (map us_username (au_users (replace_user u' t)))"
    using assms(1) m [OF assms(3)] m [OF assms(4)] by (simp_all only: replace_user_simps auth_wf_def)
  ultimately show ?thesis using assms(1) ids by (simp add: auth_wf_def replace_user_simps(1-3))
qed

lemma wf_replaced:
  assumes "auth_wf t" and "u \<in> set (au_users t)" and "us_id u' = us_id u" and "us_username u' = us_username u"
    and "us_role u' = us_role u \<or> us_role u' \<in> rl_id ` set (au_roles t)"
    and "us_email u' = us_email u \<or> us_email u' \<notin> us_email ` {q \<in> set (au_users t). us_id q \<noteq> us_id u}"
  shows "auth_wf (replace_user u' t)"
proof (rule wf_update_user [OF assms(1-4)])
  show "us_role u' \<in> rl_id ` set (au_roles t)" using assms(1,2,5) by (auto simp: auth_wf_def)
  have "distinct (map us_email (au_users t))" using assms(1) by (simp add: auth_wf_def)
  then have "q = u" if "q \<in> set (au_users t)" "us_email q = us_email u" for q
    using that assms(2) by (meson distinct_map inj_onD)
  then have "us_email u \<notin> us_email ` {q \<in> set (au_users t). us_id q \<noteq> us_id u}" by auto
  then show "us_email u' \<notin> us_email ` {q \<in> set (au_users t). us_id q \<noteq> us_id u}" using assms(6) by auto
qed

lemma wf_add_user:
  assumes "auth_wf t" and "us_id u = au_next t" and "us_username u \<notin> us_username ` set (au_users t)"
    and "us_email u \<notin> us_email ` set (au_users t)" and "us_role u \<in> rl_id ` set (au_roles t)"
  shows "auth_wf (t\<lparr>au_users := au_users t @ [u], au_next := Suc (au_next t)\<rparr>)"
proof -
  have "au_next t \<notin> us_id ` set (au_users t)" using assms(1) unfolding auth_wf_def by blast
  then show ?thesis using assms unfolding auth_wf_def by (auto simp: less_Suc_eq)
qed

lemma store_simps [simp]:
  "as_tables (store_user u s) = replace_user u (as_tables s)" "as_buckets (store_user u s) = as_buckets s"
  by (simp_all add: store_user_def)

section \<open>Invariants of the tables\<close>

text \<open>
  The four ways the endpoints change the tables. What all of them keep, every request keeps.
\<close>

locale account_invariant =
  fixes P :: "auth_tables \<Rightarrow> bool"
  assumes keep_session: "P t \<Longrightarrow> create_session lib st now uid tok t = Inr t' \<Longrightarrow> P t'"
    and keep_revoke: "P t \<Longrightarrow> P (revoke_session se t)"
    and keep_replace: "P t \<Longrightarrow> u \<in> set (au_users t) \<Longrightarrow> us_id u' = us_id u \<Longrightarrow> us_username u' = us_username u \<Longrightarrow>
      us_role u' = us_role u \<or> us_role u' \<in> rl_id ` set (au_roles t) \<Longrightarrow>
      us_email u' = us_email u \<or> us_email u' \<notin> us_email ` {q \<in> set (au_users t). us_id q \<noteq> us_id u} \<Longrightarrow>
      P (replace_user u' t)"
    and keep_add: "P t \<Longrightarrow> us_id u = au_next t \<Longrightarrow> us_username u \<notin> us_username ` set (au_users t) \<Longrightarrow>
      us_email u \<notin> us_email ` set (au_users t) \<Longrightarrow> us_role u \<in> rl_id ` set (au_roles t) \<Longrightarrow>
      P (t\<lparr>au_users := au_users t @ [u], au_next := Suc (au_next t)\<rparr>)"
begin

lemma keep_issue: "P (as_tables s) \<Longrightarrow> P (as_tables (snd (issue_tokens lib st m u s)))"
  by (auto simp: issue_tokens_def keep_session split: option.splits sum.splits)

lemma keep_login: "P (as_tables s) \<Longrightarrow> P (as_tables (snd (login lib st m rq n pw s)))"
  using keep_issue [of "s\<lparr>as_buckets := b\<rparr>" for b]
  by (auto simp: login_def login_refused_def Let_def split: prod.splits option.splits sum.splits bool.splits)

lemma keep_mfa_verify: "P (as_tables s) \<Longrightarrow> P (as_tables (snd (mfa_verify lib st m challenge cd s)))"
  using keep_issue by (auto simp: mfa_verify_def split: sum.splits option.splits list.splits)

lemma keep_rotate: "P (as_tables s) \<Longrightarrow> P (as_tables (snd (rotate_session lib st m se s)))"
  using keep_session [OF keep_revoke]
  by (auto simp: rotate_session_def keep_revoke Let_def split: option.splits sum.splits)

lemma keep_refresh: "P (as_tables s) \<Longrightarrow> P (as_tables (snd (refresh_token lib st m cookie s)))"
  using keep_rotate by (auto simp: refresh_token_def split: option.splits list.splits sum.splits)

lemma keep_logout: "P (as_tables s) \<Longrightarrow> P (as_tables (snd (logout lib m cookie s)))"
  by (auto simp: logout_def keep_revoke split: option.splits list.splits sum.splits)

lemma keep_account:
  assumes "P (as_tables s)"
    and "\<And>u. u \<in> set (au_users (as_tables s)) \<Longrightarrow> P (as_tables (snd (f u s)))"
  shows "P (as_tables (snd (with_account lib m c f s)))"
  using assms get_user_by_idD by (fastforce simp: with_account_def split: sum.splits option.splits)

lemma keep_account_endpoints:
  assumes "P (as_tables s)"
  shows "P (as_tables (snd (mfa_enroll lib m c s)))" (is ?A)
    and "P (as_tables (snd (mfa_enroll_verify lib m c cd s)))" (is ?B)
    and "P (as_tables (snd (mfa_disable lib m c pw s)))" (is ?C)
    and "P (as_tables (snd (change_password lib m c old new s)))" (is ?D)
proof -
  note keep = keep_account [OF assms]
  show ?A unfolding mfa_enroll_def by (rule keep) (simp add: assms keep_replace)
  show ?B unfolding mfa_enroll_verify_def
    by (rule keep) (auto simp: assms keep_replace split: option.splits list.splits sum.splits)
  show ?C unfolding mfa_disable_def by (rule keep) (auto simp: assms keep_replace split: sum.splits)
  show ?D unfolding change_password_def by (rule keep) (auto simp: assms keep_replace split: sum.splits)
qed

lemma keep_create_user:
  assumes "P (as_tables s)"
  shows "P (as_tables (snd (create_user lib m c d s)))"
proof (cases "get_user_by_username (ud_username d) (as_tables s) = Inr None")
  case True
  then have "ud_username d \<notin> us_username ` set (au_users (as_tables s))"
    unfolding get_user_by_username_def by (drule_tac scalar_NoneD) (auto simp: filter_empty_conv)
  then show ?thesis using assms True by (auto simp: create_user_def Let_def keep_add split: sum.splits)
next
  case False
  then show ?thesis using assms by (auto simp: create_user_def split: sum.splits option.splits)
qed

lemma keep_update_user:
  assumes "P (as_tables s)"
  shows "P (as_tables (snd (update_user lib m c uid cs s)))"
proof -
  have "P (replace_user u' (as_tables s))"
    if "get_user_by_id uid (as_tables s) = Some u" "set_user_fields cs u = Some u'"
      "us_role u' \<in> rl_id ` set (au_roles (as_tables s))"
      "us_email u' \<notin> us_email ` {q \<in> set (au_users (as_tables s)). us_id q \<noteq> uid}" for u u'
  proof -
    have u: "u \<in> set (au_users (as_tables s))" "us_id u = uid" using get_user_by_idD [OF that(1)] by simp_all
    have f: "us_id u' = us_id u" "us_username u' = us_username u" using set_user_fields_frame [OF that(2)] by simp_all
    show ?thesis
      by (rule keep_replace [OF assms u(1) f disjI2 disjI2]) (use that(3,4) u(2) in \<open>simp_all only: not_False_eq_True\<close>)
  qed
  then show ?thesis using assms
    by (auto simp: update_user_def simp del: image_iff split: sum.splits option.splits)
qed

lemma keep_request: "P (as_tables s) \<Longrightarrow> P (as_tables (serve_auth lib st m rq s))"
  by (cases rq) (simp_all add: keep_login keep_mfa_verify keep_refresh keep_logout keep_account_endpoints
    keep_create_user keep_update_user)

lemma keep_requests: "P (as_tables s) \<Longrightarrow> P (as_tables (serve_auths lib st rqs s))"
  by (induction lib st rqs s rule: serve_auths.induct) (simp_all add: keep_request)

end

interpretation wf: account_invariant auth_wf
  by unfold_locales (fact wf_create_session, simp, erule (5) wf_replaced, erule (4) wf_add_user)

text \<open>A spent refresh token: its hash is that of a revoked session.\<close>

definition spent :: "string \<Rightarrow> auth_tables \<Rightarrow> bool" where
  "spent h t \<longleftrightarrow> (\<exists>se \<in> set (au_sessions t). se_hash se = h \<and> se_revoked se)"

lemma revoke_mem:
  assumes "se \<in> set (au_sessions t)"
  shows "(if se_id se = se_id r then se\<lparr>se_revoked := True\<rparr> else se) \<in> set (au_sessions (revoke_session r t))"
  using assms by (simp add: revoke_session_def)

lemma spent_revoke: "spent h t \<Longrightarrow> spent h (revoke_session r t)"
  unfolding spent_def using revoke_mem [of _ t r] by (metis session_row.select_convs(3,5) session_row.surjective session_row.update_convs(5))

interpretation spent: account_invariant "spent h" for h
proof unfold_locales
  fix t se assume "spent h t" then show "spent h (revoke_session se t)" by (rule spent_revoke)
qed (auto simp: spent_def replace_user_simps dest!: create_sessionD)

text \<open>
  C39: Over any sequence of requests usernames, emails and refresh tokens stay unique, ids stay
  fresh, and every user has a role and every session a user.
\<close>

theorem accounts_invariant:
  assumes "auth_wf (as_tables s)"
  shows "auth_wf (as_tables (serve_auths lib st rqs s))"
  using assms by (rule wf.keep_requests)

lemma spent_refused:
  assumes "auth_wf (as_tables s)" and "spent (hash_refresh_token lib tok) (as_tables s)" and "tok \<noteq> []"
  shows "refresh_token lib st m (Some tok) s = (Inl (HttpError 401 ''Invalid or expired refresh token''), s)"
proof -
  obtain se where se: "se \<in> set (au_sessions (as_tables s))" "se_hash se = hash_refresh_token lib tok" "se_revoked se"
    using assms(2) unfolding spent_def by blast
  have "distinct (map se_hash (au_sessions (as_tables s)))" using assms(1) by (simp add: auth_wf_def)
  then have only: "q = se" if "q \<in> set (au_sessions (as_tables s))" "se_hash q = hash_refresh_token lib tok" for q
    using that se(1,2) by (metis distinct_map inj_onD)
  have "filter (\<lambda>q. se_hash q = hash_refresh_token lib tok \<and> \<not> se_revoked q \<and> mo_wall m < se_expires q)
      (au_sessions (as_tables s)) = []"
    using only se(3) by (auto simp: filter_empty_conv)
  then have "get_session_by_token lib (mo_wall m) tok (as_tables s) = Inr None"
    by (simp add: get_session_by_token_def)
  then show ?thesis using assms(3) by (cases tok) (simp_all add: refresh_token_def)
qed

text \<open>
  C10: Rotation: a refresh token that was accepted once is refused from then on, whatever
  requests come in between.
\<close>

theorem refresh_token_used_once:
  assumes "auth_wf (as_tables s)" and "refresh_token lib st m (Some tok) s = (Inr r, s1)"
  shows "fst (refresh_token lib st m' (Some tok) (serve_auths lib st rqs s1)) =
    Inl (HttpError 401 ''Invalid or expired refresh token'')"
proof -
  have ne: "tok \<noteq> []" using assms(2) by (auto simp: refresh_token_def)
  obtain se where se: "get_session_by_token lib (mo_wall m) tok (as_tables s) = Inr (Some se)"
    and rot: "rotate_session lib st m se s = (Inr r, s1)"
    using assms(2) ne by (cases tok) (auto simp: refresh_token_def split: sum.splits option.splits)
  have "spent (hash_refresh_token lib tok) (revoke_session se (as_tables s))"
    unfolding spent_def
    by (rule bexI [of _ "se\<lparr>se_revoked := True\<rparr>"])
       (use session_lookupD [OF se] revoke_mem [of se "as_tables s" se] in \<open>simp_all\<close>)
  then have "spent (hash_refresh_token lib tok) (as_tables s1)"
    using rot spent.keep_session
    by (auto simp: rotate_session_def Let_def split: option.splits sum.splits)
  moreover have "auth_wf (as_tables s1)"
    using wf.keep_refresh [OF assms(1), of lib st m "Some tok"] assms(2) by simp
  ultimately show ?thesis
    using spent_refused [OF wf.keep_requests spent.keep_requests ne] by simp
qed

section \<open>Who changes an account\<close>

lemma same_row:
  assumes "auth_wf t" and "u \<in> set (au_users t)" and "v \<in> set (au_users t)" and "us_id v = us_id u"
  shows "v = u"
  using assms unfolding auth_wf_def by (metis distinct_map inj_onD)










section \<open>Where sessions come from\<close>

fun justified :: "auth_lib \<Rightarrow> auth_settings \<Rightarrow> moment \<Rightarrow> auth_request \<Rightarrow> auth_server \<Rightarrow> session_row \<Rightarrow> bool" where
  "justified lib st m (LoginRequest rq n pw) s se \<longleftrightarrow>
     (\<exists>u \<in> set (au_users (as_tables s)). us_id u = se_user se \<and> us_username u = n \<and> us_active u \<and>
        \<not> us_mfa_enabled u \<and> verify_password lib pw (us_password_hash u) = Inr True \<and>
        fst (limiter_check st (mo_check m) (get_client_ip rq) (as_buckets s)) = None)"
| "justified lib st m (MfaVerifyRequest challenge cd) s se \<longleftrightarrow>
     (\<exists>u \<in> set (au_users (as_tables s)). us_id u = se_user se \<and> us_mfa_enabled u \<and>
        (\<exists>secret. us_mfa_secret u = Some secret \<and> verify_totp lib (mo_wall m) secret cd = Inr True) \<and>
        (\<exists>p. decode_token lib (mo_wall m) challenge = Inr p \<and> map_of p ''type'' = Some (JStr ''mfa_challenge'') \<and>
           subject_of p = Some (us_id u)))"
| "justified lib st m (RefreshRequest cookie) s se \<longleftrightarrow>
     (\<exists>tok. cookie = Some tok \<and> (\<exists>old \<in> set (au_sessions (as_tables s)). se_user old = se_user se \<and>
        se_hash old = hash_refresh_token lib tok \<and> \<not> se_revoked old \<and> mo_wall m < se_expires old))"
| "justified lib st m rq s se \<longleftrightarrow> False"

definition new_session :: "session_row \<Rightarrow> auth_tables \<Rightarrow> auth_tables \<Rightarrow> bool" where
  "new_session se t t' \<longleftrightarrow> se \<in> set (au_sessions t') \<and> se_hash se \<notin> se_hash ` set (au_sessions t)"

lemma new_session_same: "au_sessions t' = au_sessions t \<Longrightarrow> \<not> new_session se t t'"
  by (auto simp: new_session_def)

lemma new_session_revoke: "\<not> new_session se t (revoke_session r t)"
  using revoke_simps(5) [of r t] unfolding new_session_def by (metis image_set imageI)

lemma new_session_created:
  assumes "create_session lib st now uid tok t = Inr t'" and "new_session se t t'"
  shows "se_user se = uid"
  using create_sessionD [OF assms(1)] assms(2) by (auto simp: new_session_def)

lemma new_session_issued:
  "new_session se (as_tables s) (as_tables (snd (issue_tokens lib st m u s))) \<Longrightarrow> se_user se = us_id u"
  by (auto simp: issue_tokens_def new_session_same dest: new_session_created split: option.splits sum.splits)

lemma get_user_by_usernameD:
  assumes "get_user_by_username n t = Inr (Some u)"
  shows "u \<in> set (au_users t) \<and> us_username u = n"
proof -
  have "u \<in> set [u]" by simp
  then show ?thesis
    using scalar_SomeD [OF assms [unfolded get_user_by_username_def]]
    by (metis (mono_tags, lifting) mem_Collect_eq set_filter)
qed

lemma login_session:
  assumes "new_session se (as_tables s) (as_tables (snd (login lib st m rq n pw s)))"
  shows "justified lib st m (LoginRequest rq n pw) s se"
proof -
  obtain r b where c: "limiter_check st (mo_check m) (get_client_ip rq) (as_buckets s) = (r, b)" by fastforce
  let ?s = "s\<lparr>as_buckets := limiter_reset (get_client_ip rq) b\<rparr>"
  have r: "r = None" using assms c by (cases r) (simp_all add: login_def new_session_same)
  obtain u where u: "get_user_by_username n (as_tables s) = Inr (Some u)"
    "verify_password lib pw (us_password_hash u) = Inr True" "us_active u" "\<not> us_mfa_enabled u"
    and iss: "snd (login lib st m rq n pw s) = snd (issue_tokens lib st m u ?s)"
    using assms c r
    by (auto simp: login_def login_refused_def Let_def new_session_same
        split: sum.splits option.splits bool.splits if_splits)
  have "se_user se = us_id u" using new_session_issued [of se ?s lib st m u] assms iss by simp
  then show ?thesis using get_user_by_usernameD [OF u(1)] u(2-4) c r by auto
qed

lemma mfa_session:
  assumes "new_session se (as_tables s) (as_tables (snd (mfa_verify lib st m ch cd s)))"
  shows "justified lib st m (MfaVerifyRequest ch cd) s se"
proof -
  obtain p uid u secret where p: "decode_token lib (mo_wall m) ch = Inr p" "map_of p ''type'' = Some (JStr ''mfa_challenge'')"
    "subject_of p = Some uid" and u: "get_user_by_id uid (as_tables s) = Some u" "us_mfa_enabled u"
    "us_mfa_secret u = Some secret" "verify_totp lib (mo_wall m) secret cd = Inr True"
    and iss: "snd (mfa_verify lib st m ch cd s) = snd (issue_tokens lib st m u s)"
    using assms
    by (auto simp: mfa_verify_def new_session_same split: sum.splits option.splits list.splits if_splits)
  have "se_user se = us_id u" using new_session_issued assms iss by simp
  then show ?thesis using get_user_by_idD [OF u(1)] u(2-4) p by auto
qed

lemma refresh_session:
  assumes "new_session se (as_tables s) (as_tables (snd (refresh_token lib st m cookie s)))"
  shows "justified lib st m (RefreshRequest cookie) s se"
proof -
  obtain tok old where tok: "cookie = Some tok" "get_session_by_token lib (mo_wall m) tok (as_tables s) = Inr (Some old)"
    and rot: "snd (refresh_token lib st m cookie s) = snd (rotate_session lib st m old s)"
    using assms by (auto simp: refresh_token_def new_session_same split: option.splits list.splits sum.splits)
  let ?t = "revoke_session old (as_tables s)"
  have "new_session se ?t (as_tables (snd (rotate_session lib st m old s)))"
    using assms rot revoke_simps(5) [of old "as_tables s"] unfolding new_session_def by (metis image_set)
  then have "se_user se = se_user old"
    using get_user_by_idD [of "se_user old" ?t]
    by (auto simp: rotate_session_def Let_def new_session_same dest: new_session_created
        split: option.splits sum.splits)
  then show ?thesis using tok session_lookupD [OF tok(2)] by auto
qed

text \<open>
  C2: A session appears only for a login with the right password of an active account without
  second factor that the rate limit let through, for a challenge answered with the right code,
  or in exchange for a live session of the same user.
\<close>

theorem new_sessions_are_justified:
  assumes "new_session se (as_tables s) (as_tables (serve_auth lib st m rq s))"
  shows "justified lib st m rq s se"
proof -
  have keep: "au_sessions (as_tables (snd (with_account lib m c f s))) = au_sessions (as_tables s)"
    if "\<And>u. au_sessions (as_tables (snd (f u s))) = au_sessions (as_tables s)" for c and f :: "user_row \<Rightarrow> auth_server \<Rightarrow> (http_error + 'b) \<times> auth_server"
    using that by (auto simp: with_account_def split: sum.splits option.splits)
  note defs = mfa_enroll_def mfa_enroll_verify_def mfa_disable_def change_password_def
  show ?thesis
  proof (cases rq)
    case (LogoutRequest cookie)
    then show ?thesis using assms
      by (auto simp: logout_def new_session_same new_session_revoke split: option.splits list.splits sum.splits)
  next
    case (CreateUserRequest c d)
    then show ?thesis using assms
      by (auto simp: create_user_def Let_def new_session_same split: sum.splits option.splits)
  next
    case (UpdateUserRequest c uid cs)
    then show ?thesis using assms
      by (auto simp: update_user_def new_session_same replace_user_simps split: sum.splits option.splits)
  qed (use assms login_session mfa_session refresh_session in
      \<open>auto simp: defs new_session_same keep replace_user_simps split: option.splits list.splits sum.splits\<close>)
qed

section \<open>What the endpoints do not prevent\<close>

lemma create_session_ok:
  "hash_refresh_token lib tok \<notin> se_hash ` set (au_sessions t) \<Longrightarrow> uid \<in> us_id ` set (au_users t) \<Longrightarrow>
   \<exists>t'. create_session lib st now uid tok t = Inr t' \<and> au_users t' = au_users t \<and> au_roles t' = au_roles t"
  by (simp add: create_session_def Let_def)

lemma wf_role:
  assumes "auth_wf t" and "u \<in> set (au_users t)"
  shows "\<exists>r. role_of u t = Some r"
proof -
  have "us_role u \<in> rl_id ` set (au_roles t)" using assms by (auto simp: auth_wf_def)
  then show ?thesis unfolding role_of_def by (rule find_image)
qed

lemma known_user: "i \<in> us_id ` set (au_users t) \<Longrightarrow> \<exists>u. get_user_by_id i t = Some u"
  unfolding get_user_by_id_def by (rule find_image)

text \<open>Once the session is found, the exchange succeeds when the random token is new.\<close>

lemma rotation_succeeds:
  assumes "auth_wf (as_tables s)" and "se_user se \<in> us_id ` set (au_users (as_tables s))"
    and "hash_refresh_token lib (mo_fresh m) \<notin> se_hash ` set (au_sessions (as_tables s))"
  shows "\<exists>u role r s'. get_user_by_id (se_user se) (as_tables s) = Some u \<and> role_of u (as_tables s) = Some role \<and>
    rotate_session lib st m se s = (Inr r, s') \<and>
    lr_access r = create_access_token lib st (mo_wall m) (us_id u) (us_username u) (rl_name role) None \<and>
    lr_cookie r = Some (mo_fresh m) \<and>
    set (map se_hash (au_sessions (as_tables s'))) =
      insert (hash_refresh_token lib (mo_fresh m)) (set (map se_hash (au_sessions (as_tables s)))) \<and>
    au_users (as_tables s') = au_users (as_tables s)"
proof -
  let ?t = "revoke_session se (as_tables s)"
  from assms(2) obtain u where u: "get_user_by_id (se_user se) (as_tables s) = Some u" using known_user by blast
  then obtain role where role: "role_of u (as_tables s) = Some role"
    using wf_role [OF assms(1)] get_user_by_idD by blast
  have hashes: "se_hash ` set (au_sessions ?t) = se_hash ` set (au_sessions (as_tables s))"
    using revoke_simps(5) [of se "as_tables s"] by (metis image_set)
  then have "hash_refresh_token lib (mo_fresh m) \<notin> se_hash ` set (au_sessions ?t)" using assms(3) by simp
  moreover have "us_id u \<in> us_id ` set (au_users ?t)" using get_user_by_idD [OF u] unfolding revoke_simps by blast
  ultimately obtain t' where t': "create_session lib st (mo_wall m) (us_id u) (mo_fresh m) ?t = Inr t'"
    "au_users t' = au_users ?t" "au_roles t' = au_roles ?t"
    using create_session_ok [of lib "mo_fresh m" ?t "us_id u" st "mo_wall m"] by blast
  have same: "get_user_by_id (se_user se) ?t = Some u" "role_of u t' = Some role"
    using u role t'(3) by (simp_all add: get_user_by_id_def role_of_def revoke_simps)
  have "set (map se_hash (au_sessions t')) =
      insert (hash_refresh_token lib (mo_fresh m)) (set (map se_hash (au_sessions (as_tables s))))"
    using create_sessionD [OF t'(1)] hashes by simp
  then show ?thesis using u role same t'(1,2) by (simp add: rotate_session_def revoke_simps)
qed

text \<open>
  Disabling an account does not end its sessions: after an administrator has set the
  account inactive, its refresh token still buys a new session and an access token with the
  account's role.
\<close>

theorem disabled_account_refreshes:
  assumes "jwt_ok lib" and "0 < access_token_expire_minutes st" and "auth_wf (as_tables s)"
    and "get_session_by_token lib (mo_wall m) tok (as_tables s) = Inr (Some se)" and "tok \<noteq> []"
    and "hash_refresh_token lib (mo_fresh m) \<notin> se_hash ` set (au_sessions (as_tables s))"
    and "update_user lib m0 admin (se_user se) [ChangeActive (Some False)] s = (Inr u', s1)"
  shows "\<not> us_active u' \<and> get_user_by_id (se_user se) (as_tables s1) = Some u' \<and>
    (\<exists>role r s2. role_of u' (as_tables s1) = Some role \<and> refresh_token lib st m (Some tok) s1 = (Inr r, s2) \<and>
       get_current_user lib (mo_wall m) (Some (lr_access r)) =
         Inr \<lparr>cu_id = us_id u', cu_username = JStr (us_username u'), cu_role = JStr (rl_name role)\<rparr>)"
proof -
  obtain u where u: "get_user_by_id (se_user se) (as_tables s) = Some u" "u' = u\<lparr>us_active := False\<rparr>"
    "s1 = store_user u' s"
    using assms(7) by (auto simp: update_user_def simp del: image_iff split: sum.splits option.splits if_splits)
  have wf1: "auth_wf (as_tables s1)" using wf.keep_update_user [OF assms(3)] assms(7) by (metis snd_conv)
  have se: "se \<in> set (au_sessions (as_tables s1))"
    and new: "hash_refresh_token lib (mo_fresh m) \<notin> se_hash ` set (au_sessions (as_tables s1))"
    using session_lookupD [OF assms(4)] assms(6) u(3) by (simp_all add: replace_user_simps)
  have "u' \<in> set (au_users (as_tables s1))"
    using get_user_by_idD [OF u(1)] u(2,3) by (force simp: replace_user_simps)
  moreover have id: "us_id u' = se_user se" using get_user_by_idD [OF u(1)] u(2) by simp
  ultimately have found: "get_user_by_id (se_user se) (as_tables s1) = Some u'"
    using known_user [of "se_user se" "as_tables s1"] same_row [OF wf1] get_user_by_idD by (metis imageI)
  have "se_user se \<in> us_id ` set (au_users (as_tables s1))" using se wf1 by (auto simp: auth_wf_def)
  then obtain v role r s2 where v: "get_user_by_id (se_user se) (as_tables s1) = Some v"
    "role_of v (as_tables s1) = Some role" "rotate_session lib st m se s1 = (Inr r, s2)"
    "lr_access r = create_access_token lib st (mo_wall m) (us_id v) (us_username v) (rl_name role) None"
    using rotation_succeeds [OF wf1 _ new] by blast
  have "v = u'" using v(1) found by simp
  have "get_session_by_token lib (mo_wall m) tok (as_tables s1) = Inr (Some se)"
    using assms(4) u(3) by (simp add: get_session_by_token_def replace_user_simps)
  then have "refresh_token lib st m (Some tok) s1 = (Inr r, s2)"
    using v(3) assms(5) by (cases tok) (simp_all add: refresh_token_def)
  moreover have "get_current_user lib (mo_wall m) (Some (lr_access r)) =
      Inr \<lparr>cu_id = us_id v, cu_username = JStr (us_username v), cu_role = JStr (rl_name role)\<rparr>"
    unfolding v(4) using access_token_accepted [OF assms(1)] assms(2) by simp
  ultimately show ?thesis using found u(2) v(2) \<open>v = u'\<close> by auto
qed

text \<open>
  Two exchanges of the same token that both looked the session up before either revoked it both
  succeed: the rotation holds only for requests one after the other.
\<close>

lemma overlapping_exchanges:
  assumes "auth_wf (as_tables s)" and "se_user se \<in> us_id ` set (au_users (as_tables s))"
    and "hash_refresh_token lib (mo_fresh m1) \<notin> se_hash ` set (au_sessions (as_tables s))"
    and "hash_refresh_token lib (mo_fresh m2) \<notin> se_hash ` set (au_sessions (as_tables s))"
    and "hash_refresh_token lib (mo_fresh m1) \<noteq> hash_refresh_token lib (mo_fresh m2)"
  shows "\<exists>r1 s1 r2 s2. rotate_session lib st m1 se s = (Inr r1, s1) \<and> rotate_session lib st m2 se s1 = (Inr r2, s2) \<and>
    lr_cookie r1 = Some (mo_fresh m1) \<and> lr_cookie r2 = Some (mo_fresh m2)"
proof -
  obtain r1 s1 where one: "rotate_session lib st m1 se s = (Inr r1, s1)" "lr_cookie r1 = Some (mo_fresh m1)"
    "set (map se_hash (au_sessions (as_tables s1))) =
       insert (hash_refresh_token lib (mo_fresh m1)) (set (map se_hash (au_sessions (as_tables s))))"
    "au_users (as_tables s1) = au_users (as_tables s)"
    using rotation_succeeds [OF assms(1-3), of st] by blast
  have "auth_wf (as_tables s1)" using wf.keep_rotate [OF assms(1), of lib st m1 se] one(1) by simp
  moreover have "hash_refresh_token lib (mo_fresh m2) \<notin> se_hash ` set (au_sessions (as_tables s1))"
    using one(3) assms(4,5) by simp
  ultimately obtain r2 s2 where "rotate_session lib st m2 se s1 = (Inr r2, s2)" "lr_cookie r2 = Some (mo_fresh m2)"
    using rotation_succeeds [of s1 se lib m2 st] assms(2) one(4) by auto
  then show ?thesis using one(1,2) by blast
qed

text \<open>
  Wrong codes leave no trace: whatever number of them is tried with a challenge, the next one
  is checked as if it were the first.
\<close>

lemma wrong_codes_leave_no_trace:
  assumes "\<forall>(m, cd) \<in> set tries. fst (mfa_verify lib st m challenge cd s) = Inl (HttpError 401 ''Invalid TOTP code'')"
  shows "serve_auths lib st (map (\<lambda>(m, cd). (m, MfaVerifyRequest challenge cd)) tries) s = s"
  using assms
proof (induction tries)
  case (Cons a tries)
  obtain m cd where a: "a = (m, cd)" by fastforce
  have "fst (mfa_verify lib st m challenge cd s) = Inl (HttpError 401 ''Invalid TOTP code'')" using Cons.prems a by simp
  then have "snd (mfa_verify lib st m challenge cd s) = s"
    by (auto simp: mfa_verify_def issue_tokens_def split: sum.splits option.splits list.splits if_splits)
  then show ?case using Cons a by simp
qed simp

section \<open>A small installation\<close>

definition admin_row :: user_row where
  "admin_row = \<lparr>us_id = 0, us_username = ''root'', us_email = ''root@corp.example'', us_password_hash = ''$correct'',
     us_full_name = None, us_active = True, us_mfa_enabled = False, us_mfa_secret = None, us_role = 10\<rparr>"

definition analyst_row :: user_row where
  "analyst_row = \<lparr>us_id = 1, us_username = ''ann'', us_email = ''ann@corp.example'', us_password_hash = ''$horse'',
     us_full_name = None, us_active = True, us_mfa_enabled = False, us_mfa_secret = None, us_role = 11\<rparr>"

definition small_tables :: auth_tables where
  "small_tables = \<lparr>au_roles = [\<lparr>rl_id = 10, rl_name = ''Admin'', rl_description = None\<rparr>,
       \<lparr>rl_id = 11, rl_name = ''Analyst'', rl_description = None\<rparr>],
     au_users = [admin_row, analyst_row],
     au_sessions = [\<lparr>se_id = 2, se_user = 1, se_hash = ''tok'', se_expires = 5000, se_revoked = False\<rparr>], au_next = 3\<rparr>"

definition small_server :: auth_server where
  "small_server = \<lparr>as_tables = small_tables, as_buckets = []\<rparr>"

definition moment_at :: "int \<Rightarrow> string \<Rightarrow> moment" where
  "moment_at t fresh = \<lparr>mo_check = 0, mo_record = 0, mo_wall = t, mo_fresh = fresh, mo_salt = ''$'', mo_secret = ''seed''\<rparr>"

definition admin_token :: string where
  "admin_token = create_access_token plain_auth default_auth_settings 100 0 ''root'' ''Admin'' None"

lemma small_wf: "auth_wf (as_tables small_server)"
  by (simp add: auth_wf_def small_server_def small_tables_def admin_row_def analyst_row_def)

lemma admin_allowed:
  "RequirePermission ''users:write'' plain_auth 200 (Some admin_token) =
     Inr \<lparr>cu_id = 0, cu_username = JStr ''root'', cu_role = JStr ''Admin''\<rparr>"
  unfolding admin_token_def
  using access_token_accepted [OF plain_auth_ok, of 200 100 default_auth_settings]
  by (simp add: RequirePermission_Inr default_auth_settings_def write_permissions)

lemma small_session:
  "get_session_by_token plain_auth 200 ''tok'' small_tables =
     Inr (Some \<lparr>se_id = 2, se_user = 1, se_hash = ''tok'', se_expires = 5000, se_revoked = False\<rparr>)"
  by (simp add: get_session_by_token_def small_tables_def hash_refresh_token_def plain_auth_def)

lemma small_disabled:
  "update_user plain_auth (moment_at 200 ''x'') (Some admin_token) 1 [ChangeActive (Some False)] small_server =
     (Inr (analyst_row\<lparr>us_active := False\<rparr>), store_user (analyst_row\<lparr>us_active := False\<rparr>) small_server)"
  using admin_allowed
  by (auto simp: update_user_def moment_at_def get_user_by_id_def small_server_def small_tables_def admin_row_def
      analyst_row_def)

lemma disabled_account_refreshes_witness:
  "\<exists>r s2. refresh_token plain_auth default_auth_settings (moment_at 200 ''new'') (Some ''tok'')
       (store_user (analyst_row\<lparr>us_active := False\<rparr>) small_server) = (Inr r, s2) \<and>
     get_current_user plain_auth 200 (Some (lr_access r)) =
       Inr \<lparr>cu_id = 1, cu_username = JStr ''ann'', cu_role = JStr ''Analyst''\<rparr>"
proof -
  have min: "0 < access_token_expire_minutes default_auth_settings" by (simp add: default_auth_settings_def)
  have look: "get_session_by_token plain_auth (mo_wall (moment_at 200 ''new'')) ''tok'' (as_tables small_server) =
      Inr (Some \<lparr>se_id = 2, se_user = 1, se_hash = ''tok'', se_expires = 5000, se_revoked = False\<rparr>)"
    using small_session by (simp add: small_server_def moment_at_def)
  have new: "hash_refresh_token plain_auth (mo_fresh (moment_at 200 ''new'')) \<notin> se_hash ` set (au_sessions (as_tables small_server))"
    by (simp add: hash_refresh_token_def plain_auth_def moment_at_def small_server_def small_tables_def)
  have upd: "update_user plain_auth (moment_at 200 ''x'') (Some admin_token)
      (se_user \<lparr>se_id = 2, se_user = 1, se_hash = ''tok'', se_expires = 5000, se_revoked = False\<rparr>)
      [ChangeActive (Some False)] small_server =
      (Inr (analyst_row\<lparr>us_active := False\<rparr>), store_user (analyst_row\<lparr>us_active := False\<rparr>) small_server)"
    using small_disabled by simp
  have role: "role_of (analyst_row\<lparr>us_active := False\<rparr>) (replace_user u small_tables) =
      Some \<lparr>rl_id = 11, rl_name = ''Analyst'', rl_description = None\<rparr>" for u
    by (simp add: role_of_def replace_user_def small_tables_def analyst_row_def)
  show ?thesis
    using disabled_account_refreshes [OF plain_auth_ok min small_wf look _ new upd] role
    by (auto simp: analyst_row_def moment_at_def small_server_def)
qed

lemma accounts_invariant_witness:
  "auth_wf (as_tables (serve_auths plain_auth default_auth_settings
     [(moment_at 200 ''a'', RefreshRequest (Some ''tok'')),
      (moment_at 201 ''b'', UpdateUserRequest (Some admin_token) 1 [ChangeActive (Some False)])] small_server))"
  by (rule accounts_invariant [OF small_wf])

lemma refreshed:
  "\<exists>r s1. refresh_token plain_auth default_auth_settings (moment_at 200 ''new'') (Some ''tok'') small_server = (Inr r, s1)"
proof -
  have "\<exists>u role r s'. get_user_by_id (1::nat) (as_tables small_server) = Some u \<and>
      rotate_session plain_auth default_auth_settings (moment_at 200 ''new'')
        \<lparr>se_id = 2, se_user = 1, se_hash = ''tok'', se_expires = 5000, se_revoked = False\<rparr> small_server = (Inr r, s')"
    using rotation_succeeds [OF small_wf,
      of "\<lparr>se_id = 2, se_user = 1, se_hash = ''tok'', se_expires = 5000, se_revoked = False\<rparr>" plain_auth
        "moment_at 200 ''new''" default_auth_settings]
    by (auto simp: small_server_def small_tables_def hash_refresh_token_def plain_auth_def moment_at_def
        admin_row_def analyst_row_def)
  then show ?thesis using small_session by (auto simp: refresh_token_def small_server_def moment_at_def)
qed

lemma refresh_token_used_once_witness:
  "\<exists>r s1. refresh_token plain_auth default_auth_settings (moment_at 200 ''new'') (Some ''tok'') small_server = (Inr r, s1) \<and>
     fst (refresh_token plain_auth default_auth_settings (moment_at 300 ''other'') (Some ''tok'')
       (serve_auths plain_auth default_auth_settings [(moment_at 250 ''n2'', RefreshRequest (Some ''new''))] s1)) =
     Inl (HttpError 401 ''Invalid or expired refresh token'')"
  using refreshed refresh_token_used_once [OF small_wf] by blast


lemma new_sessions_are_justified_witness:
  "justified plain_auth default_auth_settings (moment_at 200 ''new'')
     (LoginRequest \<lparr>rq_forwarded = None, rq_client = Some ''10.0.0.7''\<rparr> ''ann'' ''horse'') small_server
     \<lparr>se_id = 3, se_user = 1, se_hash = ''new'', se_expires = 200 + 7 * 86400, se_revoked = False\<rparr>"
  by (rule new_sessions_are_justified)
    (simp add: new_session_def login_def limiter_check_def dict_get_def prune_def default_auth_settings_def
      get_user_by_username_def small_server_def small_tables_def admin_row_def analyst_row_def verify_password_def
      plain_auth_def issue_tokens_def role_of_def create_session_def moment_at_def hash_refresh_token_def Let_def)

end
