(* ===== verification/AccessControl.thy ===== *)
theory AccessControl
  imports Accounts PolicyApi
begin

text \<open>
  The policy endpoints behind their dependency \<open>RequirePermission("policies:write")\<close>: who the
  token names becomes the actor of the audit entry.
\<close>

definition guarded_policy ::
  "auth_lib \<Rightarrow> (string \<Rightarrow> threshold list res) \<Rightarrow> int \<Rightarrow> http_request \<Rightarrow> string option \<Rightarrow> policy_request \<Rightarrow> policy_server
   \<Rightarrow> http_error option \<times> policy_server" where
  "guarded_policy lib loads now request credentials rq s =
     (case RequirePermission ''policies:write'' lib now credentials of
        Inl e \<Rightarrow> (Some e, s)
      | Inr user \<Rightarrow> serve_policy loads now \<lparr>cl_user = cu_id user, cl_ip = get_client_ip request\<rparr> rq s)"

text \<open>
  C19: Policies change only for a caller whose token carries the role Admin, and the audit entry of
  the change names that caller. For anyone else neither the durable tables nor the bus change.
\<close>

theorem only_admins_change_policies:
  assumes "guarded_policy lib loads now request credentials rq s = (outcome, s')"
  shows "durable_tables s' = durable_tables s \<and> sv_hub s' = sv_hub s \<or>
    (\<exists>token payload uid e. credentials = Some token \<and> decode_token lib now token = Inr payload \<and>
       map_of payload ''type'' = Some (JStr ''access'') \<and> map_of payload ''role'' = Some (JStr ''Admin'') \<and>
       subject_of payload = Some uid \<and> outcome = None \<and>
       pt_audit (durable_tables s') = pt_audit (work_tables s) @ [e] \<and> pa_actor e = uid)"
proof (cases "RequirePermission ''policies:write'' lib now credentials")
  case (Inl e)
  then show ?thesis using assms by (simp add: guarded_policy_def)
next
  case (Inr user)
  let ?c = "\<lparr>cl_user = cu_id user, cl_ip = get_client_ip request\<rparr>"
  have run: "serve_policy loads now ?c rq s = (outcome, s')" using assms Inr by (simp add: guarded_policy_def)
  obtain r where "get_current_user lib now credentials = Inr user" "cu_role user = JStr r" "has_permission r ''policies:write''"
    using Inr by (auto simp: RequirePermission_Inr)
  then obtain token payload where tok: "credentials = Some token" "decode_token lib now token = Inr payload"
    "map_of payload ''type'' = Some (JStr ''access'')" "map_of payload ''role'' = Some (JStr ''Admin'')"
    "subject_of payload = Some (cu_id user)"
    by (auto simp: get_current_user_def write_permissions split: option.splits sum.splits if_splits)
  show ?thesis
  proof (cases outcome)
    case (Some e)
    then have "s' = closed s" using serve_clean [of ?c s loads now rq] run by (simp add: clean_outcome_def)
    then show ?thesis by simp
  next
    case None
    then obtain e where "pt_audit (durable_tables s') = pt_audit (work_tables s) @ [e]" "pa_actor e = cu_id user"
      using serve_clean [of ?c s loads now rq] run by (auto simp: clean_outcome_def audited_by_def)
    then show ?thesis using tok None by blast
  qed
qed

definition analyst_token :: string where
  "analyst_token = create_access_token plain_auth default_auth_settings 100 1 ''ann'' ''Analyst'' None"

lemma analyst_claims:
  "decode_token plain_auth 200 analyst_token = Inr payload \<Longrightarrow> map_of payload ''role'' = Some (JStr ''Analyst'')"
proof -
  let ?p = "[(''sub'', JStr (nat_str 1)), (''username'', JStr ''ann''), (''role'', JStr ''Analyst''),
      (''exp'', JInt (100 + 15 * 60)), (''iat'', JInt 100), (''type'', JStr ''access'')]"
  have "al_jwt_decode plain_auth 200 (al_jwt_encode plain_auth ?p) = Inr ?p"
    by (rule jwt_ok_valid [OF plain_auth_ok, of _ "100 + 15 * 60"]) simp_all
  then show "decode_token plain_auth 200 analyst_token = Inr payload \<Longrightarrow> map_of payload ''role'' = Some (JStr ''Analyst'')"
    by (auto simp: decode_token_def analyst_token_def create_access_token_def default_auth_settings_def)
qed

lemma only_admins_change_policies_witness:
  "durable_tables (snd (guarded_policy plain_auth no_loads 200 \<lparr>rq_forwarded = None, rq_client = None\<rparr> (Some analyst_token)
     (DeletePolicy 1) two_server)) = durable_tables two_server"
  using only_admins_change_policies [of plain_auth no_loads 200 "\<lparr>rq_forwarded = None, rq_client = None\<rparr>"
      "Some analyst_token" "DeletePolicy 1" two_server, OF prod.collapse [symmetric]]
  by (auto dest: analyst_claims)

end
