(* ===== verification/DetectionApi.thy ===== *)
theory DetectionApi
  imports DataIdentifier FileInspector Tables
begin

text \<open>
  The detection endpoints of \<open>server/api/detection.py\<close>: a text or an uploaded file becomes a
  message, the engine with the built-in data identifiers scans it, and the matches are turned
  into the response. The body was validated by its schema, the caller by its permission.
\<close>

section \<open>The built-in identifiers\<close>

definition builtin :: "string \<Rightarrow> string list \<Rightarrow> string \<Rightarrow> rat \<Rightarrow> data_identifier_config" where
  "builtin nm patterns validator conf =
     \<lparr>di_name = nm, di_patterns = map regex_text patterns, di_validator = Some validator, di_description = [],
      di_confidence = conf, di_examples = []\<rparr>"

definition cc_config :: data_identifier_config where
  "cc_config = builtin ''Credit Card Number''
     [''!b(?:4[0-9]{12}(?:[0-9]{3})?|5[1-5][0-9]{14}|3[47][0-9]{13}|6(?:011|5[0-9]{2})[0-9]{12})!b''] ''luhn'' (95 / 100)"

definition ssn_config :: data_identifier_config where
  "ssn_config = builtin ''US SSN'' [''!b!d{3}-!d{2}-!d{4}!b''] ''ssn_area'' (9 / 10)"

definition phone_config :: data_identifier_config where
  "phone_config = builtin ''US Phone Number'' [''!b!(?!d{3}!)?[-.!s]?!d{3}[-.!s]?!d{4}!b''] ''phone_format'' (7 / 10)"

definition email_config :: data_identifier_config where
  "email_config = builtin ''Email Address''
     [''!b[A-Za-z0-9._%+-]+@[A-Za-z0-9.-]+!.[A-Za-z]{2,63}!b''] ''email_domain'' (85 / 100)"

definition iban_config :: data_identifier_config where
  "iban_config = builtin ''IBAN'' [''!b[A-Z]{2}!d{2}[A-Z0-9]{4}!d{7}(?:[A-Z0-9]){0,16}!b''] ''iban_mod97'' (9 / 10)"

definition ipv4_config :: data_identifier_config where
  "ipv4_config = builtin ''IPv4 Address'' [''!b!d{1,3}!.!d{1,3}!.!d{1,3}!.!d{1,3}!b''] ''ipv4_range'' (6 / 10)"

definition dob_config :: data_identifier_config where
  "dob_config = builtin ''Date of Birth''
     [''!b!d{2}/!d{2}/!d{4}!b'', ''!b!d{4}-!d{2}-!d{2}!b'', ''!b!d{2}-!d{2}-!d{4}!b''] ''date_calendar'' (5 / 10)"

definition aba_config :: data_identifier_config where
  "aba_config = builtin ''ABA Routing Number'' [''!b!d{9}!b''] ''aba_checksum'' (8 / 10)"

definition api_identifiers :: "data_identifier_config list" where
  "api_identifiers =
     [cc_config, ssn_config, phone_config, email_config, iban_config, ipv4_config, dob_config, aba_config]"

definition build_api_engine :: "re2_lib \<Rightarrow> engine res" where
  "build_api_engine lib =
     rbind (DataIdentifierAnalyzer lib ''built_in_data_identifiers'' api_identifiers None []) (register [])"

section \<open>The responses\<close>

record match_response =
  mr_analyzer_name :: string
  mr_rule_name :: string
  mr_component_type :: string
  mr_component_name :: string
  mr_matched_text :: string
  mr_start_offset :: int
  mr_end_offset :: int
  mr_confidence :: rat
  mr_metadata :: meta

record detection_response =
  dp_message_id :: string
  dp_match_count :: nat
  dp_matches :: "match_response list"
  dp_components_scanned :: nat
  dp_errors :: "string list"

text \<open>A component name that is no text is refused by the response model.\<close>

definition match_to_response :: "match \<Rightarrow> match_response res" where
  "match_to_response m =
     (case component_name (match_component m) of
        PyStr nm \<Rightarrow>
          Inr \<lparr>mr_analyzer_name = analyzer_name m, mr_rule_name = rule_name m,
               mr_component_type = component_type_value (comp_type (match_component m)), mr_component_name = nm,
               mr_matched_text = matched_text m, mr_start_offset = start_offset m, mr_end_offset = end_offset m,
               mr_confidence = confidence m, mr_metadata = match_meta m\<rparr>
      | _ \<Rightarrow> Inl (Exn (OtherError ''ValidationError'') ''component_name''))"

text \<open>What both endpoints end with; an exception no one catches is an internal error.\<close>

definition run_detection :: "re2_lib \<Rightarrow> parsed_message \<Rightarrow> http_error + detection_response" where
  "run_detection lib message =
     (case rbind (build_api_engine lib) (\<lambda>eng.
           let result = detect eng message in
           rbind (map_res match_to_response (matches result)) (\<lambda>ms.
             Inr \<lparr>dp_message_id = result_id result, dp_match_count = match_count result, dp_matches = ms,
                  dp_components_scanned = length (msg_components message), dp_errors = errors result\<rparr>)) of
        Inl e \<Rightarrow> Inl internal_error
      | Inr r \<Rightarrow> Inr r)"

section \<open>Text\<close>


definition truthy :: "'a list option \<Rightarrow> bool" where
  "truthy v \<longleftrightarrow> (case v of Some (x # xs) \<Rightarrow> True | _ \<Rightarrow> False)"





section \<open>Files\<close>

definition MAX_UPLOAD_SIZE :: nat where
  "MAX_UPLOAD_SIZE = 50 * 1024 * 1024"

definition detect_file ::
  "re2_lib \<Rightarrow> inspect_lib \<Rightarrow> nat \<Rightarrow> string option \<Rightarrow> bytes \<Rightarrow> http_error + detection_response" where
  "detect_file lib ilib fuel filename content =
     (if MAX_UPLOAD_SIZE < length content then Inl (HttpError 413 ''File too large. Maximum size is 50MB.'')
      else if content = [] then Inl (HttpError 400 ''Empty file uploaded.'')
      else
        (case inspect ilib fuel content (if truthy filename then the filename else ''unknown'') [] of
           Inl e \<Rightarrow> Inl (HttpError 422 (''Failed to extract content from file: '' @ exn_str e))
         | Inr message \<Rightarrow>
             if msg_components message = [] then
               Inr \<lparr>dp_message_id = msg_id message, dp_match_count = 0, dp_matches = [], dp_components_scanned = 0,
                    dp_errors = [''No text content could be extracted from the file.'']\<rparr>
             else run_detection lib message))"

section \<open>What is reported\<close>





















end
