(* ===== verification/IncidentQueries.thy ===== *)
theory IncidentQueries
  imports Incidents "HOL-Library.List_Lexorder" "HOL-Library.Multiset"
begin

text \<open>
  Reading incidents: the queries of \<open>server/services/incident_service.py\<close> (the filtered, sorted and
  paged list, notes, history) and the endpoints of \<open>server/api/incidents.py\<close> that answer with
  them. How the database orders the values of a column is a parameter, \<open>rank\<close>; rows of the same rank
  keep the order of the table. The attributes of the mapped class that are no columns
  (relationships, \<open>metadata\<close>, methods) are a parameter too, with what their method \<open>desc\<close> raises.
\<close>

section \<open>Columns\<close>

definition incident_columns :: "string list" where
  "incident_columns =
     [''id'', ''policy_id'', ''policy_name'', ''severity'', ''status'', ''channel'', ''source_type'',
      ''file_path'', ''file_name'', ''file_size'', ''file_type'', ''user'', ''source_ip'', ''destination'',
      ''match_count'', ''matched_content'', ''data_identifiers'', ''action_taken'', ''user_justification'',
      ''agent_id'', ''custom_attributes'', ''created_at'', ''updated_at'']"

definition column_value :: "string \<Rightarrow> incident_row \<Rightarrow> attr" where
  "column_value col i = (if col = ''id'' then IntAttr (int (in_id i)) else get_attr i col)"

definition severity_values :: "string list" where
  "severity_values = [''critical'', ''high'', ''medium'', ''low'', ''info'']"

definition incident_status_values :: "string list" where
  "incident_status_values = [''new'', ''in_progress'', ''resolved'', ''dismissed'', ''escalated'']"

definition channel_values :: "string list" where
  "channel_values = [''usb'', ''network_share'', ''clipboard'', ''browser_upload'', ''email'', ''http_upload'', ''discover'']"

text \<open>\<open>Severity(value)\<close>: the member with that value.\<close>

definition enum_member :: "string \<Rightarrow> string list \<Rightarrow> string \<Rightarrow> string res" where
  "enum_member cls members v =
     (if v \<in> set members then Inr v else Inl (Exn ValueError (repr_str v @ '' is not a valid '' @ cls)))"

section \<open>The list\<close>

record incident_filter =
  if_severity :: "string option"
  if_status :: "string option"
  if_channel :: "string option"
  if_policy_name :: "string option"
  if_search :: "string option"

text \<open>\<open>where(column == member)\<close>, for a filter that applies.\<close>

definition where_member ::
  "string \<Rightarrow> string list \<Rightarrow> string \<Rightarrow> string option \<Rightarrow> incident_row list \<Rightarrow> incident_row list res" where
  "where_member cls members col v rows =
     (case wanted v of
        None \<Rightarrow> Inr rows
      | Some s \<Rightarrow> rbind (enum_member cls members s)
          (\<lambda>m. Inr (filter (\<lambda>i. old_text (column_value col i) = Some m) rows)))"

text \<open>\<open>column.ilike(f"%{text}%")\<close>: a column without a value is not like anything.\<close>

definition column_like :: "string \<Rightarrow> string \<Rightarrow> incident_row \<Rightarrow> bool" where
  "column_like q col i =
     (case old_text (column_value col i) of None \<Rightarrow> False | Some s \<Rightarrow> ilike (search_pattern q) s)"

definition incident_like :: "string \<Rightarrow> incident_row \<Rightarrow> bool" where
  "incident_like q i \<longleftrightarrow> column_like q ''policy_name'' i \<or> column_like q ''file_name'' i \<or> column_like q ''user'' i"

definition incident_base :: "incident_filter \<Rightarrow> tables \<Rightarrow> incident_row list res" where
  "incident_base f t =
     rbind (where_member ''Severity'' severity_values ''severity'' (if_severity f) (t_incidents t)) (\<lambda>r1.
     rbind (where_member ''IncidentStatus'' incident_status_values ''status'' (if_status f) r1) (\<lambda>r2.
     rbind (where_member ''Channel'' channel_values ''channel'' (if_channel f) r2) (\<lambda>r3.
       (let r4 = (case wanted (if_policy_name f) of None \<Rightarrow> r3 | Some q \<Rightarrow> filter (column_like q ''policy_name'') r3);
            r5 = (case wanted (if_search f) of None \<Rightarrow> r4 | Some q \<Rightarrow> filter (incident_like q) r4)
        in Inr r5))))"

text \<open>\<open>getattr(Incident, sort_by, Incident.created_at)\<close>, of which \<open>desc\<close> or \<open>asc\<close> is called.\<close>

definition sort_column :: "(string \<Rightarrow> exn option) \<Rightarrow> string \<Rightarrow> string res" where
  "sort_column other sort_by =
     (if sort_by \<in> set incident_columns then Inr sort_by
      else (case other sort_by of Some e \<Rightarrow> Inl e | None \<Rightarrow> Inr ''created_at''))"

definition order_by :: "(attr \<Rightarrow> 'k::linorder) \<Rightarrow> string \<Rightarrow> string \<Rightarrow> incident_row list \<Rightarrow> incident_row list" where
  "order_by rank col sort_order rows =
     (if sort_order = ''desc'' then rev (sort_key (\<lambda>i. rank (column_value col i)) (rev rows))
      else sort_key (\<lambda>i. rank (column_value col i)) rows)"

definition list_incidents ::
  "(attr \<Rightarrow> 'k::linorder) \<Rightarrow> (string \<Rightarrow> exn option) \<Rightarrow> nat \<Rightarrow> nat \<Rightarrow> incident_filter \<Rightarrow> string \<Rightarrow> string \<Rightarrow> tables
   \<Rightarrow> (incident_row list \<times> nat) res" where
  "list_incidents rank other page page_size f sort_by sort_order t =
     rbind (incident_base f t) (\<lambda>base.
     rbind (sort_column other sort_by) (\<lambda>col.
       Inr (page_of page page_size (order_by rank col sort_order base), length base)))"

section \<open>Notes and history\<close>

definition list_notes :: "nat \<Rightarrow> tables \<Rightarrow> incident_note list" where
  "list_notes uid t = sort_key nt_created (filter (\<lambda>n. nt_incident n = uid) (t_notes t))"

definition list_history :: "nat \<Rightarrow> tables \<Rightarrow> history_entry list" where
  "list_history uid t = rev (sort_key hi_created (rev (filter (\<lambda>h. hi_incident h = uid) (t_history t))))"

section \<open>Endpoints\<close>

definition incident_or_404 :: "incident_row option \<Rightarrow> http_error + incident_row" where
  "incident_or_404 v = (case v of None \<Rightarrow> Inl (HttpError 404 ''Incident not found'') | Some i \<Rightarrow> Inr i)"

record 'a page_response =
  pr_items :: "'a list"
  pr_total :: nat
  pr_page :: nat
  pr_page_size :: nat
  pr_pages :: nat

definition list_incidents_endpoint ::
  "(attr \<Rightarrow> 'k::linorder) \<Rightarrow> (string \<Rightarrow> exn option) \<Rightarrow> nat \<Rightarrow> nat \<Rightarrow> incident_filter \<Rightarrow> string \<Rightarrow> string \<Rightarrow> tables
   \<Rightarrow> http_error + incident_row page_response" where
  "list_incidents_endpoint rank other page page_size f sort_by sort_order t =
     (case list_incidents rank other page page_size f sort_by sort_order t of
        Inl e \<Rightarrow> Inl internal_error
      | Inr (rows, n) \<Rightarrow> Inr \<lparr>pr_items = rows, pr_total = n, pr_page = page, pr_page_size = page_size,
                           pr_pages = pages_of n page_size\<rparr>)"

definition get_incident_endpoint :: "nat \<Rightarrow> tables \<Rightarrow> http_error + incident_row" where
  "get_incident_endpoint uid t = incident_or_404 (get_incident uid t)"

definition list_notes_endpoint :: "nat \<Rightarrow> tables \<Rightarrow> http_error + incident_note list" where
  "list_notes_endpoint uid t =
     (case incident_or_404 (get_incident uid t) of Inl e \<Rightarrow> Inl e | Inr i \<Rightarrow> Inr (list_notes uid t))"

definition list_history_endpoint :: "nat \<Rightarrow> tables \<Rightarrow> http_error + history_entry list" where
  "list_history_endpoint uid t =
     (case incident_or_404 (get_incident uid t) of Inl e \<Rightarrow> Inl e | Inr i \<Rightarrow> Inr (list_history uid t))"

section \<open>What a list shows\<close>

text \<open>The filter as a predicate on incidents, and the filters the enumerations accept.\<close>

definition has_member :: "string \<Rightarrow> string option \<Rightarrow> incident_row \<Rightarrow> bool" where
  "has_member col v i \<longleftrightarrow> (case wanted v of None \<Rightarrow> True | Some s \<Rightarrow> old_text (column_value col i) = Some s)"

definition selected :: "incident_filter \<Rightarrow> incident_row \<Rightarrow> bool" where
  "selected f i \<longleftrightarrow>
     has_member ''severity'' (if_severity f) i \<and> has_member ''status'' (if_status f) i \<and>
     has_member ''channel'' (if_channel f) i \<and>
     (case wanted (if_policy_name f) of None \<Rightarrow> True | Some q \<Rightarrow> column_like q ''policy_name'' i) \<and>
     (case wanted (if_search f) of None \<Rightarrow> True | Some q \<Rightarrow> incident_like q i)"

definition member_ok :: "string list \<Rightarrow> string option \<Rightarrow> bool" where
  "member_ok members v \<longleftrightarrow> (case wanted v of None \<Rightarrow> True | Some s \<Rightarrow> s \<in> set members)"

definition filter_ok :: "incident_filter \<Rightarrow> bool" where
  "filter_ok f \<longleftrightarrow> member_ok severity_values (if_severity f) \<and>
     member_ok incident_status_values (if_status f) \<and> member_ok channel_values (if_channel f)"

lemma where_member_eq:
  "where_member cls members col v rows =
     (if member_ok members v then Inr (filter (has_member col v) rows)
      else Inl (Exn ValueError (repr_str (the v) @ '' is not a valid '' @ cls)))"
proof (cases "wanted v")
  case None
  then have "has_member col v = (\<lambda>i. True)" by (simp add: has_member_def fun_eq_iff)
  then show ?thesis using None by (simp add: where_member_def member_ok_def)
next
  case (Some s)
  then have "has_member col v = (\<lambda>i. old_text (column_value col i) = Some s)" "the v = s"
    by (auto simp: has_member_def fun_eq_iff wanted_def split: option.splits if_splits)
  then show ?thesis using Some by (simp add: where_member_def member_ok_def enum_member_def)
qed

lemma wanted_filter:
  "(case wanted v of None \<Rightarrow> rows | Some q \<Rightarrow> filter (p q) rows) =
     filter (\<lambda>i. case wanted v of None \<Rightarrow> True | Some q \<Rightarrow> p q i) rows"
  by (cases "wanted v") simp_all

lemma incident_base_ok:
  assumes "filter_ok f"
  shows "incident_base f t = Inr (filter (selected f) (t_incidents t))"
  using assms
  by (simp add: incident_base_def where_member_eq filter_ok_def Let_def wanted_filter selected_def [abs_def]
      conj_commute conj_left_commute)

lemma incident_base_fails: "\<not> filter_ok f \<Longrightarrow> \<exists>e. incident_base f t = Inl e"
  by (auto simp: incident_base_def where_member_eq filter_ok_def)

lemma order_by_mset [simp]: "mset (order_by rank col ord rows) = mset rows"
  by (simp add: order_by_def)

lemma order_by_length [simp]: "length (order_by rank col ord rows) = length rows"
  by (simp add: order_by_def)




text \<open>A filter value no enumeration has, or an attribute that cannot be sorted by, is an internal error.\<close>

lemma bad_query_fails:
  "\<not> filter_ok f \<or> (\<exists>e. sort_column other sort_by = Inl e) \<Longrightarrow>
     list_incidents_endpoint rank other page page_size f sort_by sort_order t = Inl internal_error"
  using incident_base_fails [of f t] incident_base_ok [of f t]
  by (cases "filter_ok f") (auto simp: list_incidents_endpoint_def list_incidents_def)

definition attr_rank :: "attr \<Rightarrow> nat" where
  "attr_rank a = (case a of IntAttr n \<Rightarrow> nat n | _ \<Rightarrow> 0)"

definition three_incidents :: tables where
  "three_incidents =
     \<lparr>t_incidents =
        [\<lparr>in_id = 1, in_attrs = [(''severity'', EnumAttr ''high''), (''created_at'', IntAttr 10)]\<rparr>,
         \<lparr>in_id = 2, in_attrs = [(''severity'', EnumAttr ''low''), (''created_at'', IntAttr 20)]\<rparr>,
         \<lparr>in_id = 3, in_attrs = [(''severity'', EnumAttr ''high''), (''created_at'', IntAttr 30)]\<rparr>],
      t_notes = [], t_history = [], t_audit = []\<rparr>"

definition high_ones :: incident_filter where
  "high_ones = \<lparr>if_severity = Some ''high'', if_status = None, if_channel = Some [], if_policy_name = None,
     if_search = None\<rparr>"




lemma second_high_one:
  "list_incidents attr_rank (\<lambda>a. None) 2 1 high_ones ''created_at'' ''desc'' three_incidents =
     Inr ([\<lparr>in_id = 1, in_attrs = [(''severity'', EnumAttr ''high''), (''created_at'', IntAttr 10)]\<rparr>], 2)"
  by code_simp

section \<open>Notes and history are complete\<close>

lemma list_notes_spec:
  "mset (list_notes uid t) = mset (filter (\<lambda>n. nt_incident n = uid) (t_notes t)) \<and>
     sorted (map nt_created (list_notes uid t))"
  by (simp add: list_notes_def)

lemma list_history_spec:
  "mset (list_history uid t) = mset (filter (\<lambda>h. hi_incident h = uid) (t_history t)) \<and>
     sorted (rev (map hi_created (list_history uid t)))"
  by (simp add: list_history_def rev_map)

end
