(* ===== verification/Maintenance.thy ===== *)
theory Maintenance
  imports IncidentQueries "HOL-Library.Product_Lexorder"
begin

text \<open>
  \<open>server/services/db_maintenance.py\<close>: monthly partitions of the incidents table, the archive of old
  incidents, reindexing and statistics. The database is the catalog of its relations with their
  kinds, the partitions of the incidents table, the tables of incidents, and the archive once it
  exists; a statement the database refuses raises and the code rolls back. A date is a triple of year,
  month and day, a time a number of microseconds.
\<close>

section \<open>The database\<close>

type_synonym date = "int \<times> int \<times> int"

record partition =
  pa_name :: string
  pa_from :: date
  pa_to :: date

record dlp_db =
  db_relations :: "(string \<times> char) list"
  db_partitions :: "partition list"
  db_tables :: tables
  db_archive :: "incident_row list option"

record clock =
  ck_year :: int
  ck_month :: int
  ck_time :: int

text \<open>What the database lets the maintenance do, besides the rules of its statements.\<close>

record db_env =
  may_create_archive :: bool
  same_columns :: bool
  in_transaction :: bool

definition relation_exists :: "string \<Rightarrow> dlp_db \<Rightarrow> bool" where
  "relation_exists name db \<longleftrightarrow> name \<in> fst ` set (db_relations db)"

section \<open>Partitions\<close>

definition MONTHS_AHEAD :: int where "MONTHS_AHEAD = 3"

definition month_at :: "int \<Rightarrow> int \<Rightarrow> int \<Rightarrow> int \<times> int" where
  "month_at year month offset = (year + (month + offset - 1) div 12, (month + offset - 1) mod 12 + 1)"

definition pad2 :: "int \<Rightarrow> string" where
  "pad2 n = (let s = int_str n in replicate (2 - length s) CHR ''0'' @ s)"

definition partition_name :: "int \<Rightarrow> int \<Rightarrow> string" where
  "partition_name year month = ''incidents_'' @ int_str year @ ''_'' @ pad2 month"

text \<open>\<open>datetime(year, month, 1)\<close> and the range of years it accepts.\<close>

definition first_of :: "int \<Rightarrow> int \<Rightarrow> date res" where
  "first_of year month =
     (if year < 1 \<or> 9999 < year then Inl (Exn ValueError (''year '' @ int_str year @ '' is out of range''))
      else Inr (year, month, 1))"

definition partition_for :: "int \<Rightarrow> int \<Rightarrow> partition res" where
  "partition_for year month =
     rbind (first_of year month) (\<lambda>start_date.
     rbind (if month = 12 then first_of (year + 1) 1 else first_of year (month + 1)) (\<lambda>end_date.
       Inr \<lparr>pa_name = partition_name year month, pa_from = start_date, pa_to = end_date\<rparr>))"

text \<open>
  \<open>CREATE TABLE IF NOT EXISTS name PARTITION OF incidents FOR VALUES FROM (a) TO (b)\<close>: refused when
  the table is not partitioned or the range overlaps that of another partition.
\<close>

definition overlap :: "partition \<Rightarrow> partition \<Rightarrow> bool" where
  "overlap p q \<longleftrightarrow> pa_from p < pa_to q \<and> pa_from q < pa_to p"

definition create_partition :: "partition \<Rightarrow> dlp_db \<Rightarrow> dlp_db res" where
  "create_partition p db =
     (if relation_exists (pa_name p) db then Inr db
      else if (''incidents'', CHR ''p'') \<notin> set (db_relations db) then Inl db_error
      else if list_ex (overlap p) (db_partitions db) then Inl db_error
      else Inr (db\<lparr>db_relations := db_relations db @ [(pa_name p, CHR ''r'')],
                  db_partitions := db_partitions db @ [p]\<rparr>))"

definition ensure_partition :: "clock \<Rightarrow> int \<Rightarrow> (string list \<times> dlp_db tx) proc" where
  "ensure_partition now offset =
     (let (year, month) = month_at (ck_year now) (ck_month now) offset in
      with_res (partition_for year month) (\<lambda>p.
        pure_proc (\<lambda>(created, s).
          if relation_exists (pa_name p) (tx_work s) then (created, s)
          else (case create_partition p (tx_work s) of
                  Inr db \<Rightarrow> (created @ [pa_name p], tx_commit (tx_do (\<lambda>_. db) s))
                | Inl e \<Rightarrow> (created, tx_close s)))))"

definition ensure_partitions :: "clock \<Rightarrow> int \<Rightarrow> dlp_db tx \<Rightarrow> string list res \<times> dlp_db tx" where
  "ensure_partitions now months_ahead s =
     (case for_proc (ensure_partition now) [-1..months_ahead] ([], s) of
        (None, created, s') \<Rightarrow> (Inr created, s')
      | (Some e, created, s') \<Rightarrow> (Inl e, s'))"

section \<open>The archive\<close>

definition DEFAULT_RETENTION_DAYS :: int where "DEFAULT_RETENTION_DAYS = 365"

text \<open>\<open>now - timedelta(days=retention_days)\<close>\<close>

definition overflow_error :: exn where
  "overflow_error = Exn (OtherError ''OverflowError'') ''date value out of range''"

definition cutoff_of :: "clock \<Rightarrow> int \<Rightarrow> int res" where
  "cutoff_of now retention_days =
     (let t = ck_time now - retention_days * 86400000000 in
      if 999999999 < \<bar>retention_days\<bar> \<or> t < -62135596800000000 \<or> 253402300800000000 \<le> t then Inl overflow_error
      else Inr t)"

definition older :: "int \<Rightarrow> incident_row \<Rightarrow> bool" where
  "older cutoff i = (case get_attr i ''created_at'' of IntAttr t \<Rightarrow> t < cutoff | _ \<Rightarrow> False)"

definition create_archive :: "db_env \<Rightarrow> dlp_db \<Rightarrow> dlp_db res" where
  "create_archive env db =
     (if db_archive db \<noteq> None then Inr db
      else if \<not> may_create_archive env then Inl db_error
      else Inr (db\<lparr>db_archive := Some [], db_relations := db_relations db @ [(''incidents_archive'', CHR ''r'')]\<rparr>))"

definition insert_archive :: "db_env \<Rightarrow> int \<Rightarrow> dlp_db \<Rightarrow> dlp_db res" where
  "insert_archive env cutoff db =
     (case db_archive db of
        None \<Rightarrow> Inl db_error
      | Some rows \<Rightarrow>
          if \<not> same_columns env then Inl db_error
          else Inr (db\<lparr>db_archive := Some (rows @ filter (\<lambda>i. older cutoff i \<and> in_id i \<notin> in_id ` set rows)
                                                   (t_incidents (db_tables db)))\<rparr>))"

text \<open>
  \<open>DELETE FROM incidents\<close>: the foreign keys of notes and history are declared \<open>ON DELETE CASCADE\<close>, so
  the rows of a deleted incident go with it.
\<close>

definition delete_old :: "int \<Rightarrow> tables \<Rightarrow> tables" where
  "delete_old cutoff t =
     (let gone = in_id ` set (filter (older cutoff) (t_incidents t)) in
      t\<lparr>t_incidents := filter (\<lambda>i. \<not> older cutoff i) (t_incidents t),
        t_notes := filter (\<lambda>n. nt_incident n \<notin> gone) (t_notes t),
        t_history := filter (\<lambda>h. hi_incident h \<notin> gone) (t_history t)\<rparr>)"

definition archive_old_incidents :: "db_env \<Rightarrow> clock \<Rightarrow> int \<Rightarrow> dlp_db tx \<Rightarrow> nat res \<times> dlp_db tx" where
  "archive_old_incidents env now retention_days s =
     (case cutoff_of now retention_days of
        Inl e \<Rightarrow> (Inl e, s)
      | Inr cutoff \<Rightarrow>
          (let s1 = (case create_archive env (tx_work s) of
                       Inr db \<Rightarrow> tx_commit (tx_do (\<lambda>_. db) s)
                     | Inl e \<Rightarrow> tx_close s)
           in case insert_archive env cutoff (tx_work s1) of
                Inl e \<Rightarrow> (Inr 0, tx_close s1)
              | Inr db \<Rightarrow>
                  (let count = length (filter (older cutoff) (t_incidents (db_tables db)));
                       db' = (if count > 0 then db\<lparr>db_tables := delete_old cutoff (db_tables db)\<rparr> else db)
                   in (Inr count, tx_commit (tx_do (\<lambda>_. db') s1)))))"

section \<open>Indexes and statistics\<close>

definition maintained_indexes :: "string list" where
  "maintained_indexes =
     [''ix_incidents_status'', ''ix_incidents_severity'', ''ix_incidents_created_at'', ''ix_incidents_channel'',
      ''ix_incidents_policy_name'']"

text \<open>
  \<open>REINDEX INDEX CONCURRENTLY\<close> is refused inside a transaction. A session begins one with its first
  statement, here the query for the index, unless the connection commits by itself.
\<close>

definition reindex_one :: "db_env \<Rightarrow> string \<Rightarrow> string list \<times> dlp_db tx \<Rightarrow> string list \<times> dlp_db tx" where
  "reindex_one env index_name = (\<lambda>(reindexed, s).
     if (index_name, CHR ''i'') \<notin> set (db_relations (tx_work s)) then (reindexed, s)
     else if in_transaction env then (reindexed, tx_close s)
     else (reindexed @ [index_name], tx_commit s))"

definition reindex :: "db_env \<Rightarrow> dlp_db tx \<Rightarrow> string list \<times> dlp_db tx" where
  "reindex env s = fold (reindex_one env) maintained_indexes ([], s)"

record db_stats =
  st_partitions :: "string list"
  st_partition_count :: nat
  st_archive_rows :: nat
  st_incident_rows :: nat

definition get_db_stats :: "dlp_db \<Rightarrow> db_stats" where
  "get_db_stats db =
     (let partitions = sort (map fst (filter (\<lambda>(name, kind). like ''incidents_%'' name \<and> kind = CHR ''r'') (db_relations db))) in
      \<lparr>st_partitions = partitions, st_partition_count = length partitions,
       st_archive_rows = (case db_archive db of None \<Rightarrow> 0 | Some rows \<Rightarrow> length rows),
       st_incident_rows = length (t_incidents (db_tables db))\<rparr>)"

record db_summary =
  sm_partitions :: "string list"
  sm_archived :: nat
  sm_reindexed :: "string list"
  sm_stats :: db_stats

definition run_all :: "db_env \<Rightarrow> clock \<Rightarrow> int \<Rightarrow> int \<Rightarrow> dlp_db tx \<Rightarrow> db_summary res \<times> dlp_db tx" where
  "run_all env now retention_days months_ahead s =
     (case ensure_partitions now months_ahead s of
        (Inl e, s1) \<Rightarrow> (Inl e, s1)
      | (Inr partitions, s1) \<Rightarrow>
          (case archive_old_incidents env now retention_days s1 of
             (Inl e, s2) \<Rightarrow> (Inl e, s2)
           | (Inr archived, s2) \<Rightarrow>
               (let (reindexed, s3) = reindex env s2 in
                (Inr \<lparr>sm_partitions = partitions, sm_archived = archived, sm_reindexed = reindexed,
                      sm_stats = get_db_stats (tx_work s3)\<rparr>, s3))))"

section \<open>Names and ranges of months\<close>

definition is_month :: "int \<Rightarrow> bool" where
  "is_month m \<longleftrightarrow> 1 \<le> m \<and> m \<le> 12"









definition month_partition :: "int \<Rightarrow> int \<Rightarrow> partition" where
  "month_partition y m = \<lparr>pa_name = partition_name y m, pa_from = (y, m, 1),
     pa_to = (if m = 12 then (y + 1, 1, 1) else (y, m + 1, 1))\<rparr>"

lemma partition_for_eq:
  "1 \<le> y \<Longrightarrow> y < 9999 \<Longrightarrow> partition_for y m = Inr (month_partition y m)"
  by (simp add: partition_for_def first_of_def month_partition_def)





lemma month_at_year: "fst (month_at y m k) = y + (m + k - 1) div 12"
  by (simp add: month_at_def)

section \<open>The partitions cover the coming months\<close>









lemma for_proc_None: "f x s = (None, s') \<Longrightarrow> for_proc f (x # xs) s = for_proc f xs s'"
  by simp

definition reachable_month :: "clock \<Rightarrow> int \<Rightarrow> bool" where
  "reachable_month now k \<longleftrightarrow> 1 \<le> fst (month_at (ck_year now) (ck_month now) k) \<and> fst (month_at (ck_year now) (ck_month now) k) < 9999"



lemma reachable_months:
  assumes "2 \<le> ck_year now" "is_month (ck_month now)" "12 * ck_year now + ck_month now + ahead \<le> 119988"
  shows "\<forall>k \<in> set [-1..ahead]. reachable_month now k"
  using assms by (auto simp: reachable_month_def month_at_year is_month_def)



definition fresh_db :: "char \<Rightarrow> dlp_db" where
  "fresh_db kind = \<lparr>db_relations = [(''incidents'', kind)], db_partitions = [], db_tables = three_incidents,
     db_archive = None\<rparr>"

definition december :: clock where
  "december = \<lparr>ck_year = 2025, ck_month = 12, ck_time = 1765000000000000\<rparr>"



text \<open>On a table that is not partitioned, as the first migration creates it, nothing is ever created.\<close>

lemma partition_refused:
  assumes "(''incidents'', CHR ''p'') \<notin> set (db_relations (tx_work s))" "tx_close s = s" "reachable_month now k"
  shows "ensure_partition now k (created, s) = (None, created, s)"
  using assms
  by (auto simp: ensure_partition_def reachable_month_def partition_for_eq with_res_def pure_proc_def create_partition_def
      split: prod.split)

lemma unpartitioned_creates_nothing:
  assumes "(''incidents'', CHR ''p'') \<notin> set (db_relations (tx_work s))" "tx_close s = s"
    and "2 \<le> ck_year now" "is_month (ck_month now)" "12 * ck_year now + ck_month now + ahead \<le> 119988"
  shows "ensure_partitions now ahead s = (Inr [], s)"
proof -
  have "for_proc (ensure_partition now) ks ([], s) = (None, [], s)" if "\<forall>k \<in> set ks. reachable_month now k" for ks
    using that by (induction ks) (simp_all add: partition_refused assms)
  then show ?thesis using reachable_months [OF assms(3-5)] by (simp add: ensure_partitions_def)
qed

section \<open>Archiving\<close>

definition archived_rows :: "dlp_db \<Rightarrow> incident_row list" where
  "archived_rows db = (case db_archive db of None \<Rightarrow> [] | Some rows \<Rightarrow> rows)"











definition permissive :: db_env where
  "permissive = \<lparr>may_create_archive = True, same_columns = True, in_transaction = True\<rparr>"

definition noted_db :: dlp_db where
  "noted_db = fresh_db CHR ''r''\<lparr>db_tables := three_incidents\<lparr>t_notes :=
     [\<lparr>nt_incident = 1, nt_author = 9, nt_content = ''seen'', nt_created = ''2024''\<rparr>]\<rparr>\<rparr>"


lemma note_is_lost:
  "(let s' = snd (archive_old_incidents permissive december 365 (tx_open noted_db)) in
    in_id ` set (archived_rows (tx_durable s')) = {1, 2, 3} \<and> t_notes (db_tables (tx_durable s')) = [])"
  by code_simp

section \<open>Statistics and indexes\<close>

text \<open>The underscore of the pattern stands for any character and the archive is an ordinary table: it is counted as a partition.\<close>

lemma archive_counted_as_partition:
  assumes "(''incidents_archive'', CHR ''r'') \<in> set (db_relations db)"
  shows "''incidents_archive'' \<in> set (st_partitions (get_db_stats db))"
proof -
  have "like ''incidents_%'' ''incidents_archive''" by code_simp
  then show ?thesis using assms by (force simp: get_db_stats_def Let_def)
qed

text \<open>Within a transaction no index is ever rebuilt.\<close>

lemma reindex_in_transaction: "in_transaction env \<Longrightarrow> fst (reindex env s) = []"
proof -
  assume t: "in_transaction env"
  have "fst (fold (reindex_one env) names (done', s)) = done'" for names done' s
    by (induction names arbitrary: s) (simp_all add: reindex_one_def t)
  then show ?thesis by (simp add: reindex_def)
qed

end
