(* ===== verification/Notifications.thy ===== *)
theory Notifications
  imports Auth "HOL-Library.Multiset"
begin

text \<open>
  Notifications: \<open>server/services/notification_service.py\<close> on the table of
  \<open>server/models/notification.py\<close>, and the endpoints of \<open>server/api/notifications.py\<close> behind their
  permission. A request is one transaction: an endpoint that commits leaves its changes, one that
  raises leaves none. The ids of rows come from a counter, times are numbers.
\<close>

section \<open>The table\<close>

datatype notification_type = INCIDENT_CREATED | POLICY_CHANGED | AGENT_STATUS | SYSTEM

datatype notification_severity = CRITICAL | HIGH | MEDIUM | LOW | INFO

record notification =
  nf_id :: nat
  nf_user :: nat
  nf_type :: notification_type
  nf_severity :: notification_severity
  nf_title :: string
  nf_message :: string
  nf_resource_type :: "string option"
  nf_resource_id :: "nat option"
  nf_read :: bool
  nf_created :: int

record notification_tables =
  nb_users :: "user_row list"
  nb_rows :: "notification list"
  nb_next :: nat

text \<open>The keyword arguments that describe a notification.\<close>

record notice =
  no_type :: notification_type
  no_severity :: notification_severity
  no_title :: string
  no_message :: string
  no_resource_type :: "string option"
  no_resource_id :: "nat option"

definition new_notification :: "int \<Rightarrow> notice \<Rightarrow> nat \<Rightarrow> nat \<Rightarrow> notification" where
  "new_notification now d uid nid =
     \<lparr>nf_id = nid, nf_user = uid, nf_type = no_type d, nf_severity = no_severity d, nf_title = no_title d,
      nf_message = no_message d, nf_resource_type = no_resource_type d, nf_resource_id = no_resource_id d,
      nf_read = False, nf_created = now\<rparr>"

text \<open>The lengths of the text columns.\<close>

definition notice_fits :: "notice \<Rightarrow> bool" where
  "notice_fits d \<longleftrightarrow> length (no_title d) \<le> 255 \<and>
     (case no_resource_type d of None \<Rightarrow> True | Some r \<Rightarrow> length r \<le> 50)"

section \<open>The service\<close>

definition create_notification :: "int \<Rightarrow> notice \<Rightarrow> nat \<Rightarrow> notification_tables \<Rightarrow> notification res \<times> notification_tables" where
  "create_notification now d user_id t =
     (if user_id \<notin> us_id ` set (nb_users t) then (Inl integrity_error, t)
      else if \<not> notice_fits d then (Inl db_error, t)
      else (let n = new_notification now d user_id (nb_next t) in
            (Inr n, t\<lparr>nb_rows := nb_rows t @ [n], nb_next := nb_next t + 1\<rparr>)))"

definition active_ids :: "notification_tables \<Rightarrow> nat list" where
  "active_ids t = map us_id (filter us_active (nb_users t))"

definition notify_all_users :: "int \<Rightarrow> notice \<Rightarrow> notification_tables \<Rightarrow> nat res \<times> notification_tables" where
  "notify_all_users now d t =
     (let user_ids = active_ids t;
          added = map (\<lambda>(uid, nid). new_notification now d uid nid) (zip user_ids [nb_next t..<nb_next t + length user_ids])
      in if user_ids \<noteq> [] \<and> \<not> notice_fits d then (Inl db_error, t)
         else (Inr (length user_ids), t\<lparr>nb_rows := nb_rows t @ added, nb_next := nb_next t + length user_ids\<rparr>))"

definition is_unread :: "notification \<Rightarrow> bool" where
  "is_unread n \<longleftrightarrow> \<not> nf_read n"

definition list_notifications ::
  "nat \<Rightarrow> nat \<Rightarrow> nat \<Rightarrow> bool \<Rightarrow> notification_tables \<Rightarrow> notification list \<times> nat" where
  "list_notifications user_id page page_size unread_only t =
     (let base = filter (\<lambda>n. nf_user n = user_id) (nb_rows t);
          base' = (if unread_only then filter is_unread base else base)
      in (page_of page page_size (sort_key (\<lambda>n. - nf_created n) base'), length base'))"

definition get_unread_count :: "nat \<Rightarrow> notification_tables \<Rightarrow> nat" where
  "get_unread_count user_id t = length (filter is_unread (filter (\<lambda>n. nf_user n = user_id) (nb_rows t)))"

text \<open>An update of the rows of a user that satisfy a condition, with the number of rows it touched.\<close>

definition update_where :: "(notification \<Rightarrow> bool) \<Rightarrow> notification_tables \<Rightarrow> nat \<times> notification_tables" where
  "update_where p t =
     (length (filter p (nb_rows t)), t\<lparr>nb_rows := map (\<lambda>n. if p n then n\<lparr>nf_read := True\<rparr> else n) (nb_rows t)\<rparr>)"

definition mark_as_read :: "nat \<Rightarrow> nat \<Rightarrow> notification_tables \<Rightarrow> bool \<times> notification_tables" where
  "mark_as_read nid user_id t =
     (let (rowcount, t') = update_where (\<lambda>n. nf_id n = nid \<and> nf_user n = user_id) t in (rowcount > 0, t'))"

definition mark_all_as_read :: "nat \<Rightarrow> notification_tables \<Rightarrow> nat \<times> notification_tables" where
  "mark_all_as_read user_id t = update_where (\<lambda>n. nf_user n = user_id \<and> is_unread n) t"

definition delete_notification :: "nat \<Rightarrow> nat \<Rightarrow> notification_tables \<Rightarrow> bool \<times> notification_tables" where
  "delete_notification nid user_id t =
     (length (filter (\<lambda>n. nf_id n = nid \<and> nf_user n = user_id) (nb_rows t)) > 0,
      t\<lparr>nb_rows := filter (\<lambda>n. \<not> (nf_id n = nid \<and> nf_user n = user_id)) (nb_rows t)\<rparr>)"

section \<open>The endpoints\<close>

datatype notification_request =
    ListNotifications nat nat bool
  | UnreadCount
  | MarkRead nat
  | MarkAllRead
  | DeleteNotification nat

datatype notification_answer =
    Notifications "notification list" nat nat
  | Count nat
  | Success
  | Updated nat
  | Refused http_error

definition notification_missing :: notification_answer where
  "notification_missing = Refused (HttpError 404 ''Notification not found'')"

definition list_notifications_endpoint ::
  "nat \<Rightarrow> nat \<Rightarrow> nat \<Rightarrow> bool \<Rightarrow> notification_tables \<Rightarrow> notification_answer \<times> notification_tables" where
  "list_notifications_endpoint uid page page_size unread_only t =
     (let (items, n) = list_notifications uid page page_size unread_only t in
      (Notifications items n (pages_of n page_size), t))"

definition unread_count :: "nat \<Rightarrow> notification_tables \<Rightarrow> notification_answer \<times> notification_tables" where
  "unread_count uid t = (Count (get_unread_count uid t), t)"

definition mark_read :: "nat \<Rightarrow> nat \<Rightarrow> notification_tables \<Rightarrow> notification_answer \<times> notification_tables" where
  "mark_read uid nid t =
     (let (updated, t') = mark_as_read nid uid t in if \<not> updated then (notification_missing, t) else (Success, t'))"

definition mark_all_read :: "nat \<Rightarrow> notification_tables \<Rightarrow> notification_answer \<times> notification_tables" where
  "mark_all_read uid t = (let (n, t') = mark_all_as_read uid t in (Updated n, t'))"

definition delete_notification_endpoint :: "nat \<Rightarrow> nat \<Rightarrow> notification_tables \<Rightarrow> notification_answer \<times> notification_tables" where
  "delete_notification_endpoint uid nid t =
     (let (deleted, t') = delete_notification nid uid t in if \<not> deleted then (notification_missing, t) else (Success, t'))"

lemmas notification_endpoints [simp] =
  list_notifications_endpoint_def unread_count_def mark_read_def mark_all_read_def delete_notification_endpoint_def

fun serve_notification ::
  "nat \<Rightarrow> notification_request \<Rightarrow> notification_tables \<Rightarrow> notification_answer \<times> notification_tables" where
  "serve_notification uid (ListNotifications page page_size unread_only) t =
     list_notifications_endpoint uid page page_size unread_only t"
| "serve_notification uid UnreadCount t = unread_count uid t"
| "serve_notification uid (MarkRead nid) t = mark_read uid nid t"
| "serve_notification uid MarkAllRead t = mark_all_read uid t"
| "serve_notification uid (DeleteNotification nid) t = delete_notification_endpoint uid nid t"

text \<open>The bounds of the query parameters and the permission stand before the endpoint.\<close>

definition valid_page :: "notification_request \<Rightarrow> bool" where
  "valid_page rq = (case rq of ListNotifications page page_size u \<Rightarrow> 1 \<le> page \<and> 1 \<le> page_size \<and> page_size \<le> 100 | _ \<Rightarrow> True)"

definition guarded_notification ::
  "auth_lib \<Rightarrow> int \<Rightarrow> string option \<Rightarrow> notification_request \<Rightarrow> notification_tables
   \<Rightarrow> notification_answer \<times> notification_tables" where
  "guarded_notification lib now credentials rq t =
     (case RequirePermission ''incidents:read'' lib now credentials of
        Inl e \<Rightarrow> (Refused e, t)
      | Inr user \<Rightarrow>
          if \<not> valid_page rq then (Refused (HttpError 422 ''Unprocessable Entity''), t)
          else serve_notification (cu_id user) rq t)"

section \<open>A mailbox per user\<close>

definition mailbox :: "nat \<Rightarrow> notification_tables \<Rightarrow> notification list" where
  "mailbox u t = filter (\<lambda>n. nf_user n = u) (nb_rows t)"

text \<open>Two states a user cannot tell apart, now or later.\<close>

definition same_view :: "nat \<Rightarrow> notification_tables \<Rightarrow> notification_tables \<Rightarrow> bool" where
  "same_view u t t' \<longleftrightarrow> mailbox u t = mailbox u t' \<and> nb_users t = nb_users t' \<and> nb_next t = nb_next t'"

named_theorems mailbox_simps "the mailbox of a user after an operation"

lemma filter_own: "filter (\<lambda>n. p n \<and> nf_user n = u) (nb_rows t) = filter p (mailbox u t)"
  by (auto simp: mailbox_def intro!: filter_cong)

lemma mailbox_update [mailbox_simps]:
  "mailbox u (snd (update_where p t)) = map (\<lambda>n. if p n then n\<lparr>nf_read := True\<rparr> else n) (mailbox u t)"
  by (simp add: mailbox_def update_where_def filter_map comp_def if_distrib [of nf_user] cong: if_cong)

lemma mailbox_update_other:
  "(\<And>n. p n \<Longrightarrow> nf_user n \<noteq> u) \<Longrightarrow> mailbox u (snd (update_where p t)) = mailbox u t"
  unfolding mailbox_update by (intro map_idI) (auto simp: mailbox_def)

lemma mailbox_delete [mailbox_simps]:
  "mailbox u (snd (delete_notification nid v t)) =
     (if u = v then filter (\<lambda>n. nf_id n \<noteq> nid) (mailbox u t) else mailbox u t)"
  by (auto simp: mailbox_def delete_notification_def intro!: filter_cong)

lemma update_counter [simp]:
  "nb_users (snd (update_where p t)) = nb_users t" "nb_next (snd (update_where p t)) = nb_next t"
  "nb_users (snd (delete_notification nid v t)) = nb_users t" "nb_next (snd (delete_notification nid v t)) = nb_next t"
  by (simp_all add: update_where_def delete_notification_def)

text \<open>The endpoints in terms of the updates they make.\<close>

abbreviation "own_id nid u \<equiv> (\<lambda>n. nf_id n = nid \<and> nf_user n = u)"

abbreviation "own_unread u \<equiv> (\<lambda>n. nf_user n = u \<and> is_unread n)"

lemma serve_eqs:
  "serve_notification u (MarkRead nid) t =
     (if fst (update_where (own_id nid u) t) > 0 then (Success, snd (update_where (own_id nid u) t))
      else (notification_missing, t))"
  "serve_notification u MarkAllRead t =
     (Updated (fst (update_where (own_unread u) t)), snd (update_where (own_unread u) t))"
  "serve_notification u (DeleteNotification nid) t =
     (if fst (delete_notification nid u t) then (Success, snd (delete_notification nid u t))
      else (notification_missing, t))"
  by (simp_all add: mark_as_read_def mark_all_as_read_def split: prod.split)

lemma serve_other:
  assumes "u \<noteq> v"
  shows "same_view u (snd (serve_notification v rq t)) t"
proof -
  have "mailbox u (snd (update_where (own_id nid v) t)) = mailbox u t"
    "mailbox u (snd (update_where (own_unread v) t)) = mailbox u t"
    "mailbox u (snd (delete_notification nid v t)) = mailbox u t" for nid
    using assms by (auto intro!: mailbox_update_other simp: mailbox_delete)
  then show ?thesis
    by (cases rq) (simp_all add: same_view_def serve_eqs split: prod.split del: serve_notification.simps(3-5))
qed

text \<open>What a user is answered and keeps, read off the mailbox.\<close>

lemma list_own: "list_notifications u page sz unread t =
    (let base = (if unread then filter is_unread (mailbox u t) else mailbox u t)
     in (page_of page sz (sort_key (\<lambda>n. - nf_created n) base), length base))"
  by (simp add: list_notifications_def mailbox_def)

lemma counts_own:
  "fst (update_where (own_id nid u) t) = length (filter (\<lambda>n. nf_id n = nid) (mailbox u t))"
  "fst (update_where (own_unread u) t) = length (filter is_unread (mailbox u t))"
  "fst (delete_notification nid u t) \<longleftrightarrow> length (filter (\<lambda>n. nf_id n = nid) (mailbox u t)) > 0"
  by (simp_all add: update_where_def delete_notification_def mailbox_def conj_commute)

lemma serve_own:
  assumes v: "same_view u t t'"
  shows "fst (serve_notification u rq t) = fst (serve_notification u rq t') \<and>
    same_view u (snd (serve_notification u rq t)) (snd (serve_notification u rq t'))"
proof -
  have m: "mailbox u t = mailbox u t'" using v by (simp add: same_view_def)
  have "same_view u (snd (update_where p t)) (snd (update_where p t'))"
    "same_view u (snd (delete_notification nid u t)) (snd (delete_notification nid u t'))" for p nid
    using v by (simp_all add: same_view_def mailbox_simps)
  then show ?thesis
    using v by (cases rq)
      (simp_all add: serve_eqs counts_own list_own get_unread_count_def mailbox_def [symmetric] m split: prod.split
        del: serve_notification.simps(3-5))
qed

section \<open>Privacy\<close>

datatype notification_event =
    Ask nat notification_request
  | Broadcast int notice
  | NotifyUser int notice nat

fun event_step :: "notification_event \<Rightarrow> notification_tables \<Rightarrow> notification_tables" where
  "event_step (Ask v rq) t = snd (serve_notification v rq t)"
| "event_step (Broadcast now d) t = snd (notify_all_users now d t)"
| "event_step (NotifyUser now d v) t = snd (create_notification now d v t)"

text \<open>What one user is answered over a sequence of events, and the events without the requests of others.\<close>

fun answers :: "nat \<Rightarrow> notification_event list \<Rightarrow> notification_tables \<Rightarrow> notification_answer list" where
  "answers u [] t = []"
| "answers u (e # es) t =
     (case e of Ask v rq \<Rightarrow> if v = u then [fst (serve_notification v rq t)] else [] | _ \<Rightarrow> []) @
     answers u es (event_step e t)"

fun concerns :: "nat \<Rightarrow> notification_event \<Rightarrow> bool" where
  "concerns u (Ask v rq) = (v = u)"
| "concerns u _ = True"

lemma same_view_sym: "same_view u t t' \<Longrightarrow> same_view u t' t"
  by (simp add: same_view_def)

lemma same_view_trans: "same_view u t t' \<Longrightarrow> same_view u t' t'' \<Longrightarrow> same_view u t t''"
  by (simp add: same_view_def)

lemma same_view_append:
  "same_view u t t' \<Longrightarrow> same_view u (t\<lparr>nb_rows := nb_rows t @ ns, nb_next := k\<rparr>) (t'\<lparr>nb_rows := nb_rows t' @ ns, nb_next := k\<rparr>)"
  by (simp add: same_view_def mailbox_def)

lemma event_same_view:
  assumes v: "same_view u t t'" and "concerns u e"
  shows "same_view u (event_step e t) (event_step e t')"
proof (cases e)
  case (Ask w rq)
  then show ?thesis using assms serve_own [OF v, of rq] by simp
next
  case (Broadcast now d)
  have "nb_users t = nb_users t'" "nb_next t = nb_next t'" using v by (simp_all add: same_view_def)
  then have "active_ids t = active_ids t'" "nb_next t = nb_next t'" by (simp_all add: active_ids_def)
  then show ?thesis using Broadcast v by (simp add: notify_all_users_def Let_def same_view_def mailbox_def)
next
  case (NotifyUser now d w)
  have "nb_users t = nb_users t'" "nb_next t = nb_next t'" using v by (simp_all add: same_view_def)
  then show ?thesis using NotifyUser v same_view_append [OF v] by (simp add: create_notification_def Let_def)
qed

lemma answers_same_view:
  assumes "same_view u t t'"
  shows "answers u es t = answers u (filter (concerns u) es) t'"
  using assms
proof (induction es arbitrary: t t')
  case (Cons e es)
  show ?case
  proof (cases "concerns u e")
    case True
    have "(case e of Ask v rq \<Rightarrow> if v = u then [fst (serve_notification v rq t)] else [] | _ \<Rightarrow> []) =
        (case e of Ask v rq \<Rightarrow> if v = u then [fst (serve_notification v rq t')] else [] | _ \<Rightarrow> [])"
      using serve_own [OF Cons.prems] by (cases e) auto
    then show ?thesis using True Cons.IH [OF event_same_view [OF Cons.prems True]] by simp
  next
    case False
    then obtain v rq where e: "e = Ask v rq" "v \<noteq> u" by (cases e) auto
    have "same_view u (event_step e t) t'"
      using serve_other [of u v rq t] same_view_trans [OF _ Cons.prems] e by simp
    then show ?thesis using False e Cons.IH by simp
  qed
qed simp

text \<open>
  C14: Notifications are private: whatever other users ask for, list, read or delete, a user is answered
  as if their requests had never been made.
\<close>

theorem notifications_are_private:
  "answers u es t = answers u (filter (concerns u) es) t"
  by (rule answers_same_view) (simp add: same_view_def)

section \<open>Broadcasts\<close>

lemma zip_owner:
  "distinct us \<Longrightarrow> length ids = length us \<Longrightarrow>
     (\<exists>nid. filter (\<lambda>n. nf_user n = u) (map (\<lambda>(uid, nid). new_notification now d uid nid) (zip us ids)) =
        (if u \<in> set us then [new_notification now d u nid] else []))"
proof (induction us arbitrary: ids)
  case (Cons w us)
  then obtain i ids' where ids: "ids = i # ids'" by (cases ids) auto
  obtain nid where ih: "filter (\<lambda>n. nf_user n = u) (map (\<lambda>(uid, nid). new_notification now d uid nid) (zip us ids')) =
      (if u \<in> set us then [new_notification now d u nid] else [])"
    using Cons ids by auto
  show ?case
  proof (cases "u = w")
    case True
    then have "u \<notin> set us" using Cons.prems by simp
    then show ?thesis using True ids ih by (intro exI [of _ i]) (simp add: new_notification_def [of now d w])
  next
    case False
    then show ?thesis using ids ih by (intro exI [of _ nid]) (simp add: new_notification_def [of now d w])
  qed
qed simp

text \<open>
  A broadcast that fits the columns gives every active user exactly one new unread notification and
  no one else any, and returns how many it gave.
\<close>

theorem broadcast_reaches_active_users:
  assumes "distinct (map us_id (nb_users t))" and "notice_fits d"
  shows "\<exists>t'. notify_all_users now d t = (Inr (length (active_ids t)), t') \<and>
    (\<forall>u. \<exists>nid. mailbox u t' = mailbox u t @ (if u \<in> set (active_ids t) then [new_notification now d u nid] else []))"
proof -
  have "distinct (active_ids t)" using assms(1) by (simp add: active_ids_def distinct_map_filter)
  then have "\<exists>nid. filter (\<lambda>n. nf_user n = u) (map (\<lambda>(uid, nid). new_notification now d uid nid)
        (zip (active_ids t) [nb_next t..<nb_next t + length (active_ids t)])) =
      (if u \<in> set (active_ids t) then [new_notification now d u nid] else [])" for u
    by (rule zip_owner) simp
  then show ?thesis using assms(2) by (auto simp: notify_all_users_def mailbox_def Let_def)
qed

definition office :: notification_tables where
  "office = \<lparr>nb_users =
       [\<lparr>us_id = 1, us_username = ''ann'', us_email = ''a@x'', us_password_hash = [], us_full_name = None, us_active = True,
         us_mfa_enabled = False, us_mfa_secret = None, us_role = 1\<rparr>,
        \<lparr>us_id = 2, us_username = ''bob'', us_email = ''b@x'', us_password_hash = [], us_full_name = None, us_active = False,
         us_mfa_enabled = False, us_mfa_secret = None, us_role = 1\<rparr>],
     nb_rows = [], nb_next = 1\<rparr>"

definition outage :: notice where
  "outage = \<lparr>no_type = SYSTEM, no_severity = HIGH, no_title = ''Outage'', no_message = ''Agents are offline'',
     no_resource_type = None, no_resource_id = None\<rparr>"

theorem broadcast_reaches_active_users_witness:
  "\<exists>t'. notify_all_users 7 outage office = (Inr 1, t') \<and> (\<exists>nid. mailbox 1 t' = [new_notification 7 outage 1 nid]) \<and>
     mailbox 2 t' = []"
proof -
  have "distinct (map us_id (nb_users office))" "notice_fits outage"
    by (simp_all add: office_def outage_def notice_fits_def)
  from broadcast_reaches_active_users [OF this, of 7]
  obtain t' where t': "notify_all_users 7 outage office = (Inr (length (active_ids office)), t')"
    and all: "\<forall>u. \<exists>nid. mailbox u t' = mailbox u office @
      (if u \<in> set (active_ids office) then [new_notification 7 outage u nid] else [])" by blast
  have "active_ids office = [1]" "mailbox u office = []" for u
    by (simp_all add: office_def active_ids_def mailbox_def)
  then show ?thesis using t' all [rule_format, of 1] all [rule_format, of 2] by simp
qed

text \<open>After \<open>read-all\<close> the count of unread notifications is zero.\<close>

lemma read_all_clears: "get_unread_count u (snd (serve_notification u MarkAllRead t)) = 0"
proof -
  have "filter is_unread (filter (\<lambda>n. nf_user n = u) (map (\<lambda>n. if own_unread u n then n\<lparr>nf_read := True\<rparr> else n) ns)) = []" for ns
    by (induction ns) (auto simp: is_unread_def)
  then show ?thesis
    by (simp add: serve_eqs get_unread_count_def update_where_def del: serve_notification.simps(4))
qed

end
