(* ===== verification/ReportsApi.thy ===== *)
theory ReportsApi
  imports IncidentQueries ReportExport
begin

text \<open>
  The report endpoints of \<open>server/api/reports.py\<close>: they read the incidents of a period from the table
  and hand them to the generators of reports and risk scores. A time a client sends has a time zone
  or has none; Python compares times of the same kind only. The column \<open>created_at\<close> holds
  microseconds, a report counts in seconds. An endpoint that takes the time twice has two clocks.
\<close>

section \<open>Times\<close>

datatype py_time = Naive (secs: rat) | Aware (secs: rat)

fun is_aware :: "py_time \<Rightarrow> bool" where
  "is_aware (Aware _) = True"
| "is_aware (Naive _) = False"

definition naive_error :: exn where
  "naive_error = Exn TypeError ''can't compare offset-naive and offset-aware datetimes''"

definition as_utc :: "py_time \<Rightarrow> py_time" where
  "as_utc t = Aware (secs t)"

fun before :: "py_time \<Rightarrow> rat \<Rightarrow> py_time" where
  "before (Naive t) d = Naive (t - d)"
| "before (Aware t) d = Aware (t - d)"

definition default_range :: "rat \<Rightarrow> py_time \<times> py_time" where
  "default_range now = (Aware (now - 30 * 86400), Aware now)"

text \<open>The range of a request: what is missing is taken from the default range.\<close>

definition range_or_default :: "rat \<Rightarrow> py_time option \<Rightarrow> py_time option \<Rightarrow> py_time \<times> py_time" where
  "range_or_default now start_date end_date =
     (let (d_start, d_end) = default_range now in
      (case start_date of Some t \<Rightarrow> t | None \<Rightarrow> d_start, case end_date of Some t \<Rightarrow> t | None \<Rightarrow> d_end))"

section \<open>Fetching incidents\<close>

record report_request =
  rr_start :: "py_time option"
  rr_end :: "py_time option"
  rr_severity :: "string option"
  rr_channel :: "string option"
  rr_policy_name :: "string option"

definition created_at :: "incident_row \<Rightarrow> rat" where
  "created_at i = (case get_attr i ''created_at'' of IntAttr t \<Rightarrow> of_int t / 1000000 | _ \<Rightarrow> 0)"

definition or_default :: "string \<Rightarrow> string option \<Rightarrow> string" where
  "or_default d v = (case wanted v of None \<Rightarrow> d | Some s \<Rightarrow> s)"

definition incident_record_of :: "incident_row \<Rightarrow> incident_record" where
  "incident_record_of r =
     \<lparr>ir_id = nat_str (in_id r), ir_policy_name = attr_str (get_attr r ''policy_name''),
      ir_severity = attr_str (get_attr r ''severity''), ir_status = attr_str (get_attr r ''status''),
      ir_channel = attr_str (get_attr r ''channel''),
      ir_source_type = or_default ''unknown'' (old_text (get_attr r ''source_type'')),
      ir_user = old_text (get_attr r ''user''), ir_file_name = old_text (get_attr r ''file_name''),
      ir_action_taken = or_default ''log'' (old_text (get_attr r ''action_taken'')),
      ir_match_count = (case get_attr r ''match_count'' of IntAttr n \<Rightarrow> n | _ \<Rightarrow> 0),
      ir_created_at = created_at r\<rparr>"

text \<open>
  A text compared with a column of an enumeration stands for the member with that value or that name;
  any other text is refused by the database.
\<close>

definition severity_texts :: "(string \<times> string) list" where
  "severity_texts = map (\<lambda>v. (v, v)) severity_values @
     [(''CRITICAL'', ''critical''), (''HIGH'', ''high''), (''MEDIUM'', ''medium''), (''LOW'', ''low''), (''INFO'', ''info'')]"

definition channel_texts :: "(string \<times> string) list" where
  "channel_texts = map (\<lambda>v. (v, v)) channel_values @
     [(''USB'', ''usb''), (''NETWORK_SHARE'', ''network_share''), (''CLIPBOARD'', ''clipboard''),
      (''BROWSER_UPLOAD'', ''browser_upload''), (''EMAIL'', ''email''), (''HTTP_UPLOAD'', ''http_upload''),
      (''DISCOVER'', ''discover'')]"

definition text_filter :: "(string \<times> string) list \<Rightarrow> string \<Rightarrow> string option \<Rightarrow> (incident_row \<Rightarrow> bool) res" where
  "text_filter texts col v =
     (case wanted v of
        None \<Rightarrow> Inr (\<lambda>i. True)
      | Some s \<Rightarrow> (case map_of texts s of
                    None \<Rightarrow> Inl db_error
                  | Some m \<Rightarrow> Inr (\<lambda>i. old_text (get_attr i col) = Some m)))"

definition fetch_incidents ::
  "rat \<Rightarrow> py_time option \<Rightarrow> py_time option \<Rightarrow> string option \<Rightarrow> string option \<Rightarrow> string option \<Rightarrow> tables
   \<Rightarrow> incident_record list res" where
  "fetch_incidents now start_date end_date severity channel policy_name t =
     (let (start, end') = range_or_default now start_date end_date;
          a = secs (as_utc start); b = secs (as_utc end')
      in rbind (text_filter severity_texts ''severity'' severity) (\<lambda>p.
         rbind (text_filter channel_texts ''channel'' channel) (\<lambda>q.
           Inr (map incident_record_of
             (filter (\<lambda>i. a \<le> created_at i \<and> created_at i \<le> b \<and> p i \<and> q i \<and>
                (case wanted policy_name of None \<Rightarrow> True | Some n \<Rightarrow> column_like n ''policy_name'' i))
              (t_incidents t))))))"

section \<open>Reports\<close>

text \<open>\<open>start <= created_at <= end\<close> for each incident: the first comparison between kinds raises.\<close>

definition compare_all :: "py_time \<Rightarrow> py_time \<Rightarrow> incident_record list \<Rightarrow> unit res" where
  "compare_all start end' incidents =
     (if list_ex (\<lambda>i. \<not> is_aware start \<or> secs start \<le> ir_created_at i \<and> \<not> is_aware end') incidents
      then Inl naive_error else Inr ())"

definition requested :: "rat \<Rightarrow> report_request \<Rightarrow> tables \<Rightarrow> incident_record list res" where
  "requested now body t =
     fetch_incidents now (rr_start body) (rr_end body) (rr_severity body) (rr_channel body) (rr_policy_name body) t"

definition run_report ::
  "(incident_record list \<Rightarrow> rat \<Rightarrow> rat \<Rightarrow> 'r) \<Rightarrow> rat \<Rightarrow> rat \<Rightarrow> report_request \<Rightarrow> tables \<Rightarrow> http_error + 'r" where
  "run_report generate now1 now2 body t =
     (case rbind (requested now1 body t) (\<lambda>incidents.
        (let (start, end') = range_or_default now2 (rr_start body) (rr_end body) in
         rbind (compare_all start end' incidents) (\<lambda>_. Inr (generate incidents (secs start) (secs end')))))
      of Inl e \<Rightarrow> Inl internal_error | Inr r \<Rightarrow> Inr r)"

definition summary_endpoint :: "rat \<Rightarrow> rat \<Rightarrow> report_request \<Rightarrow> tables \<Rightarrow> http_error + summary_report" where
  "summary_endpoint = run_report generate_summary"

definition summary_csv :: "printer \<Rightarrow> rat \<Rightarrow> rat \<Rightarrow> report_request \<Rightarrow> tables \<Rightarrow> http_error + string" where
  "summary_csv pr = run_report (\<lambda>incidents a b. export_summary_csv pr (generate_summary incidents a b))"

definition detail_endpoint :: "rat \<Rightarrow> rat \<Rightarrow> report_request \<Rightarrow> tables \<Rightarrow> http_error + detail_report" where
  "detail_endpoint = run_report generate_detail"

definition detail_csv :: "(rat \<Rightarrow> string) \<Rightarrow> rat \<Rightarrow> rat \<Rightarrow> report_request \<Rightarrow> tables \<Rightarrow> http_error + string" where
  "detail_csv isoformat = run_report (\<lambda>incidents a b. export_detail_csv isoformat (generate_detail incidents a b))"

section \<open>Trends\<close>

record trend_request =
  tq_start :: "py_time option"
  tq_end :: "py_time option"
  tq_previous_start :: "py_time option"
  tq_previous_end :: "py_time option"

text \<open>\<open>end - start\<close>\<close>

definition duration :: "py_time \<Rightarrow> py_time \<Rightarrow> rat res" where
  "duration start end' = (if is_aware start = is_aware end' then Inr (secs end' - secs start) else Inl naive_error)"

definition fetch_range :: "py_time \<Rightarrow> py_time \<Rightarrow> tables \<Rightarrow> incident_record list res" where
  "fetch_range start end' t = fetch_incidents 0 (Some start) (Some end') None None None t"

definition previous_incidents :: "trend_request \<Rightarrow> py_time \<Rightarrow> py_time \<Rightarrow> tables \<Rightarrow> incident_record list res" where
  "previous_incidents body start end' t =
     (case (tq_previous_start body, tq_previous_end body) of
        (Some p, Some q) \<Rightarrow> fetch_range p q t
      | _ \<Rightarrow> rbind (duration start end') (\<lambda>d. fetch_range (before start d) start t))"

definition run_trend :: "rat \<Rightarrow> trend_request \<Rightarrow> tables \<Rightarrow> trend_report res" where
  "run_trend now body t =
     (let (start, end') = range_or_default now (tq_start body) (tq_end body) in
      rbind (fetch_range start end' t) (\<lambda>current.
      rbind (previous_incidents body start end' t) (\<lambda>previous.
      rbind (duration start end') (\<lambda>_.
      rbind (compare_all start end' (current @ previous)) (\<lambda>_.
        Inr (generate_trend (current @ previous) (secs start) (secs end')))))))"

definition trend_endpoint :: "rat \<Rightarrow> trend_request \<Rightarrow> tables \<Rightarrow> http_error + trend_report" where
  "trend_endpoint now body t = (case run_trend now body t of Inl e \<Rightarrow> Inl internal_error | Inr r \<Rightarrow> Inr r)"

definition trend_csv :: "printer \<Rightarrow> rat \<Rightarrow> trend_request \<Rightarrow> tables \<Rightarrow> http_error + string" where
  "trend_csv pr now body t =
     (case run_trend now body t of Inl e \<Rightarrow> Inl internal_error | Inr r \<Rightarrow> Inr (export_trend_csv pr r))"

section \<open>Risk\<close>



section \<open>What a report counts\<close>

definition text_matches :: "(string \<times> string) list \<Rightarrow> string \<Rightarrow> string option \<Rightarrow> incident_row \<Rightarrow> bool" where
  "text_matches texts col v i =
     (case wanted v of None \<Rightarrow> True | Some s \<Rightarrow> map_of texts s \<noteq> None \<and> old_text (get_attr i col) = map_of texts s)"

definition text_ok :: "(string \<times> string) list \<Rightarrow> string option \<Rightarrow> bool" where
  "text_ok texts v = (case wanted v of None \<Rightarrow> True | Some s \<Rightarrow> map_of texts s \<noteq> None)"

definition created_in :: "rat \<Rightarrow> rat \<Rightarrow> incident_row \<Rightarrow> bool" where
  "created_in a b i \<longleftrightarrow> a \<le> created_at i \<and> created_at i \<le> b"

definition asked_for :: "report_request \<Rightarrow> rat \<Rightarrow> rat \<Rightarrow> incident_row \<Rightarrow> bool" where
  "asked_for body a b i \<longleftrightarrow> created_in a b i \<and>
     text_matches severity_texts ''severity'' (rr_severity body) i \<and>
     text_matches channel_texts ''channel'' (rr_channel body) i \<and>
     (case wanted (rr_policy_name body) of None \<Rightarrow> True | Some n \<Rightarrow> column_like n ''policy_name'' i)"

definition request_ok :: "report_request \<Rightarrow> bool" where
  "request_ok body \<longleftrightarrow> text_ok severity_texts (rr_severity body) \<and> text_ok channel_texts (rr_channel body)"

lemma text_filter_eq:
  "text_filter texts col v = (if text_ok texts v then Inr (text_matches texts col v) else Inl db_error)"
  by (auto simp: text_filter_def text_ok_def text_matches_def fun_eq_iff split: option.split)

lemma created_record [simp]: "ir_created_at (incident_record_of i) = created_at i"
  by (simp add: incident_record_of_def)

lemma requested_eq:
  assumes "request_ok body" "range_or_default now (rr_start body) (rr_end body) = (start, end')"
  shows "requested now body t =
    Inr (map incident_record_of (filter (asked_for body (secs start) (secs end')) (t_incidents t)))"
  using assms
  by (simp add: requested_def fetch_incidents_def request_ok_def text_filter_eq as_utc_def asked_for_def [abs_def]
      created_in_def Let_def conj_assoc)

lemma fetch_range_eq: "fetch_range start end' t =
    Inr (map incident_record_of (filter (created_in (secs start) (secs end')) (t_incidents t)))"
  by (simp add: fetch_range_def fetch_incidents_def text_filter_def wanted_def range_or_default_def default_range_def
      as_utc_def created_in_def [abs_def] Let_def)

lemma compare_aware: "compare_all (Aware a) (Aware b) incidents = Inr ()"
  by (simp add: compare_all_def list_ex_iff)

lemma in_period_record: "in_period a b \<circ> incident_record_of = created_in a b"
  by (simp add: in_period_def created_in_def fun_eq_iff)

lemma total_of_records:
  "sr_total (generate_summary (map incident_record_of is) a b) = length (filter (created_in a b) is)"
  by (simp add: generate_summary_def Let_def filter_map in_period_record)

lemma run_report_aware:
  assumes "request_ok body" "rr_start body = Some (Aware a)" "rr_end body = Some (Aware b)"
  shows "run_report generate now1 now2 body t =
    Inr (generate (map incident_record_of (filter (asked_for body a b) (t_incidents t))) a b)"
  using assms requested_eq [of body now1 "Aware a" "Aware b" t]
  by (simp add: run_report_def range_or_default_def default_range_def compare_aware)

text \<open>
  A summary and a detail report of a period with time zones count exactly the incidents of the table
  that were created in it and satisfy the filters; the detail report lists each of them once, the
  latest first.
\<close>

theorem reports_cover_the_period:
  assumes "request_ok body" and "rr_start body = Some (Aware a)" and "rr_end body = Some (Aware b)"
  shows "\<exists>sr dr. summary_endpoint now1 now2 body t = Inr sr \<and> detail_endpoint now1 now2 body t = Inr dr \<and>
    sr_total sr = length (filter (asked_for body a b) (t_incidents t)) \<and>
    mset (dr_incidents dr) = image_mset incident_record_of (filter_mset (asked_for body a b) (mset (t_incidents t))) \<and>
    sorted (rev (map ir_created_at (dr_incidents dr)))"
proof -
  let ?is = "filter (asked_for body a b) (t_incidents t)"
  let ?recs = "map incident_record_of ?is"
  have sub: "filter (created_in a b) ?is = ?is"
    by (auto simp: filter_id_conv asked_for_def simp del: filter_filter)
  have all: "filter (in_period a b) ?recs = ?recs"
    unfolding filter_map in_period_record sub ..
  have "sorted (map (\<lambda>i. - ir_created_at i) (sort_key (\<lambda>i. - ir_created_at i) ?recs))" by (rule sorted_sort_key)
  moreover have "sorted (map (\<lambda>i. - ir_created_at i) xs) \<Longrightarrow> sorted (rev (map ir_created_at xs))" for xs :: "incident_record list"
    by (induction xs) (auto simp: sorted_append)
  ultimately have "sorted (rev (map ir_created_at (sort_key (\<lambda>i. - ir_created_at i) ?recs)))" by blast
  then have "sorted (rev (map ir_created_at (dr_incidents (generate_detail ?recs a b))))"
    "mset (dr_incidents (generate_detail ?recs a b)) = mset ?recs"
    by (simp_all add: generate_detail_def Let_def all)
  moreover have "sr_total (generate_summary ?recs a b) = length ?is" unfolding total_of_records sub ..
  ultimately have "sr_total (generate_summary ?recs a b) = length ?is \<and>
      mset (dr_incidents (generate_detail ?recs a b)) =
        image_mset incident_record_of (filter_mset (asked_for body a b) (mset (t_incidents t))) \<and>
      sorted (rev (map ir_created_at (dr_incidents (generate_detail ?recs a b))))"
    by simp
  then show ?thesis
    unfolding summary_endpoint_def detail_endpoint_def run_report_aware [OF assms] by blast
qed

definition incident_days :: tables where
  "incident_days =
     \<lparr>t_incidents = map (\<lambda>(n, sev, day). \<lparr>in_id = n, in_attrs = [(''policy_name'', TextAttr ''PCI''),
          (''severity'', EnumAttr sev), (''created_at'', IntAttr (day * 1000000))]\<rparr>)
        [(1, ''high'', 100), (2, ''low'', 150), (3, ''high'', 200), (4, ''high'', 900)],
      t_notes = [], t_history = [], t_audit = []\<rparr>"

definition high_report :: report_request where
  "high_report = \<lparr>rr_start = Some (Aware 100), rr_end = Some (Aware 300), rr_severity = Some ''HIGH'', rr_channel = None,
     rr_policy_name = None\<rparr>"

lemma high_report_ok: "request_ok high_report"
  by (simp add: request_ok_def text_ok_def high_report_def wanted_def severity_texts_def severity_values_def)

lemma high_report_selects: "map in_id (filter (asked_for high_report 100 300) (t_incidents incident_days)) = [1, 3]"
  by (simp add: asked_for_def created_in_def text_matches_def high_report_def incident_days_def wanted_def severity_texts_def
      severity_values_def created_at_def get_attr_def dict_get_def)

theorem reports_cover_the_period_witness:
  "\<exists>sr. summary_endpoint 0 0 high_report incident_days = Inr sr \<and> sr_total sr = 2"
proof -
  have "length (filter (asked_for high_report 100 300) (t_incidents incident_days)) = 2"
    using arg_cong [OF high_report_selects, of length] by simp
  then show ?thesis
    using reports_cover_the_period [OF high_report_ok, of 100 300 0 0 incident_days] by (auto simp: high_report_def)
qed

text \<open>A range without a time zone is accepted and then fails on the first incident.\<close>

lemma naive_range_fails:
  assumes "request_ok body" "rr_start body = Some (Naive a)" "rr_end body = Some e"
    and "i \<in> set (t_incidents t)" "asked_for body a (secs e) i"
  shows "run_report generate now1 now2 body t = Inl internal_error"
proof -
  have "list_ex (\<lambda>i. True) (map incident_record_of (filter (asked_for body a (secs e)) (t_incidents t)))"
    using assms(4,5) by (auto simp: list_ex_iff)
  then show ?thesis
    using requested_eq [OF assms(1), of now1 "Naive a" e t] assms(2,3)
    by (simp add: run_report_def range_or_default_def default_range_def compare_all_def list_ex_iff)
qed

section \<open>What a trend counts\<close>

definition no_previous :: "trend_request \<Rightarrow> bool" where
  "no_previous body \<longleftrightarrow> tq_previous_start body = None \<or> tq_previous_end body = None"

lemma run_trend_aware:
  assumes "tq_start body = Some (Aware a)" "tq_end body = Some (Aware b)" "no_previous body"
  shows "trend_endpoint now body t =
    Inr (generate_trend (map incident_record_of (filter (created_in a b) (t_incidents t) @
      filter (created_in (a - (b - a)) a) (t_incidents t))) a b)"
proof -
  have "previous_incidents body (Aware a) (Aware b) t =
      Inr (map incident_record_of (filter (created_in (a - (b - a)) a) (t_incidents t)))"
    using assms(3) by (auto simp: previous_incidents_def no_previous_def duration_def fetch_range_eq split: option.split)
  then show ?thesis
    using assms(1,2)
    by (simp add: trend_endpoint_def run_trend_def range_or_default_def default_range_def fetch_range_eq duration_def
        compare_aware)
qed

lemma created_in_both:
  "created_in a b i \<and> created_in c d i \<longleftrightarrow> created_in (max a c) (min b d) i"
  by (auto simp: created_in_def)

lemma length_filters:
  "length (filter (created_in a b) (filter (created_in c d) is)) = length (filter (created_in (max a c) (min b d)) is)"
  by (simp add: created_in_both max.commute min.commute)

text \<open>
  A trend without a previous period of its own counts in the current period the incidents created in
  it, those of its first instant twice; and in the previous period those from one period's length
  before the start to one second before it, though the report says its period began a second earlier.
\<close>

theorem trend_counts:
  assumes "tq_start body = Some (Aware a)" "tq_end body = Some (Aware b)" "no_previous body" and "a \<le> b"
  shows "\<exists>r. trend_endpoint now body t = Inr r \<and>
    sr_total (tr_current r) =
      length (filter (created_in a b) (t_incidents t)) + length (filter (created_in a a) (t_incidents t)) \<and>
    sr_start (tr_previous r) = a - 1 - (b - a) \<and> sr_end (tr_previous r) = a - 1 \<and>
    sr_total (tr_previous r) = length (filter (created_in (a - (b - a)) (a - 1)) (t_incidents t))"
proof -
  let ?is = "t_incidents t" and ?p = "a - (b - a)"
  let ?both = "filter (created_in a b) ?is @ filter (created_in ?p a) ?is"
  let ?r = "generate_trend (map incident_record_of ?both) a b"
  have none: "filter (created_in (max (a - 1 - (b - a)) a) (min (a - 1) b)) ?is = []"
    by (simp add: filter_empty_conv created_in_def)
  have "sr_total (tr_current ?r) = length (filter (created_in a b) ?is) + length (filter (created_in (max a ?p) (min b a)) ?is)"
    unfolding generate_trend_def Let_def trend_report.select_convs total_of_records filter_append length_append length_filters
    by simp
  moreover have "max a ?p = a" "min b a = a" using assms(4) by simp_all
  moreover have "sr_total (tr_previous ?r) = length (filter (created_in (max (a - 1 - (b - a)) ?p) (min (a - 1) a)) ?is)"
    unfolding generate_trend_def Let_def trend_report.select_convs total_of_records filter_append length_append length_filters
      none by simp
  moreover have "max (a - 1 - (b - a)) ?p = ?p" "min (a - 1) a = a - 1" by simp_all
  moreover have "sr_start (tr_previous ?r) = a - 1 - (b - a)" "sr_end (tr_previous ?r) = a - 1"
    by (simp_all add: generate_trend_def Let_def generate_summary_def)
  ultimately show ?thesis using run_trend_aware [OF assms(1-3), of now t] by simp
qed

definition two_days :: trend_request where
  "two_days = \<lparr>tq_start = Some (Aware 100), tq_end = Some (Aware 250), tq_previous_start = None, tq_previous_end = None\<rparr>"

theorem trend_counts_witness:
  "\<exists>r. trend_endpoint 0 two_days incident_days = Inr r \<and> sr_total (tr_current r) = 4"
proof -
  have "length (filter (created_in 100 250) (t_incidents incident_days)) = 3"
    "length (filter (created_in 100 100) (t_incidents incident_days)) = 1"
    by (simp_all add: created_in_def incident_days_def created_at_def get_attr_def dict_get_def)
  then show ?thesis
    using trend_counts [of two_days 100 250 0 incident_days] by (auto simp: two_days_def no_previous_def)
qed

text \<open>A previous period that the client chooses is fetched, but the report is of the period before the current one.\<close>

lemma chosen_period_ignored:
  assumes "tq_start body = Some (Aware a)" "tq_end body = Some (Aware b)"
    and "tq_previous_start body = Some p" "tq_previous_end body = Some q"
  shows "\<exists>r. trend_endpoint now body t = Inr r \<and> sr_start (tr_previous r) = a - 1 - (b - a) \<and> sr_end (tr_previous r) = a - 1"
  using assms
  by (simp add: trend_endpoint_def run_trend_def range_or_default_def default_range_def fetch_range_eq duration_def
      compare_aware previous_incidents_def generate_trend_def generate_summary_def Let_def)

section \<open>What the risk report counts\<close>


end
