(* ===== verification/Shutdown.thy ===== *)
theory Shutdown
  imports Complex_Main PyText "HOL-Library.Multiset"
begin

text \<open>
  Starting and stopping the server: \<open>server/shutdown.py\<close>, the lifespan of \<open>server/main.py\<close> and the check
  of the configuration in \<open>server/config.py\<close>. A handler is what it does when it is called: after some
  time it returns or raises, or it never comes back. Time passes in handlers only; handlers of one group
  run together, so a group takes as long as its slowest handler.
\<close>

section \<open>Tasks\<close>

record behaviour =
  bh_time :: "rat option"
  bh_raises :: "exn option"

type_synonym kwargs = "(string \<times> int) list"

record shutdown_task =
  sk_name :: string
  sk_handler :: "kwargs \<Rightarrow> behaviour"
  sk_kwargs :: kwargs
  sk_priority :: int

record coordinator =
  co_tasks :: "shutdown_task list"
  co_shutting_down :: bool
  co_event_set :: bool

definition new_coordinator :: coordinator where
  "new_coordinator = \<lparr>co_tasks = [], co_shutting_down = False, co_event_set = False\<rparr>"

definition register_task :: "string \<Rightarrow> (kwargs \<Rightarrow> behaviour) \<Rightarrow> int \<Rightarrow> kwargs \<Rightarrow> coordinator \<Rightarrow> coordinator" where
  "register_task name handler priority kwargs c =
     c\<lparr>co_tasks := co_tasks c @
         [\<lparr>sk_name = name, sk_handler = handler, sk_kwargs = kwargs, sk_priority = priority\<rparr>]\<rparr>"

text \<open>The handler of SIGTERM and SIGINT.\<close>

definition signal_handler :: "coordinator \<Rightarrow> coordinator" where
  "signal_handler c = c\<lparr>co_shutting_down := True, co_event_set := True\<rparr>"

section \<open>Running a group\<close>

datatype stop_outcome = Stopped | Failed exn | Cancelled

definition task_time :: "shutdown_task \<Rightarrow> rat option" where
  "task_time k = bh_time (sk_handler k (sk_kwargs k))"

text \<open>\<open>_run_task\<close> under a time limit: an exception is caught, a task that is not done is cancelled.\<close>

definition run_task :: "rat \<Rightarrow> shutdown_task \<Rightarrow> stop_outcome" where
  "run_task remaining k =
     (case task_time k of
        None \<Rightarrow> Cancelled
      | Some d \<Rightarrow>
          if remaining < d then Cancelled
          else (case bh_raises (sk_handler k (sk_kwargs k)) of None \<Rightarrow> Stopped | Some e \<Rightarrow> Failed e))"

text \<open>How long \<open>wait_for(gather(...), timeout=remaining)\<close> takes.\<close>

definition task_wait :: "rat \<Rightarrow> shutdown_task \<Rightarrow> rat" where
  "task_wait remaining k = (case task_time k of None \<Rightarrow> remaining | Some d \<Rightarrow> min d remaining)"

definition group_wait :: "rat \<Rightarrow> shutdown_task list \<Rightarrow> rat" where
  "group_wait remaining ks = fold (\<lambda>k t. max t (task_wait remaining k)) ks 0"

section \<open>Shutting down\<close>

definition group_of :: "int \<Rightarrow> shutdown_task list \<Rightarrow> shutdown_task list" where
  "group_of p ks = filter (\<lambda>k. sk_priority k = p) ks"

definition priorities :: "shutdown_task list \<Rightarrow> int list" where
  "priorities ks = sorted_list_of_set (sk_priority ` set ks)"

text \<open>The tasks in the order they were run, with the time their group started and their outcome.\<close>

fun run_groups :: "rat \<Rightarrow> rat \<Rightarrow> shutdown_task list list \<Rightarrow> (rat \<times> shutdown_task \<times> stop_outcome) list \<times> rat" where
  "run_groups timeout elapsed [] = ([], elapsed)"
| "run_groups timeout elapsed (g # gs) =
     (let remaining = max (1 / 10) (timeout - elapsed) in
      if elapsed \<ge> timeout then ([], elapsed)
      else (let (done', t) = run_groups timeout (elapsed + group_wait remaining g) gs in
            (map (\<lambda>k. (elapsed, k, run_task remaining k)) g @ done', t)))"

definition shutdown_all ::
  "rat \<Rightarrow> coordinator \<Rightarrow> ((rat \<times> shutdown_task \<times> stop_outcome) list \<times> rat) \<times> coordinator" where
  "shutdown_all timeout c =
     (run_groups timeout 0 (map (\<lambda>p. group_of p (co_tasks c)) (priorities (co_tasks c))),
      c\<lparr>co_shutting_down := True\<rparr>)"

section \<open>Configuration\<close>

record server_settings =
  ss_jwt_secret :: string
  ss_cors_origins :: "string list"
  ss_debug :: bool

definition INSECURE_JWT_SECRET :: string where
  "INSECURE_JWT_SECRET = ''change-me-in-production''"

definition DEFAULT_CORS_ORIGINS :: "string list" where
  "DEFAULT_CORS_ORIGINS = [''http://localhost:3000'']"

definition default_server_settings :: server_settings where
  "default_server_settings = \<lparr>ss_jwt_secret = INSECURE_JWT_SECRET, ss_cors_origins = DEFAULT_CORS_ORIGINS, ss_debug = False\<rparr>"

definition validate_production_config :: "server_settings \<Rightarrow> unit res" where
  "validate_production_config st =
     (if ss_jwt_secret st = INSECURE_JWT_SECRET \<and> \<not> ss_debug st then
        Inl (Exn ValueError (''SECURITY: DLP_JWT_SECRET must be set to a strong random '' @
          ''value in production. Set DLP_DEBUG=true to bypass this check in development.''))
      else if ss_cors_origins st = DEFAULT_CORS_ORIGINS \<and> \<not> ss_debug st then
        Inl (Exn ValueError (''SECURITY: DLP_CORS_ORIGINS must be explicitly set in '' @
          ''production. Set DLP_DEBUG=true to bypass this check in development.''))
      else Inr ())"

section \<open>The lifespan of the server\<close>

text \<open>
  What startup finds: creating the tables, the Redis bridge and the gRPC server may each raise; only
  the first failure stops the server. \<open>su_stop\<close> is the gRPC server's \<open>stop\<close> for a grace period.
\<close>

record startup_env =
  su_create_tables :: "unit res"
  su_redis :: "unit res"
  su_grpc :: "(int \<Rightarrow> behaviour) res"
  su_shutdown_redis :: behaviour

definition startup :: "server_settings \<Rightarrow> startup_env \<Rightarrow> (int \<Rightarrow> behaviour) option res" where
  "startup st env =
     rbind (validate_production_config st) (\<lambda>_.
     rbind (su_create_tables env) (\<lambda>_.
       Inr (case su_grpc env of Inl e \<Rightarrow> None | Inr stop \<Rightarrow> Some stop)))"

definition grpc_kwarg :: "kwargs \<Rightarrow> int" where
  "grpc_kwarg kw = dict_get kw ''grace'' 5"

definition lifespan_coordinator :: "startup_env \<Rightarrow> (int \<Rightarrow> behaviour) option \<Rightarrow> coordinator" where
  "lifespan_coordinator env grpc_server =
     (let c = register_task ''redis_bridge'' (\<lambda>kw. su_shutdown_redis env) 2 [] new_coordinator
      in case grpc_server of
           None \<Rightarrow> c
         | Some stop \<Rightarrow> register_task ''grpc_server'' (\<lambda>kw. stop (grpc_kwarg kw)) 1 [(''grace'', 10)] c)"

definition lifespan_shutdown ::
  "startup_env \<Rightarrow> (int \<Rightarrow> behaviour) option \<Rightarrow> (rat \<times> shutdown_task \<times> stop_outcome) list \<times> rat" where
  "lifespan_shutdown env grpc_server = fst (shutdown_all 30 (lifespan_coordinator env grpc_server))"

section \<open>Properties of a shutdown\<close>







text \<open>The time a group that starts at \<open>t\<close> may take.\<close>

abbreviation (input) "remaining_at timeout t \<equiv> max (1 / 10) (timeout - t :: rat)"

lemma run_groups_step:
  assumes "elapsed < timeout"
  shows "run_groups timeout elapsed (g # gs) =
    (let rest = run_groups timeout (elapsed + group_wait (remaining_at timeout elapsed) g) gs in
     (map (\<lambda>k. (elapsed, k, run_task (remaining_at timeout elapsed) k)) g @ fst rest, snd rest))"
  using assms by (simp add: Let_def split: prod.split)













text \<open>
  The server's own shutdown: the gRPC server, which \<open>stop\<close> ends within its grace period, is stopped first,
  and the Redis bridge is then always shut down.
\<close>

lemma lifespan_order:
  assumes "bh_time (stop 10) = Some d" and "0 \<le> d" "d < 30"
  shows "map (\<lambda>(t, k, out). (t, sk_name k, out)) (fst (lifespan_shutdown env (Some stop))) =
    [(0, ''grpc_server'', case bh_raises (stop 10) of None \<Rightarrow> Stopped | Some e \<Rightarrow> Failed e),
     (d, ''redis_bridge'', snd (snd (fst (lifespan_shutdown env (Some stop)) ! 1)))]"
proof -
  let ?c = "lifespan_coordinator env (Some stop)"
  let ?g = "\<lparr>sk_name = ''grpc_server'', sk_handler = (\<lambda>kw. stop (grpc_kwarg kw)), sk_kwargs = [(''grace'', 10)], sk_priority = 1\<rparr>"
  let ?r = "\<lparr>sk_name = ''redis_bridge'', sk_handler = (\<lambda>kw. su_shutdown_redis env), sk_kwargs = [], sk_priority = 2\<rparr>"
  have ts: "co_tasks ?c = [?r, ?g]" by (simp add: lifespan_coordinator_def register_task_def new_coordinator_def Let_def)
  have ps: "priorities [?r, ?g] = [1, 2]" by (simp add: priorities_def)
  have gs: "group_of 1 [?r, ?g] = [?g]" "group_of 2 [?r, ?g] = [?r]" by (simp_all add: group_of_def)
  have kw: "grpc_kwarg [(''grace'', 10)] = 10" by (simp add: grpc_kwarg_def dict_get_def)
  have w: "group_wait (remaining_at 30 0) [?g] = d"
    using assms by (simp add: group_wait_def task_wait_def task_time_def kw)
  have o: "run_task (remaining_at 30 0) ?g = (case bh_raises (stop 10) of None \<Rightarrow> Stopped | Some e \<Rightarrow> Failed e)"
    using assms by (simp add: run_task_def task_time_def kw)
  have z: "(0::rat) < 30" by simp
  have run: "fst (lifespan_shutdown env (Some stop)) =
      [(0, ?g, run_task (remaining_at 30 0) ?g), (d, ?r, run_task (remaining_at 30 d) ?r)]"
    unfolding lifespan_shutdown_def shutdown_all_def fst_conv ts ps list.map gs run_groups_step [OF z] w add_0_left
      run_groups_step [OF assms(3)] run_groups.simps(1) Let_def fst_conv snd_conv append_Nil append_Cons ..
  show ?thesis unfolding run list.map prod.case o by simp
qed




section \<open>Properties of a start\<close>

text \<open>Outside debug mode the server starts only with a secret and origins of its own.\<close>

lemma startup_needs_secrets:
  "startup st env = Inr g \<Longrightarrow> \<not> ss_debug st \<Longrightarrow>
     ss_jwt_secret st \<noteq> INSECURE_JWT_SECRET \<and> ss_cors_origins st \<noteq> DEFAULT_CORS_ORIGINS"
  by (auto simp: startup_def validate_production_config_def rbind_Inr_iff split: if_splits)

lemma default_settings_refused: "\<exists>e. startup default_server_settings env = Inl e"
  by (simp add: startup_def validate_production_config_def default_server_settings_def)

text \<open>A failure of Redis or of the gRPC server does not keep the server from starting.\<close>

lemma startup_tolerates:
  "validate_production_config st = Inr () \<Longrightarrow> su_create_tables env = Inr () \<Longrightarrow> \<exists>g. startup st env = Inr g"
  by (simp add: startup_def)

end
