(* ===== verification/Catalogs.thy ===== *)
theory Catalogs
  imports Tables Json "HOL-Library.List_Lexorder"
begin

text \<open>
  The catalogs an administrator keeps: keyword dictionaries (\<open>server/api/dictionaries.py\<close>) and data
  identifiers (\<open>server/api/identifiers.py\<close>) over the tables of \<open>server/models/detection.py\<close>. Both are
  rows with a unique name; an identifier also knows whether it is built in, so its record extends that
  of a dictionary and the lemmas on rows serve both. A request is one transaction: it leaves the
  table it commits, or, when it fails, the table it found.
\<close>

section \<open>Tables\<close>

record named_row =
  nr_id :: nat
  nr_name :: string
  nr_description :: "string option"
  nr_config :: "(string \<times> json) list"
  nr_active :: bool

type_synonym dictionary_row = named_row

record identifier_row = named_row +
  nr_builtin :: bool

record 'r catalog =
  ct_rows :: "'r list"
  ct_next :: nat

text \<open>The body of POST and PUT; it may have a name of at most 255 characters.\<close>

record catalog_body =
  cb_name :: string
  cb_description :: "string option"
  cb_config :: "(string \<times> json) list"
  cb_active :: bool

definition body_ok :: "catalog_body \<Rightarrow> bool" where
  "body_ok b \<longleftrightarrow> length (cb_name b) \<le> 255"

definition unprocessable :: http_error where
  "unprocessable = HttpError 422 ''Unprocessable Entity''"

section \<open>Shared steps\<close>

definition by_name :: "string \<Rightarrow> 'a named_row_scheme catalog \<Rightarrow> 'a named_row_scheme option res" where
  "by_name name t = scalar_one_or_none (filter (\<lambda>r. nr_name r = name) (ct_rows t))"

definition by_id :: "nat \<Rightarrow> 'a named_row_scheme catalog \<Rightarrow> 'a named_row_scheme option" where
  "by_id rid t = find (\<lambda>r. nr_id r = rid) (ct_rows t)"

definition set_fields :: "catalog_body \<Rightarrow> 'a named_row_scheme \<Rightarrow> 'a named_row_scheme" where
  "set_fields b r = r\<lparr>nr_name := cb_name b, nr_description := cb_description b, nr_config := cb_config b,
     nr_active := cb_active b\<rparr>"

text \<open>A commit is refused when two rows have the same name.\<close>

definition commit_rows ::
  "'a named_row_scheme catalog \<Rightarrow> 'a named_row_scheme catalog \<Rightarrow> 'b \<Rightarrow> (http_error + 'b) \<times> 'a named_row_scheme catalog" where
  "commit_rows t t' x = (if distinct (map nr_name (ct_rows t')) then (Inr x, t') else (Inl internal_error, t))"

definition add_row :: "(nat \<Rightarrow> 'a named_row_scheme) \<Rightarrow> 'a named_row_scheme catalog \<Rightarrow> 'a named_row_scheme catalog" where
  "add_row mk t = t\<lparr>ct_rows := ct_rows t @ [mk (ct_next t)], ct_next := ct_next t + 1\<rparr>"

definition overwrite_row :: "nat \<Rightarrow> catalog_body \<Rightarrow> 'a named_row_scheme catalog \<Rightarrow> 'a named_row_scheme catalog" where
  "overwrite_row rid b t = t\<lparr>ct_rows := map (\<lambda>r. if nr_id r = rid then set_fields b r else r) (ct_rows t)\<rparr>"

definition remove_row :: "nat \<Rightarrow> 'a named_row_scheme catalog \<Rightarrow> 'a named_row_scheme catalog" where
  "remove_row rid t = t\<lparr>ct_rows := filter (\<lambda>r. nr_id r \<noteq> rid) (ct_rows t)\<rparr>"

definition list_rows :: "bool \<Rightarrow> 'a named_row_scheme catalog \<Rightarrow> 'a named_row_scheme list" where
  "list_rows active_only t =
     (let rows = (if active_only then filter nr_active (ct_rows t) else ct_rows t) in sort_key nr_name rows)"

section \<open>Keyword dictionaries\<close>

definition list_dictionaries :: "bool \<Rightarrow> dictionary_row catalog \<Rightarrow> dictionary_row list" where
  "list_dictionaries active_only t = list_rows active_only t"

definition dictionary_missing :: http_error where
  "dictionary_missing = HttpError 404 ''Dictionary not found''"

definition new_dictionary :: "catalog_body \<Rightarrow> nat \<Rightarrow> dictionary_row" where
  "new_dictionary b n = \<lparr>nr_id = n, nr_name = cb_name b, nr_description = cb_description b, nr_config = cb_config b,
     nr_active = cb_active b\<rparr>"

definition create_dictionary ::
  "catalog_body \<Rightarrow> dictionary_row catalog \<Rightarrow> (http_error + nat) \<times> dictionary_row catalog" where
  "create_dictionary b t =
     (if \<not> body_ok b then (Inl unprocessable, t)
      else (case by_name (cb_name b) t of
              Inl e \<Rightarrow> (Inl internal_error, t)
            | Inr (Some r) \<Rightarrow>
                (Inl (HttpError 409 (''Dictionary '' @ [CHR 0x27] @ cb_name b @ [CHR 0x27] @ '' already exists'')), t)
            | Inr None \<Rightarrow>
                commit_rows t
                  (add_row (new_dictionary b) t)
                  (ct_next t)))"

definition get_dictionary :: "nat \<Rightarrow> dictionary_row catalog \<Rightarrow> http_error + dictionary_row" where
  "get_dictionary rid t = (case by_id rid t of None \<Rightarrow> Inl dictionary_missing | Some r \<Rightarrow> Inr r)"

definition update_dictionary ::
  "nat \<Rightarrow> catalog_body \<Rightarrow> dictionary_row catalog \<Rightarrow> (http_error + nat) \<times> dictionary_row catalog" where
  "update_dictionary rid b t =
     (if \<not> body_ok b then (Inl unprocessable, t)
      else (case by_id rid t of
              None \<Rightarrow> (Inl dictionary_missing, t)
            | Some r \<Rightarrow> commit_rows t (overwrite_row rid b t) rid))"

definition delete_dictionary :: "nat \<Rightarrow> dictionary_row catalog \<Rightarrow> (http_error + nat) \<times> dictionary_row catalog" where
  "delete_dictionary rid t =
     (case by_id rid t of
        None \<Rightarrow> (Inl dictionary_missing, t)
      | Some r \<Rightarrow> commit_rows t (remove_row rid t) rid)"

section \<open>Data identifiers\<close>

definition list_identifiers :: "bool \<Rightarrow> identifier_row catalog \<Rightarrow> identifier_row list" where
  "list_identifiers active_only t = list_rows active_only t"

definition identifier_missing :: http_error where
  "identifier_missing = HttpError 404 ''Identifier not found''"

definition new_identifier :: "catalog_body \<Rightarrow> nat \<Rightarrow> identifier_row" where
  "new_identifier b n = \<lparr>nr_id = n, nr_name = cb_name b, nr_description = cb_description b, nr_config = cb_config b,
     nr_active = cb_active b, nr_builtin = False\<rparr>"

definition create_identifier ::
  "catalog_body \<Rightarrow> identifier_row catalog \<Rightarrow> (http_error + nat) \<times> identifier_row catalog" where
  "create_identifier b t =
     (if \<not> body_ok b then (Inl unprocessable, t)
      else (case by_name (cb_name b) t of
              Inl e \<Rightarrow> (Inl internal_error, t)
            | Inr (Some r) \<Rightarrow>
                (Inl (HttpError 409 (''Identifier '' @ [CHR 0x27] @ cb_name b @ [CHR 0x27] @ '' already exists'')), t)
            | Inr None \<Rightarrow>
                commit_rows t
                  (add_row (new_identifier b) t)
                  (ct_next t)))"

definition get_identifier :: "nat \<Rightarrow> identifier_row catalog \<Rightarrow> http_error + identifier_row" where
  "get_identifier rid t = (case by_id rid t of None \<Rightarrow> Inl identifier_missing | Some r \<Rightarrow> Inr r)"

definition update_identifier ::
  "nat \<Rightarrow> catalog_body \<Rightarrow> identifier_row catalog \<Rightarrow> (http_error + nat) \<times> identifier_row catalog" where
  "update_identifier rid b t =
     (if \<not> body_ok b then (Inl unprocessable, t)
      else (case by_id rid t of
              None \<Rightarrow> (Inl identifier_missing, t)
            | Some r \<Rightarrow> commit_rows t (overwrite_row rid b t) rid))"

definition delete_identifier :: "nat \<Rightarrow> identifier_row catalog \<Rightarrow> (http_error + nat) \<times> identifier_row catalog" where
  "delete_identifier rid t =
     (case by_id rid t of
        None \<Rightarrow> (Inl identifier_missing, t)
      | Some r \<Rightarrow>
          if nr_builtin r then (Inl (HttpError 400 ''Cannot delete built-in identifier''), t)
          else commit_rows t (remove_row rid t) rid)"

section \<open>Requests\<close>

datatype catalog_request = CreateRow catalog_body | UpdateRow nat catalog_body | DeleteRow nat

fun serve_dictionary :: "catalog_request \<Rightarrow> dictionary_row catalog \<Rightarrow> (http_error + nat) \<times> dictionary_row catalog" where
  "serve_dictionary (CreateRow b) = create_dictionary b"
| "serve_dictionary (UpdateRow rid b) = update_dictionary rid b"
| "serve_dictionary (DeleteRow rid) = delete_dictionary rid"

fun serve_identifier :: "catalog_request \<Rightarrow> identifier_row catalog \<Rightarrow> (http_error + nat) \<times> identifier_row catalog" where
  "serve_identifier (CreateRow b) = create_identifier b"
| "serve_identifier (UpdateRow rid b) = update_identifier rid b"
| "serve_identifier (DeleteRow rid) = delete_identifier rid"

section \<open>Well-formed catalogs\<close>

definition catalog_wf :: "'a named_row_scheme catalog \<Rightarrow> bool" where
  "catalog_wf t \<longleftrightarrow> distinct (map nr_id (ct_rows t)) \<and> distinct (map nr_name (ct_rows t)) \<and>
     (\<forall>r \<in> set (ct_rows t). nr_id r < ct_next t)"

lemma set_fields_simps [simp]:
  "nr_id (set_fields b r) = nr_id r" "nr_name (set_fields b r) = cb_name b" "nr_config (set_fields b r) = cb_config b"
  by (simp_all add: set_fields_def)

lemma set_fields_builtin [simp]: "nr_builtin (set_fields b r) = nr_builtin r"
  by (simp add: set_fields_def)

lemma overwrite_row_ids [simp]: "map nr_id (ct_rows (overwrite_row rid b t)) = map nr_id (ct_rows t)"
  by (simp add: overwrite_row_def)

text \<open>What a commit leaves is well formed when the ids are.\<close>

lemma commit_rows_wf:
  "catalog_wf t \<Longrightarrow> distinct (map nr_id (ct_rows t')) \<Longrightarrow> \<forall>r \<in> set (ct_rows t'). nr_id r < ct_next t' \<Longrightarrow>
     catalog_wf (snd (commit_rows t t' x))"
  by (simp add: commit_rows_def catalog_wf_def)

lemma add_row_wf:
  "catalog_wf t \<Longrightarrow> nr_id (mk (ct_next t)) = ct_next t \<Longrightarrow> catalog_wf (snd (commit_rows t (add_row mk t) x))"
  by (rule commit_rows_wf) (auto simp: catalog_wf_def add_row_def)

lemma update_row_wf: "catalog_wf t \<Longrightarrow> catalog_wf (snd (commit_rows t (overwrite_row rid b t) x))"
  by (rule commit_rows_wf, assumption) (simp add: catalog_wf_def, auto simp: catalog_wf_def overwrite_row_def)

lemma remove_row_wf: "catalog_wf t \<Longrightarrow> catalog_wf (snd (commit_rows t (remove_row rid t) x))"
  by (rule commit_rows_wf) (auto simp: catalog_wf_def remove_row_def distinct_map_filter)

section \<open>A catalog as a map\<close>

text \<open>What a client sees of a catalog: the fields under each id.\<close>

definition body_of :: "'a named_row_scheme \<Rightarrow> catalog_body" where
  "body_of r = \<lparr>cb_name = nr_name r, cb_description = nr_description r, cb_config = nr_config r, cb_active = nr_active r\<rparr>"

definition contents :: "'a named_row_scheme catalog \<Rightarrow> nat \<Rightarrow> catalog_body option" where
  "contents t rid = map_option body_of (by_id rid t)"

definition map_step :: "catalog_request \<Rightarrow> nat \<Rightarrow> (nat \<Rightarrow> catalog_body option) \<Rightarrow> nat \<Rightarrow> catalog_body option" where
  "map_step rq rid m = (case rq of CreateRow b \<Rightarrow> m(rid \<mapsto> b) | UpdateRow k b \<Rightarrow> m(k \<mapsto> b) | DeleteRow k \<Rightarrow> m(k := None))"

text \<open>The requests a catalog grants: a name is used once, a row that is changed or deleted exists.\<close>

definition grantable :: "catalog_request \<Rightarrow> 'a named_row_scheme catalog \<Rightarrow> bool" where
  "grantable rq t =
     (case rq of
        CreateRow b \<Rightarrow> body_ok b \<and> cb_name b \<notin> nr_name ` set (ct_rows t)
      | UpdateRow k b \<Rightarrow> body_ok b \<and> k \<in> nr_id ` set (ct_rows t) \<and>
          cb_name b \<notin> nr_name ` set (filter (\<lambda>r. nr_id r \<noteq> k) (ct_rows t))
      | DeleteRow k \<Rightarrow> k \<in> nr_id ` set (ct_rows t))"

named_theorems contents_simps "the map of a catalog after an operation"

lemma body_of_set_fields [simp]: "body_of (set_fields b r) = b"
  by (simp add: body_of_def set_fields_def)

lemma find_append: "find p (xs @ ys) = (case find p xs of Some x \<Rightarrow> Some x | None \<Rightarrow> find p ys)"
  by (induction xs) auto

lemma by_id_None: "by_id rid t = None \<longleftrightarrow> rid \<notin> nr_id ` set (ct_rows t)"
  by (auto simp: by_id_def find_None_iff)

lemma by_id_Some: "by_id rid t = Some r \<Longrightarrow> r \<in> set (ct_rows t) \<and> nr_id r = rid"
  unfolding by_id_def by (rule find_SomeD)

lemma contents_add [contents_simps]:
  assumes "catalog_wf t" "nr_id (mk (ct_next t)) = ct_next t"
  shows "contents (add_row mk t) = (contents t)(ct_next t \<mapsto> body_of (mk (ct_next t)))"
proof
  fix k
  have "by_id (ct_next t) t = None" using assms(1) by (auto simp: by_id_None catalog_wf_def)
  then show "contents (add_row mk t) k = ((contents t)(ct_next t \<mapsto> body_of (mk (ct_next t)))) k"
    using assms(2) by (auto simp: contents_def by_id_def add_row_def find_append split: option.split)
qed

lemma find_update:
  "find (\<lambda>r. nr_id r = k) (map (\<lambda>r. if nr_id r = rid then set_fields b r else r) rows) =
     (if k = rid then map_option (set_fields b) (find (\<lambda>r. nr_id r = k) rows) else find (\<lambda>r. nr_id r = k) rows)"
  by (induction rows) auto

lemma contents_update [contents_simps]:
  assumes "rid \<in> nr_id ` set (ct_rows t)"
  shows "contents (overwrite_row rid b t) = (contents t)(rid \<mapsto> b)"
proof -
  obtain r where "by_id rid t = Some r" using assms by (cases "by_id rid t") (auto simp: by_id_None)
  then show ?thesis by (auto simp: contents_def by_id_def overwrite_row_def find_update fun_eq_iff)
qed

lemma find_remove:
  "find (\<lambda>r. nr_id r = k) (filter (\<lambda>r. nr_id r \<noteq> rid) rows) = (if k = rid then None else find (\<lambda>r. nr_id r = k) rows)"
  by (induction rows) auto

lemma contents_remove [contents_simps]: "contents (remove_row rid t) = (contents t)(rid := None)"
  by (auto simp: contents_def by_id_def remove_row_def find_remove fun_eq_iff)

text \<open>When each commit goes through.\<close>

lemma by_name_wf: "catalog_wf t \<Longrightarrow> by_name name t = Inr (find (\<lambda>r. nr_name r = name) (ct_rows t))"
  unfolding by_name_def by (rule scalar_distinct) (simp add: catalog_wf_def)

lemma find_name_None: "find (\<lambda>r. nr_name r = name) rows = None \<longleftrightarrow> name \<notin> nr_name ` set rows"
  by (auto simp: find_None_iff)

lemma add_names:
  "catalog_wf t \<Longrightarrow> distinct (map nr_name (ct_rows (add_row mk t))) \<longleftrightarrow> nr_name (mk (ct_next t)) \<notin> nr_name ` set (ct_rows t)"
  by (auto simp: add_row_def catalog_wf_def)

lemma removed_names: "catalog_wf t \<Longrightarrow> distinct (map nr_name (ct_rows (remove_row rid t)))"
  by (simp add: remove_row_def catalog_wf_def distinct_map_filter)

lemma updated_names:
  assumes "rid \<in> nr_id ` set rows"
  shows "nr_name ` set (map (\<lambda>r. if nr_id r = rid then set_fields b r else r) rows) =
    insert (cb_name b) (nr_name ` set (filter (\<lambda>r. nr_id r \<noteq> rid) rows))"
proof -
  obtain x where x: "x \<in> set rows" "nr_id x = rid" using assms by blast
  have "nr_name ` set (map (\<lambda>r. if nr_id r = rid then set_fields b r else r) rows) =
      (\<lambda>r. if nr_id r = rid then cb_name b else nr_name r) ` set rows"
    unfolding set_map image_image by (rule image_cong) simp_all
  also have "\<dots> = insert (cb_name b) (nr_name ` {r \<in> set rows. nr_id r \<noteq> rid})"
    using x by (auto simp: image_iff)
  finally show ?thesis by simp
qed

lemma update_names_list:
  "distinct (map nr_id rows) \<Longrightarrow> distinct (map nr_name rows) \<Longrightarrow> rid \<in> nr_id ` set rows \<Longrightarrow>
     distinct (map nr_name (map (\<lambda>r. if nr_id r = rid then set_fields b r else r) rows)) \<longleftrightarrow>
     cb_name b \<notin> nr_name ` set (filter (\<lambda>r. nr_id r \<noteq> rid) rows)"
proof (induction rows)
  case (Cons r rows)
  let ?f = "\<lambda>r. if nr_id r = rid then set_fields b r else r"
  show ?case
  proof (cases "nr_id r = rid")
    case True
    have "rid \<notin> nr_id ` set rows" using Cons.prems(1) True by auto
    then have "\<forall>x \<in> set rows. nr_id x \<noteq> rid" by (metis imageI)
    then have "map ?f rows = rows" "filter (\<lambda>r. nr_id r \<noteq> rid) rows = rows"
      by (auto intro: map_idI simp: filter_id_conv)
    then show ?thesis using True Cons.prems by simp
  next
    case False
    then have mem: "rid \<in> nr_id ` set rows" using Cons.prems(3) by auto
    let ?R = "filter (\<lambda>r. nr_id r \<noteq> rid) rows"
    have names: "set (map nr_name (map ?f rows)) = insert (cb_name b) (nr_name ` set ?R)"
      using updated_names [OF mem, of b] unfolding set_map .
    have ih: "distinct (map nr_name (map ?f rows)) \<longleftrightarrow> cb_name b \<notin> nr_name ` set ?R"
      using Cons.IH [OF _ _ mem] Cons.prems by simp
    have out: "nr_name r \<notin> nr_name ` set ?R" using Cons.prems(2) by auto
    have "distinct (map nr_name (map ?f (r # rows))) \<longleftrightarrow>
        nr_name r \<notin> set (map nr_name (map ?f rows)) \<and> distinct (map nr_name (map ?f rows))"
      using False by (simp only: list.map if_False distinct.simps)
    also have "\<dots> \<longleftrightarrow> nr_name r \<noteq> cb_name b \<and> cb_name b \<notin> nr_name ` set ?R"
      unfolding names ih using out by blast
    also have "\<dots> \<longleftrightarrow> cb_name b \<notin> nr_name ` set (filter (\<lambda>r. nr_id r \<noteq> rid) (r # rows))"
      using False by auto
    finally show ?thesis .
  qed
qed simp

lemma update_names:
  "catalog_wf t \<Longrightarrow> rid \<in> nr_id ` set (ct_rows t) \<Longrightarrow>
     distinct (map nr_name (ct_rows (overwrite_row rid b t))) \<longleftrightarrow> cb_name b \<notin> nr_name ` set (filter (\<lambda>r. nr_id r \<noteq> rid) (ct_rows t))"
  using update_names_list [of "ct_rows t" rid b] by (simp add: catalog_wf_def overwrite_row_def)

section \<open>The contract of a catalog service\<close>

text \<open>
  A service that grants exactly the requests it allows, changes the map of the catalog as they say, and
  changes nothing when it refuses. Its clients learn what a sequence of requests leaves.
\<close>

fun run_requests ::
  "(catalog_request \<Rightarrow> 't \<Rightarrow> (http_error + nat) \<times> 't) \<Rightarrow> catalog_request list \<Rightarrow> 't \<Rightarrow> (http_error + nat) list \<times> 't" where
  "run_requests serve [] t = ([], t)"
| "run_requests serve (rq # rqs) t =
     (let (a, t1) = serve rq t; (as, t2) = run_requests serve rqs t1 in (a # as, t2))"

definition answered_step ::
  "catalog_request \<times> (http_error + nat) \<Rightarrow> (nat \<Rightarrow> catalog_body option) \<Rightarrow> nat \<Rightarrow> catalog_body option" where
  "answered_step = (\<lambda>(rq, a) m. case a of Inl e \<Rightarrow> m | Inr rid \<Rightarrow> map_step rq rid m)"

locale catalog_service =
  fixes serve :: "catalog_request \<Rightarrow> 'a named_row_scheme catalog \<Rightarrow> (http_error + nat) \<times> 'a named_row_scheme catalog"
    and allowed :: "catalog_request \<Rightarrow> 'a named_row_scheme catalog \<Rightarrow> bool"
  assumes serve_wf: "catalog_wf t \<Longrightarrow> catalog_wf (snd (serve rq t))"
    and serve_grants: "catalog_wf t \<Longrightarrow> isl (fst (serve rq t)) \<longleftrightarrow> \<not> allowed rq t"
    and serve_refuses: "catalog_wf t \<Longrightarrow> isl (fst (serve rq t)) \<Longrightarrow> snd (serve rq t) = t"
    and serve_maps: "catalog_wf t \<Longrightarrow> fst (serve rq t) = Inr rid \<Longrightarrow>
      contents (snd (serve rq t)) = map_step rq rid (contents t)"
begin

lemma serve_answered:
  "catalog_wf t \<Longrightarrow> contents (snd (serve rq t)) = answered_step (rq, fst (serve rq t)) (contents t)"
  using serve_refuses [of t rq] serve_maps [of t rq] by (cases "fst (serve rq t)") (auto simp: answered_step_def)

lemma run_refines:
  assumes "catalog_wf t" and "run_requests serve rqs t = (as, t')"
  shows "catalog_wf t' \<and> length as = length rqs \<and> contents t' = fold answered_step (zip rqs as) (contents t)"
  using assms
proof (induction rqs arbitrary: t as)
  case (Cons rq rqs)
  obtain a t1 where s: "serve rq t = (a, t1)" by fastforce
  obtain as' where r: "run_requests serve rqs t1 = (as', t')" "as = a # as'"
    using Cons.prems(2) s by (auto split: prod.splits)
  have "catalog_wf t1" "contents t1 = answered_step (rq, a) (contents t)"
    using serve_wf [OF Cons.prems(1), of rq] serve_answered [OF Cons.prems(1), of rq] s by simp_all
  then show ?case using Cons.IH [OF _ r(1)] r(2) by simp
qed simp

end

lemma commit_rows_Inl: "isl (fst (commit_rows t t' x)) \<longleftrightarrow> \<not> distinct (map nr_name (ct_rows t'))"
  and commit_rows_refused: "isl (fst (commit_rows t t' x)) \<Longrightarrow> snd (commit_rows t t' x) = t"
  and commit_rows_Inr: "fst (commit_rows t t' x) = Inr y \<Longrightarrow> snd (commit_rows t t' x) = t' \<and> y = x"
  by (auto simp: commit_rows_def split: if_splits)

text \<open>Both services are instances of one: how a row is made, and which rows may not be deleted.\<close>

definition serve_rows ::
  "(catalog_body \<Rightarrow> nat \<Rightarrow> 'a named_row_scheme) \<Rightarrow> ('a named_row_scheme \<Rightarrow> bool) \<Rightarrow> (catalog_body \<Rightarrow> http_error) \<Rightarrow> http_error
   \<Rightarrow> http_error \<Rightarrow> catalog_request \<Rightarrow> 'a named_row_scheme catalog \<Rightarrow> (http_error + nat) \<times> 'a named_row_scheme catalog" where
  "serve_rows mk kept taken missing refused rq t =
     (case rq of
        CreateRow b \<Rightarrow>
          if \<not> body_ok b then (Inl unprocessable, t)
          else if cb_name b \<in> nr_name ` set (ct_rows t) then (Inl (taken b), t)
          else commit_rows t (add_row (mk b) t) (ct_next t)
      | UpdateRow k b \<Rightarrow>
          if \<not> body_ok b then (Inl unprocessable, t)
          else if k \<notin> nr_id ` set (ct_rows t) then (Inl missing, t)
          else commit_rows t (overwrite_row k b t) k
      | DeleteRow k \<Rightarrow>
          (case by_id k t of
             None \<Rightarrow> (Inl missing, t)
           | Some r \<Rightarrow> if kept r then (Inl refused, t) else commit_rows t (remove_row k t) k))"

definition deletable :: "('a named_row_scheme \<Rightarrow> bool) \<Rightarrow> catalog_request \<Rightarrow> 'a named_row_scheme catalog \<Rightarrow> bool" where
  "deletable kept rq t \<longleftrightarrow>
     (case rq of DeleteRow k \<Rightarrow> (case by_id k t of None \<Rightarrow> True | Some r \<Rightarrow> \<not> kept r) | _ \<Rightarrow> True)"

lemma serve_rows_service:
  assumes "\<And>b n. nr_id (mk b n) = n" "\<And>b n. body_of (mk b n) = b"
  shows "catalog_service (serve_rows mk kept taken missing refused) (\<lambda>rq t. grantable rq t \<and> deletable kept rq t)"
proof
  have name: "nr_name (mk b n) = cb_name b" for b n
    using arg_cong [OF assms(2) [of b n], of cb_name] by (simp add: body_of_def)
  fix t :: "'a named_row_scheme catalog" and rq rid
  assume wf: "catalog_wf t"
  let ?s = "serve_rows mk kept taken missing refused rq t"
  show "catalog_wf (snd ?s)"
    using wf by (cases rq) (simp_all add: serve_rows_def add_row_wf update_row_wf remove_row_wf assms split: option.split)
  show "isl (fst ?s) \<longleftrightarrow> \<not> (grantable rq t \<and> deletable kept rq t)"
  proof (cases rq)
    case (DeleteRow k)
    then show ?thesis
      using by_id_None [of k t] removed_names [OF wf, of k]
      by (cases "by_id k t") (auto simp: serve_rows_def grantable_def deletable_def commit_rows_Inl)
  qed (use wf in \<open>auto simp: serve_rows_def grantable_def deletable_def commit_rows_Inl add_names update_names name\<close>)
  show "snd ?s = t" if "isl (fst ?s)"
    using that by (cases rq) (auto simp: serve_rows_def commit_rows_refused split: if_splits option.splits)
  show "contents (snd ?s) = map_step rq rid (contents t)" if "fst ?s = Inr rid"
    using that wf
    by (cases rq) (auto simp: serve_rows_def map_step_def contents_simps assms split: if_splits option.splits dest!: commit_rows_Inr)
qed

lemma by_name_cases: "catalog_wf t \<Longrightarrow>
    (case by_name name t of Inl e \<Rightarrow> f e | Inr None \<Rightarrow> g | Inr (Some r) \<Rightarrow> h r) =
    (case find (\<lambda>r. nr_name r = name) (ct_rows t) of None \<Rightarrow> g | Some r \<Rightarrow> h r)"
  by (simp add: by_name_wf split: option.split)

lemma find_name_cases:
  "(case find (\<lambda>r. nr_name r = name) rows of None \<Rightarrow> x | Some r \<Rightarrow> y) = (if name \<in> nr_name ` set rows then y else x)"
  using find_name_None [of name rows] by (cases "find (\<lambda>r. nr_name r = name) rows") auto

lemma by_id_cases: "(case by_id k t of None \<Rightarrow> x | Some r \<Rightarrow> y) = (if k \<notin> nr_id ` set (ct_rows t) then x else y)"
  using by_id_None [of k t] by (cases "by_id k t") auto

lemma serve_dictionary_eq:
  assumes "catalog_wf t"
  shows "serve_dictionary rq t = serve_rows new_dictionary (\<lambda>r. False)
    (\<lambda>b. HttpError 409 (''Dictionary '' @ [CHR 0x27] @ cb_name b @ [CHR 0x27] @ '' already exists'')) dictionary_missing
    internal_error rq t"
  by (cases rq) (simp_all add: create_dictionary_def update_dictionary_def delete_dictionary_def serve_rows_def
      by_name_cases [OF assms] find_name_cases by_id_cases)

lemma serve_identifier_eq:
  assumes "catalog_wf t"
  shows "serve_identifier rq t = serve_rows new_identifier nr_builtin
    (\<lambda>b. HttpError 409 (''Identifier '' @ [CHR 0x27] @ cb_name b @ [CHR 0x27] @ '' already exists'')) identifier_missing
    (HttpError 400 ''Cannot delete built-in identifier'') rq t"
  by (cases rq) (simp_all add: create_identifier_def update_identifier_def delete_identifier_def serve_rows_def
      by_name_cases [OF assms] find_name_cases by_id_cases)

lemma new_row_simps [simp]:
  "nr_id (new_dictionary b n) = n" "body_of (new_dictionary b n) = b"
  "nr_id (new_identifier b n) = n" "body_of (new_identifier b n) = b" "nr_builtin (new_identifier b n) = False"
  by (simp_all add: new_dictionary_def new_identifier_def body_of_def)

text \<open>A service that agrees with another on well-formed catalogs keeps its contract.\<close>

lemma catalog_service_cong:
  assumes "catalog_service serve allowed" "\<And>rq t. catalog_wf t \<Longrightarrow> serve' rq t = serve rq t"
  shows "catalog_service serve' allowed"
  using assms unfolding catalog_service_def by simp

interpretation dictionaries: catalog_service serve_dictionary "\<lambda>rq t. grantable rq t \<and> deletable (\<lambda>r. False) rq t"
  by (rule catalog_service_cong [OF serve_rows_service serve_dictionary_eq]) simp_all

interpretation identifiers: catalog_service serve_identifier "\<lambda>rq t. grantable rq t \<and> deletable nr_builtin rq t"
  by (rule catalog_service_cong [OF serve_rows_service serve_identifier_eq]) simp_all

section \<open>Properties\<close>

text \<open>
  C11: The identifiers behave as a map from ids to their fields: over any sequence of requests, those that
  are granted change the map as they say and the others change nothing, names and ids stay
  unique, and a next request is granted exactly when its name is free, its row exists and,
  for a deletion, is not built in.
\<close>

theorem identifiers_refine_map:
  assumes "catalog_wf t" and "run_requests serve_identifier rqs t = (as, t')"
  shows "catalog_wf t' \<and> contents t' = fold answered_step (zip rqs as) (contents t) \<and>
    (isl (fst (serve_identifier rq t')) \<longleftrightarrow> \<not> (grantable rq t' \<and> deletable nr_builtin rq t'))"
  using identifiers.run_refines [OF assms] identifiers.serve_grants by blast

definition ssn_identifier :: "identifier_row catalog" where
  "ssn_identifier = \<lparr>ct_rows = [\<lparr>nr_id = 1, nr_name = ''US SSN'', nr_description = None, nr_config = [], nr_active = True,
     nr_builtin = True\<rparr>], ct_next = 2\<rparr>"

definition badge_body :: catalog_body where
  "badge_body = \<lparr>cb_name = ''Badge'', cb_description = None, cb_config = [(''pattern'', JStr ''B[0-9]+'')], cb_active = True\<rparr>"

lemma ssn_identifier_wf: "catalog_wf ssn_identifier"
  by (simp add: catalog_wf_def ssn_identifier_def)

theorem identifiers_refine_map_witness:
  "\<exists>as t'. run_requests serve_identifier [CreateRow badge_body, CreateRow badge_body, DeleteRow 1] ssn_identifier = (as, t') \<and>
     catalog_wf t' \<and> contents t' 2 = Some badge_body"
proof -
  let ?rqs = "[CreateRow badge_body, CreateRow badge_body, DeleteRow 1]"
  obtain as t' where run: "run_requests serve_identifier ?rqs ssn_identifier = (as, t')" by fastforce
  have "as = [Inr 2, Inl (HttpError 409 (''Identifier '' @ [CHR 0x27] @ cb_name badge_body @ [CHR 0x27] @ '' already exists'')),
      Inl (HttpError 400 ''Cannot delete built-in identifier'')]"
    using run by (auto simp: ssn_identifier_def badge_body_def create_identifier_def delete_identifier_def body_ok_def
        by_name_def by_id_def commit_rows_def add_row_def new_identifier_def)
  then show ?thesis
    using identifiers_refine_map [OF ssn_identifier_wf run] run by (simp add: answered_step_def map_step_def)
qed

text \<open>The same for the dictionaries, none of which is kept from being deleted.\<close>

lemma dictionaries_refine_map:
  "catalog_wf t \<Longrightarrow> run_requests serve_dictionary rqs t = (as, t') \<Longrightarrow>
     catalog_wf t' \<and> contents t' = fold answered_step (zip rqs as) (contents t)"
  using dictionaries.run_refines by blast

definition builtin_ids :: "identifier_row catalog \<Rightarrow> nat list" where
  "builtin_ids t = map nr_id (filter nr_builtin (ct_rows t))"

lemma filter_update_builtin:
  "map nr_id (filter nr_builtin (map (\<lambda>r. if nr_id r = rid then set_fields b r else r) rows)) = map nr_id (filter nr_builtin rows)"
  by (induction rows) auto

lemma filter_remove_builtin:
  "distinct (map nr_id rows) \<Longrightarrow> find (\<lambda>r. nr_id r = rid) rows = Some r \<Longrightarrow> \<not> nr_builtin r \<Longrightarrow>
     filter nr_builtin (filter (\<lambda>r. nr_id r \<noteq> rid) rows) = filter nr_builtin rows"
proof (induction rows)
  case (Cons x rows)
  show ?case
  proof (cases "nr_id x = rid")
    case True
    have "rid \<notin> nr_id ` set rows" using Cons.prems(1) True by auto
    then have "filter (\<lambda>r. nr_id r \<noteq> rid) rows = rows" by (auto simp: filter_id_conv)
    then show ?thesis using True Cons.prems by simp
  next
    case False
    then show ?thesis using Cons by simp
  qed
qed simp

lemma commit_rows_cases: "snd (commit_rows t t' x) = t \<or> snd (commit_rows t t' x) = t'"
  by (simp add: commit_rows_def)

lemma serve_builtin:
  assumes "catalog_wf t"
  shows "builtin_ids (snd (serve_identifier rq t)) = builtin_ids t"
proof (cases rq)
  case (CreateRow b)
  have "builtin_ids (add_row (new_identifier b) t) = builtin_ids t" by (simp add: builtin_ids_def add_row_def)
  then show ?thesis
    using CreateRow commit_rows_cases [of t "add_row (new_identifier b) t" "ct_next t"]
    by (auto simp: create_identifier_def split: sum.split option.split)
next
  case (UpdateRow k b)
  have "builtin_ids (overwrite_row k b t) = builtin_ids t" by (simp add: builtin_ids_def overwrite_row_def filter_update_builtin)
  then show ?thesis
    using UpdateRow commit_rows_cases [of t "overwrite_row k b t" k] by (auto simp: update_identifier_def split: option.split)
next
  case (DeleteRow k)
  have "builtin_ids (remove_row k t) = builtin_ids t" if "by_id k t = Some r" "\<not> nr_builtin r" for r
    using that filter_remove_builtin [of "ct_rows t" k r] assms
    by (simp add: builtin_ids_def remove_row_def by_id_def catalog_wf_def del: filter_filter)
  then show ?thesis
    using DeleteRow commit_rows_cases [of t "remove_row k t" k] by (auto simp: delete_identifier_def split: option.split)
qed

text \<open>
  No sequence of requests removes a built-in identifier or makes one.
\<close>

theorem builtin_identifiers_stay:
  assumes "catalog_wf t" and "run_requests serve_identifier rqs t = (as, t')"
  shows "builtin_ids t' = builtin_ids t"
  using assms
proof (induction rqs arbitrary: t as)
  case (Cons rq rqs)
  obtain a t1 where s: "serve_identifier rq t = (a, t1)" by fastforce
  then obtain as' where r: "run_requests serve_identifier rqs t1 = (as', t')"
    using Cons.prems(2) by (auto split: prod.splits)
  show ?case
    using Cons.IH [OF _ r] identifiers.serve_wf [OF Cons.prems(1), of rq] serve_builtin [OF Cons.prems(1), of rq] s by simp
qed simp

theorem builtin_identifiers_stay_witness:
  "builtin_ids (snd (run_requests serve_identifier [DeleteRow 1, UpdateRow 1 badge_body] ssn_identifier)) = [1]"
  using builtin_identifiers_stay [OF ssn_identifier_wf surjective_pairing
      [of "run_requests serve_identifier [DeleteRow 1, UpdateRow 1 badge_body] ssn_identifier"]]
  by (simp add: builtin_ids_def ssn_identifier_def)

text \<open>
  But PUT may replace every field of a built-in one; and where POST answers a name in use with
  a conflict, PUT ends in an internal error.
\<close>

lemma put_taken_name:
  assumes "catalog_wf t" "body_ok b" "k \<in> nr_id ` set (ct_rows t)"
    "cb_name b \<in> nr_name ` set (filter (\<lambda>r. nr_id r \<noteq> k) (ct_rows t))"
  shows "serve_identifier (UpdateRow k b) t = (Inl internal_error, t)"
  unfolding serve_identifier_eq [OF assms(1)]
  using update_names [OF assms(1,3), of b] assms by (simp add: serve_rows_def commit_rows_def del: set_filter)

end
