(* ===== verification/FingerprintApi.thy ===== *)
theory FingerprintApi
  imports Fingerprint Tables
begin

text \<open>
  The fingerprint endpoints of \<open>server/api/fingerprints.py\<close> over the shared index of documents. The strict
  UTF-8 decoder is a parameter; an id the index draws is an argument of the upload.
\<close>

section \<open>The service\<close>

record uploaded_file =
  up_content :: bytes
  up_filename :: "string option"
  up_name :: string
  up_description :: string

definition MAX_DOCUMENT_SIZE :: nat where "MAX_DOCUMENT_SIZE = 10 * 1024 * 1024"

definition latin1_decode :: "bytes \<Rightarrow> string" where
  "latin1_decode bs = map (\<lambda>b. char_of (unat b)) bs"

text \<open>UTF-8, or else Latin-1, which no bytes fail.\<close>

definition decode_upload :: "(bytes \<Rightarrow> string res) \<Rightarrow> bytes \<Rightarrow> string" where
  "decode_upload dec content = (case dec content of Inr s \<Rightarrow> s | Inl e \<Rightarrow> latin1_decode content)"

definition document_name :: "uploaded_file \<Rightarrow> string" where
  "document_name up =
     (if strip (up_name up) \<noteq> [] then strip (up_name up)
      else (case up_filename up of
              Some (c # cs) \<Rightarrow> c # cs
            | _ \<Rightarrow> ''Unnamed Document''))"

definition too_large :: http_error where
  "too_large = HttpError 413 (''File too large. Maximum size is '' @ nat_str (MAX_DOCUMENT_SIZE div (1024 * 1024)) @ '' MB.'')"

definition upload_fingerprint ::
  "(bytes \<Rightarrow> string res) \<Rightarrow> string \<Rightarrow> uploaded_file \<Rightarrow> fingerprint_index
   \<Rightarrow> (http_error + fingerprint_record) \<times> fingerprint_index" where
  "upload_fingerprint dec new_id up ix =
     (if length (up_content up) > MAX_DOCUMENT_SIZE
      then (Inl too_large, ix)
      else (case index_add ix new_id (decode_upload dec (up_content up)) (document_name up)
                   (strip (up_description up)) DEFAULT_SHINGLE_SIZE of
              Inl e \<Rightarrow> (Inl (HttpError 400 (exn_str e)), ix)
            | Inr (ix', r) \<Rightarrow> (Inr r, ix')))"

definition list_fingerprints :: "fingerprint_index \<Rightarrow> fingerprint_record list \<times> nat" where
  "list_fingerprints ix = (let records = map snd (fx_records ix) in (records, length records))"

definition fingerprint_missing :: "string \<Rightarrow> http_error" where
  "fingerprint_missing i = HttpError 404 (''Fingerprint '' @ i @ '' not found.'')"

definition get_fingerprint :: "string \<Rightarrow> fingerprint_index \<Rightarrow> http_error + fingerprint_record" where
  "get_fingerprint i ix = (case index_get ix i of None \<Rightarrow> Inl (fingerprint_missing i) | Some r \<Rightarrow> Inr r)"

definition delete_fingerprint :: "string \<Rightarrow> fingerprint_index \<Rightarrow> (http_error + string) \<times> fingerprint_index" where
  "delete_fingerprint i ix =
     (let (deleted, ix') = (snd (index_remove ix i), fst (index_remove ix i)) in
      if \<not> deleted then (Inl (fingerprint_missing i), ix') else (Inr i, ix'))"

section \<open>Requests and restarts\<close>

text \<open>A restart loads the index from its file; an upload carries the id that is drawn for it.\<close>

datatype fingerprint_event = Upload string uploaded_file | Delete string | Restart

fun fingerprint_step :: "(bytes \<Rightarrow> string res) \<Rightarrow> fingerprint_event \<Rightarrow> fingerprint_index \<Rightarrow> fingerprint_index" where
  "fingerprint_step dec (Upload new_id up) ix = snd (upload_fingerprint dec new_id up ix)"
| "fingerprint_step dec (Delete i) ix = snd (delete_fingerprint i ix)"
| "fingerprint_step dec Restart ix = load_index (fx_file ix)"

text \<open>What the endpoint that gets one record sees: a map from ids to records.\<close>

definition acceptable :: "(bytes \<Rightarrow> string res) \<Rightarrow> uploaded_file \<Rightarrow> bool" where
  "acceptable dec up \<longleftrightarrow> length (up_content up) \<le> MAX_DOCUMENT_SIZE \<and>
     MIN_TEXT_LENGTH \<le> length (normalize_text (decode_upload dec (up_content up)))"

definition uploaded_record :: "(bytes \<Rightarrow> string res) \<Rightarrow> string \<Rightarrow> uploaded_file \<Rightarrow> fingerprint_record" where
  "uploaded_record dec new_id up =
     (let content = decode_upload dec (up_content up); normalized = normalize_text content in
      \<lparr>fp_id = new_id, fp_name = document_name up, fp_description = strip (up_description up),
       fp_simhash = compute_simhash content DEFAULT_SHINGLE_SIZE, text_length = length normalized,
       shingle_count = length (generate_shingles normalized DEFAULT_SHINGLE_SIZE),
       fp_shingle_size = DEFAULT_SHINGLE_SIZE, content_preview = strip (take 200 content)\<rparr>)"

definition record_step ::
  "(bytes \<Rightarrow> string res) \<Rightarrow> fingerprint_event \<Rightarrow> (string \<Rightarrow> fingerprint_record option) \<Rightarrow> string \<Rightarrow> fingerprint_record option" where
  "record_step dec ev m =
     (case ev of
        Upload new_id up \<Rightarrow> if acceptable dec up then m(new_id \<mapsto> uploaded_record dec new_id up) else m
      | Delete i \<Rightarrow> m(i := None)
      | Restart \<Rightarrow> m)"

definition too_short :: "nat \<Rightarrow> http_error" where
  "too_short n = HttpError 400 (''Text too short to fingerprint ('' @ nat_str n @ '' chars, minimum '' @
     nat_str MIN_TEXT_LENGTH @ '')'')"

lemma index_add_uploaded:
  "index_add ix new_id (decode_upload dec (up_content up)) (document_name up) (strip (up_description up)) DEFAULT_SHINGLE_SIZE =
     (let n = length (normalize_text (decode_upload dec (up_content up))) in
      if n < MIN_TEXT_LENGTH
      then Inl (Exn ValueError (''Text too short to fingerprint ('' @ nat_str n @ '' chars, minimum '' @
             nat_str MIN_TEXT_LENGTH @ '')''))
      else Inr (save_index (ix\<lparr>fx_records := dict_set (fx_records ix) new_id (uploaded_record dec new_id up)\<rparr>),
                uploaded_record dec new_id up))"
  unfolding index_add_def uploaded_record_def Let_def ..

lemma upload_accepted:
  "acceptable dec up \<Longrightarrow>
     upload_fingerprint dec new_id up ix =
       (Inr (uploaded_record dec new_id up),
        save_index (ix\<lparr>fx_records := dict_set (fx_records ix) new_id (uploaded_record dec new_id up)\<rparr>))"
  unfolding upload_fingerprint_def index_add_uploaded acceptable_def Let_def by simp

lemma upload_refused:
  "\<not> acceptable dec up \<Longrightarrow>
     upload_fingerprint dec new_id up ix =
       (Inl (if length (up_content up) > MAX_DOCUMENT_SIZE then too_large
             else too_short (length (normalize_text (decode_upload dec (up_content up))))), ix)"
  unfolding upload_fingerprint_def index_add_uploaded acceptable_def Let_def too_short_def
  by (cases "length (up_content up) > MAX_DOCUMENT_SIZE") simp_all

definition index_ok :: "fingerprint_index \<Rightarrow> bool" where
  "index_ok ix \<longleftrightarrow> index_wf ix \<and> index_synced ix"

lemma step_refines:
  assumes "index_ok ix"
  shows "index_ok (fingerprint_step dec ev ix) \<and> index_get (fingerprint_step dec ev ix) = record_step dec ev (index_get ix)"
proof (cases ev)
  case (Upload new_id up)
  show ?thesis
  proof (cases "acceptable dec up")
    case True
    have "index_add ix new_id (decode_upload dec (up_content up)) (document_name up) (strip (up_description up))
        DEFAULT_SHINGLE_SIZE =
      Inr (save_index (ix\<lparr>fx_records := dict_set (fx_records ix) new_id (uploaded_record dec new_id up)\<rparr>),
           uploaded_record dec new_id up)"
      using True unfolding index_add_uploaded acceptable_def Let_def by simp
    from index_add_wf [OF this] show ?thesis
      using assms Upload True
      by (simp add: index_ok_def upload_accepted record_step_def index_get_def [abs_def] save_index_def)
  next
    case False
    then show ?thesis using assms Upload by (simp add: upload_refused record_step_def)
  qed
next
  case (Delete i)
  have "index_get (fst (index_remove ix i)) = (index_get ix)(i := None)"
    by (auto simp: index_get_def index_remove_def save_index_def fun_eq_iff)
  then show ?thesis
    using Delete assms index_remove_wf [of ix i] by (simp add: index_ok_def delete_fingerprint_def record_step_def Let_def)
next
  case Restart
  then show ?thesis
    using assms load_index_wf [of "fx_file ix"] by (simp add: index_ok_def index_synced_def record_step_def index_get_def [abs_def])
qed

section \<open>Properties\<close>

lemma steps_refine:
  "index_ok ix \<Longrightarrow> index_ok (fold (fingerprint_step dec) evs ix) \<and>
     index_get (fold (fingerprint_step dec) evs ix) = fold (record_step dec) evs (index_get ix)"
proof (induction evs arbitrary: ix)
  case (Cons ev evs)
  then show ?case using step_refines [OF Cons.prems, of dec ev] by simp
qed simp

lemma load_index_ok: "index_ok (load_index f)"
  using load_index_wf [of f] by (simp add: index_ok_def)

text \<open>
  The fingerprint service is a map from ids to records that a restart does not change, whatever the
  index file held at first: an upload that is long enough and not too large adds its record, a deletion
  removes one, and nothing else has an effect.
\<close>

theorem fingerprints_refine_map:
  "index_get (fold (fingerprint_step dec) evs (load_index f)) = fold (record_step dec) evs (index_get (load_index f))"
  using steps_refine [OF load_index_ok] by blast







end
