(* ===== verification/NetworkSettings.thy ===== *)
theory NetworkSettings
  imports Tables Json
begin

text \<open>
  \<open>server/api/network_settings.py\<close>: the settings of the network monitors, kept in a JSON file. A file
  is absent, unreadable, or holds a JSON value. How the validation library reads an integer or a text
  from a JSON value is a parameter, relied on only for values that are one.
\<close>

section \<open>Settings\<close>

datatype network_mode = MONITOR | PREVENT

fun mode_value :: "network_mode \<Rightarrow> string" where
  "mode_value MONITOR = ''monitor''"
| "mode_value PREVENT = ''prevent''"

record http_proxy_settings =
  hp_mode :: network_mode
  hp_block_threshold :: int
  hp_domain_allowlist :: "string list"

record smtp_relay_settings =
  sr_mode :: network_mode
  sr_upstream_host :: string
  sr_upstream_port :: int
  sr_block_threshold :: int
  sr_modify_threshold :: int
  sr_quarantine_address :: string

record network_settings =
  ns_http_proxy :: http_proxy_settings
  ns_smtp_relay :: smtp_relay_settings

definition default_http_proxy :: http_proxy_settings where
  "default_http_proxy = \<lparr>hp_mode = MONITOR, hp_block_threshold = 1, hp_domain_allowlist = []\<rparr>"

definition default_smtp_relay :: smtp_relay_settings where
  "default_smtp_relay = \<lparr>sr_mode = MONITOR, sr_upstream_host = ''mailhog'', sr_upstream_port = 1025,
     sr_block_threshold = 5, sr_modify_threshold = 1, sr_quarantine_address = ''quarantine@dlp.local''\<rparr>"

definition default_network_settings :: network_settings where
  "default_network_settings = \<lparr>ns_http_proxy = default_http_proxy, ns_smtp_relay = default_smtp_relay\<rparr>"

record network_update =
  nu_http_proxy :: "http_proxy_settings option"
  nu_smtp_relay :: "smtp_relay_settings option"

section \<open>Reading JSON\<close>

record json_reader =
  jr_int :: "json \<Rightarrow> int option"
  jr_str :: "json \<Rightarrow> string option"

definition reader_ok :: "json_reader \<Rightarrow> bool" where
  "reader_ok rd \<longleftrightarrow> (\<forall>n. jr_int rd (JInt n) = Some n) \<and> (\<forall>s. jr_str rd (JStr s) = Some s)"

text \<open>A field of a model: its default when the key is missing, otherwise what its type reads.\<close>

definition field :: "(json \<Rightarrow> 'a option) \<Rightarrow> 'a \<Rightarrow> string \<Rightarrow> (string \<times> json) list \<Rightarrow> 'a option" where
  "field read dflt key kvs = (case map_of kvs key of None \<Rightarrow> Some dflt | Some v \<Rightarrow> read v)"

definition read_mode :: "json \<Rightarrow> network_mode option" where
  "read_mode v = (case v of JStr s \<Rightarrow> if s = ''monitor'' then Some MONITOR else if s = ''prevent'' then Some PREVENT else None
     | _ \<Rightarrow> None)"

definition within :: "int \<Rightarrow> int \<Rightarrow> int option \<Rightarrow> int option" where
  "within lo hi v = (case v of None \<Rightarrow> None | Some n \<Rightarrow> if lo \<le> n \<and> n \<le> hi then Some n else None)"

fun all_some :: "'a option list \<Rightarrow> 'a list option" where
  "all_some [] = Some []"
| "all_some (None # vs) = None"
| "all_some (Some v # vs) = map_option (Cons v) (all_some vs)"

definition read_texts :: "json_reader \<Rightarrow> json \<Rightarrow> string list option" where
  "read_texts rd v = (case v of JList vs \<Rightarrow> all_some (map (jr_str rd) vs) | _ \<Rightarrow> None)"

definition read_http_proxy :: "json_reader \<Rightarrow> json \<Rightarrow> http_proxy_settings option" where
  "read_http_proxy rd v =
     (case v of
        JObj kvs \<Rightarrow>
          Option.bind (field read_mode MONITOR ''mode'' kvs) (\<lambda>mode.
          Option.bind (field (\<lambda>v. within 1 100 (jr_int rd v)) 1 ''block_threshold'' kvs) (\<lambda>block.
          Option.bind (field (read_texts rd) [] ''domain_allowlist'' kvs) (\<lambda>domains.
            Some \<lparr>hp_mode = mode, hp_block_threshold = block, hp_domain_allowlist = domains\<rparr>)))
      | _ \<Rightarrow> None)"

definition read_smtp_relay :: "json_reader \<Rightarrow> json \<Rightarrow> smtp_relay_settings option" where
  "read_smtp_relay rd v =
     (case v of
        JObj kvs \<Rightarrow>
          Option.bind (field read_mode MONITOR ''mode'' kvs) (\<lambda>mode.
          Option.bind (field (jr_str rd) ''mailhog'' ''upstream_host'' kvs) (\<lambda>host.
          Option.bind (field (\<lambda>v. within 1 65535 (jr_int rd v)) 1025 ''upstream_port'' kvs) (\<lambda>port.
          Option.bind (field (\<lambda>v. within 1 100 (jr_int rd v)) 5 ''block_threshold'' kvs) (\<lambda>block.
          Option.bind (field (\<lambda>v. within 1 100 (jr_int rd v)) 1 ''modify_threshold'' kvs) (\<lambda>modify.
          Option.bind (field (jr_str rd) ''quarantine@dlp.local'' ''quarantine_address'' kvs) (\<lambda>quarantine.
            Some \<lparr>sr_mode = mode, sr_upstream_host = host, sr_upstream_port = port, sr_block_threshold = block,
                  sr_modify_threshold = modify, sr_quarantine_address = quarantine\<rparr>))))))
      | _ \<Rightarrow> None)"

definition read_settings :: "json_reader \<Rightarrow> json \<Rightarrow> network_settings option" where
  "read_settings rd v =
     (case v of
        JObj kvs \<Rightarrow>
          Option.bind (field (read_http_proxy rd) default_http_proxy ''http_proxy'' kvs) (\<lambda>http.
          Option.bind (field (read_smtp_relay rd) default_smtp_relay ''smtp_relay'' kvs) (\<lambda>smtp.
            Some \<lparr>ns_http_proxy = http, ns_smtp_relay = smtp\<rparr>))
      | _ \<Rightarrow> None)"

section \<open>The file\<close>

datatype settings_file = NoSettings | Unreadable | Stored json

text \<open>\<open>_load_settings\<close>: the defaults also stand for a file that cannot be read or does not validate.\<close>

definition load_settings :: "json_reader \<Rightarrow> settings_file \<Rightarrow> network_settings" where
  "load_settings rd f =
     (case f of
        Stored v \<Rightarrow> (case read_settings rd v of Some s \<Rightarrow> s | None \<Rightarrow> default_network_settings)
      | _ \<Rightarrow> default_network_settings)"

definition dump_http_proxy :: "http_proxy_settings \<Rightarrow> json" where
  "dump_http_proxy s = JObj
     [(''mode'', JStr (mode_value (hp_mode s))), (''block_threshold'', JInt (hp_block_threshold s)),
      (''domain_allowlist'', JList (map JStr (hp_domain_allowlist s)))]"

definition dump_smtp_relay :: "smtp_relay_settings \<Rightarrow> json" where
  "dump_smtp_relay s = JObj
     [(''mode'', JStr (mode_value (sr_mode s))), (''upstream_host'', JStr (sr_upstream_host s)),
      (''upstream_port'', JInt (sr_upstream_port s)), (''block_threshold'', JInt (sr_block_threshold s)),
      (''modify_threshold'', JInt (sr_modify_threshold s)), (''quarantine_address'', JStr (sr_quarantine_address s))]"

definition save_settings :: "network_settings \<Rightarrow> settings_file" where
  "save_settings s = Stored (JObj [(''http_proxy'', dump_http_proxy (ns_http_proxy s)),
     (''smtp_relay'', dump_smtp_relay (ns_smtp_relay s))])"

section \<open>The endpoints\<close>

definition get_network_settings :: "json_reader \<Rightarrow> settings_file \<Rightarrow> network_settings" where
  "get_network_settings rd f = load_settings rd f"

definition update_network_settings ::
  "json_reader \<Rightarrow> network_update \<Rightarrow> settings_file \<Rightarrow> network_settings \<times> settings_file" where
  "update_network_settings rd body f =
     (let current = load_settings rd f;
          c1 = (case nu_http_proxy body of None \<Rightarrow> current | Some h \<Rightarrow> current\<lparr>ns_http_proxy := h\<rparr>);
          c2 = (case nu_smtp_relay body of None \<Rightarrow> c1 | Some r \<Rightarrow> c1\<lparr>ns_smtp_relay := r\<rparr>)
      in (c2, save_settings c2))"

section \<open>Round trip\<close>

text \<open>The bounds of the fields, which a request body satisfies and a read keeps.\<close>

definition http_ok :: "http_proxy_settings \<Rightarrow> bool" where
  "http_ok s \<longleftrightarrow> 1 \<le> hp_block_threshold s \<and> hp_block_threshold s \<le> 100"

definition smtp_ok :: "smtp_relay_settings \<Rightarrow> bool" where
  "smtp_ok s \<longleftrightarrow> 1 \<le> sr_upstream_port s \<and> sr_upstream_port s \<le> 65535 \<and>
     1 \<le> sr_block_threshold s \<and> sr_block_threshold s \<le> 100 \<and> 1 \<le> sr_modify_threshold s \<and> sr_modify_threshold s \<le> 100"

definition update_ok :: "network_update \<Rightarrow> bool" where
  "update_ok body \<longleftrightarrow> (case nu_http_proxy body of None \<Rightarrow> True | Some h \<Rightarrow> http_ok h) \<and>
     (case nu_smtp_relay body of None \<Rightarrow> True | Some r \<Rightarrow> smtp_ok r)"

lemma read_mode_value [simp]: "read_mode (JStr (mode_value m)) = Some m"
  by (cases m) (simp_all add: read_mode_def)

lemma all_some_map: "(\<And>x. f (g x) = Some x) \<Longrightarrow> all_some (map f (map g xs)) = Some xs"
  by (induction xs) auto

lemma read_dumped_http:
  assumes "reader_ok rd" "http_ok s"
  shows "read_http_proxy rd (dump_http_proxy s) = Some s"
  using assms all_some_map [of "jr_str rd" JStr "hp_domain_allowlist s"]
  by (simp add: read_http_proxy_def dump_http_proxy_def field_def within_def read_texts_def reader_ok_def http_ok_def comp_def)

lemma read_dumped_smtp:
  assumes "reader_ok rd" "smtp_ok s"
  shows "read_smtp_relay rd (dump_smtp_relay s) = Some s"
  using assms by (simp add: read_smtp_relay_def dump_smtp_relay_def field_def within_def reader_ok_def smtp_ok_def)

lemma load_saved:
  assumes "reader_ok rd" "http_ok (ns_http_proxy s)" "smtp_ok (ns_smtp_relay s)"
  shows "load_settings rd (save_settings s) = s"
  using assms by (simp add: load_settings_def save_settings_def read_settings_def field_def read_dumped_http read_dumped_smtp)

lemma field_SomeD: "field read dflt key kvs = Some x \<Longrightarrow> x = dflt \<or> (\<exists>v. read v = Some x)"
  by (auto simp: field_def split: option.splits)

lemma within_SomeD: "within lo hi v = Some n \<Longrightarrow> lo \<le> n \<and> n \<le> hi"
  by (auto simp: within_def split: option.splits if_splits)

lemma field_within: "field (\<lambda>v. within lo hi (f v)) dflt key kvs = Some n \<Longrightarrow> lo \<le> dflt \<Longrightarrow> dflt \<le> hi \<Longrightarrow> lo \<le> n \<and> n \<le> hi"
  using within_SomeD by (blast dest: field_SomeD)

lemma read_http_ok: "read_http_proxy rd v = Some s \<Longrightarrow> http_ok s"
  by (auto simp: read_http_proxy_def http_ok_def bind_eq_Some_conv split: json.splits dest!: field_within)

lemma read_smtp_ok: "read_smtp_relay rd v = Some s \<Longrightarrow> smtp_ok s"
  by (auto simp: read_smtp_relay_def smtp_ok_def bind_eq_Some_conv split: json.splits dest!: field_within)

lemma defaults_ok: "http_ok default_http_proxy" "smtp_ok default_smtp_relay"
  by (simp_all add: http_ok_def smtp_ok_def default_http_proxy_def default_smtp_relay_def)

lemma loaded_ok: "http_ok (ns_http_proxy (load_settings rd f)) \<and> smtp_ok (ns_smtp_relay (load_settings rd f))"
proof (cases "\<exists>v s. f = Stored v \<and> read_settings rd v = Some s")
  case True
  then obtain v s where f: "f = Stored v" "read_settings rd v = Some s" by blast
  then have "http_ok (ns_http_proxy s) \<and> smtp_ok (ns_smtp_relay s)"
    using defaults_ok
    by (auto simp: read_settings_def bind_eq_Some_conv split: json.splits dest!: field_SomeD intro: read_http_ok read_smtp_ok)
  then show ?thesis using f by (simp add: load_settings_def)
next
  case False
  then have "load_settings rd f = default_network_settings"
    by (auto simp: load_settings_def split: settings_file.split option.split)
  then show ?thesis using defaults_ok by (simp add: default_network_settings_def)
qed

text \<open>
  C31: What PUT answers is what GET answers afterwards: a section that was sent is as it was sent, a
  section that was left out is as it was; so it stays over a restart, because it is read back from the
  file.
\<close>

theorem settings_read_back:
  assumes "reader_ok rd" and "update_ok body" and "update_network_settings rd body f = (answer, f')"
  shows "get_network_settings rd f' = answer \<and>
    ns_http_proxy answer = (case nu_http_proxy body of None \<Rightarrow> ns_http_proxy (get_network_settings rd f) | Some h \<Rightarrow> h) \<and>
    ns_smtp_relay answer = (case nu_smtp_relay body of None \<Rightarrow> ns_smtp_relay (get_network_settings rd f) | Some r \<Rightarrow> r)"
proof -
  let ?c = "load_settings rd f"
  have a: "ns_http_proxy answer = (case nu_http_proxy body of None \<Rightarrow> ns_http_proxy ?c | Some h \<Rightarrow> h)"
    "ns_smtp_relay answer = (case nu_smtp_relay body of None \<Rightarrow> ns_smtp_relay ?c | Some r \<Rightarrow> r)"
    and f': "f' = save_settings answer"
    using assms(3) by (auto simp: update_network_settings_def Let_def split: option.splits)
  have "http_ok (ns_http_proxy answer)" "smtp_ok (ns_smtp_relay answer)"
    using assms(2) loaded_ok [of rd f] a by (auto simp: update_ok_def split: option.splits)
  then have "load_settings rd f' = answer" using load_saved [OF assms(1)] f' by simp
  then show ?thesis unfolding get_network_settings_def using a by blast
qed

definition strict_reader :: json_reader where
  "strict_reader = \<lparr>jr_int = (\<lambda>v. case v of JInt n \<Rightarrow> Some n | _ \<Rightarrow> None),
     jr_str = (\<lambda>v. case v of JStr s \<Rightarrow> Some s | _ \<Rightarrow> None)\<rparr>"

definition blocking :: network_update where
  "blocking = \<lparr>nu_http_proxy = Some \<lparr>hp_mode = PREVENT, hp_block_threshold = 3, hp_domain_allowlist = [''example.org'']\<rparr>,
     nu_smtp_relay = None\<rparr>"

theorem settings_read_back_witness:
  "hp_mode (ns_http_proxy (get_network_settings strict_reader (snd (update_network_settings strict_reader blocking NoSettings)))) = PREVENT"
proof -
  have "reader_ok strict_reader" by (simp add: reader_ok_def strict_reader_def)
  moreover have "update_ok blocking" by (simp add: update_ok_def blocking_def http_ok_def)
  ultimately show ?thesis
    using settings_read_back [OF _ _ surjective_pairing [of "update_network_settings strict_reader blocking NoSettings"]]
    by (simp add: blocking_def)
qed

text \<open>A file that cannot be read is overwritten by the next update: the section that was left out becomes the default.\<close>

lemma unreadable_file_is_reset:
  "update_network_settings rd \<lparr>nu_http_proxy = Some h, nu_smtp_relay = None\<rparr> Unreadable =
     (\<lparr>ns_http_proxy = h, ns_smtp_relay = default_smtp_relay\<rparr>,
      save_settings \<lparr>ns_http_proxy = h, ns_smtp_relay = default_smtp_relay\<rparr>)"
  by (simp add: update_network_settings_def load_settings_def default_network_settings_def Let_def)

end
