(* ===== verification/Search.thy ===== *)
theory Search
  imports IncidentQueries PolicyService Auth "HOL-Library.Sublist"
begin

text \<open>
  \<open>server/api/search.py\<close>: one search over incidents, policies and users, behind the permission to read
  incidents. The rows come in the order of their tables, at most ten of each kind.
\<close>

section \<open>The endpoint\<close>














section \<open>Patterns around a text\<close>










section \<open>What a search finds\<close>










end
