(* ===== verification/DeadLetterApi.thy ===== *)
theory DeadLetterApi
  imports DeadLetter Auth
begin

text \<open>
  The endpoints of \<open>server/api/dead_letter.py\<close> over the queue of failed operations, behind their
  permissions. A request names the entry and brings the time; the answer is what the client receives.
\<close>

section \<open>Requests\<close>

datatype dlq_request =
    ListDlq "string option" bool nat nat
  | DlqStats
  | GetDlq nat
  | RetryDlq nat
  | DismissDlq nat

datatype dlq_answer =
    DlqList "dead_letter list" nat nat nat
  | DlqCounts nat nat nat
  | DlqEntry dead_letter
  | DlqRetried nat bool
  | DlqDismissed
  | DlqError http_error

definition dlq_permission :: "dlq_request \<Rightarrow> string" where
  "dlq_permission rq =
     (case rq of RetryDlq uid \<Rightarrow> ''incidents:write'' | DismissDlq uid \<Rightarrow> ''incidents:write'' | _ \<Rightarrow> ''incidents:read'')"

definition dlq_missing :: dlq_answer where
  "dlq_missing = DlqError (HttpError 404 ''DLQ entry not found'')"

text \<open>The bounds of the page parameters.\<close>

definition dlq_page_ok :: "nat \<Rightarrow> nat \<Rightarrow> bool" where
  "dlq_page_ok page page_size \<longleftrightarrow> 1 \<le> page \<and> 1 \<le> page_size \<and> page_size \<le> 200"

definition list_dlq :: "string option \<Rightarrow> bool \<Rightarrow> nat \<Rightarrow> nat \<Rightarrow> dl_table \<Rightarrow> dlq_answer" where
  "list_dlq op include_dismissed page page_size db =
     (if \<not> dlq_page_ok page page_size then DlqError (HttpError 422 ''Unprocessable Entity'')
      else (case list_entries op include_dismissed (int page) (int page_size) db of
              Inl e \<Rightarrow> DlqError internal_error
            | Inr (entries, n) \<Rightarrow> DlqList entries n page page_size))"

definition dlq_stats :: "dl_table \<Rightarrow> dlq_answer" where
  "dlq_stats db = (let (n, pending, permanent) = get_stats db in DlqCounts n pending permanent)"

definition get_dlq_entry :: "nat \<Rightarrow> dl_table \<Rightarrow> dlq_answer" where
  "get_dlq_entry uid db = (case get_entry uid db of None \<Rightarrow> dlq_missing | Some e \<Rightarrow> DlqEntry e)"

definition retry_dlq_entry :: "int \<Rightarrow> nat \<Rightarrow> dl_table \<Rightarrow> dlq_answer \<times> dl_table" where
  "retry_dlq_entry now uid db =
     (case retry now uid db of
        (None, db') \<Rightarrow> (DlqError (HttpError 400 ''Entry not found, already permanent, or dismissed''), db')
      | (Some e, db') \<Rightarrow> (DlqRetried (retry_count e) (is_permanent e), db'))"

definition dismiss_dlq_entry :: "nat \<Rightarrow> dl_table \<Rightarrow> dlq_answer \<times> dl_table" where
  "dismiss_dlq_entry uid db =
     (case dismiss uid db of (None, db') \<Rightarrow> (dlq_missing, db') | (Some e, db') \<Rightarrow> (DlqDismissed, db'))"

definition serve_dlq :: "int \<Rightarrow> dlq_request \<Rightarrow> dl_table \<Rightarrow> dlq_answer \<times> dl_table" where
  "serve_dlq now rq db =
     (case rq of
        ListDlq op include_dismissed page page_size \<Rightarrow> (list_dlq op include_dismissed page page_size db, db)
      | DlqStats \<Rightarrow> (dlq_stats db, db)
      | GetDlq uid \<Rightarrow> (get_dlq_entry uid db, db)
      | RetryDlq uid \<Rightarrow> retry_dlq_entry now uid db
      | DismissDlq uid \<Rightarrow> dismiss_dlq_entry uid db)"

definition guarded_dlq :: "auth_lib \<Rightarrow> int \<Rightarrow> string option \<Rightarrow> dlq_request \<Rightarrow> dl_table \<Rightarrow> dlq_answer \<times> dl_table" where
  "guarded_dlq lib now credentials rq db =
     (case RequirePermission (dlq_permission rq) lib now credentials of
        Inl e \<Rightarrow> (DlqError e, db)
      | Inr user \<Rightarrow> serve_dlq now rq db)"

section \<open>Properties\<close>

text \<open>A request is a step of the queue, or leaves it as it is.\<close>

lemma serve_dlq_step:
  "snd (serve_dlq now rq db) = db \<or> (\<exists>ev. dl_step db ev (snd (serve_dlq now rq db)))"
proof (cases rq)
  case (RetryDlq uid)
  obtain r db' where r: "retry now uid db = (r, db')" by fastforce
  then have "snd (serve_dlq now rq db) = db'"
    using RetryDlq by (simp add: serve_dlq_def retry_dlq_entry_def split: option.split)
  then show ?thesis using r dl_retry dl_refuse by (cases r) blast+
next
  case (DismissDlq uid)
  obtain r db' where r: "dismiss uid db = (r, db')" by fastforce
  then have "snd (serve_dlq now rq db) = db'"
    using DismissDlq by (simp add: serve_dlq_def dismiss_dlq_entry_def split: option.split)
  then show ?thesis
    using r dl_dismiss by blast
qed (simp_all add: serve_dlq_def)

text \<open>
  The endpoint that lists never fails on the pages it accepts, and its count is the one the statistics show.
\<close>

lemma list_agrees_with_stats:
  assumes "dlq_page_ok page page_size"
  shows "\<exists>entries n. list_dlq None False page page_size db = DlqList entries n page page_size \<and>
    (\<exists>pending permanent. dlq_stats db = DlqCounts n pending permanent \<and> n = pending + permanent)"
proof -
  have n: "length (filter (\<lambda>e. \<not> is_dismissed e) db) =
      length (filter (\<lambda>e. \<not> is_dismissed e \<and> \<not> is_permanent e) db) +
      length (filter (\<lambda>e. is_permanent e \<and> \<not> is_dismissed e) db)"
    by (induction db) auto
  have "0 \<le> (int page - 1) * int page_size" using assms by (simp add: dlq_page_ok_def)
  then show ?thesis
    using assms n by (simp add: list_dlq_def list_entries_def dlq_stats_def get_stats_def Let_def not_less)
qed

end
