(* ===== verification/AuditLog.thy ===== *)
theory AuditLog
  imports IncidentQueries Auth Json
begin

text \<open>
  The audit log an administrator reads (\<open>server/api/system.py\<close>) over the table of
  \<open>server/models/audit.py\<close>. The endpoint only reads; its entries are written by the policy and
  incident endpoints.
\<close>

record audit_row =
  al_id :: nat
  al_actor :: "nat option"
  al_action :: string
  al_resource_type :: string
  al_resource_id :: "string option"
  al_detail :: "string option"
  al_changes :: "(string \<times> json) list option"
  al_ip :: "string option"
  al_created :: int

section \<open>The endpoint\<close>

text \<open>A filter that is missing or empty does not apply; the action is looked for as a part, in any case.\<close>

definition audit_base :: "string option \<Rightarrow> string option \<Rightarrow> audit_row list \<Rightarrow> audit_row list" where
  "audit_base resource_type action rows =
     (let base = (case wanted resource_type of None \<Rightarrow> rows | Some r \<Rightarrow> filter (\<lambda>e. al_resource_type e = r) rows) in
      case wanted action of None \<Rightarrow> base | Some a \<Rightarrow> filter (\<lambda>e. ilike (search_pattern a) (al_action e)) base)"

definition newest_first :: "audit_row list \<Rightarrow> audit_row list" where
  "newest_first rows = rev (sort_key al_created (rev rows))"

definition list_audit_log ::
  "nat \<Rightarrow> nat \<Rightarrow> string option \<Rightarrow> string option \<Rightarrow> audit_row list \<Rightarrow> audit_row page_response" where
  "list_audit_log page page_size resource_type action rows =
     (let base = audit_base resource_type action rows; n = length base in
      \<lparr>pr_items = page_of page page_size (newest_first base), pr_total = n, pr_page = page, pr_page_size = page_size,
       pr_pages = pages_of n page_size\<rparr>)"

text \<open>The permission and the bounds of the query stand before the endpoint; both are checked, the permission first.\<close>

definition audit_page_ok :: "nat \<Rightarrow> nat \<Rightarrow> bool" where
  "audit_page_ok page page_size \<longleftrightarrow> 1 \<le> page \<and> 1 \<le> page_size \<and> page_size \<le> 100"

definition guarded_audit_log ::
  "auth_lib \<Rightarrow> int \<Rightarrow> string option \<Rightarrow> nat \<Rightarrow> nat \<Rightarrow> string option \<Rightarrow> string option \<Rightarrow> audit_row list
   \<Rightarrow> http_error + audit_row page_response" where
  "guarded_audit_log lib now credentials page page_size resource_type action rows =
     (case RequirePermission ''system:admin'' lib now credentials of
        Inl e \<Rightarrow> Inl e
      | Inr u \<Rightarrow>
          if audit_page_ok page page_size then Inr (list_audit_log page page_size resource_type action rows)
          else Inl (HttpError 422 ''Unprocessable Entity''))"

section \<open>Its pages\<close>

definition audit_selected :: "string option \<Rightarrow> string option \<Rightarrow> audit_row \<Rightarrow> bool" where
  "audit_selected resource_type action e \<longleftrightarrow>
     (\<forall>r. wanted resource_type = Some r \<longrightarrow> al_resource_type e = r) \<and>
     (\<forall>a. wanted action = Some a \<longrightarrow> ilike (search_pattern a) (al_action e))"

lemma audit_base_eq: "audit_base resource_type action rows = filter (audit_selected resource_type action) rows"
  by (cases "wanted resource_type"; cases "wanted action")
    (auto simp: audit_base_def audit_selected_def intro!: filter_cong)

lemma newest_first_sorted: "sorted_wrt (\<ge>) (map al_created (newest_first rows))"
  using sorted_sort_key [of al_created "rev rows"]
  by (simp add: newest_first_def sorted_wrt_rev rev_map [symmetric] del: sorted_sort_key)

text \<open>
  The audit log is for administrators only, and it is complete: for them the pages of a query put
  together are exactly the entries that meet it, newest first, and each page names their number; anyone
  else is refused.
\<close>

theorem audit_log_complete:
  assumes "audit_page_ok 1 page_size"
  shows "\<exists>es. mset es = mset (filter (audit_selected rt act) rows) \<and> sorted_wrt (\<ge>) (map al_created es) \<and>
    concat (map (\<lambda>p. page_of (Suc p) page_size es) [0..<pages_of (length es) page_size]) = es \<and>
    (\<forall>page. 1 \<le> page \<longrightarrow>
      (case guarded_audit_log lib now c page page_size rt act rows of
         Inl e \<Rightarrow> \<not> (\<exists>u. get_current_user lib now c = Inr u \<and> cu_role u = JStr ''Admin'')
       | Inr r \<Rightarrow> (\<exists>u. get_current_user lib now c = Inr u \<and> cu_role u = JStr ''Admin'') \<and>
           pr_items r = page_of page page_size es \<and> pr_total r = length es))"
proof -
  let ?es = "newest_first (filter (audit_selected rt act) rows)"
  have admin: "(\<exists>u. RequirePermission ''system:admin'' lib now c = Inr u) \<longleftrightarrow>
      (\<exists>u. get_current_user lib now c = Inr u \<and> cu_role u = JStr ''Admin'')"
    unfolding RequirePermission_Inr write_permissions by blast
  have "length ?es = length (filter (audit_selected rt act) rows)" by (simp add: newest_first_def)
  then have "case guarded_audit_log lib now c page page_size rt act rows of
         Inl e \<Rightarrow> \<not> (\<exists>u. get_current_user lib now c = Inr u \<and> cu_role u = JStr ''Admin'')
       | Inr r \<Rightarrow> (\<exists>u. get_current_user lib now c = Inr u \<and> cu_role u = JStr ''Admin'') \<and>
           pr_items r = page_of page page_size ?es \<and> pr_total r = length ?es" if "1 \<le> page" for page
    using that assms admin
    by (cases "RequirePermission ''system:admin'' lib now c")
      (simp_all add: guarded_audit_log_def audit_page_ok_def list_audit_log_def audit_base_eq Let_def)
  moreover have "mset ?es = mset (filter (audit_selected rt act) rows)" by (simp add: newest_first_def)
  moreover have "concat (map (\<lambda>p. page_of (Suc p) page_size ?es) [0..<pages_of (length ?es) page_size]) = ?es"
    by (rule pages_cover) (use assms in \<open>simp add: audit_page_ok_def\<close>)
  ultimately show ?thesis using newest_first_sorted [of "filter (audit_selected rt act) rows"] by blast
qed

definition two_entries :: "audit_row list" where
  "two_entries =
     [\<lparr>al_id = 1, al_actor = Some 1, al_action = ''policy.create'', al_resource_type = ''policy'', al_resource_id = Some ''1'',
       al_detail = None, al_changes = None, al_ip = None, al_created = 10\<rparr>,
      \<lparr>al_id = 2, al_actor = Some 1, al_action = ''incident.update'', al_resource_type = ''incident'', al_resource_id = Some ''4'',
       al_detail = None, al_changes = None, al_ip = None, al_created = 20\<rparr>]"

theorem audit_log_complete_witness:
  "\<exists>es. mset es = mset (filter (audit_selected None (Some ''POLICY'')) two_entries) \<and>
     (case guarded_audit_log plain_auth 0 None 1 25 None (Some ''POLICY'') two_entries of Inl e \<Rightarrow> True | Inr r \<Rightarrow> pr_items r = page_of 1 25 es)"
proof -
  have "audit_page_ok 1 25" by (simp add: audit_page_ok_def)
  from audit_log_complete [OF this, of None "Some ''POLICY''" two_entries plain_auth 0 None] show ?thesis
    by (fastforce split: sum.splits)
qed

text \<open>An administrator who looks for policy actions is shown the one there is.\<close>

lemma admin_reads_log:
  "case guarded_audit_log plain_auth 100 (Some (create_access_token plain_auth default_auth_settings 0 1 ''admin'' ''Admin'' None))
     1 25 None (Some ''POLICY'') two_entries of Inl e \<Rightarrow> False | Inr r \<Rightarrow> map al_id (pr_items r) = [1]"
proof -
  have "get_current_user plain_auth 100 (Some (create_access_token plain_auth default_auth_settings 0 1 ''admin'' ''Admin'' None)) =
      Inr \<lparr>cu_id = 1, cu_username = JStr ''admin'', cu_role = JStr ''Admin''\<rparr>"
    by (rule access_token_accepted [OF plain_auth_ok]) (simp add: default_auth_settings_def)
  then have "RequirePermission ''system:admin'' plain_auth 100
      (Some (create_access_token plain_auth default_auth_settings 0 1 ''admin'' ''Admin'' None)) =
      Inr \<lparr>cu_id = 1, cu_username = JStr ''admin'', cu_role = JStr ''Admin''\<rparr>"
    unfolding RequirePermission_Inr by (simp add: write_permissions)
  moreover have "map al_id (pr_items (list_audit_log 1 25 None (Some ''POLICY'') two_entries)) = [1]" by code_simp
  ultimately show ?thesis by (simp add: guarded_audit_log_def audit_page_ok_def)
qed

end
