(* ===== verification/SeedData.thy ===== *)
theory SeedData
  imports PolicyService DataIdentifier
begin

text \<open>
  The constants of \<open>server/scripts/seed.py\<close>: roles, the ten built-in data identifiers in the format that
  \<open>DataIdentifier.from_seed_config\<close> reads, and the six policy templates. A member of a string enumeration
  equals its text, so a severity or a condition type is written as the member.
\<close>

text \<open>A pattern, with an exclamation mark for a backslash, a tilde for a double quote and a grave accent for a quote.\<close>

definition quoted_text :: "string \<Rightarrow> string" where
  "quoted_text s = map (\<lambda>c. if c = CHR ''~'' then CHR 0x22 else if c = CHR ''`'' then CHR 0x27 else c) (regex_text s)"

definition seed_entry :: "string \<Rightarrow> string \<Rightarrow> string list \<Rightarrow> string \<Rightarrow> string \<Rightarrow> seed_identifier" where
  "seed_entry name description patterns validator example =
     \<lparr>si_name = Some name,
      si_config = Some \<lparr>sc_patterns = Some patterns, sc_validator = Some validator, sc_example = Some example\<rparr>,
      si_description = Some description\<rparr>"

text \<open>A condition of a template; \<open>component\<close> and \<open>match_count_min\<close> are keys that may be missing.\<close>

record seed_condition =
  sq_type :: condition_type
  sq_component :: "message_part option"
  sq_min :: "nat option"
  sq_config :: "(string \<times> json) list"

record template_def =
  td_name :: string
  td_template_name :: string
  td_description :: string
  td_severity :: pol_severity
  td_rules :: "(string \<times> seed_condition list) list"

section \<open>Roles\<close>

definition ROLES :: "(string \<times> string) list" where
  "ROLES =
     [(''Admin'', ''Full access to all features and settings''),
      (''Analyst'', ''Read incidents, update status/notes, view policies, run detections''),
      (''Remediator'', ''Analyst permissions plus modify policy status and execute Smart Response'')]"

section \<open>Data identifiers\<close>

definition DATA_IDENTIFIERS :: "seed_identifier list" where
  "DATA_IDENTIFIERS =
     [seed_entry ''Credit Card Number (Visa/MC/Amex/Discover)''
        ''Detects credit card numbers with Luhn checksum validation''
        [quoted_text ''4[0-9]{12}(?:[0-9]{3})?'', quoted_text ''5[1-5][0-9]{14}'',
         quoted_text ''3[47][0-9]{13}'', quoted_text ''6(?:011|5[0-9]{2})[0-9]{12}'']
        ''luhn'' ''4532015112830366'',
      seed_entry ''US Social Security Number''
        ''Detects SSNs with area number validation (no 000/666/900+)''
        [quoted_text ''!b!d{3}-!d{2}-!d{4}!b'']
        ''ssn_area'' ''123-45-6789'',
      seed_entry ''US Phone Number''
        ''Detects US phone numbers in common formats''
        [quoted_text ''!b(?:!+1)?[!s.-]?!(?!d{3}!)?[!s.-]?!d{3}[!s.-]?!d{4}!b'']
        ''phone_format'' ''(555) 123-4567'',
      seed_entry ''Email Address''
        ''Detects email addresses per RFC 5322 simplified pattern''
        [quoted_text ''!b[A-Za-z0-9._%+-]+@[A-Za-z0-9.-]+!.[A-Z|a-z]{2,}!b'']
        ''email_domain'' ''user@example.com'',
      seed_entry ''IBAN''
        ''Detects International Bank Account Numbers with MOD-97 checksum''
        [quoted_text ''!b[A-Z]{2}!d{2}[A-Z0-9]{4,30}!b'']
        ''iban_mod97'' ''GB29NWBK60161331926819'',
      seed_entry ''US Passport Number''
        ''Detects US passport numbers''
        [quoted_text ''!b[A-Z]?!d{8,9}!b'']
        ''passport_format'' ''123456789'',
      seed_entry ''US Driver's License''
        ''Detects US driver's license numbers (multi-state patterns)''
        [quoted_text ''!b[A-Z]!d{7}!b'', quoted_text ''!b[A-Z]!d{12}!b'', quoted_text ''!b!d{9}!b'',
         quoted_text ''!b[A-Z]{2}!d{6}!b'']
        ''drivers_license_format'' ''D1234567'',
      seed_entry ''IPv4 Address''
        ''Detects IPv4 addresses with octet range validation''
        [quoted_text ''!b!d{1,3}!.!d{1,3}!.!d{1,3}!.!d{1,3}!b'']
        ''ipv4_range'' ''192.168.1.1'',
      seed_entry ''Date of Birth''
        ''Detects dates in common formats with calendar validation''
        [quoted_text ''!b!d{1,2}/!d{1,2}/!d{4}!b'', quoted_text ''!b!d{4}-!d{2}-!d{2}!b'',
         quoted_text ''!b!d{1,2}-!d{1,2}-!d{4}!b'']
        ''date_calendar'' ''01/15/1990'',
      seed_entry ''US Bank Routing Number (ABA)''
        ''Detects 9-digit ABA routing numbers with 3-7-1 weighted checksum''
        [quoted_text ''!b!d{9}!b'']
        ''aba_checksum'' ''021000021'']"

section \<open>Policy templates\<close>

definition pci_dss_template :: template_def where
  "pci_dss_template =
     \<lparr>td_name = ''PCI-DSS: Credit Card Detection'', td_template_name = ''pci_dss'',
       td_description = ''Detects credit card numbers (Luhn-validated) and cardholder data patterns per PCI-DSS requirements'',
       td_severity = HIGH, td_rules =
        [(''Credit Card Numbers'',
          [\<lparr>sq_type = DATA_IDENTIFIER, sq_component = Some P_GENERIC, sq_min = None,
            sq_config = [(''identifier_name'', JStr ''Credit Card Number (Visa/MC/Amex/Discover)''),
               (''min_matches'', JInt 1)]\<rparr>])]\<rparr>"

definition hipaa_template :: template_def where
  "hipaa_template =
     \<lparr>td_name = ''HIPAA: Protected Health Information'', td_template_name = ''hipaa'',
       td_description = ''Detects medical record numbers, diagnosis codes, and patient identifiers per HIPAA Safe Harbor requirements'',
       td_severity = HIGH, td_rules =
        [(''SSN in Medical Context'',
          [\<lparr>sq_type = DATA_IDENTIFIER, sq_component = Some P_GENERIC, sq_min = None,
            sq_config = [(''identifier_name'', JStr ''US Social Security Number''),
               (''min_matches'', JInt 1)]\<rparr>,
           \<lparr>sq_type = KEYWORD, sq_component = Some P_GENERIC, sq_min = None,
            sq_config = [(''keywords'', JList (map JStr [''patient'', ''diagnosis'', ''medical'', ''health'', ''treatment'', ''prescription'',
             ''hospital'', ''physician'', ''insurance''])),
               (''match_mode'', JStr ''any'')]\<rparr>])]\<rparr>"

definition gdpr_template :: template_def where
  "gdpr_template =
     \<lparr>td_name = ''GDPR: EU Personal Data Protection'', td_template_name = ''gdpr'',
       td_description = ''Detects EU personal data including names with national IDs, IBAN, and dates of birth'',
       td_severity = HIGH, td_rules =
        [(''IBAN Numbers'',
          [\<lparr>sq_type = DATA_IDENTIFIER, sq_component = Some P_GENERIC, sq_min = None,
            sq_config = [(''identifier_name'', JStr ''IBAN''),
               (''min_matches'', JInt 1)]\<rparr>]),
         (''Date of Birth with Personal Context'',
          [\<lparr>sq_type = DATA_IDENTIFIER, sq_component = Some P_GENERIC, sq_min = None,
            sq_config = [(''identifier_name'', JStr ''Date of Birth''),
               (''min_matches'', JInt 1)]\<rparr>,
           \<lparr>sq_type = KEYWORD, sq_component = Some P_GENERIC, sq_min = None,
            sq_config = [(''keywords'', JList (map JStr [''name'', ''address'', ''passport'', ''nationality'', ''citizen'', ''resident''])),
               (''match_mode'', JStr ''any'')]\<rparr>])]\<rparr>"

definition sox_template :: template_def where
  "sox_template =
     \<lparr>td_name = ''SOX: Financial Data Protection'', td_template_name = ''sox'',
       td_description = ''Detects financial statements, audit data, and insider trading indicators per Sarbanes-Oxley requirements'',
       td_severity = MEDIUM, td_rules =
        [(''Financial Keywords'',
          [\<lparr>sq_type = KEYWORD, sq_component = Some P_GENERIC, sq_min = None,
            sq_config = [(''keywords'', JList (map JStr [''confidential financial'', ''earnings report'', ''quarterly results'',
             ''revenue forecast'', ''merger'', ''acquisition'', ''insider'', ''material non-public'',
             ''10-K'', ''10-Q'', ''SEC filing'', ''audit report'', ''balance sheet'',
             ''income statement''])),
               (''match_mode'', JStr ''any''),
               (''min_matches'', JInt 2)]\<rparr>])]\<rparr>"

definition source_code_template :: template_def where
  "source_code_template =
     \<lparr>td_name = ''Source Code Leakage Prevention'', td_template_name = ''source_code'',
       td_description = ''Detects source code, API keys, connection strings, and certificates'',
       td_severity = MEDIUM, td_rules =
        [(''API Keys and Secrets'',
          [\<lparr>sq_type = REGEX, sq_component = Some P_GENERIC, sq_min = None,
            sq_config = [(''patterns'', JList (map JStr [quoted_text ''(?:api[_-]?key|apikey|secret[_-]?key|access[_-]?token|auth[_-]?token)!s*[:=]!s*[`!~][A-Za-z0-9+/=_-]{20,}[`!~]'',
             quoted_text ''-----BEGIN (?:RSA |EC |DSA )?PRIVATE KEY-----'',
             quoted_text ''(?:password|passwd|pwd)!s*[:=]!s*[`!~][^`!~]{8,}[`!~]'']))]\<rparr>]),
         (''Source Code Files'',
          [\<lparr>sq_type = FILE_TYPE, sq_component = Some P_ATTACHMENT, sq_min = None,
            sq_config = [(''types'', JList (map JStr [''py'', ''js'', ''ts'', ''java'', ''c'', ''cpp'', ''h'', ''cs'', ''go'', ''rs'', ''rb'',
             ''php'']))]\<rparr>])]\<rparr>"

definition confidential_template :: template_def where
  "confidential_template =
     \<lparr>td_name = ''Confidential Document Detection'', td_template_name = ''confidential'',
       td_description = ''Detects documents marked as confidential, restricted, or classified via keyword markers and document fingerprinting'',
       td_severity = CRITICAL, td_rules =
        [(''Classification Markers'',
          [\<lparr>sq_type = KEYWORD, sq_component = Some P_GENERIC, sq_min = None,
            sq_config = [(''keywords'', JList (map JStr [''CONFIDENTIAL'', ''RESTRICTED'', ''TOP SECRET'', ''INTERNAL ONLY'',
             ''DO NOT DISTRIBUTE'', ''PROPRIETARY'', ''TRADE SECRET'', ''NOT FOR PUBLIC RELEASE''])),
               (''case_sensitive'', JBool True),
               (''match_mode'', JStr ''any'')]\<rparr>])]\<rparr>"

definition POLICY_TEMPLATES :: "template_def list" where
  "POLICY_TEMPLATES =
     [pci_dss_template, hipaa_template, gdpr_template,
      sox_template, source_code_template, confidential_template]"

lemmas template_defs = pci_dss_template_def hipaa_template_def gdpr_template_def
  sox_template_def source_code_template_def confidential_template_def

end
