(* ===== verification/Seed.thy ===== *)
theory Seed
  imports SeedData Accounts Catalogs
begin

text \<open>
  \<open>server/scripts/seed.py\<close>: the first contents of a database, in one transaction over the tables of
  accounts, identifiers and policies. Each flush sends what was added since the last one and raises when
  a name is taken; then the session closes without a commit.
\<close>

record group_row =
  gr_id :: nat
  gr_name :: string
  gr_description :: "string option"

text \<open>The groups in full; the policy tables have their ids.\<close>

record seed_db =
  sd_auth :: auth_tables
  sd_identifiers :: "identifier_row catalog"
  sd_policies :: policy_tables
  sd_groups :: "group_row list"

section \<open>Accounts\<close>

text \<open>One turn of the loop over \<open>ROLES\<close>; \<open>roles\<close> maps the names to the ids of the new rows.\<close>

definition add_role ::
  "string \<times> string \<Rightarrow> (string \<times> nat) list \<times> auth_tables \<Rightarrow> ((string \<times> nat) list \<times> auth_tables) res" where
  "add_role r s =
     (let (name, description) = r; (roles, t) = s in
      if name \<in> rl_name ` set (au_roles t) then Inl integrity_error
      else Inr (roles @ [(name, au_next t)],
                t\<lparr>au_roles := au_roles t @ [\<lparr>rl_id = au_next t, rl_name = name, rl_description = Some description\<rparr>],
                  au_next := au_next t + 1\<rparr>))"

definition ADMIN_PASSWORD :: string where "ADMIN_PASSWORD = ''AkesoDLP2026!''"

definition admin_user :: "nat \<Rightarrow> string \<Rightarrow> nat \<Rightarrow> user_row" where
  "admin_user uid h role =
     \<lparr>us_id = uid, us_username = ''admin'', us_email = ''admin@akeso.local'', us_password_hash = h,
      us_full_name = Some ''System Administrator'', us_active = True, us_mfa_enabled = False, us_mfa_secret = None,
      us_role = role\<rparr>"

definition add_user :: "user_row \<Rightarrow> auth_tables \<Rightarrow> auth_tables res" where
  "add_user u t =
     (if us_username u \<in> us_username ` set (au_users t) \<or> us_email u \<in> us_email ` set (au_users t) \<or>
         us_role u \<notin> rl_id ` set (au_roles t)
      then Inl integrity_error
      else Inr (t\<lparr>au_users := au_users t @ [u], au_next := au_next t + 1\<rparr>))"

definition seed_accounts :: "auth_lib \<Rightarrow> string \<Rightarrow> auth_tables \<Rightarrow> auth_tables res" where
  "seed_accounts lib salt t =
     rbind (fold_res add_role ROLES ([], t)) (\<lambda>(roles, t1).
       rbind (al_hashpw lib salt ADMIN_PASSWORD) (\<lambda>h.
         (case map_of roles ''Admin'' of
            None \<Rightarrow> Inl (Exn KeyError (repr_str ''Admin''))
          | Some role \<Rightarrow> add_user (admin_user (au_next t1) h role) t1)))"

section \<open>Data identifiers\<close>

text \<open>The dictionary of a configuration, and the row of an entry; every entry has its keys.\<close>

definition config_json :: "seed_config \<Rightarrow> (string \<times> json) list" where
  "config_json c =
     [(''patterns'', JList (map JStr (default_or (sc_patterns c) []))),
      (''validator'', JStr (default_or (sc_validator c) [])), (''example'', JStr (default_or (sc_example c) []))]"

definition seed_row :: "seed_identifier \<Rightarrow> nat \<Rightarrow> identifier_row" where
  "seed_row di n =
     \<lparr>nr_id = n, nr_name = default_or (si_name di) [], nr_description = si_description di,
      nr_config = (case si_config di of Some c \<Rightarrow> config_json c | None \<Rightarrow> []), nr_active = True, nr_builtin = True\<rparr>"

text \<open>All rows are sent by one flush.\<close>

definition seed_identifiers :: "identifier_row catalog \<Rightarrow> identifier_row catalog res" where
  "seed_identifiers t =
     (let t1 = fold (\<lambda>di. add_row (seed_row di)) DATA_IDENTIFIERS t in
      if distinct (map nr_name (ct_rows t1)) then Inr t1 else Inl integrity_error)"

section \<open>Policies\<close>

definition seed_response :: "policy_tables \<Rightarrow> nat \<times> policy_tables" where
  "seed_response t =
     (let rid = pt_next t in
      (rid, t\<lparr>pt_responses := pt_responses t @ [\<lparr>rs_id = rid, rs_name = ''Log and Notify'', rs_description = None\<rparr>],
              pt_actions := pt_actions t @
                [\<lparr>ac_rule = rid, ac_type = ''log'', ac_config = Some [], ac_order = 0\<rparr>,
                 \<lparr>ac_rule = rid, ac_type = ''notify'',
                  ac_config = Some [(''message'', JStr ''A DLP policy violation was detected.'')], ac_order = 1\<rparr>],
              pt_next := rid + 1\<rparr>))"

definition TEMPLATE_GROUP :: string where "TEMPLATE_GROUP = ''Built-in Templates''"

definition seed_group :: "group_row list \<times> policy_tables \<Rightarrow> (nat \<times> group_row list \<times> policy_tables) res" where
  "seed_group s =
     (let (groups, t) = s; gid = pt_next t in
      if TEMPLATE_GROUP \<in> gr_name ` set groups then Inl integrity_error
      else Inr (gid, groups @ [\<lparr>gr_id = gid, gr_name = TEMPLATE_GROUP,
                                 gr_description = Some ''Pre-configured policy templates''\<rparr>],
                t\<lparr>pt_groups := pt_groups t @ [gid], pt_next := gid + 1\<rparr>))"

definition condition_of :: "seed_condition \<Rightarrow> cond" where
  "condition_of c =
     \<lparr>cd_type = sq_type c, cd_component = default_or (sq_component c) P_GENERIC, cd_config = sq_config c,
      cd_min = default_or (sq_min c) 1\<rparr>"

definition template_row :: "int \<Rightarrow> nat \<Rightarrow> nat \<Rightarrow> template_def \<Rightarrow> nat \<Rightarrow> policy_row" where
  "template_row now gid rid d pid =
     \<lparr>po_id = pid, po_name = td_name d, po_description = Some (td_description d), po_status = SUSPENDED,
      po_severity = td_severity d, po_is_template = True, po_template_name = Some (td_template_name d),
      po_thresholds = None, po_ttd = ''log'', po_group = Some gid, po_response = Some rid, po_created = now\<rparr>"

definition template_rule :: "string \<times> seed_condition list \<Rightarrow> rule_data" where
  "template_rule r = \<lparr>rd_name = fst r, rd_description = None, rd_type = ''detection'', rd_conditions = map condition_of (snd r)\<rparr>"

definition add_template :: "int \<Rightarrow> nat \<Rightarrow> nat \<Rightarrow> template_def \<Rightarrow> policy_tables \<Rightarrow> policy_tables" where
  "add_template now gid rid d t =
     (let pid = pt_next t;
          t1 = t\<lparr>pt_policies := pt_policies t @ [template_row now gid rid d pid], pt_next := pid + 1\<rparr>
      in fold (\<lambda>r. insert_rule pid (template_rule r)) (td_rules d) t1)"

definition seed_policies :: "int \<Rightarrow> group_row list \<times> policy_tables \<Rightarrow> (group_row list \<times> policy_tables) res" where
  "seed_policies now s =
     (let (groups, t) = s; (rid, t1) = seed_response t in
      rbind (seed_group (groups, t1)) (\<lambda>(gid, groups1, t2).
        Inr (groups1, fold (add_template now gid rid) POLICY_TEMPLATES t2)))"

section \<open>The script\<close>

definition seed_tables :: "auth_lib \<Rightarrow> string \<Rightarrow> int \<Rightarrow> seed_db \<Rightarrow> seed_db res" where
  "seed_tables lib salt now db =
     rbind (seed_accounts lib salt (sd_auth db)) (\<lambda>auth.
     rbind (seed_identifiers (sd_identifiers db)) (\<lambda>identifiers.
     rbind (seed_policies now (sd_groups db, sd_policies db)) (\<lambda>(groups, policies).
       Inr \<lparr>sd_auth = auth, sd_identifiers = identifiers, sd_policies = policies, sd_groups = groups\<rparr>)))"

definition seed :: "auth_lib \<Rightarrow> string \<Rightarrow> int \<Rightarrow> seed_db tx \<Rightarrow> unit res \<times> seed_db tx" where
  "seed lib salt now s =
     (case seed_tables lib salt now (tx_work s) of
        Inl e \<Rightarrow> (Inl e, tx_close s)
      | Inr db \<Rightarrow> (Inr (), tx_commit (tx_do (\<lambda>_. db) s)))"

section \<open>What the loops do\<close>

lemma upt_from: "[n..<n + length (x # xs)] = n # [n + 1..<n + 1 + length xs]"
  by (simp add: upt_conv_Cons del: upt_Suc)

lemma add_roles:
  "fold_res add_role rs (acc, t) =
     (if distinct (map fst rs) \<and> fst ` set rs \<inter> rl_name ` set (au_roles t) = {}
      then Inr (acc @ zip (map fst rs) [au_next t..<au_next t + length rs],
                t\<lparr>au_roles := au_roles t @ map (\<lambda>((name, description), n). \<lparr>rl_id = n, rl_name = name,
                                             rl_description = Some description\<rparr>)
                                    (zip rs [au_next t..<au_next t + length rs]),
                  au_next := au_next t + length rs\<rparr>)
      else Inl integrity_error)"
proof (induction rs arbitrary: acc t)
  case (Cons r rs)
  obtain name description where r: "r = (name, description)" by (cases r)
  let ?n = "au_next t"
  let ?t = "t\<lparr>au_roles := au_roles t @ [\<lparr>rl_id = ?n, rl_name = name, rl_description = Some description\<rparr>], au_next := ?n + 1\<rparr>"
  show ?case
  proof (cases "name \<in> rl_name ` set (au_roles t)")
    case True
    then have "add_role r (acc, t) = Inl integrity_error" by (simp add: r add_role_def)
    moreover have "fst ` set (r # rs) \<inter> rl_name ` set (au_roles t) \<noteq> {}" using True by (auto simp: r)
    ultimately show ?thesis by simp
  next
    case False
    then have "add_role r (acc, t) = Inr (acc @ [(name, ?n)], ?t)" by (simp add: r add_role_def)
    then have step: "fold_res add_role (r # rs) (acc, t) = fold_res add_role rs (acc @ [(name, ?n)], ?t)" by simp
    have "distinct (map fst (r # rs)) \<and> fst ` set (r # rs) \<inter> rl_name ` set (au_roles t) = {} \<longleftrightarrow>
        distinct (map fst rs) \<and> fst ` set rs \<inter> rl_name ` set (au_roles ?t) = {}"
      using False unfolding r by auto
    then show ?thesis unfolding step Cons.IH upt_from by (simp add: r)
  qed
qed simp

text \<open>The script names every entry, so its rows are the old ones and one for each entry.\<close>

lemma fold_add_rows:
  "fold (\<lambda>di. add_row (seed_row di)) ds t =
     t\<lparr>ct_rows := ct_rows t @ map (\<lambda>(di, n). seed_row di n) (zip ds [ct_next t..<ct_next t + length ds]),
       ct_next := ct_next t + length ds\<rparr>"
proof (induction ds arbitrary: t)
  case (Cons di ds)
  let ?t = "t\<lparr>ct_rows := ct_rows t @ [seed_row di (ct_next t)], ct_next := ct_next t + 1\<rparr>"
  have "add_row (seed_row di) t = ?t" by (simp add: add_row_def)
  then have step: "fold (\<lambda>di. add_row (seed_row di)) (di # ds) t = fold (\<lambda>di. add_row (seed_row di)) ds ?t" by simp
  show ?case unfolding step Cons.IH upt_from by simp
qed simp

definition seed_names :: "string list" where
  "seed_names = map (\<lambda>di. default_or (si_name di) []) DATA_IDENTIFIERS"

lemma seed_names_list: "seed_names =
   [''Credit Card Number (Visa/MC/Amex/Discover)'', ''US Social Security Number'', ''US Phone Number'',
    ''Email Address'', ''IBAN'', ''US Passport Number'', ''US Driver's License'', ''IPv4 Address'', ''Date of Birth'',
    ''US Bank Routing Number (ABA)'']"
  by (simp add: seed_names_def DATA_IDENTIFIERS_def seed_entry_def default_or_def)

lemma seed_names_distinct: "distinct seed_names"
  unfolding seed_names_list by code_simp

lemma seeded_row_names:
  "map nr_name (map (\<lambda>(di, n). seed_row di n) (zip ds [k..<k + length ds])) = map (\<lambda>di. default_or (si_name di) []) ds"
  by (rule nth_equalityI) (simp_all add: seed_row_def)

lemma seeded_row_ids: "map nr_id (map (\<lambda>(di, n). seed_row di n) (zip ds [k..<k + length ds])) = [k..<k + length ds]"
  by (rule nth_equalityI) (simp_all add: seed_row_def)

definition seeded_catalog :: "identifier_row catalog \<Rightarrow> identifier_row catalog" where
  "seeded_catalog t = fold (\<lambda>di. add_row (seed_row di)) DATA_IDENTIFIERS t"

lemma seeded_catalog_wf:
  assumes "catalog_wf t" and "set seed_names \<inter> nr_name ` set (ct_rows t) = {}"
  shows "catalog_wf (seeded_catalog t)"
proof -
  let ?new = "map (\<lambda>(di, n). seed_row di n) (zip DATA_IDENTIFIERS [ct_next t..<ct_next t + length DATA_IDENTIFIERS])"
  have rows: "ct_rows (seeded_catalog t) = ct_rows t @ ?new" "ct_next (seeded_catalog t) = ct_next t + length DATA_IDENTIFIERS"
    unfolding seeded_catalog_def fold_add_rows by simp_all
  have ids: "map nr_id ?new = [ct_next t..<ct_next t + length DATA_IDENTIFIERS]" by (rule seeded_row_ids)
  then have mem: "nr_id ` set ?new = {ct_next t..<ct_next t + length DATA_IDENTIFIERS}"
    by (metis list.set_map set_upt)
  have names: "map nr_name ?new = seed_names" unfolding seed_names_def by (rule seeded_row_names)
  then have "nr_name ` set ?new = set seed_names" by (metis list.set_map)
  then have "distinct (map nr_name (ct_rows (seeded_catalog t)))"
    using assms seed_names_distinct names unfolding rows catalog_wf_def map_append distinct_append set_map by auto
  moreover have old: "\<forall>r \<in> set (ct_rows t). nr_id r < ct_next t" using assms(1) by (simp add: catalog_wf_def)
  then have "distinct (map nr_id (ct_rows (seeded_catalog t)))"
    using assms(1) unfolding rows map_append distinct_append ids catalog_wf_def set_map by auto
  moreover have "\<forall>r \<in> set (ct_rows (seeded_catalog t)). nr_id r < ct_next (seeded_catalog t)"
    using old mem unfolding rows set_append by fastforce
  ultimately show ?thesis by (simp add: catalog_wf_def)
qed

section \<open>Accounts\<close>

lemma role_names: "map fst ROLES = [''Admin'', ''Analyst'', ''Remediator'']"
  by (simp add: ROLES_def)

definition new_roles :: "nat \<Rightarrow> role_row list" where
  "new_roles k = map (\<lambda>((name, description), n). \<lparr>rl_id = n, rl_name = name, rl_description = Some description\<rparr>)
     (zip ROLES [k..<k + 3])"

lemma new_roles_eq: "map rl_id (new_roles k) = [k, k + 1, k + 2]" "map rl_name (new_roles k) = map fst ROLES"
  by (simp_all add: new_roles_def ROLES_def numeral_3_eq_3 upt_conv_Cons)

lemma new_role_id: "k \<in> rl_id ` set (new_roles k)"
  unfolding set_map [symmetric] new_roles_eq by simp

definition accounts_free :: "auth_tables \<Rightarrow> bool" where
  "accounts_free t \<longleftrightarrow> fst ` set ROLES \<inter> rl_name ` set (au_roles t) = {} \<and>
     ''admin'' \<notin> us_username ` set (au_users t) \<and> ''admin@akeso.local'' \<notin> us_email ` set (au_users t)"

definition seeded_accounts :: "string \<Rightarrow> auth_tables \<Rightarrow> auth_tables" where
  "seeded_accounts h t = t\<lparr>au_roles := au_roles t @ new_roles (au_next t),
     au_users := au_users t @ [admin_user (au_next t + 3) h (au_next t)], au_next := au_next t + 4\<rparr>"

lemma seed_accounts_eq:
  "seed_accounts lib salt t =
     (if fst ` set ROLES \<inter> rl_name ` set (au_roles t) \<noteq> {} then Inl integrity_error
      else rbind (al_hashpw lib salt ADMIN_PASSWORD) (\<lambda>h.
        if accounts_free t then Inr (seeded_accounts h t) else Inl integrity_error))"
proof -
  have d: "distinct (map fst ROLES)" unfolding role_names by simp
  have n: "length ROLES = 3" by (simp add: ROLES_def)
  have z: "map_of (zip (map fst ROLES) [k..<k + 3]) ''Admin'' = Some k" for k
    unfolding role_names by (simp add: numeral_3_eq_3 upt_conv_Cons)
  have r: "k \<in> rl_id ` (R \<union> set (new_roles k))" for k R using new_role_id [of k] by blast
  show ?thesis
  proof (cases "fst ` set ROLES \<inter> rl_name ` set (au_roles t) = {}")
    case True
    then have f: "fold_res add_role ROLES ([], t) = Inr (zip (map fst ROLES) [au_next t..<au_next t + 3],
        t\<lparr>au_roles := au_roles t @ new_roles (au_next t), au_next := au_next t + 3\<rparr>)"
      using d unfolding add_roles n new_roles_def by simp
    show ?thesis unfolding seed_accounts_def f rbind.simps prod.case z option.case using True
      by (cases "al_hashpw lib salt ADMIN_PASSWORD")
        (simp_all add: add_user_def admin_user_def accounts_free_def seeded_accounts_def r)
  next
    case False
    then show ?thesis using d unfolding seed_accounts_def add_roles by simp
  qed
qed

lemma wf_more_roles:
  assumes "auth_wf t" and "set (au_roles t) \<subseteq> set rs" and "au_next t \<le> n"
  shows "auth_wf (t\<lparr>au_roles := rs, au_next := n\<rparr>)"
proof -
  have up: "{..<au_next t} \<subseteq> {..<n}" using assms(3) by simp
  have "us_role ` set (au_users t) \<subseteq> rl_id ` set (au_roles t)" using assms(1) unfolding auth_wf_def by (elim conjE)
  then have a: "us_role ` set (au_users t) \<subseteq> rl_id ` set rs" using image_mono [OF assms(2), of rl_id] by (rule subset_trans)
  have "us_id ` set (au_users t) \<subseteq> {..<au_next t}" using assms(1) unfolding auth_wf_def by (elim conjE)
  then have b: "us_id ` set (au_users t) \<subseteq> {..<n}" using up by (rule subset_trans)
  have "se_id ` set (au_sessions t) \<subseteq> {..<au_next t}" using assms(1) unfolding auth_wf_def by (elim conjE)
  then have c: "se_id ` set (au_sessions t) \<subseteq> {..<n}" using up by (rule subset_trans)
  show ?thesis using assms(1) a b c unfolding auth_wf_def by simp
qed

lemma seeded_accounts_wf:
  assumes "auth_wf t" and "accounts_free t"
  shows "auth_wf (seeded_accounts h t)"
proof -
  let ?t = "t\<lparr>au_roles := au_roles t @ new_roles (au_next t), au_next := au_next t + 3\<rparr>"
  have "auth_wf ?t" by (rule wf_more_roles [OF assms(1)]) simp_all
  moreover have "au_next t \<in> rl_id ` set (au_roles ?t)" using new_role_id by auto
  ultimately have "auth_wf (?t\<lparr>au_users := au_users ?t @ [admin_user (au_next ?t) h (au_next t)], au_next := Suc (au_next ?t)\<rparr>)"
    using assms(2) by (intro wf_add_user) (simp_all add: admin_user_def accounts_free_def)
  then show ?thesis by (simp add: seeded_accounts_def numeral_eq_Suc)
qed

section \<open>Policies\<close>

lemma wf_grow:
  assumes "policies_wf t" and "pt_policies t' = pt_policies t" "pt_rules t' = pt_rules t" "pt_exceptions t' = pt_exceptions t"
    and "set (pt_groups t) \<subseteq> set (pt_groups t')" "set (pt_responses t) \<subseteq> set (pt_responses t')" and "pt_next t \<le> pt_next t'"
  shows "policies_wf t'"
proof -
  have "policy_fk_ok p t'" if "policy_fk_ok p t" for p
    using that assms(5,6) by (auto simp: policy_fk_ok_def refers_to_def split: option.splits)
  then show ?thesis using assms unfolding policies_wf_def by fastforce
qed

lemma add_template_wf:
  assumes "policies_wf t" and "gid \<in> set (pt_groups t)" and "rid \<in> rs_id ` set (pt_responses t)"
  shows "policies_wf (add_template now gid rid d t)"
proof -
  let ?p = "template_row now gid rid d (pt_next t)"
  let ?t = "t\<lparr>pt_policies := pt_policies t @ [?p], pt_next := pt_next t + 1\<rparr>"
  have "policies_wf ?t" using assms
    by (intro wf_new_policy) (simp_all add: template_row_def policy_fk_ok_def refers_to_def)
  then have "policies_wf (fold (insert_rule (pt_next t)) (map template_rule (td_rules d)) ?t)"
    by (rule wf_fold_rules) (simp add: template_row_def)
  then show ?thesis by (simp add: add_template_def fold_map comp_def Let_def)
qed

lemma fold_rules_frame:
  "pt_groups (fold (\<lambda>r. insert_rule pid (template_rule r)) rs t) = pt_groups t"
  "pt_responses (fold (\<lambda>r. insert_rule pid (template_rule r)) rs t) = pt_responses t"
  "pt_policies (fold (\<lambda>r. insert_rule pid (template_rule r)) rs t) = pt_policies t"
  by (rule fold_keeps, simp)+

lemma add_template_frame [simp]:
  "pt_groups (add_template now gid rid d t) = pt_groups t" "pt_responses (add_template now gid rid d t) = pt_responses t"
  "pt_policies (add_template now gid rid d t) = pt_policies t @ [template_row now gid rid d (pt_next t)]"
  by (simp_all add: add_template_def Let_def fold_rules_frame)

lemma add_templates_wf:
  assumes "policies_wf t" and "gid \<in> set (pt_groups t)" and "rid \<in> rs_id ` set (pt_responses t)"
  shows "policies_wf (fold (add_template now gid rid) ds t)"
proof -
  let ?P = "\<lambda>u. policies_wf u \<and> gid \<in> set (pt_groups u) \<and> rid \<in> rs_id ` set (pt_responses u)"
  have "?P (fold (add_template now gid rid) ds t)"
    by (rule fold_invariant [where P = ?P]) (use assms add_template_wf in simp_all)
  then show ?thesis by simp
qed

lemma add_templates_frame:
  "pt_groups (fold (add_template now gid rid) ds t) = pt_groups t"
  "map po_name (pt_policies (fold (add_template now gid rid) ds t)) = map po_name (pt_policies t) @ map td_name ds"
  "filter (\<lambda>p. \<not> po_is_template p) (pt_policies (fold (add_template now gid rid) ds t)) =
   filter (\<lambda>p. \<not> po_is_template p) (pt_policies t)"
  by (induction ds arbitrary: t) (simp_all add: template_row_def)

definition seeded_policies :: "int \<Rightarrow> policy_tables \<Rightarrow> policy_tables" where
  "seeded_policies now t =
     (let (rid, t1) = seed_response t; gid = pt_next t1 in
      fold (add_template now gid rid) POLICY_TEMPLATES (t1\<lparr>pt_groups := pt_groups t1 @ [gid], pt_next := gid + 1\<rparr>))"

definition template_group :: "nat \<Rightarrow> group_row" where
  "template_group gid = \<lparr>gr_id = gid, gr_name = TEMPLATE_GROUP, gr_description = Some ''Pre-configured policy templates''\<rparr>"

lemma seed_policies_eq:
  "seed_policies now (groups, t) =
     (if TEMPLATE_GROUP \<in> gr_name ` set groups then Inl integrity_error
      else Inr (groups @ [template_group (pt_next t + 1)], seeded_policies now t))"
  by (simp add: seed_policies_def seed_group_def seed_response_def seeded_policies_def template_group_def Let_def)

lemma seeded_policies_wf:
  assumes "policies_wf t"
  shows "policies_wf (seeded_policies now t)"
proof -
  obtain rid t1 where r: "seed_response t = (rid, t1)" by (cases "seed_response t")
  let ?t = "t1\<lparr>pt_groups := pt_groups t1 @ [pt_next t1], pt_next := pt_next t1 + 1\<rparr>"
  have "policies_wf ?t" by (rule wf_grow [OF assms]) (use r in \<open>auto simp: seed_response_def Let_def\<close>)
  then have "policies_wf (fold (add_template now (pt_next t1) rid) POLICY_TEMPLATES ?t)"
    by (rule add_templates_wf) (use r in \<open>auto simp: seed_response_def Let_def\<close>)
  then show ?thesis by (simp add: seeded_policies_def r Let_def)
qed

lemma seeded_policies_contents:
  "pt_groups (seeded_policies now t) = pt_groups t @ [pt_next t + 1]"
  "map po_name (pt_policies (seeded_policies now t)) = map po_name (pt_policies t) @ map td_name POLICY_TEMPLATES"
  "filter (\<lambda>p. \<not> po_is_template p) (pt_policies (seeded_policies now t)) = filter (\<lambda>p. \<not> po_is_template p) (pt_policies t)"
  by (simp_all add: seeded_policies_def seed_response_def Let_def add_templates_frame)

section \<open>All or nothing\<close>

definition seed_wf :: "seed_db \<Rightarrow> bool" where
  "seed_wf db \<longleftrightarrow> auth_wf (sd_auth db) \<and> distinct (map rl_name (au_roles (sd_auth db))) \<and>
     catalog_wf (sd_identifiers db) \<and> policies_wf (sd_policies db) \<and>
     map gr_id (sd_groups db) = pt_groups (sd_policies db) \<and> distinct (map gr_name (sd_groups db))"

text \<open>No name of the script is taken, and the password can be hashed.\<close>

definition seedable :: "auth_lib \<Rightarrow> string \<Rightarrow> seed_db \<Rightarrow> bool" where
  "seedable lib salt db \<longleftrightarrow> accounts_free (sd_auth db) \<and> is_ok (al_hashpw lib salt ADMIN_PASSWORD) \<and>
     set seed_names \<inter> nr_name ` set (ct_rows (sd_identifiers db)) = {} \<and> TEMPLATE_GROUP \<notin> gr_name ` set (sd_groups db)"

definition seeded_db :: "int \<Rightarrow> string \<Rightarrow> seed_db \<Rightarrow> seed_db" where
  "seeded_db now h db =
     \<lparr>sd_auth = seeded_accounts h (sd_auth db), sd_identifiers = seeded_catalog (sd_identifiers db),
      sd_policies = seeded_policies now (sd_policies db),
      sd_groups = sd_groups db @ [template_group (pt_next (sd_policies db) + 1)]\<rparr>"

lemma seed_identifiers_eq:
  assumes "catalog_wf t"
  shows "seed_identifiers t =
    (if set seed_names \<inter> nr_name ` set (ct_rows t) = {} then Inr (seeded_catalog t) else Inl integrity_error)"
proof -
  have rows: "map nr_name (ct_rows (seeded_catalog t)) = map nr_name (ct_rows t) @ seed_names"
    unfolding seeded_catalog_def fold_add_rows seed_names_def by (simp add: seeded_row_names del: map_map)
  have "distinct (map nr_name (ct_rows (seeded_catalog t))) \<longleftrightarrow> set seed_names \<inter> nr_name ` set (ct_rows t) = {}"
    using assms seed_names_distinct unfolding rows catalog_wf_def by auto
  then show ?thesis by (simp add: seed_identifiers_def seeded_catalog_def Let_def)
qed

lemma seed_tables_eq:
  assumes "catalog_wf (sd_identifiers db)"
  shows "if seedable lib salt db
    then \<exists>h. al_hashpw lib salt ADMIN_PASSWORD = Inr h \<and> seed_tables lib salt now db = Inr (seeded_db now h db)
    else \<exists>e. seed_tables lib salt now db = Inl e"
proof (cases "al_hashpw lib salt ADMIN_PASSWORD")
  case (Inl e)
  then show ?thesis by (simp add: seedable_def seed_tables_def seed_accounts_eq)
next
  case (Inr h)
  have "\<not> accounts_free (sd_auth db) \<Longrightarrow> seed_accounts lib salt (sd_auth db) = Inl integrity_error"
    using Inr by (simp add: seed_accounts_eq)
  moreover have "accounts_free (sd_auth db) \<Longrightarrow> seed_accounts lib salt (sd_auth db) = Inr (seeded_accounts h (sd_auth db))"
    using Inr by (simp add: seed_accounts_eq accounts_free_def)
  ultimately show ?thesis using Inr
    by (cases "accounts_free (sd_auth db)")
      (simp_all add: seedable_def seed_tables_def seed_identifiers_eq [OF assms] seed_policies_eq seeded_db_def)
qed

lemma seeded_db_wf:
  assumes "seed_wf db" and "seedable lib salt db"
  shows "seed_wf (seeded_db now h db)"
proof -
  have free: "accounts_free (sd_auth db)" using assms(2) by (simp add: seedable_def)
  have "distinct (map rl_name (au_roles (seeded_accounts h (sd_auth db))))"
    using assms(1) free by (auto simp: seeded_accounts_def seed_wf_def accounts_free_def new_roles_eq role_names ROLES_def)
  moreover have "map gr_id (sd_groups db @ [template_group (pt_next (sd_policies db) + 1)]) = pt_groups (seeded_policies now (sd_policies db))"
    using assms(1) by (simp add: seeded_policies_contents seed_wf_def template_group_def)
  moreover have "distinct (map gr_name (sd_groups db @ [template_group (pt_next (sd_policies db) + 1)]))"
    using assms by (simp add: seed_wf_def seedable_def template_group_def)
  moreover have "auth_wf (seeded_accounts h (sd_auth db))"
    using assms(1) free by (intro seeded_accounts_wf) (simp add: seed_wf_def)
  moreover have "catalog_wf (seeded_catalog (sd_identifiers db))"
    using assms by (intro seeded_catalog_wf) (simp_all add: seed_wf_def seedable_def)
  moreover have "policies_wf (seeded_policies now (sd_policies db))"
    using assms(1) by (intro seeded_policies_wf) (simp add: seed_wf_def)
  ultimately show ?thesis unfolding seed_wf_def seeded_db_def seed_db.simps by blast
qed

lemma seeded_not_seedable: "\<not> seedable lib salt (seeded_db now h db)"
  by (simp add: seedable_def seeded_db_def template_group_def)

text \<open>
  C40: The script fills a consistent database or leaves it as it was. It succeeds exactly when none
  of the names it uses is taken and the password can be hashed; afterwards all tables are still
  consistent, the identifiers and templates are there under their names, no policy in use has changed,
  and the script cannot run again.
\<close>

theorem seed_all_or_nothing:
  assumes "seed_wf (tx_durable s)" and "tx_work s = tx_durable s" and "seed lib salt now s = (r, s')"
  shows "(r = Inr () \<longleftrightarrow> seedable lib salt (tx_durable s)) \<and> (r \<noteq> Inr () \<longrightarrow> s' = s) \<and> seed_wf (tx_durable s') \<and>
    (r = Inr () \<longrightarrow> \<not> seedable lib salt (tx_durable s') \<and>
       map nr_name (ct_rows (sd_identifiers (tx_durable s'))) =
         map nr_name (ct_rows (sd_identifiers (tx_durable s))) @ seed_names \<and>
       map po_name (pt_policies (sd_policies (tx_durable s'))) =
         map po_name (pt_policies (sd_policies (tx_durable s))) @ map td_name POLICY_TEMPLATES \<and>
       filter (\<lambda>p. \<not> po_is_template p) (pt_policies (sd_policies (tx_durable s'))) =
         filter (\<lambda>p. \<not> po_is_template p) (pt_policies (sd_policies (tx_durable s))))"
proof (cases "seedable lib salt (tx_durable s)")
  case True
  then obtain h where h: "seed_tables lib salt now (tx_durable s) = Inr (seeded_db now h (tx_durable s))"
    using seed_tables_eq [of "tx_durable s" lib salt now] assms(1) by (auto simp: seed_wf_def)
  then have r: "r = Inr ()" and d: "tx_durable s' = seeded_db now h (tx_durable s)"
    using assms(2,3) by (auto simp: seed_def)
  have "map nr_name (ct_rows (seeded_catalog t)) = map nr_name (ct_rows t) @ seed_names" for t
    unfolding seeded_catalog_def fold_add_rows seed_names_def by (simp add: seeded_row_names del: map_map)
  then show ?thesis using True r seeded_db_wf [OF assms(1) True] seeded_not_seedable seeded_policies_contents(2,3)
    unfolding d by (simp add: seeded_db_def)
next
  case False
  then obtain e where "seed_tables lib salt now (tx_durable s) = Inl e"
    using seed_tables_eq [of "tx_durable s" lib salt now] assms(1) by (auto simp: seed_wf_def)
  then have "r = Inl e" "s' = tx_close s" using assms(2,3) by (auto simp: seed_def)
  moreover have "tx_close s = s" using assms(2) by (simp add: tx_close_def)
  ultimately show ?thesis using False assms(1) by simp
qed

definition empty_db :: seed_db where
  "empty_db =
     \<lparr>sd_auth = \<lparr>au_roles = [], au_users = [], au_sessions = [], au_next = 1\<rparr>,
      sd_identifiers = \<lparr>ct_rows = [], ct_next = 1\<rparr>,
      sd_policies = \<lparr>pt_policies = [], pt_rules = [], pt_exceptions = [], pt_groups = [], pt_responses = [], pt_actions = [],
                     pt_audit = [], pt_next = 1\<rparr>,
      sd_groups = []\<rparr>"

lemma empty_db_ok: "seed_wf empty_db" "seedable plain_auth salt empty_db"
  by (simp_all add: seed_wf_def empty_db_def auth_wf_def catalog_wf_def policies_wf_def seedable_def accounts_free_def
      plain_auth_def)

theorem seed_all_or_nothing_witness:
  "\<exists>s'. seed plain_auth ''$'' 0 (tx_open empty_db) = (Inr (), s') \<and> seed_wf (tx_durable s') \<and>
     map po_name (pt_policies (sd_policies (tx_durable s'))) = map td_name POLICY_TEMPLATES"
proof -
  obtain r s' where run: "seed plain_auth ''$'' 0 (tx_open empty_db) = (r, s')"
    by (cases "seed plain_auth ''$'' 0 (tx_open empty_db)")
  have "pt_policies (sd_policies empty_db) = []" by (simp add: empty_db_def)
  then show ?thesis using seed_all_or_nothing [OF _ _ run] empty_db_ok run by simp
qed

section \<open>The first login\<close>

text \<open>
  After the script has run on an empty database its administrator can log in with the password of
  the script, and the access token has every permission an administrator has until it expires.
\<close>

theorem seeded_admin_logs_in:
  assumes "jwt_ok lib" and "0 < login_rate_limit st"
    and "al_hashpw lib salt ADMIN_PASSWORD = Inr h" and "al_checkpw lib ADMIN_PASSWORD h = Inr True"
    and "has_permission ''Admin'' perm" and "t \<le> mo_wall m + access_token_expire_minutes st * 60"
  shows "\<exists>s' a u. seed lib salt now (tx_open empty_db) = (Inr (), s') \<and>
    fst (login lib st m rq ''admin'' ADMIN_PASSWORD \<lparr>as_tables = sd_auth (tx_durable s'), as_buckets = []\<rparr>) = Inr a \<and>
    RequirePermission perm lib t (Some (lr_access a)) = Inr u \<and> cu_username u = JStr ''admin''"
proof -
  have sd: "seedable lib salt empty_db"
    using assms(3) by (simp add: seedable_def accounts_free_def empty_db_def)
  have cw: "catalog_wf (sd_identifiers empty_db)" using empty_db_ok(1) by (simp add: seed_wf_def)
  have "seed_tables lib salt now empty_db = Inr (seeded_db now h empty_db)"
    using seed_tables_eq [OF cw, of lib salt now] sd assms(3) by simp
  then have run: "seed lib salt now (tx_open empty_db) = (Inr (), tx_commit (tx_do (\<lambda>_. seeded_db now h empty_db) (tx_open empty_db)))"
    by (simp add: seed_def)
  let ?u = "admin_user 4 h 1"
  have auth: "sd_auth (seeded_db now h empty_db) =
      \<lparr>au_roles = new_roles 1, au_users = [?u], au_sessions = [], au_next = 5\<rparr>"
    by (simp add: seeded_db_def seeded_accounts_def empty_db_def)
  have role: "find (\<lambda>r. rl_id r = 1) (new_roles 1) = Some \<lparr>rl_id = 1, rl_name = ''Admin'',
      rl_description = Some ''Full access to all features and settings''\<rparr>"
    by (simp add: new_roles_def ROLES_def numeral_3_eq_3 upt_conv_Cons)
  let ?tok = "create_access_token lib st (mo_wall m) 4 ''admin'' ''Admin'' None"
  have "\<exists>a. fst (login lib st m rq ''admin'' ADMIN_PASSWORD \<lparr>as_tables = sd_auth (seeded_db now h empty_db), as_buckets = []\<rparr>) = Inr a \<and>
      lr_access a = ?tok"
    using assms(2,4) role unfolding auth
    by (simp add: login_def limiter_check_def prune_def dict_get_def get_user_by_username_def verify_password_def admin_user_def
        issue_tokens_def role_of_def create_session_def Let_def)
  moreover have "RequirePermission perm lib t (Some ?tok) = Inr \<lparr>cu_id = 4, cu_username = JStr ''admin'', cu_role = JStr ''Admin''\<rparr>"
    unfolding RequirePermission_Inr using access_token_accepted [OF assms(1,6)] assms(5) by simp
  ultimately show ?thesis using run by auto
qed

theorem seeded_admin_logs_in_witness:
  "\<exists>s' a u. seed plain_auth ''$'' 0 (tx_open empty_db) = (Inr (), s') \<and>
    fst (login plain_auth default_auth_settings \<lparr>mo_check = 0, mo_record = 0, mo_wall = 1000, mo_fresh = ''r'', mo_salt = ''$'', mo_secret = []\<rparr>
      \<lparr>rq_forwarded = None, rq_client = Some ''10.0.0.1''\<rparr> ''admin'' ADMIN_PASSWORD
      \<lparr>as_tables = sd_auth (tx_durable s'), as_buckets = []\<rparr>) = Inr a \<and>
    RequirePermission ''policies:write'' plain_auth 1600 (Some (lr_access a)) = Inr u \<and> cu_username u = JStr ''admin''"
  by (rule seeded_admin_logs_in [OF plain_auth_ok, where h = "''$'' @ ADMIN_PASSWORD"])
    (simp_all add: default_auth_settings_def plain_auth_def write_permissions)

section \<open>The identifiers\<close>

definition example_of :: "seed_identifier \<Rightarrow> string" where
  "example_of di = (case si_config di of Some c \<Rightarrow> default_or (sc_example c) [] | None \<Rightarrow> [])"

definition validator_of :: "seed_identifier \<Rightarrow> validator option" where
  "validator_of di = (case si_config di of Some c \<Rightarrow> Option.bind (sc_validator c) (map_of VALIDATORS) | None \<Rightarrow> None)"

text \<open>The phone number given as an example is one the validator rejects: its exchange begins with 1.\<close>

lemma examples_accepted:
  "map (\<lambda>di. case validator_of di of None \<Rightarrow> None | Some f \<Rightarrow> Some (f (example_of di))) DATA_IDENTIFIERS =
   map (\<lambda>n. Some (Inr (n \<noteq> ''US Phone Number''))) seed_names"
  by code_simp

lemma load_identifiers_ok:
  "\<forall>i \<in> set idents. \<forall>v. wants_validator i = Some v \<longrightarrow> map_of vals v \<noteq> None \<Longrightarrow>
   is_ok (load_identifiers lib vals idents) \<longleftrightarrow> (\<forall>i \<in> set idents. \<forall>p \<in> set (di_patterns i). re2_compile lib p = None)"
proof (induction idents)
  case (Cons i idents)
  have "is_ok (load_identifiers lib vals (i # idents)) \<longleftrightarrow>
      is_ok (compile_all lib (di_patterns i)) \<and> is_ok (load_identifiers lib vals idents)"
    using Cons.prems by (auto simp: is_ok_iff rbind_Inr_iff split: option.split)
  also have "is_ok (compile_all lib (di_patterns i)) \<longleftrightarrow> (\<forall>p \<in> set (di_patterns i). re2_compile lib p = None)"
    unfolding is_ok_iff compile_all_Inr by (auto simp: list_all_iff)
  finally show ?case using Cons by auto
qed simp

definition patterns_of :: "seed_identifier \<Rightarrow> string list" where
  "patterns_of di = (case si_config di of Some c \<Rightarrow> default_or (sc_patterns c) [] | None \<Rightarrow> [])"

text \<open>The identifiers a condition of a template names.\<close>

definition named_identifiers :: "template_def \<Rightarrow> json list" where
  "named_identifiers d =
     concat (map (\<lambda>(n, cs). map (\<lambda>c. default_or (map_of (sq_config c) ''identifier_name'') JNull)
       (filter (\<lambda>c. sq_type c = DATA_IDENTIFIER) cs)) (td_rules d))"

lemma named_are_seeded: "list_all (\<lambda>d. list_all (\<lambda>j. j \<in> JStr ` set seed_names) (named_identifiers d)) POLICY_TEMPLATES"
  unfolding seed_names_list by (simp add: POLICY_TEMPLATES_def template_defs named_identifiers_def default_or_def)

text \<open>
  C25: The seeded identifiers are usable as they are: the analyzer that reads their format is built
  exactly when RE2 accepts their patterns, every validator they name is registered and accepts their
  example, the one of phone numbers excepted, and the templates name none but them.
\<close>

theorem seeded_identifiers_usable:
  "(is_ok (from_seed_config lib name DATA_IDENTIFIERS targets) \<longleftrightarrow>
      (\<forall>di \<in> set DATA_IDENTIFIERS. \<forall>p \<in> set (patterns_of di). re2_compile lib p = None)) \<and>
    (\<forall>di \<in> set DATA_IDENTIFIERS. \<exists>f. validator_of di = Some f \<and>
      f (example_of di) = Inr (si_name di \<noteq> Some ''US Phone Number'')) \<and>
    (\<forall>d \<in> set POLICY_TEMPLATES. \<forall>j \<in> set (named_identifiers d). \<exists>di \<in> set DATA_IDENTIFIERS. j = JStr (default_or (si_name di) []))"
proof -
  have conf: "list_all (\<lambda>di. si_name di \<noteq> None \<and> validator_of di \<noteq> None) DATA_IDENTIFIERS"
    by (simp add: DATA_IDENTIFIERS_def seed_entry_def validator_of_def VALIDATORS_def)
  have entry: "\<exists>i. seed_to_config di = Inr i \<and> di_patterns i = patterns_of di \<and>
      (\<forall>v. wants_validator i = Some v \<longrightarrow> map_of (dict_update VALIDATORS []) v \<noteq> None)" if "di \<in> set DATA_IDENTIFIERS" for di
  proof -
    have "si_name di \<noteq> None" "validator_of di \<noteq> None" using conf that by (auto simp: list_all_iff)
    then show ?thesis
      by (auto simp: seed_to_config_def patterns_of_def validator_of_def default_or_def wants_validator_def dict_update_def
          split: option.splits if_splits)
  qed
  have "\<exists>is. map_res seed_to_config DATA_IDENTIFIERS = Inr is \<and>
      list_all2 (\<lambda>di i. di_patterns i = patterns_of di \<and>
        (\<forall>v. wants_validator i = Some v \<longrightarrow> map_of (dict_update VALIDATORS []) v \<noteq> None)) DATA_IDENTIFIERS is"
    by (rule map_res_total_rel) (rule entry)
  then obtain ids where ids: "map_res seed_to_config DATA_IDENTIFIERS = Inr ids"
    and rel: "list_all2 (\<lambda>di i. di_patterns i = patterns_of di \<and>
        (\<forall>v. wants_validator i = Some v \<longrightarrow> map_of (dict_update VALIDATORS []) v \<noteq> None)) DATA_IDENTIFIERS ids" by blast
  have "\<forall>i \<in> set ids. \<forall>v. wants_validator i = Some v \<longrightarrow> map_of (dict_update VALIDATORS []) v \<noteq> None"
    using rel by (auto simp: list_all2_conv_all_nth in_set_conv_nth)
  moreover have "(\<forall>i \<in> set ids. \<forall>p \<in> set (di_patterns i). re2_compile lib p = None) \<longleftrightarrow>
      (\<forall>di \<in> set DATA_IDENTIFIERS. \<forall>p \<in> set (patterns_of di). re2_compile lib p = None)"
    using rel unfolding list_all2_conv_all_nth all_set_conv_all_nth by auto
  ultimately have "is_ok (load_identifiers lib (dict_update VALIDATORS []) ids) \<longleftrightarrow>
      (\<forall>di \<in> set DATA_IDENTIFIERS. \<forall>p \<in> set (patterns_of di). re2_compile lib p = None)"
    using load_identifiers_ok by blast
  then have a: "is_ok (from_seed_config lib name DATA_IDENTIFIERS targets) \<longleftrightarrow>
      (\<forall>di \<in> set DATA_IDENTIFIERS. \<forall>p \<in> set (patterns_of di). re2_compile lib p = None)"
    by (cases "load_identifiers lib (dict_update VALIDATORS []) ids")
      (simp_all add: from_seed_config_def ids DataIdentifierAnalyzer_def Let_def)
  have b: "\<exists>f. validator_of di = Some f \<and> f (example_of di) = Inr (si_name di \<noteq> Some ''US Phone Number'')"
    if di: "di \<in> set DATA_IDENTIFIERS" for di
  proof -
    have "(case validator_of di of None \<Rightarrow> None | Some f \<Rightarrow> Some (f (example_of di))) =
        Some (Inr (default_or (si_name di) [] \<noteq> ''US Phone Number''))"
      using examples_accepted di unfolding seed_names_def map_map map_eq_conv comp_def by blast
    moreover have "si_name di \<noteq> None" using conf di by (auto simp: list_all_iff)
    ultimately show ?thesis by (auto simp: default_or_def split: option.splits)
  qed
  have c: "\<exists>di \<in> set DATA_IDENTIFIERS. j = JStr (default_or (si_name di) [])"
    if "d \<in> set POLICY_TEMPLATES" "j \<in> set (named_identifiers d)" for d j
  proof -
    have "j \<in> JStr ` set seed_names" using named_are_seeded that by (auto simp: list_all_iff)
    then obtain di where "di \<in> set DATA_IDENTIFIERS" "j = JStr (default_or (si_name di) [])"
      by (auto simp: seed_names_def)
    then show ?thesis by blast
  qed
  show ?thesis using a b c by blast
qed

definition lenient_re2 :: re2_lib where
  "lenient_re2 = literal_re2\<lparr>re2_compile := (\<lambda>p. None)\<rparr>"

theorem seeded_identifiers_usable_witness:
  "is_ok (from_seed_config lenient_re2 ''seeds'' DATA_IDENTIFIERS None) \<and>
   (\<exists>f. validator_of (hd DATA_IDENTIFIERS) = Some f \<and> f ''4532015112830366'' = Inr True)"
proof -
  have hd_in: "hd DATA_IDENTIFIERS \<in> set DATA_IDENTIFIERS" by (simp add: DATA_IDENTIFIERS_def)
  have hd_eq: "example_of (hd DATA_IDENTIFIERS) = ''4532015112830366''" "si_name (hd DATA_IDENTIFIERS) \<noteq> Some ''US Phone Number''"
    by (simp_all add: DATA_IDENTIFIERS_def seed_entry_def example_of_def default_or_def)
  have "\<forall>di \<in> set DATA_IDENTIFIERS. \<forall>p \<in> set (patterns_of di). re2_compile lenient_re2 p = None"
    by (simp add: lenient_re2_def)
  then have "is_ok (from_seed_config lenient_re2 ''seeds'' DATA_IDENTIFIERS None)"
    by (rule seeded_identifiers_usable [THEN conjunct1, THEN iffD2])
  moreover obtain f where "validator_of (hd DATA_IDENTIFIERS) = Some f"
      "f (example_of (hd DATA_IDENTIFIERS)) = Inr (si_name (hd DATA_IDENTIFIERS) \<noteq> Some ''US Phone Number'')"
    using seeded_identifiers_usable [THEN conjunct2, THEN conjunct1, THEN bspec, OF hd_in] by blast
  ultimately show ?thesis unfolding hd_eq(1) using hd_eq(2) by simp
qed

text \<open>
  What the descriptions promise and the rows do not: the two matches of the financial keywords stand in the
  configuration while the condition asks for one, and a remediator has neither the analyst's
  permissions nor one to change a policy.
\<close>

lemma financial_keywords_need_one:
  "\<exists>c. map condition_of (concat (map snd (td_rules sox_template))) = [c] \<and> cd_min c = 1 \<and>
     map_of (cd_config c) ''min_matches'' = Some (JInt 2)"
  by (simp add: sox_template_def condition_of_def default_or_def)

lemma remediator_is_no_analyst:
  "has_permission ''Analyst'' ''policies:read''" "\<not> has_permission ''Remediator'' ''policies:read''"
  "\<not> has_permission ''Remediator'' ''policies:write''"
  by (simp_all add: has_permission_def ROLE_PERMISSIONS_def dict_get_def)

end
