(* ===== verification/Spec2Isabelle.thy ===== *)
theory Spec2Isabelle
  imports Engine Validators RegexAnalyzer DataIdentifier KeywordAnalyzer FileType Fingerprint
    PolicyEvaluator FileInspector ArchiveInspector ContentNormalizer HttpChannel SmtpChannel RateLimiter CommandQueue
    DeadLetter Incidents Reports ReportExport GrpcServer SyslogExporter AccessControl DetectionApi
    IncidentQueries Maintenance Notifications ReportsApi Shutdown Catalogs FingerprintApi NetworkSettings
    Search DeadLetterApi AuditLog Seed
begin

text \<open>
  A verification library for the server and the network monitors of a data loss prevention system
  (\<open>src/server\<close> and \<open>src/network\<close>).

  \<^bold>\<open>The program.\<close> Content enters as a text, a file, a web request or a mail. The channel turns it
  into a message of components (envelope, subject, body, attachments); the file and archive inspectors
  extract more components from attachments; the detection engine runs its analyzers (regular
  expressions, data identifiers with validators, keywords, file types, fingerprints) over the message
  and collects their matches and errors; the policy evaluator turns the matches into violations; a
  monitor logs them, a preventing channel blocks. The endpoint agents talk to the gRPC service: they
  register, send heartbeats and drain their command queue, fetch policies, report incidents and scan
  results, and follow the policy event bus. Administrators use the REST endpoints: accounts and
  sessions, policies and response rules, incidents, scans, agents, reports. Incidents leave for a SIEM,
  a syslog server or a CSV file.

  \<^bold>\<open>Conventions.\<close>
  \<^item> A Python text is a HOL string, so texts are over the code points 0 to 255; the string methods the
    sources call are defined on them (\<open>PyText\<close>). An em dash in a message is written as a hyphen.
  \<^item> A number of type \<open>float\<close> is a rational (\<open>rat\<close>); an \<open>int\<close> is an \<open>int\<close> or, where the code only counts, a
    \<open>nat\<close>. Times are seconds or texts, as the code compares them. The only machine integers are bytes and the
    64 bits of a simhash fingerprint, words of \<open>HOL-Library.Word\<close>.
  \<^item> Code that may raise returns \<open>exn + 'a\<close>: \<open>Inl\<close> with the exception, \<open>Inr\<close> with the result
    (\<open>PyBase.res\<close>); an endpoint returns \<open>http_error\<close> with the status and the detail. A handler with
    state returns the state too, also when it fails, because a Python method keeps what it did before
    it raised.
  \<^item> A dictionary that is iterated is an association list in insertion order. A table is the list of
    its rows; a transaction holds the tables as it sees them and the tables that are durable
    (\<open>Tables.tx\<close>), a commit copies one to the other, a failed request closes the session without.
    A UUID is a number whose text is its decimal text; fresh ids are arguments or a counter.
  \<^item> A library the sources call is a parameter: a record of functions (\<open>lib\<close>), with what a theorem needs
    of it as a named hypothesis that a witness discharges for a concrete instance. RE2, libmagic, the
    Aho-Corasick library, the format readers, chardet, bcrypt, the JWT and TOTP libraries, Redis, sockets
    and the HTTP client are such.
  \<^item> A call is one step. The locks of the code make its methods atomic, so they are not modelled; where
    two awaits of one handler can be interleaved with another request, the model splits the handler
    there (\<open>AgentService.register_agent\<close>, \<open>Accounts.rotate_session\<close>, \<open>PolicyEvents\<close>).

  \<^bold>\<open>Foundations.\<close> \<open>PyBase\<close>: exceptions, the result type, loops over code that raises, dictionaries,
  the collections of automation. \<open>PyText\<close>: string methods and decimal texts. \<open>Json\<close>: JSON values and their
  text. \<open>Tables\<close>: transactions, queries, patterns, pages.

  \<^bold>\<open>Detection\<close> (\<open>server/detection\<close>).
  \<^item> \<open>Models\<close>: \<open>models.py\<close>. \<open>Engine\<close>: the analyzer interface and \<open>engine.py\<close>; detection always returns, and
    an analyzer that raises loses only its own matches. The locale \<open>named_registry\<close> is the contract
    of a list of named entries and \<open>analyzer_contract\<close> that of an analyzer; the analyzers interpret it.
  \<^item> \<open>Validators\<close>: \<open>validators.py\<close>; check digits reject every single-digit error. \<open>RegexAnalyzer\<close>,
    \<open>DataIdentifier\<close>, \<open>KeywordAnalyzer\<close>, \<open>FileType\<close>, \<open>Fingerprint\<close>: the analyzers; each reports exactly what
    its specification says, with offsets that delimit the matched text.
  \<^item> \<open>PolicyEvaluator\<close>: \<open>policy_evaluator.py\<close>, equal to a specification by rules, groups and exceptions.
  \<^item> \<open>FileInspector\<close>, \<open>ArchiveInspector\<close>: \<open>file_inspector.py\<close>, \<open>archive_inspector.py\<close>; path safety, limits
    on size, number and nesting.
  \<^item> \<open>DetectionApi\<close>: \<open>api/detection.py\<close> on top of these.

  \<^bold>\<open>Channels\<close> (\<open>network\<close>). \<open>ContentNormalizer\<close>: repeated decoding. \<open>IncidentLog\<close>: the contract of a monitor
  as two locales. \<open>HttpChannel\<close>, \<open>SmtpChannel\<close>: inspection, monitor and prevent mode of the proxy addon
  and the mail relay.

  \<^bold>\<open>Agents.\<close> \<open>RateLimiter\<close>: \<open>grpc_rate_limiter.py\<close>. \<open>CommandQueue\<close>: \<open>command_queue.py\<close>, refined to an abstract
  queue per agent. \<open>AgentService\<close>: registry, heartbeats and groups. \<open>Discover\<close>: scans. \<open>PolicyEvents\<close>: the
  event bus with the Redis bridge as a system of steps; a stream misses nothing. \<open>GrpcServer\<close>: every
  handler of the servicer in \<open>grpc_server.py\<close>.

  \<^bold>\<open>Administration.\<close> \<open>Auth\<close>: \<open>auth_service.py\<close>, \<open>mfa_service.py\<close>, \<open>dependencies.py\<close>: tokens, permissions, the
  login rate limit. \<open>Accounts\<close>: the endpoints of \<open>api/auth.py\<close> and \<open>api/users.py\<close> as one state machine of
  requests with invariants. \<open>PolicyService\<close>, \<open>PolicyApi\<close>: policies, templates, response rules, their audit
  trail and version. \<open>AccessControl\<close>: the policy endpoints behind their permission. \<open>Incidents\<close>: incident
  fields, history, notes, audit and smart responses. \<open>DeadLetter\<close>: failed operations and their retries.

  \<^bold>\<open>Export.\<close> \<open>Reports\<close>: \<open>report_generator.py\<close> and \<open>risk_calculator.py\<close>. \<open>ReportExport\<close>: the CSV files, which
  read back. \<open>SiemEmitter\<close>, \<open>SyslogExporter\<close>: events and CEF messages, with no injection through a field.

  \<^bold>\<open>Administration of the server.\<close> \<open>IncidentQueries\<close>: the listing and reading of incidents; its pages
  together are the incidents that meet the query. \<open>ReportsApi\<close>: \<open>api/reports.py\<close> on top of these queries
  and \<open>Reports\<close>. \<open>Search\<close>: \<open>api/search.py\<close>. \<open>Notifications\<close>: what a user sees does not depend on others'
  requests. \<open>Catalogs\<close>: the dictionaries and identifiers of \<open>api/dictionaries.py\<close> and
  \<open>api/identifiers.py\<close>, both refined to a finite map through the locale \<open>catalog_service\<close>.
  \<open>FingerprintApi\<close>: documents to recognise; an uploaded one is found by the analyzer, also after a
  restart. \<open>NetworkSettings\<close>: a settings file that reads back. \<open>DeadLetterApi\<close>: the endpoints of the dead
  letter queue. \<open>Maintenance\<close>: \<open>db_maintenance.py\<close>: partitions by month and the archive. \<open>Shutdown\<close>: the
  coordinator of \<open>shutdown.py\<close>, and the start and end of the server in \<open>main.py\<close> and \<open>config.py\<close>. \<open>AuditLog\<close>:
  \<open>api/system.py\<close>. \<open>SeedData\<close>, \<open>Seed\<close>: \<open>scripts/seed.py\<close>, its constants and the script as one transaction, with
  the login of the administrator it creates and the analyzer of the identifiers it stores.

  \<^bold>\<open>Bounds and fuel.\<close> The recursion into mail attachments carries the depth of the interpreter's stack:
  when it is used up the code raises, as Python does, so the fuel is the program's own bound and not one
  of the model. Archives recurse to the nesting limit of the configuration; the normalizer
  runs the passes of its own configuration; the other loops are structural or have a measure. Functions
  are total, so each returns; where the code may not finish its work (a stream, a retry), this is a
  theorem over sequences of steps.

  \<^bold>\<open>Not modelled.\<close> Starting servers, reading configuration and TLS files, and logging: input and output
  only. The PDF reports and the HTML block page: layout by a library. The pydantic schemas: types and
  bounds of request fields, which the models of the endpoints have as the types of their arguments.
  The generated protocol modules. The scripts that draw random demonstration data. Metrics: counters of a library. The
  byte order mark that a CSV export begins with. The C++ agent and the console are other programs.
\<close>

section \<open>The two detection services\<close>






end
